(* ===== verification/NicPrelude.thy ===== *)
theory NicPrelude
  imports "HOL-Library.Word" "HOL-Library.Monad_Syntax"
begin

unbundle bit_operations_syntax

text \<open>
  Shared vocabulary of the development: names for the machine integers of the
  firmware, the bit fields of the C structures (\<open>bf_get\<close>, \<open>bf_put\<close>) with their
  read-after-write laws, the flag test \<open>x & f\<close> of C used as a condition, and the
  generic facts on words, lists and the option monad that the component
  theories rely on.  The micro-engine compiler allocates bit fields from the
  most significant bit, so a field is given by its lowest bit and its width.
\<close>

section \<open>Machine integers\<close>

type_synonym u8  = "8 word"
type_synonym u16 = "16 word"
type_synonym u32 = "32 word"
type_synonym u64 = "64 word"

named_theorems cdef \<open>unfolding equations of the modelled C macros and helpers\<close>
named_theorems bf_law \<open>read-after-write laws of bit fields\<close>

text \<open>A C expression used as a condition: it holds iff it is not zero.\<close>

definition c_true :: "'a::len word \<Rightarrow> bool" where
  "c_true x \<longleftrightarrow> x \<noteq> 0"

definition c_bool :: "bool \<Rightarrow> 'a::len word" where
  "c_bool b = (if b then 1 else 0)"

lemma c_true_bool [simp]: "c_true (c_bool b :: 'a::len word) = b"
  by (simp add: c_true_def c_bool_def)

lemma c_true_0 [simp]: "\<not> c_true 0"
  by (simp add: c_true_def)

lemma c_true_1 [simp]: "c_true 1"
  by (simp add: c_true_def)

lemma c_true_or [simp]: "c_true (x OR y) \<longleftrightarrow> c_true x \<or> c_true y"
  for x y :: "'a::len word"
  by (auto simp: c_true_def bit_eq_iff bit_or_iff)

lemma c_true_bit: "c_true x \<longleftrightarrow> (\<exists>n. bit x n)"
  by (auto simp: c_true_def bit_eq_iff intro: bit_imp_le_length)

lemma c_true_and_pow2:
  "c_true (x AND push_bit n 1) \<longleftrightarrow> bit x n" for x :: "'a::len word"
  by (auto simp: c_true_bit bit_and_iff bit_exp_iff possible_bit_def dest: bit_imp_le_length)

section \<open>Bit fields\<close>

definition bf_get :: "nat \<Rightarrow> nat \<Rightarrow> 'a::len word \<Rightarrow> 'a word" where
  "bf_get lo w x = take_bit w (drop_bit lo x)"

definition bf_put :: "nat \<Rightarrow> nat \<Rightarrow> 'a::len word \<Rightarrow> 'a word \<Rightarrow> 'a word" where
  "bf_put lo w v x = (x AND NOT (push_bit lo (mask w))) OR push_bit lo (take_bit w v)"

lemma bit_bf_get:
  "bit (bf_get lo w x) n \<longleftrightarrow> n < w \<and> bit x (lo + n)"
  by (simp add: bf_get_def bit_take_bit_iff bit_drop_bit_eq)

lemma bit_bf_put:
  "bit (bf_put lo w v x) n \<longleftrightarrow>
     n < LENGTH('a) \<and> (if lo \<le> n \<and> n < lo + w then bit v (n - lo) else bit x n)"
  for x :: "'a::len word"
  by (auto simp: bf_put_def bit_or_iff bit_and_iff bit_not_iff bit_push_bit_iff
      bit_take_bit_iff bit_mask_iff dest: bit_imp_le_length)

lemma bf_get_put_same [bf_law]:
  "lo + w \<le> LENGTH('a) \<Longrightarrow> bf_get lo w (bf_put lo w v x) = take_bit w v"
  for x :: "'a::len word"
  by (rule bit_word_eqI) (auto simp: bit_bf_get bit_bf_put bit_take_bit_iff)

lemma bf_get_put_other [bf_law]:
  "lo + w \<le> lo' \<or> lo' + w' \<le> lo \<Longrightarrow> bf_get lo' w' (bf_put lo w v x) = bf_get lo' w' x"
  for x :: "'a::len word"
  by (rule bit_word_eqI) (auto simp: bit_bf_get bit_bf_put dest: bit_imp_le_length)

lemma bf_put_get_id:
  "bf_put lo w (bf_get lo w x) x = x" for x :: "'a::len word"
  by (rule bit_word_eqI) (auto simp: bit_bf_get bit_bf_put)

lemma bf_put_put_same [bf_law]:
  "bf_put lo w v (bf_put lo w v' x) = bf_put lo w v x" for x :: "'a::len word"
  by (rule bit_word_eqI) (auto simp: bit_bf_put)

lemma unat_pow2: "n < LENGTH('a) \<Longrightarrow> unat (2 ^ n :: 'a::len word) = 2 ^ n"
  using unsigned_push_bit_eq [of n "1 :: 'a word", where ?'a = nat] by (simp add: take_bit_eq_mod)

lemma bf_get_less:
  "w < LENGTH('a) \<Longrightarrow> bf_get lo w x < 2 ^ w" for x :: "'a::len word"
  by (simp add: bf_get_def word_less_nat_alt unsigned_take_bit_eq unat_pow2)

lemma bf_get_zero [simp]: "bf_get lo w 0 = 0"
  by (simp add: bf_get_def)

lemma take_bit_id:
  "unat v < 2 ^ w \<Longrightarrow> take_bit w v = v" for v :: "'a::len word"
  by (rule word_unat_eq_iff [THEN iffD2]) (simp add: unsigned_take_bit_eq take_bit_nat_eq_self)

section \<open>Functions as C arrays\<close>

text \<open>
  A C array whose extent plays no role is a function from indices; one write is
  a function update.  \<open>array_fill\<close> is the effect of a loop that writes an
  interval of indices.
\<close>

definition array_fill :: "(nat \<Rightarrow> 'a) \<Rightarrow> nat \<Rightarrow> 'a list \<Rightarrow> (nat \<Rightarrow> 'a)" where
  "array_fill f i xs = (\<lambda>n. if i \<le> n \<and> n < i + length xs then xs ! (n - i) else f n)"

lemma array_fill_nil [simp]: "array_fill f i [] = f"
  by (rule ext) (auto simp: array_fill_def)

lemma array_fill_cons:
  "array_fill f i (x # xs) = array_fill (f(i := x)) (Suc i) xs"
  by (rule ext) (auto simp: array_fill_def nth_Cons')

lemma array_fill_snoc:
  "array_fill f i (xs @ [x]) = (array_fill f i xs)(i + length xs := x)"
  by (rule ext) (auto simp: array_fill_def nth_append)

section \<open>Intervals\<close>

lemma upt_split: "i \<le> j \<Longrightarrow> j \<le> k \<Longrightarrow> [i..<k] = [i..<j] @ [j..<k]"
  by (metis le_Suc_ex upt_add_eq_append)

lemma upt_shift: "[n + i..<n + j] = map ((+) n) [i..<j]"
  by (induction j) simp_all

section \<open>The option monad\<close>

lemma bind_SomeE:
  assumes "Option.bind m f = Some y"
  obtains x where "m = Some x" "f x = Some y"
  using assms by (cases m) auto

lemma bind_eq_Some: "Option.bind m f = Some y \<longleftrightarrow> (\<exists>x. m = Some x \<and> f x = Some y)"
  by (cases m) auto

section \<open>Word facts\<close>

lemma unat_mask_and:
  "unat (x AND mask n) = unat x mod 2 ^ n" for x :: "'a::len word"
  using unsigned_take_bit_eq [of n x, where ?'a = nat]
  by (simp add: take_bit_eq_mask [symmetric] take_bit_eq_mod)

lemma word_shift_split:
  "push_bit n (drop_bit n x) OR take_bit n x = x" for x :: "'a::len word"
  by (rule bit_word_eqI) (auto simp: bit_or_iff bit_push_bit_iff bit_drop_bit_eq bit_take_bit_iff)

end
