(* ===== verification/BitStore.thy ===== *)
theory BitStore
  imports NicPrelude
begin

unbundle bit_operations_syntax

text \<open>
  Bit arrays packed in 32-bit words, as the firmware keeps them in several
  places: index \<open>v\<close> is bit \<open>v & 31\<close> of word \<open>v >> 5\<close>.  The locale \<open>bit_store\<close> is the
  contract of such an array, a set of indices with set, clear and test; it is
  interpreted by the link-state arrays and by the bucket locks.
\<close>

section \<open>The contract of a bit store\<close>

locale bit_store =
  fixes rd :: "'s \<Rightarrow> 'k \<Rightarrow> bool"
    and st :: "'s \<Rightarrow> 'k \<Rightarrow> 's"
    and cl :: "'s \<Rightarrow> 'k \<Rightarrow> 's"
  assumes rd_st: "rd (st s k) k' \<longleftrightarrow> k' = k \<or> rd s k'"
    and rd_cl: "rd (cl s k) k' \<longleftrightarrow> k' \<noteq> k \<and> rd s k'"
begin

definition put :: "'s \<Rightarrow> 'k \<Rightarrow> bool \<Rightarrow> 's" where
  "put s k b = (if b then st s k else cl s k)"

lemma rd_put: "rd (put s k b) k' \<longleftrightarrow> (if k' = k then b else rd s k')"
  by (auto simp: put_def rd_st rd_cl)

lemma rd_st_all: "rd (foldl st s ks) k' \<longleftrightarrow> k' \<in> set ks \<or> rd s k'"
  by (induction ks arbitrary: s) (auto simp: rd_st)

lemma rd_cl_all: "rd (foldl cl s ks) k' \<longleftrightarrow> k' \<notin> set ks \<and> rd s k'"
  by (induction ks arbitrary: s) (auto simp: rd_cl)

lemma rd_st_if_all:
  "rd (foldl (\<lambda>s k. if P k then st s k else s) s ks) k' \<longleftrightarrow>
     (k' \<in> set ks \<and> P k') \<or> rd s k'"
  by (induction ks arbitrary: s) (auto simp: rd_st)

lemma rd_cl_after_st: "\<not> rd (cl (st s k) k) k"
  by (simp add: rd_cl)

end

section \<open>Positions in packed words\<close>

lemma word_and_31: "x AND 0x1f = take_bit 5 x" for x :: u32
  by (simp add: take_bit_eq_mask mask_eq_exp_minus_1)

lemma word_bit_less: "unat (v AND 0x1f :: u32) < 32"
  unfolding word_and_31 unsigned_take_bit_eq
  using take_bit_nat_less_exp [of 5 "unat v"] by simp

lemma word_bit_pos_inject:
  fixes v v' :: u32
  assumes "unat (drop_bit 5 v) = unat (drop_bit 5 v')"
    and "unat (v AND 0x1f) = unat (v' AND 0x1f)"
  shows "v = v'"
proof -
  have "drop_bit 5 v = drop_bit 5 v'" "take_bit 5 v = take_bit 5 v'"
    using assms unfolding word_and_31 word_unat_eq_iff by simp_all
  then show "v = v'" using word_shift_split [of 5 v] word_shift_split [of 5 v'] by metis
qed

text \<open>Reading a packed bit after setting or clearing one.\<close>

definition pk_bit :: "(nat \<Rightarrow> u32) \<Rightarrow> u32 \<Rightarrow> bool" where
  "pk_bit f v \<longleftrightarrow> bit (f (unat (drop_bit 5 v))) (unat (v AND 0x1f))"

definition pk_set :: "(nat \<Rightarrow> u32) \<Rightarrow> u32 \<Rightarrow> (nat \<Rightarrow> u32)" where
  "pk_set f v = f(unat (drop_bit 5 v) := f (unat (drop_bit 5 v)) OR push_bit (unat (v AND 0x1f)) 1)"

definition pk_clear :: "(nat \<Rightarrow> u32) \<Rightarrow> u32 \<Rightarrow> (nat \<Rightarrow> u32)" where
  "pk_clear f v =
     f(unat (drop_bit 5 v) := f (unat (drop_bit 5 v)) AND NOT (push_bit (unat (v AND 0x1f)) 1))"

lemma bit_pk_mask: "bit (push_bit (unat (v AND 0x1f)) 1 :: u32) n \<longleftrightarrow> n = unat (v AND 0x1f)"
  for v :: u32
  using word_bit_less [of v] by (auto simp: bit_exp_iff possible_bit_def)

interpretation pk: bit_store pk_bit pk_set pk_clear
proof unfold_locales
  fix s and k k' :: u32
  have p: "possible_bit TYPE(u32) (unat (k' AND 0x1f))"
    using word_bit_less [of k'] by (simp add: possible_bit_def)
  note inj = word_bit_pos_inject [of k' k]
  show "pk_bit (pk_set s k) k' \<longleftrightarrow> k' = k \<or> pk_bit s k'"
  proof (cases "unat (drop_bit 5 k') = unat (drop_bit 5 k)")
    case True
    then show ?thesis using inj unfolding pk_bit_def pk_set_def True fun_upd_same bit_or_iff bit_pk_mask
      by blast
  next
    case False
    then show ?thesis unfolding pk_bit_def pk_set_def fun_upd_other [OF False] by blast
  qed
  show "pk_bit (pk_clear s k) k' \<longleftrightarrow> k' \<noteq> k \<and> pk_bit s k'"
  proof (cases "unat (drop_bit 5 k') = unat (drop_bit 5 k)")
    case True
    then show ?thesis using inj p
      unfolding pk_bit_def pk_clear_def True fun_upd_same bit_and_iff bit_not_iff bit_pk_mask by blast
  next
    case False
    then show ?thesis unfolding pk_bit_def pk_clear_def fun_upd_other [OF False] by blast
  qed
qed

end
