(* ===== verification/KvTable.thy ===== *)
theory KvTable
  imports NicPrelude
begin

text \<open>
  The contract of the bounded lookup tables of the firmware: a table has a
  content (a partial map), an insertion that may find no room and a removal.
  The insertion replaces the value of a key that is present only if the
  implementation says so; the contract asks for the behaviour on absent keys
  and for removals.  Client lemmas are proved once here: an insertion followed
  by a removal is the identity on the content, and a sequence of operations
  behaves like the same sequence on the abstract map.
\<close>

datatype ('k, 'v) kv_op = Ins 'k 'v | Del 'k

fun kv_spec :: "('k, 'v) kv_op \<Rightarrow> ('k \<Rightarrow> 'v option) \<Rightarrow> ('k \<Rightarrow> 'v option)" where
  "kv_spec (Ins k v) m = m(k \<mapsto> v)"
| "kv_spec (Del k) m = m(k := None)"

locale kv_table =
  fixes inv :: "'t \<Rightarrow> bool"
    and get :: "'t \<Rightarrow> 'k \<Rightarrow> 'v option"
    and ins :: "'k \<Rightarrow> 'v \<Rightarrow> 't \<Rightarrow> 't option"
    and del :: "'k \<Rightarrow> 't \<Rightarrow> 't"
  assumes ins_get: "inv t \<Longrightarrow> get t k = None \<Longrightarrow> ins k v t = Some t' \<Longrightarrow> get t' = (get t)(k \<mapsto> v)"
    and ins_inv: "inv t \<Longrightarrow> get t k = None \<Longrightarrow> ins k v t = Some t' \<Longrightarrow> inv t'"
    and del_get: "inv t \<Longrightarrow> get (del k t) = (get t)(k := None)"
    and del_inv: "inv t \<Longrightarrow> inv (del k t)"
begin

lemma ins_del_id:
  assumes "inv t" "get t k = None" "ins k v t = Some t'"
  shows "get (del k t') = get t"
proof -
  have "get (del k t') = ((get t)(k \<mapsto> v))(k := None)"
    using del_get [OF ins_inv [OF assms]] ins_get [OF assms] by simp
  also have "\<dots> = get t" using assms(2) by (simp add: fun_upd_idem)
  finally show ?thesis .
qed

lemma del_idem: "inv t \<Longrightarrow> get (del k (del k t)) = get (del k t)"
  by (simp add: del_get del_inv)

text \<open>An operation is admissible when it does not insert a present key; the
  run stops at the first insertion that finds no room.\<close>

fun run :: "('k, 'v) kv_op list \<Rightarrow> 't \<Rightarrow> 't option" where
  "run [] t = Some t"
| "run (Ins k v # ops) t = (if get t k = None then Option.bind (ins k v t) (run ops) else None)"
| "run (Del k # ops) t = run ops (del k t)"

lemma run_refines:
  "inv t \<Longrightarrow> run ops t = Some t' \<Longrightarrow> inv t' \<and> get t' = fold kv_spec ops (get t)"
proof (induction ops t rule: run.induct)
  case (1 t)
  then show ?case by simp
next
  case (2 k v ops t)
  from "2.prems"(2) obtain t1 where absent: "get t k = None"
    and t1: "ins k v t = Some t1" and run: "run ops t1 = Some t'"
    by (auto simp: bind_eq_Some split: if_splits)
  have "inv t1" "get t1 = (get t)(k \<mapsto> v)"
    using ins_inv [OF "2.prems"(1) absent t1] ins_get [OF "2.prems"(1) absent t1] by simp_all
  then show ?case using "2.IH" [OF absent t1 \<open>inv t1\<close> run] by (simp del: fun_upd_apply)
next
  case (3 k ops t)
  then show ?case using del_get [OF "3.prems"(1)] del_inv [OF "3.prems"(1)]
    by (simp del: fun_upd_apply)
qed

end

text \<open>Tables whose insertion also replaces the value of a present key.\<close>

locale kv_overwrite = kv_table +
  assumes ins_over: "inv t \<Longrightarrow> ins k v t = Some t' \<Longrightarrow> get t' = (get t)(k \<mapsto> v) \<and> inv t'"
begin

lemma ins_ins:
  assumes "inv t" "ins k v t = Some t1" "ins k w t1 = Some t2"
  shows "get t2 = (get t)(k \<mapsto> w)"
  using ins_over [OF assms(1,2)] ins_over [of t1 k w t2] assms(3) by simp

lemma ins_then_del:
  assumes "inv t" "ins k v t = Some t1"
  shows "get (del k t1) = (get t)(k := None)"
  using ins_over [OF assms] del_get [of t1 k] by simp

end

end
