(* ===== verification/MacLkup.thy ===== *)
theory MacLkup
  imports BitStore KvTable
begin

unbundle bit_operations_syntax

text \<open>
  \<open>firmware/apps/nic/app_mac_lkup.c\<close>: the MAC lookup table read by the CAMR
  engine.  The table is an array of 64-byte buckets with six entries each:
  three data lines hold two keys and the result of the first one, the fourth
  holds the results of the second ones (entry 3's in two halves).  The code
  spells the search out entry by entry with \<open>goto\<close>; the model has one definition
  per label.  Bit 30 of a result marks the entry used.

  The bucket layout and the index and shift macros come from \<open>nfp/mem_lkup.h\<close>,
  which is not part of the repository: the fields are those the code names, and
  the two macros are the fields of \<open>mem_lkup_env\<close>.  Buckets are protected by a
  test-and-set bit each; the step relation \<open>lk_step\<close> interleaves the threads
  that add and delete, and every interleaving is shown to be a sequential
  history.
\<close>

section \<open>Data\<close>

definition MAC_LKUP_USED :: u32 where
  "MAC_LKUP_USED = push_bit 30 1"

definition MAC_LKUP_NUM_BUCKETS :: nat where
  "MAC_LKUP_NUM_BUCKETS = push_bit 10 1"

record dataline1_3 =
  lookup_key_lower0 :: u16
  lookup_key_middle0 :: u16
  lookup_key_upper0 :: u16
  result0 :: u32
  lookup_key_lower1 :: u16
  lookup_key_middle1 :: u16
  lookup_key_upper1 :: u16

record dataline4 =
  result1 :: u32
  result3_lower :: u16
  result3_upper :: u16
  result5 :: u32

record bucket =
  dl1 :: dataline1_3
  dl2 :: dataline1_3
  dl3 :: dataline1_3
  dl4 :: dataline4

text \<open>\<open>MEM_LKUP_CAM_64B_NUM_ENTRIES(sizeof(mac_lkup_tbl))\<close> and
  \<open>MEM_LKUP_CAM_64B_KEY_OFFSET(0, sizeof(mac_lkup_tbl))\<close>.\<close>

record mem_lkup_env =
  num_entries :: u32
  key_offset :: nat

text \<open>The union \<open>struct mac_addr\<close>: \<open>mac_word[1]\<close> is the low word of \<open>mac_dword\<close>.\<close>

type_synonym mac_addr = u64

definition mac_word1 :: "mac_addr \<Rightarrow> u32" where
  "mac_word1 mac = ucast mac"

type_synonym lkey = "u16 \<times> u16 \<times> u16"

definition lkup_index :: "mem_lkup_env \<Rightarrow> mac_addr \<Rightarrow> u32" where
  "lkup_index e mac = mac_word1 mac AND (num_entries e - 1)"

definition lkup_key :: "mem_lkup_env \<Rightarrow> mac_addr \<Rightarrow> lkey" where
  "lkup_key e mac =
    (let mac_lkup_key = drop_bit (key_offset e) mac in
     (ucast (mac_lkup_key AND 0xffff),
      ucast (drop_bit 16 mac_lkup_key AND 0xffff),
      ucast (drop_bit 32 mac_lkup_key AND 0xffff)))"

definition key0_differs :: "dataline1_3 \<Rightarrow> lkey \<Rightarrow> bool" where
  "key0_differs d k = (case k of (key_lower, key_middle, key_upper) \<Rightarrow>
     lookup_key_lower0 d \<noteq> key_lower \<or> lookup_key_middle0 d \<noteq> key_middle
       \<or> lookup_key_upper0 d \<noteq> key_upper)"

definition key1_differs :: "dataline1_3 \<Rightarrow> lkey \<Rightarrow> bool" where
  "key1_differs d k = (case k of (key_lower, key_middle, key_upper) \<Rightarrow>
     lookup_key_lower1 d \<noteq> key_lower \<or> lookup_key_middle1 d \<noteq> key_middle
       \<or> lookup_key_upper1 d \<noteq> key_upper)"

definition set_key0 :: "lkey \<Rightarrow> dataline1_3 \<Rightarrow> dataline1_3" where
  "set_key0 k d = (case k of (key_lower, key_middle, key_upper) \<Rightarrow>
     d\<lparr>lookup_key_lower0 := key_lower, lookup_key_middle0 := key_middle,
       lookup_key_upper0 := key_upper\<rparr>)"

definition set_key1 :: "lkey \<Rightarrow> dataline1_3 \<Rightarrow> dataline1_3" where
  "set_key1 k d = (case k of (key_lower, key_middle, key_upper) \<Rightarrow>
     d\<lparr>lookup_key_lower1 := key_lower, lookup_key_middle1 := key_middle,
       lookup_key_upper1 := key_upper\<rparr>)"

section \<open>Adding an entry to a bucket\<close>

definition used_result :: "u32 \<Rightarrow> u32" where
  "used_result result = (result AND 0x3fffffff) OR MAC_LKUP_USED"

text \<open>Each label returns the bucket as written back and the return code.  The
  registers \<open>dataline_1_3\<close> and \<open>dataline4\<close> are the last lines read.\<close>

definition add_try5 :: "lkey \<Rightarrow> u32 \<Rightarrow> dataline1_3 \<Rightarrow> dataline4 \<Rightarrow> bucket \<Rightarrow> bucket \<times> u8" where
  "add_try5 k result dataline_1_3 dataline4 b =
    (if c_true (result5 dataline4 AND MAC_LKUP_USED) \<and> key1_differs dataline_1_3 k
     then (b, 1)
     else (b\<lparr>dl3 := set_key1 k dataline_1_3,
             dl4 := dataline4\<lparr>result5 := used_result result\<rparr>\<rparr>, 0))"

definition add_try4 :: "lkey \<Rightarrow> u32 \<Rightarrow> dataline4 \<Rightarrow> bucket \<Rightarrow> bucket \<times> u8" where
  "add_try4 k result dataline4 b =
    (let dataline_1_3 = dl3 b in
     if c_true (result0 dataline_1_3 AND MAC_LKUP_USED) \<and> key0_differs dataline_1_3 k
     then add_try5 k result dataline_1_3 dataline4 b
     else (b\<lparr>dl3 := (set_key0 k dataline_1_3)\<lparr>result0 := used_result result\<rparr>\<rparr>, 0))"

definition add_try3 :: "lkey \<Rightarrow> u32 \<Rightarrow> dataline1_3 \<Rightarrow> dataline4 \<Rightarrow> bucket \<Rightarrow> bucket \<times> u8" where
  "add_try3 k result dataline_1_3 dataline4 b =
    (if c_true (result3_upper dataline4 AND ucast (drop_bit 16 MAC_LKUP_USED)) \<and> key1_differs dataline_1_3 k
     then add_try4 k result dataline4 b
     else (b\<lparr>dl2 := set_key1 k dataline_1_3,
             dl4 := dataline4
               \<lparr>result3_lower := ucast (result AND 0xffff),
                result3_upper := ucast ((drop_bit 16 result AND 0x7fff) OR drop_bit 16 MAC_LKUP_USED)\<rparr>\<rparr>, 0))"

definition add_try2 :: "lkey \<Rightarrow> u32 \<Rightarrow> dataline4 \<Rightarrow> bucket \<Rightarrow> bucket \<times> u8" where
  "add_try2 k result dataline4 b =
    (let dataline_1_3 = dl2 b in
     if c_true (result0 dataline_1_3 AND MAC_LKUP_USED) \<and> key0_differs dataline_1_3 k
     then add_try3 k result dataline_1_3 dataline4 b
     else (b\<lparr>dl2 := (set_key0 k dataline_1_3)\<lparr>result0 := used_result result\<rparr>\<rparr>, 0))"

definition add_try1 :: "lkey \<Rightarrow> u32 \<Rightarrow> dataline1_3 \<Rightarrow> bucket \<Rightarrow> bucket \<times> u8" where
  "add_try1 k result dataline_1_3 b =
    (let dataline4 = dl4 b in
     if c_true (result1 dataline4 AND MAC_LKUP_USED) \<and> key1_differs dataline_1_3 k
     then add_try2 k result dataline4 b
     else (b\<lparr>dl1 := set_key1 k dataline_1_3,
             dl4 := dataline4\<lparr>result1 := used_result result\<rparr>\<rparr>, 0))"

definition add_try0 :: "lkey \<Rightarrow> u32 \<Rightarrow> bucket \<Rightarrow> bucket \<times> u8" where
  "add_try0 k result b =
    (let dataline_1_3 = dl1 b in
     if c_true (result0 dataline_1_3 AND MAC_LKUP_USED) \<and> key0_differs dataline_1_3 k
     then add_try1 k result dataline_1_3 b
     else (b\<lparr>dl1 := (set_key0 k dataline_1_3)\<lparr>result0 := used_result result\<rparr>\<rparr>, 0))"

section \<open>Deleting an entry from a bucket\<close>

definition del_try5 :: "lkey \<Rightarrow> dataline1_3 \<Rightarrow> dataline4 \<Rightarrow> bucket \<Rightarrow> bucket \<times> u8" where
  "del_try5 k dataline_1_3 dataline4 b =
    (if c_true (result5 dataline4 AND MAC_LKUP_USED) \<and> \<not> key1_differs dataline_1_3 k
     then (b\<lparr>dl4 := dataline4\<lparr>result5 := 0\<rparr>\<rparr>, 0)
     else (b, 1))"

definition del_try4 :: "lkey \<Rightarrow> dataline4 \<Rightarrow> bucket \<Rightarrow> bucket \<times> u8" where
  "del_try4 k dataline4 b =
    (let dataline_1_3 = dl3 b in
     if c_true (result0 dataline_1_3 AND MAC_LKUP_USED) \<and> \<not> key0_differs dataline_1_3 k
     then (b\<lparr>dl3 := dataline_1_3\<lparr>result0 := 0\<rparr>\<rparr>, 0)
     else del_try5 k dataline_1_3 dataline4 b)"

definition del_try3 :: "lkey \<Rightarrow> dataline1_3 \<Rightarrow> dataline4 \<Rightarrow> bucket \<Rightarrow> bucket \<times> u8" where
  "del_try3 k dataline_1_3 dataline4 b =
    (if c_true (result3_upper dataline4 AND ucast (drop_bit 16 MAC_LKUP_USED)) \<and> \<not> key1_differs dataline_1_3 k
     then (b\<lparr>dl4 := dataline4\<lparr>result3_lower := 0, result3_upper := 0\<rparr>\<rparr>, 0)
     else del_try4 k dataline4 b)"

definition del_try2 :: "lkey \<Rightarrow> dataline4 \<Rightarrow> bucket \<Rightarrow> bucket \<times> u8" where
  "del_try2 k dataline4 b =
    (let dataline_1_3 = dl2 b in
     if c_true (result0 dataline_1_3 AND MAC_LKUP_USED) \<and> \<not> key0_differs dataline_1_3 k
     then (b\<lparr>dl2 := dataline_1_3\<lparr>result0 := 0\<rparr>\<rparr>, 0)
     else del_try3 k dataline_1_3 dataline4 b)"

definition del_try1 :: "lkey \<Rightarrow> dataline1_3 \<Rightarrow> bucket \<Rightarrow> bucket \<times> u8" where
  "del_try1 k dataline_1_3 b =
    (let dataline4 = dl4 b in
     if c_true (result1 dataline4 AND MAC_LKUP_USED) \<and> \<not> key1_differs dataline_1_3 k
     then (b\<lparr>dl4 := dataline4\<lparr>result1 := 0\<rparr>\<rparr>, 0)
     else del_try2 k dataline4 b)"

definition del_try0 :: "lkey \<Rightarrow> bucket \<Rightarrow> bucket \<times> u8" where
  "del_try0 k b =
    (let dataline_1_3 = dl1 b in
     if c_true (result0 dataline_1_3 AND MAC_LKUP_USED) \<and> \<not> key0_differs dataline_1_3 k
     then (b\<lparr>dl1 := dataline_1_3\<lparr>result0 := 0\<rparr>\<rparr>, 0)
     else del_try1 k dataline_1_3 b)"

section \<open>The table\<close>

type_synonym lkup_tbl = "u32 \<Rightarrow> bucket"

text \<open>The effect of a call on the table, between taking and releasing the
  lock of its bucket.\<close>

definition mac_lkup_add :: "mem_lkup_env \<Rightarrow> mac_addr \<Rightarrow> u32 \<Rightarrow> lkup_tbl \<Rightarrow> lkup_tbl \<times> u8" where
  "mac_lkup_add e mac result tbl =
    (let table_idx = lkup_index e mac;
         (b, rc) = add_try0 (lkup_key e mac) result (tbl table_idx)
     in (tbl(table_idx := b), rc))"

definition mac_lkup_del :: "mem_lkup_env \<Rightarrow> mac_addr \<Rightarrow> lkup_tbl \<Rightarrow> lkup_tbl \<times> u8" where
  "mac_lkup_del e mac tbl =
    (let table_idx = lkup_index e mac;
         (b, rc) = del_try0 (lkup_key e mac) (tbl table_idx)
     in (tbl(table_idx := b), rc))"

section \<open>Slots: the bucket as six key and result pairs\<close>

type_synonym slot = "lkey \<times> u32"

definition key0 :: "dataline1_3 \<Rightarrow> lkey" where
  "key0 d = (lookup_key_lower0 d, lookup_key_middle0 d, lookup_key_upper0 d)"

definition key1 :: "dataline1_3 \<Rightarrow> lkey" where
  "key1 d = (lookup_key_lower1 d, lookup_key_middle1 d, lookup_key_upper1 d)"

definition result3 :: "dataline4 \<Rightarrow> u32" where
  "result3 d = push_bit 16 (ucast (result3_upper d)) OR ucast (result3_lower d)"

definition slots :: "bucket \<Rightarrow> slot list" where
  "slots b =
    [(key0 (dl1 b), result0 (dl1 b)), (key1 (dl1 b), result1 (dl4 b)),
     (key0 (dl2 b), result0 (dl2 b)), (key1 (dl2 b), result3 (dl4 b)),
     (key0 (dl3 b), result0 (dl3 b)), (key1 (dl3 b), result5 (dl4 b))]"

definition slot_used :: "slot \<Rightarrow> bool" where
  "slot_used s \<longleftrightarrow> bit (snd s) 30"

text \<open>The reference algorithms: one loop over the slots.\<close>

fun slots_add :: "lkey \<Rightarrow> u32 \<Rightarrow> slot list \<Rightarrow> slot list option" where
  "slots_add k r [] = None"
| "slots_add k r (s # ss) =
    (if slot_used s \<and> fst s \<noteq> k then map_option ((#) s) (slots_add k r ss)
     else Some ((k, used_result r) # ss))"

fun slots_del :: "lkey \<Rightarrow> slot list \<Rightarrow> slot list option" where
  "slots_del k [] = None"
| "slots_del k (s # ss) =
    (if slot_used s \<and> fst s = k then Some ((fst s, 0) # ss)
     else map_option ((#) s) (slots_del k ss))"

lemma MAC_LKUP_USED_bit: "c_true (r AND MAC_LKUP_USED) \<longleftrightarrow> bit r 30"
  unfolding MAC_LKUP_USED_def by (rule c_true_and_pow2)

lemma MAC_LKUP_USED_hi_bit:
  "c_true (r AND ucast (drop_bit 16 MAC_LKUP_USED)) \<longleftrightarrow> bit r 14" for r :: u16
proof -
  have "ucast (drop_bit 16 MAC_LKUP_USED) = (push_bit 14 1 :: u16)"
    by (simp add: MAC_LKUP_USED_def)
  then show ?thesis by (simp only: c_true_and_pow2)
qed

lemma key_differs_iff [simp]:
  "key0_differs d k \<longleftrightarrow> key0 d \<noteq> k" "key1_differs d k \<longleftrightarrow> key1 d \<noteq> k"
  by (auto simp: key0_differs_def key1_differs_def key0_def key1_def split: prod.splits)

lemma set_key_simps [simp]:
  "key0 (set_key0 k d) = k" "key1 (set_key0 k d) = key1 d" "result0 (set_key0 k d) = result0 d"
  "key1 (set_key1 k d) = k" "key0 (set_key1 k d) = key0 d" "result0 (set_key1 k d) = result0 d"
  "key0 (d\<lparr>result0 := r\<rparr>) = key0 d" "key1 (d\<lparr>result0 := r\<rparr>) = key1 d"
  by (auto simp: set_key0_def set_key1_def key0_def key1_def split: prod.splits)

lemma bit_result3: "bit (result3 d) n \<longleftrightarrow>
    (if n < 16 then bit (result3_lower d) n else bit (result3_upper d) (n - 16))"
  by (auto simp: result3_def bit_or_iff bit_push_bit_iff bit_ucast_iff dest: bit_imp_le_length)

lemma result3_simps [simp]:
  "result3 (d\<lparr>result1 := r\<rparr>) = result3 d" "result3 (d\<lparr>result5 := r\<rparr>) = result3 d"
  "result3 (d\<lparr>result3_lower := 0, result3_upper := 0\<rparr>) = 0"
  by (simp_all add: result3_def)

lemma bit_MAC_LKUP_USED: "bit MAC_LKUP_USED n \<longleftrightarrow> n = 30"
  unfolding MAC_LKUP_USED_def push_bit_of_1 bit_exp_iff possible_bit_def by auto

lemma low_masks:
  "bit (0x3fffffff :: u32) n \<longleftrightarrow> n < 30" "bit (0xffff :: u32) n \<longleftrightarrow> n < 16"
  "bit (0x7fff :: u32) n \<longleftrightarrow> n < 15"
proof -
  have "(0x3fffffff :: u32) = mask 30" "(0xffff :: u32) = mask 16" "(0x7fff :: u32) = mask 15"
    by (simp_all add: mask_eq_exp_minus_1)
  then show "bit (0x3fffffff :: u32) n \<longleftrightarrow> n < 30" "bit (0xffff :: u32) n \<longleftrightarrow> n < 16"
    "bit (0x7fff :: u32) n \<longleftrightarrow> n < 15"
    unfolding bit_mask_iff by (simp_all only: bit_mask_iff) auto
qed

lemma bit_used_result: "bit (used_result r) n \<longleftrightarrow> n = 30 \<or> n < 30 \<and> bit r n"
  by (auto simp: used_result_def bit_or_iff bit_and_iff bit_MAC_LKUP_USED low_masks
      simp del: bit_numeral_word_iff)

lemma result3_store [simp]:
  "result3 (d\<lparr>result3_lower := ucast (r AND 0xffff),
     result3_upper := ucast ((drop_bit 16 r AND 0x7fff) OR drop_bit 16 MAC_LKUP_USED)\<rparr>) = used_result r"
proof (rule bit_word_eqI)
  fix n assume "n < LENGTH(32)"
  then show "bit (result3 (d\<lparr>result3_lower := ucast (r AND 0xffff), result3_upper :=
      ucast ((drop_bit 16 r AND 0x7fff) OR drop_bit 16 MAC_LKUP_USED)\<rparr>)) n = bit (used_result r) n"
    unfolding bit_result3 bit_used_result
    by (auto simp: bit_ucast_iff bit_and_iff bit_or_iff low_masks bit_drop_bit_eq
        bit_MAC_LKUP_USED simp del: bit_numeral_word_iff)
qed

lemmas try_defs =
  add_try0_def add_try1_def add_try2_def add_try3_def add_try4_def add_try5_def
  del_try0_def del_try1_def del_try2_def del_try3_def del_try4_def del_try5_def

lemma slot_used_simps [simp]:
  "slot_used (k, r) = bit r 30"
  by (simp add: slot_used_def)

lemma bit_result3_30: "bit (result3 d) 30 = bit (result3_upper d) 14"
  by (simp add: bit_result3)

text \<open>The unrolled code computes the reference loop.\<close>

lemma add_try0_slots:
  "(case slots_add k r (slots b) of
      None \<Rightarrow> add_try0 k r b = (b, 1)
    | Some ss \<Rightarrow> slots (fst (add_try0 k r b)) = ss \<and> snd (add_try0 k r b) = 0)"
  by (simp add: slots_def try_defs Let_def MAC_LKUP_USED_bit MAC_LKUP_USED_hi_bit bit_result3_30)

lemma del_try0_slots:
  "(case slots_del k (slots b) of
      None \<Rightarrow> del_try0 k b = (b, 1)
    | Some ss \<Rightarrow> slots (fst (del_try0 k b)) = ss \<and> snd (del_try0 k b) = 0)"
  by (simp add: slots_def try_defs Let_def MAC_LKUP_USED_bit MAC_LKUP_USED_hi_bit bit_result3_30)

section \<open>Buckets as bounded maps\<close>

text \<open>Bits 29..0 of a result belong to the user.  A lookup returns the first
  used slot with the key.\<close>

fun slots_get :: "lkey \<Rightarrow> slot list \<Rightarrow> 30 word option" where
  "slots_get k [] = None"
| "slots_get k (s # ss) =
    (if slot_used s \<and> fst s = k then Some (ucast (snd s)) else slots_get k ss)"

fun used_keys :: "slot list \<Rightarrow> lkey list" where
  "used_keys [] = []"
| "used_keys (s # ss) = (if slot_used s then fst s # used_keys ss else used_keys ss)"

definition slots_inv :: "slot list \<Rightarrow> bool" where
  "slots_inv ss \<longleftrightarrow> distinct (used_keys ss)"

lemma slots_inv_Cons [simp]:
  "slots_inv (s # ss) \<longleftrightarrow> (slot_used s \<longrightarrow> fst s \<notin> set (used_keys ss)) \<and> slots_inv ss"
  by (simp add: slots_inv_def)

lemma ucast_used_result: "(ucast (used_result r) :: 30 word) = ucast r"
  by (rule bit_word_eqI) (auto simp: bit_ucast_iff bit_used_result)

lemma slots_add_get:
  "slots_add k r ss = Some ss' \<Longrightarrow>
     slots_get k' ss' = (if k' = k then Some (ucast r) else slots_get k' ss)"
  by (induction k r ss arbitrary: ss' rule: slots_add.induct)
    (auto simp: bit_used_result ucast_used_result split: if_splits)

lemma slots_get_None: "slots_get k ss = None \<longleftrightarrow> k \<notin> set (used_keys ss)"
  by (induction k ss rule: slots_get.induct) auto

lemma slots_add_None:
  "slots_add k r ss = None \<longleftrightarrow> (\<forall>s\<in>set ss. slot_used s) \<and> slots_get k ss = None"
  by (induction k r ss rule: slots_add.induct) auto

lemma slots_add_used:
  "slots_add k r ss = Some ss' \<Longrightarrow> set (used_keys ss') = insert k (set (used_keys ss))"
  by (induction k r ss arbitrary: ss' rule: slots_add.induct)
    (auto simp: bit_used_result split: if_splits)

lemma slots_add_inv:
  "slots_add k r ss = Some ss' \<Longrightarrow> slots_inv ss \<Longrightarrow> k \<notin> set (used_keys ss) \<Longrightarrow> slots_inv ss'"
proof (induction k r ss arbitrary: ss' rule: slots_add.induct)
  case (2 k r s ss)
  show ?case
  proof (cases "slot_used s \<and> fst s \<noteq> k")
    case True
    with "2.prems" obtain t where t: "slots_add k r ss = Some t" "ss' = s # t"
      by auto
    then show ?thesis using "2.IH" [OF True t(1)] "2.prems" True slots_add_used [OF t(1)] by auto
  next
    case False
    then show ?thesis using "2.prems" by (auto simp: bit_used_result split: if_splits)
  qed
qed simp

lemma slots_del_used:
  "slots_del k ss = Some ss' \<Longrightarrow> slots_inv ss \<Longrightarrow> set (used_keys ss') = set (used_keys ss) - {k}"
proof (induction k ss arbitrary: ss' rule: slots_del.induct)
  case (2 k s ss)
  then show ?case by (cases "slot_used s \<and> fst s = k") (auto split: if_splits)
qed simp

lemma slots_del_get:
  "slots_del k ss = Some ss' \<Longrightarrow> slots_inv ss \<Longrightarrow>
     slots_get k' ss' = (if k' = k then None else slots_get k' ss)"
proof (induction k ss arbitrary: ss' rule: slots_del.induct)
  case (2 k s ss)
  then show ?case
    by (cases "slot_used s \<and> fst s = k") (auto simp: slots_get_None split: if_splits)
qed simp

lemma slots_del_None: "slots_del k ss = None \<longleftrightarrow> slots_get k ss = None"
  by (induction k ss rule: slots_del.induct) auto

lemma slots_del_inv: "slots_del k ss = Some ss' \<Longrightarrow> slots_inv ss \<Longrightarrow> slots_inv ss'"
proof (induction k ss arbitrary: ss' rule: slots_del.induct)
  case (2 k s ss)
  show ?case
  proof (cases "slot_used s \<and> fst s = k")
    case True
    then show ?thesis using "2.prems" by auto
  next
    case False
    with "2.prems" obtain t where t: "slots_del k ss = Some t" "ss' = s # t" by auto
    then show ?thesis
      using "2.IH" [OF False t(1)] "2.prems" slots_del_used [OF t(1)] by auto
  qed
qed simp

text \<open>The code's bucket operations as a bounded table, and the contract.\<close>

definition bucket_get :: "bucket \<Rightarrow> lkey \<Rightarrow> 30 word option" where
  "bucket_get b k = slots_get k (slots b)"

definition bucket_inv :: "bucket \<Rightarrow> bool" where
  "bucket_inv b \<longleftrightarrow> slots_inv (slots b)"

definition bucket_ins :: "lkey \<Rightarrow> 30 word \<Rightarrow> bucket \<Rightarrow> bucket option" where
  "bucket_ins k v b = (case add_try0 k (ucast v) b of (b', rc) \<Rightarrow> if rc = 0 then Some b' else None)"

definition bucket_del :: "lkey \<Rightarrow> bucket \<Rightarrow> bucket" where
  "bucket_del k b = fst (del_try0 k b)"

lemma bucket_add_cases:
  obtains (full) "slots_add k r (slots b) = None" "add_try0 k r b = (b, 1)"
  | (stored) b' where "slots_add k r (slots b) = Some (slots b')" "add_try0 k r b = (b', 0)"
proof (cases "slots_add k r (slots b)")
  case None
  then show ?thesis using add_try0_slots [of k r b] full by simp
next
  case (Some ss)
  then have "slots (fst (add_try0 k r b)) = ss" "snd (add_try0 k r b) = 0"
    using add_try0_slots [of k r b] by simp_all
  then show ?thesis using Some stored by (metis prod.collapse)
qed

lemma bucket_del_cases:
  obtains (absent) "slots_del k (slots b) = None" "del_try0 k b = (b, 1)"
  | (stored) b' where "slots_del k (slots b) = Some (slots b')" "del_try0 k b = (b', 0)"
proof (cases "slots_del k (slots b)")
  case None
  then show ?thesis using del_try0_slots [of k b] absent by simp
next
  case (Some ss)
  then have "slots (fst (del_try0 k b)) = ss" "snd (del_try0 k b) = 0"
    using del_try0_slots [of k b] by simp_all
  then show ?thesis using Some stored by (metis prod.collapse)
qed

lemma ucast_30_32: "ucast (ucast v :: u32) = (v :: 30 word)"
  by (rule bit_word_eqI) (auto simp: bit_ucast_iff)

interpretation bkt: kv_table bucket_inv bucket_get bucket_ins bucket_del
proof unfold_locales
  fix t t' k v
  assume inv: "bucket_inv t" and absent: "bucket_get t k = None" and ins: "bucket_ins k v t = Some t'"
  have add: "slots_add k (ucast v) (slots t) = Some (slots t')"
    using ins by (cases rule: bucket_add_cases [of k "ucast v" t]) (auto simp: bucket_ins_def)
  show "bucket_get t' = (bucket_get t)(k \<mapsto> v)"
    by (rule ext) (simp add: bucket_get_def slots_add_get [OF add] ucast_30_32)
  show "bucket_inv t'"
    using slots_add_inv [OF add] inv absent by (simp add: bucket_inv_def bucket_get_def slots_get_None)
next
  fix t k
  assume inv: "bucket_inv t"
  show "bucket_get (bucket_del k t) = (bucket_get t)(k := None)"
    using inv by (cases rule: bucket_del_cases [of k t])
      (auto simp: bucket_get_def bucket_del_def bucket_inv_def slots_del_get slots_del_None)
  show "bucket_inv (bucket_del k t)"
    using inv by (cases rule: bucket_del_cases [of k t])
      (auto simp: bucket_del_def bucket_inv_def slots_del_inv)
qed

section \<open>The table as a map from MAC addresses\<close>

text \<open>What the index and shift macros promise: the index takes the low bits of
  the address, and the shift drops no more bits than the index keeps.\<close>

definition mem_lkup_ok :: "mem_lkup_env \<Rightarrow> bool" where
  "mem_lkup_ok e \<longleftrightarrow> (\<exists>k < 32. num_entries e = 2 ^ k \<and> key_offset e \<le> k)"

definition is_mac48 :: "mac_addr \<Rightarrow> bool" where
  "is_mac48 mac \<longleftrightarrow> take_bit 48 mac = mac"

definition lkup_get :: "mem_lkup_env \<Rightarrow> lkup_tbl \<Rightarrow> mac_addr \<Rightarrow> 30 word option" where
  "lkup_get e tbl mac = bucket_get (tbl (lkup_index e mac)) (lkup_key e mac)"

definition tbl_inv :: "lkup_tbl \<Rightarrow> bool" where
  "tbl_inv tbl \<longleftrightarrow> (\<forall>i. bucket_inv (tbl i))"

lemma bit_lkup_index:
  assumes "num_entries e = 2 ^ k" "k < 32"
  shows "bit (lkup_index e mac) n \<longleftrightarrow> n < k \<and> bit mac n"
proof -
  have "num_entries e - 1 = mask k" using assms by (simp add: mask_eq_exp_minus_1)
  then show ?thesis using assms(2)
    by (auto simp: lkup_index_def mac_word1_def bit_and_iff bit_mask_iff bit_ucast_iff possible_bit_def)
qed

lemma lkup_key_bits:
  assumes "lkup_key e mac = lkup_key e mac'" "i < 48"
  shows "bit mac (key_offset e + i) = bit mac' (key_offset e + i)"
proof -
  let ?d = "\<lambda>m :: u64. drop_bit (key_offset e) m"
  have u: "bit (ucast (x AND 0xffff) :: u16) j \<longleftrightarrow> j < 16 \<and> bit x j" for x :: u64 and j
  proof -
    have "(0xffff :: u64) = mask 16" by (simp add: mask_eq_exp_minus_1)
    then show ?thesis
      by (simp only: bit_ucast_iff bit_and_iff bit_mask_iff possible_bit_def) (auto dest: bit_imp_le_length)
  qed
  have "bit (?d mac) i = bit (?d mac') i"
  proof -
    consider "i < 16" | "16 \<le> i" "i < 32" | "32 \<le> i" "i < 48" using assms(2) by linarith
    then show ?thesis
    proof cases
      case 1
      have "(ucast (?d mac AND 0xffff) :: u16) = ucast (?d mac' AND 0xffff)"
        using assms(1) unfolding lkup_key_def Let_def by blast
      from arg_cong [OF this, of "\<lambda>w. bit w i"] show ?thesis unfolding u using 1 by simp
    next
      case 2
      have "(ucast (drop_bit 16 (?d mac) AND 0xffff) :: u16) = ucast (drop_bit 16 (?d mac') AND 0xffff)"
        using assms(1) unfolding lkup_key_def Let_def by blast
      from arg_cong [OF this, of "\<lambda>w. bit w (i - 16)"] show ?thesis
        unfolding u bit_drop_bit_eq using 2 by auto
    next
      case 3
      have "(ucast (drop_bit 32 (?d mac) AND 0xffff) :: u16) = ucast (drop_bit 32 (?d mac') AND 0xffff)"
        using assms(1) unfolding lkup_key_def Let_def by blast
      from arg_cong [OF this, of "\<lambda>w. bit w (i - 32)"] show ?thesis
        unfolding u bit_drop_bit_eq using 3 by auto
    qed
  qed
  then show ?thesis by (simp add: bit_drop_bit_eq)
qed

lemma lkup_pos_inject:
  assumes "mem_lkup_ok e" "is_mac48 mac" "is_mac48 mac'"
    and "lkup_index e mac = lkup_index e mac'" "lkup_key e mac = lkup_key e mac'"
  shows "mac = mac'"
proof (rule bit_word_eqI)
  fix n
  obtain k where k: "k < 32" "num_entries e = 2 ^ k" "key_offset e \<le> k"
    using assms(1) by (auto simp: mem_lkup_ok_def)
  have b48: "bit m n \<longleftrightarrow> n < 48 \<and> bit m n" if "is_mac48 m" for m
    using that unfolding is_mac48_def by (metis bit_take_bit_iff)
  consider "n < k" | "k \<le> n" "n < 48" | "48 \<le> n" by linarith
  then show "bit mac n = bit mac' n"
  proof cases
    case 1
    then show ?thesis using arg_cong [OF assms(4), of "\<lambda>w. bit w n"]
      unfolding bit_lkup_index [OF k(2,1)] by simp
  next
    case 2
    then show ?thesis using lkup_key_bits [OF assms(5), of "n - key_offset e"] k(3) by simp
  next
    case 3
    then show ?thesis using b48 [OF assms(2)] b48 [OF assms(3)] by simp
  qed
qed

section \<open>Threads\<close>

text \<open>\<open>mem_test_set\<close> returns the old word and sets the bits; one call of the
  following is one iteration of the wait loop and tells whether the loop ends.\<close>

definition mac_lkup_tbl_bucket_wait :: "u32 \<Rightarrow> (nat \<Rightarrow> u32) \<Rightarrow> bool \<times> (nat \<Rightarrow> u32)" where
  "mac_lkup_tbl_bucket_wait table_idx mac_lkup_tbl_lock =
    (let lock_idx = unat (drop_bit 5 table_idx);
         shf = unat (table_idx AND 31);
         test_msk = push_bit shf 1;
         test = mac_lkup_tbl_lock lock_idx
     in (test AND test_msk = 0, mac_lkup_tbl_lock(lock_idx := test OR test_msk)))"

definition mac_lkup_tbl_bucket_release :: "u32 \<Rightarrow> (nat \<Rightarrow> u32) \<Rightarrow> (nat \<Rightarrow> u32)" where
  "mac_lkup_tbl_bucket_release table_idx mac_lkup_tbl_lock =
    (let lock_idx = unat (drop_bit 5 table_idx);
         test = push_bit (unat (table_idx AND 31)) 1
     in mac_lkup_tbl_lock(lock_idx := mac_lkup_tbl_lock lock_idx AND NOT test))"

datatype lk_op = OpAdd mac_addr u32 | OpDel mac_addr

fun op_index :: "mem_lkup_env \<Rightarrow> lk_op \<Rightarrow> u32" where
  "op_index e (OpAdd mac result) = lkup_index e mac"
| "op_index e (OpDel mac) = lkup_index e mac"

fun op_bucket :: "mem_lkup_env \<Rightarrow> lk_op \<Rightarrow> bucket \<Rightarrow> bucket \<times> u8" where
  "op_bucket e (OpAdd mac result) b = add_try0 (lkup_key e mac) result b"
| "op_bucket e (OpDel mac) b = del_try0 (lkup_key e mac) b"

fun op_table :: "mem_lkup_env \<Rightarrow> lk_op \<Rightarrow> lkup_tbl \<Rightarrow> lkup_tbl \<times> u8" where
  "op_table e (OpAdd mac result) tbl = mac_lkup_add e mac result tbl"
| "op_table e (OpDel mac) tbl = mac_lkup_del e mac tbl"

text \<open>A thread waits for the bucket, reads it, writes the changed bucket back
  and releases the lock; \<open>lk_hist\<close> records the calls in the order of their
  write, with their return codes.\<close>

datatype lk_pc = LkIdle | LkWait lk_op | LkHold lk_op | LkRead lk_op bucket | LkDone lk_op

record lk_state =
  lk_tbl :: lkup_tbl
  lk_locks :: "nat \<Rightarrow> u32"
  lk_pc :: "nat \<Rightarrow> lk_pc"
  lk_hist :: "(lk_op \<times> u8) list"

inductive lk_step :: "mem_lkup_env \<Rightarrow> lk_state \<Rightarrow> lk_state \<Rightarrow> bool" for e where
  call: "lk_pc s t = LkIdle \<Longrightarrow> lk_step e s (s\<lparr>lk_pc := (lk_pc s)(t := LkWait op)\<rparr>)"
| wait: "lk_pc s t = LkWait op \<Longrightarrow>
    mac_lkup_tbl_bucket_wait (op_index e op) (lk_locks s) = (got, locks') \<Longrightarrow>
    lk_step e s (s\<lparr>lk_locks := locks',
      lk_pc := (lk_pc s)(t := if got then LkHold op else LkWait op)\<rparr>)"
| load: "lk_pc s t = LkHold op \<Longrightarrow>
    lk_step e s (s\<lparr>lk_pc := (lk_pc s)(t := LkRead op (lk_tbl s (op_index e op)))\<rparr>)"
| store: "lk_pc s t = LkRead op b \<Longrightarrow> op_bucket e op b = (b', rc) \<Longrightarrow>
    lk_step e s (s\<lparr>lk_tbl := (lk_tbl s)(op_index e op := b'),
      lk_pc := (lk_pc s)(t := LkDone op), lk_hist := lk_hist s @ [(op, rc)]\<rparr>)"
| release: "lk_pc s t = LkDone op \<Longrightarrow>
    lk_step e s (s\<lparr>lk_locks := mac_lkup_tbl_bucket_release (op_index e op) (lk_locks s),
      lk_pc := (lk_pc s)(t := LkIdle)\<rparr>)"

definition lk_init :: "lkup_tbl \<Rightarrow> lk_state" where
  "lk_init tbl = \<lparr>lk_tbl = tbl, lk_locks = (\<lambda>_. 0), lk_pc = (\<lambda>_. LkIdle), lk_hist = []\<rparr>"

inductive lk_reach :: "mem_lkup_env \<Rightarrow> lkup_tbl \<Rightarrow> lk_state \<Rightarrow> bool" for e tbl where
  init: "lk_reach e tbl (lk_init tbl)"
| step: "lk_reach e tbl s \<Longrightarrow> lk_step e s s' \<Longrightarrow> lk_reach e tbl s'"

text \<open>The sequential specification: the calls one after the other.\<close>

fun seq_run :: "mem_lkup_env \<Rightarrow> lk_op list \<Rightarrow> lkup_tbl \<Rightarrow> lkup_tbl \<times> u8 list" where
  "seq_run e [] tbl = (tbl, [])"
| "seq_run e (op # ops) tbl =
    (let (tbl', rc) = op_table e op tbl; (tbl'', rcs) = seq_run e ops tbl' in (tbl'', rc # rcs))"

fun lk_owner :: "mem_lkup_env \<Rightarrow> lk_pc \<Rightarrow> u32 option" where
  "lk_owner e (LkHold op) = Some (op_index e op)"
| "lk_owner e (LkRead op b) = Some (op_index e op)"
| "lk_owner e (LkDone op) = Some (op_index e op)"
| "lk_owner e _ = None"

definition lk_excl :: "mem_lkup_env \<Rightarrow> lk_state \<Rightarrow> bool" where
  "lk_excl e s \<longleftrightarrow> (\<forall>t u i. lk_owner e (lk_pc s t) = Some i \<and> lk_owner e (lk_pc s u) = Some i \<longrightarrow> t = u)"

definition lk_locked :: "mem_lkup_env \<Rightarrow> lk_state \<Rightarrow> bool" where
  "lk_locked e s \<longleftrightarrow> (\<forall>i. pk_bit (lk_locks s) i \<longleftrightarrow> (\<exists>t. lk_owner e (lk_pc s t) = Some i))"

definition lk_fresh :: "mem_lkup_env \<Rightarrow> lk_state \<Rightarrow> bool" where
  "lk_fresh e s \<longleftrightarrow> (\<forall>t op b. lk_pc s t = LkRead op b \<longrightarrow> b = lk_tbl s (op_index e op))"

definition lk_lin :: "mem_lkup_env \<Rightarrow> lkup_tbl \<Rightarrow> lk_state \<Rightarrow> bool" where
  "lk_lin e tbl s \<longleftrightarrow> seq_run e (map fst (lk_hist s)) tbl = (lk_tbl s, map snd (lk_hist s))"

lemma op_table_bucket:
  "op_table e op tbl = (case op_bucket e op (tbl (op_index e op)) of (b, rc) \<Rightarrow> (tbl(op_index e op := b), rc))"
  by (cases op) (simp_all add: mac_lkup_add_def mac_lkup_del_def Let_def)

lemma seq_run_snoc:
  "seq_run e (ops @ [op]) tbl =
    (case seq_run e ops tbl of (tbl', rcs) \<Rightarrow>
       case op_table e op tbl' of (tbl'', rc) \<Rightarrow> (tbl'', rcs @ [rc]))"
  by (induction ops arbitrary: tbl) (auto split: prod.splits)

lemma bucket_wait_pk:
  "mac_lkup_tbl_bucket_wait i locks = (\<not> pk_bit locks i, pk_set locks i)"
  using c_true_and_pow2 [of "locks (unat (drop_bit 5 i))" "unat (i AND 31)"]
  by (auto simp: mac_lkup_tbl_bucket_wait_def Let_def pk_bit_def pk_set_def c_true_def)

lemma bucket_release_pk: "mac_lkup_tbl_bucket_release i locks = pk_clear locks i"
  by (simp add: mac_lkup_tbl_bucket_release_def Let_def pk_clear_def)

definition lk_inv :: "mem_lkup_env \<Rightarrow> lkup_tbl \<Rightarrow> lk_state \<Rightarrow> bool" where
  "lk_inv e tbl s \<longleftrightarrow> lk_excl e s \<and> lk_locked e s \<and> lk_fresh e s \<and> lk_lin e tbl s"

lemma lk_inv_wait:
  assumes "lk_pc s t = LkWait op" "lk_inv e tbl s"
    and "mac_lkup_tbl_bucket_wait (op_index e op) (lk_locks s) = (got, locks')"
  shows "lk_inv e tbl (s\<lparr>lk_locks := locks',
      lk_pc := (lk_pc s)(t := if got then LkHold op else LkWait op)\<rparr>)"
    (is "lk_inv e tbl ?s'")
proof -
  have got: "got \<longleftrightarrow> \<not> pk_bit (lk_locks s) (op_index e op)"
    and locks': "locks' = pk_set (lk_locks s) (op_index e op)"
    using assms(3) by (auto simp: bucket_wait_pk)
  have locked: "pk_bit (lk_locks s) i \<longleftrightarrow> (\<exists>t. lk_owner e (lk_pc s t) = Some i)" for i
    using assms(2) by (simp add: lk_inv_def lk_locked_def)
  have own: "lk_owner e (lk_pc ?s' u) = Some i \<longleftrightarrow>
      (u = t \<and> got \<and> i = op_index e op) \<or> lk_owner e (lk_pc s u) = Some i" for u i
    using assms(1) by auto
  have "lk_excl e ?s'"
    unfolding lk_excl_def own using assms(2) got locked unfolding lk_inv_def lk_excl_def by blast
  moreover have "lk_locked e ?s'"
    unfolding lk_locked_def own using got locked by (auto simp: locks' pk.rd_st)
  moreover have "lk_fresh e ?s'" "lk_lin e tbl ?s'"
    using assms(2) by (auto simp: lk_inv_def lk_fresh_def lk_lin_def split: if_splits)
  ultimately show ?thesis by (simp add: lk_inv_def)
qed

lemma lk_inv_store:
  assumes pc: "lk_pc s t = LkRead op b" and inv: "lk_inv e tbl s" and b': "op_bucket e op b = (b', rc)"
  shows "lk_inv e tbl (s\<lparr>lk_tbl := (lk_tbl s)(op_index e op := b'),
      lk_pc := (lk_pc s)(t := LkDone op), lk_hist := lk_hist s @ [(op, rc)]\<rparr>)"
    (is "lk_inv e tbl ?s'")
proof -
  have b: "b = lk_tbl s (op_index e op)" using pc inv by (auto simp: lk_inv_def lk_fresh_def)
  have own: "lk_owner e (lk_pc ?s' u) = lk_owner e (lk_pc s u)" for u using pc by simp
  have lin: "lk_lin e tbl ?s'"
    using inv b b' by (simp add: lk_inv_def lk_lin_def seq_run_snoc op_table_bucket)
  have fresh: "lk_fresh e ?s'"
    unfolding lk_fresh_def
  proof (intro allI impI)
    fix u op' b2
    assume u: "lk_pc ?s' u = LkRead op' b2"
    then have ut: "u \<noteq> t" "lk_pc s u = LkRead op' b2" by (auto split: if_splits)
    then have "op_index e op' \<noteq> op_index e op"
      using inv pc unfolding lk_inv_def lk_excl_def by (metis lk_owner.simps(2))
    then show "b2 = lk_tbl ?s' (op_index e op')"
      using ut inv by (auto simp: lk_inv_def lk_fresh_def)
  qed
  have "lk_excl e ?s'" "lk_locked e ?s'"
    using inv unfolding lk_inv_def lk_excl_def lk_locked_def own by simp_all
  with lin fresh show ?thesis by (simp add: lk_inv_def)
qed

lemma lk_inv_release:
  assumes "lk_pc s t = LkDone op" "lk_inv e tbl s"
  shows "lk_inv e tbl (s\<lparr>lk_locks := mac_lkup_tbl_bucket_release (op_index e op) (lk_locks s),
      lk_pc := (lk_pc s)(t := LkIdle)\<rparr>)" (is "lk_inv e tbl ?s'")
proof -
  have own: "lk_owner e (lk_pc ?s' u) = Some i \<longleftrightarrow> u \<noteq> t \<and> lk_owner e (lk_pc s u) = Some i" for u i
    by auto
  have t: "lk_owner e (lk_pc s t) = Some (op_index e op)" using assms(1) by simp
  have excl: "lk_owner e (lk_pc s u) = Some i \<Longrightarrow> lk_owner e (lk_pc s u') = Some i \<Longrightarrow> u = u'" for u u' i
    using assms(2) unfolding lk_inv_def lk_excl_def by blast
  have locked: "pk_bit (lk_locks s) i \<longleftrightarrow> (\<exists>t. lk_owner e (lk_pc s t) = Some i)" for i
    using assms(2) by (simp add: lk_inv_def lk_locked_def)
  have "(i \<noteq> op_index e op \<and> (\<exists>u. lk_owner e (lk_pc s u) = Some i)) \<longleftrightarrow>
      (\<exists>u. u \<noteq> t \<and> lk_owner e (lk_pc s u) = Some i)" for i
    using excl [of t i] t by (metis option.inject)
  then have "lk_locked e ?s'"
    unfolding lk_locked_def own by (simp add: bucket_release_pk pk.rd_cl locked)
  moreover have "lk_excl e ?s'" unfolding lk_excl_def own using excl by blast
  moreover have "lk_fresh e ?s'" "lk_lin e tbl ?s'"
    using assms by (auto simp: lk_inv_def lk_fresh_def lk_lin_def)
  ultimately show ?thesis by (simp add: lk_inv_def)
qed

lemma lk_inv_local:
  assumes "lk_inv e tbl s" "lk_owner e p = lk_owner e (lk_pc s t)"
    and "\<And>op b. p = LkRead op b \<Longrightarrow> b = lk_tbl s (op_index e op)"
  shows "lk_inv e tbl (s\<lparr>lk_pc := (lk_pc s)(t := p)\<rparr>)" (is "lk_inv e tbl ?s'")
proof -
  have own: "lk_owner e (((lk_pc s)(t := p)) u) = lk_owner e (lk_pc s u)" for u
    using assms(2) by simp
  have "lk_excl e ?s'" "lk_locked e ?s'"
    using assms(1) unfolding lk_inv_def lk_excl_def lk_locked_def by (simp_all add: own del: fun_upd_apply)
  moreover have "lk_fresh e ?s'" "lk_lin e tbl ?s'"
    using assms(1,3) by (auto simp: lk_inv_def lk_fresh_def lk_lin_def split: if_splits)
  ultimately show ?thesis by (simp add: lk_inv_def)
qed

lemma lk_step_inv:
  assumes "lk_step e s s'" "lk_inv e tbl s"
  shows "lk_inv e tbl s'"
  using assms(1)
proof cases
  case (call t op)
  show ?thesis unfolding call(1) by (rule lk_inv_local [OF assms(2)]) (simp_all add: call(2))
next
  case (wait t op got locks')
  show ?thesis unfolding wait(1) by (rule lk_inv_wait [OF wait(2) assms(2) wait(3)])
next
  case (load t op)
  show ?thesis unfolding load(1) by (rule lk_inv_local [OF assms(2)]) (simp_all add: load(2))
next
  case (store t op b b' rc)
  show ?thesis unfolding store(1) by (rule lk_inv_store [OF store(2) assms(2) store(3)])
next
  case (release t op)
  show ?thesis unfolding release(1) by (rule lk_inv_release [OF release(2) assms(2)])
qed

lemma lk_reach_inv: "lk_reach e tbl s \<Longrightarrow> lk_inv e tbl s"
proof (induction rule: lk_reach.induct)
  case init
  then show ?case
    by (simp add: lk_inv_def lk_excl_def lk_locked_def lk_fresh_def lk_lin_def lk_init_def pk_bit_def)
next
  case (step s s')
  then show ?case by (blast intro: lk_step_inv)
qed

section \<open>Properties\<close>

text \<open>C18. \<open>mac_lkup_add\<close> updates the table as a map: for 48-bit addresses, and
  index macros that lose no address bit, a call that returns 0 makes the
  address map to bits 29..0 of the result and changes no other address; a call
  that returns 1 changes nothing and happens exactly when the address is absent
  and the six entries of its bucket are used.\<close>

theorem mac_lkup_add_refines_map:
  assumes "mem_lkup_ok e" "is_mac48 mac" "is_mac48 mac'"
    and "mac_lkup_add e mac r tbl = (tbl', rc)"
  shows "lkup_get e tbl' mac' = (if rc = 0 \<and> mac' = mac then Some (ucast r) else lkup_get e tbl mac')
    \<and> (rc = 0 \<or> rc = 1)
    \<and> (rc = 1 \<longleftrightarrow> lkup_get e tbl mac = None \<and> list_all slot_used (slots (tbl (lkup_index e mac))))"
proof -
  let ?b = "tbl (lkup_index e mac)" and ?k = "lkup_key e mac"
  obtain b where b: "add_try0 ?k r ?b = (b, rc)" and tbl': "tbl' = tbl(lkup_index e mac := b)"
    using assms(4) by (auto simp: mac_lkup_add_def Let_def split: prod.splits)
  note inj = lkup_pos_inject [OF assms(1,3,2)]
  show ?thesis
  proof (cases rule: bucket_add_cases [of ?k r ?b])
    case full
    then show ?thesis using b tbl'
      by (auto simp: lkup_get_def bucket_get_def slots_add_None list_all_iff)
  next
    case (stored b')
    then have eq: "b' = b" "rc = 0" using b by auto
    have "\<not> (slots_get ?k (slots ?b) = None \<and> list_all slot_used (slots ?b))"
      using stored(1) slots_add_None [of ?k r "slots ?b"] by (auto simp: list_all_iff)
    moreover have "lkup_get e tbl' mac' = (if mac' = mac then Some (ucast r) else lkup_get e tbl mac')"
      using inj slots_add_get [OF stored(1)] unfolding lkup_get_def bucket_get_def tbl' eq by auto
    ultimately show ?thesis using eq by (simp add: lkup_get_def bucket_get_def)
  qed
qed

text \<open>C19. \<open>mac_lkup_del\<close> removes the address from the table seen as a map and
  changes no other address, provided no key is stored twice in a bucket; it
  returns 0 exactly when the address was present, and it keeps the property
  that no key is stored twice.\<close>

theorem mac_lkup_del_refines_map:
  assumes "mem_lkup_ok e" "is_mac48 mac" "is_mac48 mac'" "tbl_inv tbl"
    and "mac_lkup_del e mac tbl = (tbl', rc)"
  shows "lkup_get e tbl' mac' = (if mac' = mac then None else lkup_get e tbl mac')
    \<and> (rc = 0 \<longleftrightarrow> lkup_get e tbl mac \<noteq> None) \<and> tbl_inv tbl'"
proof -
  let ?b = "tbl (lkup_index e mac)" and ?k = "lkup_key e mac"
  have fst: "tbl' = tbl(lkup_index e mac := bucket_del ?k ?b)" and rc: "rc = snd (del_try0 ?k ?b)"
    using assms(5) by (auto simp: mac_lkup_del_def Let_def bucket_del_def split: prod.splits)
  have inv: "bucket_inv ?b" using assms(4) by (simp add: tbl_inv_def)
  have "rc = 0 \<longleftrightarrow> lkup_get e tbl mac \<noteq> None"
    unfolding lkup_get_def bucket_get_def slots_del_None [symmetric] rc
    by (cases rule: bucket_del_cases [of ?k ?b]) auto
  moreover have "lkup_get e tbl' mac' = (if mac' = mac then None else lkup_get e tbl mac')"
    using lkup_pos_inject [OF assms(1,3,2)] bkt.del_get [OF inv, of ?k] unfolding lkup_get_def fst by auto
  moreover have "tbl_inv tbl'" using assms(4) bkt.del_inv [OF inv] by (auto simp: tbl_inv_def fst)
  ultimately show ?thesis by blast
qed

text \<open>C37. An address added while an earlier entry of its bucket is free can be
  stored twice: after adding two keys, deleting the first, adding the second
  again and deleting it, the deletion reports success and the second key is
  still in the bucket with its old result.\<close>

theorem mac_lkup_readd_leaves_stale_entry:
  assumes "k1 \<noteq> k2" "list_all (\<lambda>s. \<not> slot_used s) (slots b)"
  shows "snd (del_try0 k2 (fst (add_try0 k2 r2' (bucket_del k1 (fst (add_try0 k2 r2 (fst (add_try0 k1 r1 b)))))))) = 0
    \<and> bucket_get (fst (del_try0 k2 (fst (add_try0 k2 r2' (bucket_del k1
         (fst (add_try0 k2 r2 (fst (add_try0 k1 r1 b)))))))))  k2 = Some (ucast r2)"
proof -
  obtain s1 s2 ss where b: "slots b = s1 # s2 # ss" and free: "\<not> slot_used s1" "\<not> slot_used s2"
    using assms(2) unfolding slots_def by auto
  define b1 where "b1 = fst (add_try0 k1 r1 b)"
  define b2 where "b2 = fst (add_try0 k2 r2 b1)"
  define b3 where "b3 = bucket_del k1 b2"
  define b4 where "b4 = fst (add_try0 k2 r2' b3)"
  define b5 where "b5 = fst (del_try0 k2 b4)"
  have 1: "slots b1 = (k1, used_result r1) # s2 # ss"
    using add_try0_slots [of k1 r1 b] free by (simp add: b b1_def)
  have 2: "slots b2 = (k1, used_result r1) # (k2, used_result r2) # ss"
    using add_try0_slots [of k2 r2 b1] free assms(1) by (simp add: 1 b2_def bit_used_result)
  have 3: "slots b3 = (k1, 0) # (k2, used_result r2) # ss"
    using del_try0_slots [of k1 b2] by (simp add: 2 b3_def bucket_del_def bit_used_result)
  have 4: "slots b4 = (k2, used_result r2') # (k2, used_result r2) # ss"
    using add_try0_slots [of k2 r2' b3] by (simp add: 3 b4_def)
  have 5: "slots b5 = (k2, 0) # (k2, used_result r2) # ss" "snd (del_try0 k2 b4) = 0"
    using del_try0_slots [of k2 b4] by (simp_all add: 4 b5_def bit_used_result)
  then show ?thesis
    by (simp add: bucket_get_def bit_used_result ucast_used_result flip: b1_def b2_def b3_def b4_def b5_def)
qed

text \<open>C8. Concurrent calls of \<open>mac_lkup_add\<close> and \<open>mac_lkup_del\<close> are linearizable:
  in every reachable state of any number of interleaved threads, at most one
  thread is between taking and releasing the lock of a bucket, and the table
  and the return codes are those of the recorded calls run one after the other.\<close>

theorem mac_lkup_linearizable:
  assumes "lk_reach e tbl s"
  shows "seq_run e (map fst (lk_hist s)) tbl = (lk_tbl s, map snd (lk_hist s)) \<and>
    (\<nexists>t u i. t \<noteq> u \<and> lk_owner e (lk_pc s t) = Some i \<and> lk_owner e (lk_pc s u) = Some i)"
  using lk_reach_inv [OF assms] unfolding lk_inv_def lk_lin_def lk_excl_def by blast

section \<open>Witnesses\<close>

text \<open>A table with 1024 buckets, an index of ten bits and a key offset of ten.\<close>

definition lkup_env_ex :: mem_lkup_env where
  "lkup_env_ex = \<lparr>num_entries = 1024, key_offset = 10\<rparr>"

definition line_ex :: dataline1_3 where
  "line_ex = \<lparr>lookup_key_lower0 = 0, lookup_key_middle0 = 0, lookup_key_upper0 = 0, result0 = 0,
     lookup_key_lower1 = 0, lookup_key_middle1 = 0, lookup_key_upper1 = 0\<rparr>"

definition bucket_ex :: bucket where
  "bucket_ex = \<lparr>dl1 = line_ex, dl2 = line_ex, dl3 = line_ex,
     dl4 = \<lparr>result1 = 0, result3_lower = 0, result3_upper = 0, result5 = 0\<rparr>\<rparr>"

lemma lkup_env_ex_ok: "mem_lkup_ok lkup_env_ex"
  unfolding mem_lkup_ok_def lkup_env_ex_def by (rule exI [of _ 10]) simp

lemma slots_ex: "list_all (\<lambda>s. \<not> slot_used s) (slots bucket_ex)" "bucket_inv bucket_ex"
  by (simp_all add: slots_def bucket_ex_def line_ex_def result3_def bucket_inv_def slots_inv_def)

lemma macs_ex: "is_mac48 0x0015deadbeef" "is_mac48 0x0015deadb001"
  by (simp_all add: is_mac48_def take_bit_eq_mod)

lemma add_ex_rc: "snd (mac_lkup_add lkup_env_ex 0x0015deadbeef 77 (\<lambda>_. bucket_ex)) = 0"
  using add_try0_slots [of "lkup_key lkup_env_ex 0x0015deadbeef" 77 bucket_ex] slots_ex(1)
  by (auto simp: mac_lkup_add_def Let_def slots_def split: prod.splits option.splits)

theorem mac_lkup_add_refines_map_witness:
  "lkup_get lkup_env_ex (fst (mac_lkup_add lkup_env_ex 0x0015deadbeef 77 (\<lambda>_. bucket_ex)))
     0x0015deadbeef = Some 77"
  using mac_lkup_add_refines_map [OF lkup_env_ex_ok macs_ex(1) macs_ex(1) prod.collapse [symmetric]]
    add_ex_rc by simp

theorem mac_lkup_del_refines_map_witness:
  "snd (mac_lkup_del lkup_env_ex 0x0015deadbeef (\<lambda>_. bucket_ex)) \<noteq> 0 \<longleftrightarrow>
   lkup_get lkup_env_ex (\<lambda>_. bucket_ex) 0x0015deadbeef = None"
  using mac_lkup_del_refines_map [OF lkup_env_ex_ok macs_ex _ prod.collapse [symmetric],
      of "\<lambda>_. bucket_ex"] slots_ex(2) by (auto simp: tbl_inv_def)

theorem mac_lkup_readd_leaves_stale_entry_witness:
  "bucket_get (fst (del_try0 (2, 0, 0) (fst (add_try0 (2, 0, 0) 9 (bucket_del (1, 0, 0)
     (fst (add_try0 (2, 0, 0) 8 (fst (add_try0 (1, 0, 0) 7 bucket_ex))))))))) (2, 0, 0) = Some 8"
  using mac_lkup_readd_leaves_stale_entry [of "(1, 0, 0)" "(2, 0, 0)" bucket_ex 9 8 7] slots_ex(1) by simp

lemma lk_reach_one_call: "\<exists>s. lk_reach e tbl s \<and> map fst (lk_hist s) = [op]"
proof -
  let ?r = "op_bucket e op (tbl (op_index e op))"
  have w: "mac_lkup_tbl_bucket_wait (op_index e op) (\<lambda>_. 0) = (True, pk_set (\<lambda>_. 0) (op_index e op))"
    by (simp add: bucket_wait_pk pk_bit_def)
  note r0 = lk_reach.init [of e tbl]
  note r1 = lk_reach.step [OF r0 lk_step.call [where t = 0 and op = op]]
  note r2 = lk_reach.step [OF r1 lk_step.wait [where t = 0 and op = op and got = True]]
  note r3 = lk_reach.step [OF r2 lk_step.load [where t = 0 and op = op]]
  note r4 = lk_reach.step [OF r3 lk_step.store [where t = 0 and op = op and b' = "fst ?r" and rc = "snd ?r"]]
  show ?thesis
    by (rule exI, rule conjI, rule r4) (simp_all add: lk_init_def w)
qed

theorem mac_lkup_linearizable_witness:
  "\<exists>s. lk_reach lkup_env_ex (\<lambda>_. bucket_ex) s \<and> length (lk_hist s) = 1 \<and>
     lk_tbl s = fst (mac_lkup_add lkup_env_ex 0x0015deadbeef 77 (\<lambda>_. bucket_ex))"
proof -
  obtain s where s: "lk_reach lkup_env_ex (\<lambda>_. bucket_ex) s"
    and h: "map fst (lk_hist s) = [OpAdd 0x0015deadbeef 77]"
    using lk_reach_one_call [of lkup_env_ex "\<lambda>_. bucket_ex" "OpAdd 0x0015deadbeef 77"] by auto
  show ?thesis
    using s h mac_lkup_linearizable [OF s] arg_cong [OF h, of length]
    by (intro exI [of _ s]) (auto split: prod.splits)
qed

end
