(* ===== verification/Platform.thy ===== *)
theory Platform
  imports NicPrelude
begin

unbundle bit_operations_syntax

text \<open>
  \<open>include/platform.h\<close>: the per-board constants that every other part of the
  firmware is compiled against.  The header selects one block of macros by
  \<open>NS_PLATFORM_TYPE\<close>; a block is a value of the record \<open>platform\<close>, whose fields are
  the macros of that block, and \<open>platform_of\<close> is the \<open>#if\<close> chain.  The derived
  macros at the end of the header are definitions over the record.  The
  properties check the documented contract of the header for every board: the
  SerDes-to-port macro inverts the port-to-SerDes macro, the traffic manager
  queues of the ports are in range and do not overlap, and the port masks name
  exactly the ports' lowest SerDes.
\<close>

record platform =
  NS_PLATFORM_MAC_CORE :: "nat \<Rightarrow> nat"
  NS_PLATFORM_MAC_CORE_SERDES_LO :: "nat \<Rightarrow> nat"
  NS_PLATFORM_MAC_CORE_SERDES_HI :: "nat \<Rightarrow> nat"
  NS_PLATFORM_MAC_CORE_SERDES_TO_PORT :: "nat \<Rightarrow> nat \<Rightarrow> nat \<Rightarrow> nat"
  NS_PLATFORM_MAC_CHANNEL_LO :: "nat \<Rightarrow> nat"
  NS_PLATFORM_MAC_CHANNEL_HI :: "nat \<Rightarrow> nat"
  NS_PLATFORM_MAC_PCP_REMAP :: "nat \<Rightarrow> nat"
  NS_PLATFORM_MAC_UNTAGGED_MAP :: nat
  NS_PLATFORM_NUM_PORTS_PER_MAC_0 :: nat
  NS_PLATFORM_NUM_PORTS_PER_MAC_1 :: nat
  NS_PLATFORM_PCLK :: nat
  NS_PLATFORM_PORT_SPEED :: "nat \<Rightarrow> nat"
  NS_PLATFORM_TCLK :: nat
  NS_PLATFORM_MAC_0_CORE_0_PORTS_MASK :: u32
  NS_PLATFORM_MAC_0_CORE_1_PORTS_MASK :: u32
  NS_PLATFORM_MAC_1_CORE_0_PORTS_MASK :: u32
  NS_PLATFORM_MAC_1_CORE_1_PORTS_MASK :: u32

section \<open>The platform blocks\<close>

definition HYDROGEN :: platform where
  "HYDROGEN = \<lparr>
     NS_PLATFORM_MAC_CORE = (\<lambda>_. 0),
     NS_PLATFORM_MAC_CORE_SERDES_LO = (\<lambda>_. 0),
     NS_PLATFORM_MAC_CORE_SERDES_HI = (\<lambda>_. 3),
     NS_PLATFORM_MAC_CORE_SERDES_TO_PORT = (\<lambda>mac core serdes. 0),
     NS_PLATFORM_MAC_CHANNEL_LO = (\<lambda>_. 0),
     NS_PLATFORM_MAC_CHANNEL_HI = (\<lambda>_. 3),
     NS_PLATFORM_MAC_PCP_REMAP = (\<lambda>pcp. if pcp \<le> 3 then pcp else 3),
     NS_PLATFORM_MAC_UNTAGGED_MAP = 3,
     NS_PLATFORM_NUM_PORTS_PER_MAC_0 = 1,
     NS_PLATFORM_NUM_PORTS_PER_MAC_1 = 0,
     NS_PLATFORM_PCLK = 800,
     NS_PLATFORM_PORT_SPEED = (\<lambda>_. 40),
     NS_PLATFORM_TCLK = 800,
     NS_PLATFORM_MAC_0_CORE_0_PORTS_MASK = 0x001,
     NS_PLATFORM_MAC_0_CORE_1_PORTS_MASK = 0x000,
     NS_PLATFORM_MAC_1_CORE_0_PORTS_MASK = 0x000,
     NS_PLATFORM_MAC_1_CORE_1_PORTS_MASK = 0x000\<rparr>"

definition HYDROGEN_4x10 :: platform where
  "HYDROGEN_4x10 = \<lparr>
     NS_PLATFORM_MAC_CORE = (\<lambda>_. 0),
     NS_PLATFORM_MAC_CORE_SERDES_LO = (\<lambda>port. port),
     NS_PLATFORM_MAC_CORE_SERDES_HI = (\<lambda>port. port),
     NS_PLATFORM_MAC_CORE_SERDES_TO_PORT = (\<lambda>mac core serdes. serdes),
     NS_PLATFORM_MAC_CHANNEL_LO = (\<lambda>port. push_bit 2 port),
     NS_PLATFORM_MAC_CHANNEL_HI = (\<lambda>port. push_bit 2 port + 3),
     NS_PLATFORM_MAC_PCP_REMAP = (\<lambda>pcp. if pcp \<le> 3 then pcp else 3),
     NS_PLATFORM_MAC_UNTAGGED_MAP = 3,
     NS_PLATFORM_NUM_PORTS_PER_MAC_0 = 4,
     NS_PLATFORM_NUM_PORTS_PER_MAC_1 = 0,
     NS_PLATFORM_PCLK = 800,
     NS_PLATFORM_PORT_SPEED = (\<lambda>_. 10),
     NS_PLATFORM_TCLK = 800,
     NS_PLATFORM_MAC_0_CORE_0_PORTS_MASK = 0x00F,
     NS_PLATFORM_MAC_0_CORE_1_PORTS_MASK = 0x000,
     NS_PLATFORM_MAC_1_CORE_0_PORTS_MASK = 0x000,
     NS_PLATFORM_MAC_1_CORE_1_PORTS_MASK = 0x000\<rparr>"

definition LITHIUM :: platform where
  "LITHIUM = \<lparr>
     NS_PLATFORM_MAC_CORE = (\<lambda>_. 0),
     NS_PLATFORM_MAC_CORE_SERDES_LO = (\<lambda>port. push_bit 2 port),
     NS_PLATFORM_MAC_CORE_SERDES_HI = (\<lambda>port. push_bit 2 port),
     NS_PLATFORM_MAC_CORE_SERDES_TO_PORT = (\<lambda>mac core serdes. drop_bit 2 serdes),
     NS_PLATFORM_MAC_CHANNEL_LO = (\<lambda>port. push_bit 4 port),
     NS_PLATFORM_MAC_CHANNEL_HI = (\<lambda>port. push_bit 4 port + 3),
     NS_PLATFORM_MAC_PCP_REMAP = (\<lambda>pcp. if pcp \<le> 3 then pcp else 3),
     NS_PLATFORM_MAC_UNTAGGED_MAP = 3,
     NS_PLATFORM_NUM_PORTS_PER_MAC_0 = 2,
     NS_PLATFORM_NUM_PORTS_PER_MAC_1 = 0,
     NS_PLATFORM_PCLK = 633,
     NS_PLATFORM_PORT_SPEED = (\<lambda>_. 10),
     NS_PLATFORM_TCLK = 633,
     NS_PLATFORM_MAC_0_CORE_0_PORTS_MASK = 0x011,
     NS_PLATFORM_MAC_0_CORE_1_PORTS_MASK = 0x000,
     NS_PLATFORM_MAC_1_CORE_0_PORTS_MASK = 0x000,
     NS_PLATFORM_MAC_1_CORE_1_PORTS_MASK = 0x000\<rparr>"

definition LITHIUM_1x1_1x10 :: platform where
  "LITHIUM_1x1_1x10 = \<lparr>
     NS_PLATFORM_MAC_CORE = (\<lambda>_. 0),
     NS_PLATFORM_MAC_CORE_SERDES_LO = (\<lambda>port. push_bit 2 port),
     NS_PLATFORM_MAC_CORE_SERDES_HI = (\<lambda>port. push_bit 2 port),
     NS_PLATFORM_MAC_CORE_SERDES_TO_PORT = (\<lambda>mac core serdes. drop_bit 2 serdes),
     NS_PLATFORM_MAC_CHANNEL_LO = (\<lambda>port. push_bit 4 port),
     NS_PLATFORM_MAC_CHANNEL_HI = (\<lambda>port. push_bit 4 port + 3),
     NS_PLATFORM_MAC_PCP_REMAP = (\<lambda>pcp. if pcp \<le> 3 then pcp else 3),
     NS_PLATFORM_MAC_UNTAGGED_MAP = 3,
     NS_PLATFORM_NUM_PORTS_PER_MAC_0 = 2,
     NS_PLATFORM_NUM_PORTS_PER_MAC_1 = 0,
     NS_PLATFORM_PCLK = 633,
     NS_PLATFORM_PORT_SPEED = (\<lambda>port. if port = 0 then 1 else 10),
     NS_PLATFORM_TCLK = 633,
     NS_PLATFORM_MAC_0_CORE_0_PORTS_MASK = 0x011,
     NS_PLATFORM_MAC_0_CORE_1_PORTS_MASK = 0x000,
     NS_PLATFORM_MAC_1_CORE_0_PORTS_MASK = 0x000,
     NS_PLATFORM_MAC_1_CORE_1_PORTS_MASK = 0x000\<rparr>"

definition LITHIUM_1x10_1x1 :: platform where
  "LITHIUM_1x10_1x1 = \<lparr>
     NS_PLATFORM_MAC_CORE = (\<lambda>_. 0),
     NS_PLATFORM_MAC_CORE_SERDES_LO = (\<lambda>port. push_bit 2 port),
     NS_PLATFORM_MAC_CORE_SERDES_HI = (\<lambda>port. push_bit 2 port),
     NS_PLATFORM_MAC_CORE_SERDES_TO_PORT = (\<lambda>mac core serdes. drop_bit 2 serdes),
     NS_PLATFORM_MAC_CHANNEL_LO = (\<lambda>port. push_bit 4 port),
     NS_PLATFORM_MAC_CHANNEL_HI = (\<lambda>port. push_bit 4 port + 3),
     NS_PLATFORM_MAC_PCP_REMAP = (\<lambda>pcp. if pcp \<le> 3 then pcp else 3),
     NS_PLATFORM_MAC_UNTAGGED_MAP = 3,
     NS_PLATFORM_NUM_PORTS_PER_MAC_0 = 2,
     NS_PLATFORM_NUM_PORTS_PER_MAC_1 = 0,
     NS_PLATFORM_PCLK = 633,
     NS_PLATFORM_PORT_SPEED = (\<lambda>port. if port = 0 then 10 else 1),
     NS_PLATFORM_TCLK = 633,
     NS_PLATFORM_MAC_0_CORE_0_PORTS_MASK = 0x011,
     NS_PLATFORM_MAC_0_CORE_1_PORTS_MASK = 0x000,
     NS_PLATFORM_MAC_1_CORE_0_PORTS_MASK = 0x000,
     NS_PLATFORM_MAC_1_CORE_1_PORTS_MASK = 0x000\<rparr>"

definition LITHIUM_2x1 :: platform where
  "LITHIUM_2x1 = \<lparr>
     NS_PLATFORM_MAC_CORE = (\<lambda>_. 0),
     NS_PLATFORM_MAC_CORE_SERDES_LO = (\<lambda>port. push_bit 2 port),
     NS_PLATFORM_MAC_CORE_SERDES_HI = (\<lambda>port. push_bit 2 port),
     NS_PLATFORM_MAC_CORE_SERDES_TO_PORT = (\<lambda>mac core serdes. drop_bit 2 serdes),
     NS_PLATFORM_MAC_CHANNEL_LO = (\<lambda>port. push_bit 4 port),
     NS_PLATFORM_MAC_CHANNEL_HI = (\<lambda>port. push_bit 4 port + 3),
     NS_PLATFORM_MAC_PCP_REMAP = (\<lambda>pcp. if pcp \<le> 3 then pcp else 3),
     NS_PLATFORM_MAC_UNTAGGED_MAP = 3,
     NS_PLATFORM_NUM_PORTS_PER_MAC_0 = 2,
     NS_PLATFORM_NUM_PORTS_PER_MAC_1 = 0,
     NS_PLATFORM_PCLK = 633,
     NS_PLATFORM_PORT_SPEED = (\<lambda>_. 1),
     NS_PLATFORM_TCLK = 633,
     NS_PLATFORM_MAC_0_CORE_0_PORTS_MASK = 0x011,
     NS_PLATFORM_MAC_0_CORE_1_PORTS_MASK = 0x000,
     NS_PLATFORM_MAC_1_CORE_0_PORTS_MASK = 0x000,
     NS_PLATFORM_MAC_1_CORE_1_PORTS_MASK = 0x000\<rparr>"

definition BERYLLIUM :: platform where
  "BERYLLIUM = \<lparr>
     NS_PLATFORM_MAC_CORE = (\<lambda>_. 0),
     NS_PLATFORM_MAC_CORE_SERDES_LO = (\<lambda>port. push_bit 2 port),
     NS_PLATFORM_MAC_CORE_SERDES_HI = (\<lambda>port. push_bit 2 port + 3),
     NS_PLATFORM_MAC_CORE_SERDES_TO_PORT = (\<lambda>mac core serdes. drop_bit 2 serdes),
     NS_PLATFORM_MAC_CHANNEL_LO = (\<lambda>port. push_bit 4 port),
     NS_PLATFORM_MAC_CHANNEL_HI = (\<lambda>port. push_bit 4 port + 3),
     NS_PLATFORM_MAC_PCP_REMAP = (\<lambda>pcp. if pcp \<le> 3 then pcp else 3),
     NS_PLATFORM_MAC_UNTAGGED_MAP = 3,
     NS_PLATFORM_NUM_PORTS_PER_MAC_0 = 2,
     NS_PLATFORM_NUM_PORTS_PER_MAC_1 = 0,
     NS_PLATFORM_PCLK = 800,
     NS_PLATFORM_PORT_SPEED = (\<lambda>_. 40),
     NS_PLATFORM_TCLK = 800,
     NS_PLATFORM_MAC_0_CORE_0_PORTS_MASK = 0x011,
     NS_PLATFORM_MAC_0_CORE_1_PORTS_MASK = 0x000,
     NS_PLATFORM_MAC_1_CORE_0_PORTS_MASK = 0x000,
     NS_PLATFORM_MAC_1_CORE_1_PORTS_MASK = 0x000\<rparr>"

definition BERYLLIUM_4x10_1x40 :: platform where
  "BERYLLIUM_4x10_1x40 = \<lparr>
     NS_PLATFORM_MAC_CORE = (\<lambda>_. 0),
     NS_PLATFORM_MAC_CORE_SERDES_LO = (\<lambda>port. port),
     NS_PLATFORM_MAC_CORE_SERDES_HI = (\<lambda>port. port + (if port < 4 then 0 else 3)),
     NS_PLATFORM_MAC_CORE_SERDES_TO_PORT = (\<lambda>mac core serdes. serdes),
     NS_PLATFORM_MAC_CHANNEL_LO = (\<lambda>port. push_bit 2 port),
     NS_PLATFORM_MAC_CHANNEL_HI = (\<lambda>port. push_bit 2 port + 3),
     NS_PLATFORM_MAC_PCP_REMAP = (\<lambda>pcp. if pcp \<le> 3 then pcp else 3),
     NS_PLATFORM_MAC_UNTAGGED_MAP = 3,
     NS_PLATFORM_NUM_PORTS_PER_MAC_0 = 5,
     NS_PLATFORM_NUM_PORTS_PER_MAC_1 = 0,
     NS_PLATFORM_PCLK = 800,
     NS_PLATFORM_PORT_SPEED = (\<lambda>port. if port < 4 then 10 else 40),
     NS_PLATFORM_TCLK = 800,
     NS_PLATFORM_MAC_0_CORE_0_PORTS_MASK = 0x01F,
     NS_PLATFORM_MAC_0_CORE_1_PORTS_MASK = 0x000,
     NS_PLATFORM_MAC_1_CORE_0_PORTS_MASK = 0x000,
     NS_PLATFORM_MAC_1_CORE_1_PORTS_MASK = 0x000\<rparr>"

definition BERYLLIUM_8x10 :: platform where
  "BERYLLIUM_8x10 = \<lparr>
     NS_PLATFORM_MAC_CORE = (\<lambda>_. 0),
     NS_PLATFORM_MAC_CORE_SERDES_LO = (\<lambda>port. port),
     NS_PLATFORM_MAC_CORE_SERDES_HI = (\<lambda>port. port),
     NS_PLATFORM_MAC_CORE_SERDES_TO_PORT = (\<lambda>mac core serdes. serdes),
     NS_PLATFORM_MAC_CHANNEL_LO = (\<lambda>port. push_bit 2 port),
     NS_PLATFORM_MAC_CHANNEL_HI = (\<lambda>port. push_bit 2 port + 3),
     NS_PLATFORM_MAC_PCP_REMAP = (\<lambda>pcp. if pcp \<le> 3 then pcp else 3),
     NS_PLATFORM_MAC_UNTAGGED_MAP = 3,
     NS_PLATFORM_NUM_PORTS_PER_MAC_0 = 8,
     NS_PLATFORM_NUM_PORTS_PER_MAC_1 = 0,
     NS_PLATFORM_PCLK = 800,
     NS_PLATFORM_PORT_SPEED = (\<lambda>_. 10),
     NS_PLATFORM_TCLK = 800,
     NS_PLATFORM_MAC_0_CORE_0_PORTS_MASK = 0x0FF,
     NS_PLATFORM_MAC_0_CORE_1_PORTS_MASK = 0x000,
     NS_PLATFORM_MAC_1_CORE_0_PORTS_MASK = 0x000,
     NS_PLATFORM_MAC_1_CORE_1_PORTS_MASK = 0x000\<rparr>"

definition CARBON :: platform where
  "CARBON = \<lparr>
     NS_PLATFORM_MAC_CORE = (\<lambda>_. 0),
     NS_PLATFORM_MAC_CORE_SERDES_LO = (\<lambda>port. push_bit 2 port),
     NS_PLATFORM_MAC_CORE_SERDES_HI = (\<lambda>port. push_bit 2 port + 3),
     NS_PLATFORM_MAC_CORE_SERDES_TO_PORT = (\<lambda>mac core serdes. drop_bit 2 serdes),
     NS_PLATFORM_MAC_CHANNEL_LO = (\<lambda>port. push_bit 4 port),
     NS_PLATFORM_MAC_CHANNEL_HI = (\<lambda>port. push_bit 4 port + 3),
     NS_PLATFORM_MAC_PCP_REMAP = (\<lambda>pcp. if pcp \<le> 3 then pcp else 3),
     NS_PLATFORM_MAC_UNTAGGED_MAP = 3,
     NS_PLATFORM_NUM_PORTS_PER_MAC_0 = 2,
     NS_PLATFORM_NUM_PORTS_PER_MAC_1 = 0,
     NS_PLATFORM_PCLK = 800,
     NS_PLATFORM_PORT_SPEED = (\<lambda>_. 25),
     NS_PLATFORM_TCLK = 800,
     NS_PLATFORM_MAC_0_CORE_0_PORTS_MASK = 0x011,
     NS_PLATFORM_MAC_0_CORE_1_PORTS_MASK = 0x000,
     NS_PLATFORM_MAC_1_CORE_0_PORTS_MASK = 0x000,
     NS_PLATFORM_MAC_1_CORE_1_PORTS_MASK = 0x000\<rparr>"

definition CARBON_2x10 :: platform where
  "CARBON_2x10 = \<lparr>
     NS_PLATFORM_MAC_CORE = (\<lambda>_. 0),
     NS_PLATFORM_MAC_CORE_SERDES_LO = (\<lambda>port. push_bit 2 port),
     NS_PLATFORM_MAC_CORE_SERDES_HI = (\<lambda>port. push_bit 2 port),
     NS_PLATFORM_MAC_CORE_SERDES_TO_PORT = (\<lambda>mac core serdes. drop_bit 2 serdes),
     NS_PLATFORM_MAC_CHANNEL_LO = (\<lambda>port. push_bit 4 port),
     NS_PLATFORM_MAC_CHANNEL_HI = (\<lambda>port. push_bit 4 port + 3),
     NS_PLATFORM_MAC_PCP_REMAP = (\<lambda>pcp. if pcp \<le> 3 then pcp else 3),
     NS_PLATFORM_MAC_UNTAGGED_MAP = 3,
     NS_PLATFORM_NUM_PORTS_PER_MAC_0 = 2,
     NS_PLATFORM_NUM_PORTS_PER_MAC_1 = 0,
     NS_PLATFORM_PCLK = 800,
     NS_PLATFORM_PORT_SPEED = (\<lambda>_. 10),
     NS_PLATFORM_TCLK = 800,
     NS_PLATFORM_MAC_0_CORE_0_PORTS_MASK = 0x011,
     NS_PLATFORM_MAC_0_CORE_1_PORTS_MASK = 0x000,
     NS_PLATFORM_MAC_1_CORE_0_PORTS_MASK = 0x000,
     NS_PLATFORM_MAC_1_CORE_1_PORTS_MASK = 0x000\<rparr>"

definition CARBON_1x10_1x25 :: platform where
  "CARBON_1x10_1x25 = \<lparr>
     NS_PLATFORM_MAC_CORE = (\<lambda>_. 0),
     NS_PLATFORM_MAC_CORE_SERDES_LO = (\<lambda>port. push_bit 2 port),
     NS_PLATFORM_MAC_CORE_SERDES_HI = (\<lambda>port. push_bit 2 port + (if port > 0 then 3 else 0)),
     NS_PLATFORM_MAC_CORE_SERDES_TO_PORT = (\<lambda>mac core serdes. drop_bit 2 serdes),
     NS_PLATFORM_MAC_CHANNEL_LO = (\<lambda>port. push_bit 4 port),
     NS_PLATFORM_MAC_CHANNEL_HI = (\<lambda>port. push_bit 4 port + 3),
     NS_PLATFORM_MAC_PCP_REMAP = (\<lambda>pcp. if pcp \<le> 3 then pcp else 3),
     NS_PLATFORM_MAC_UNTAGGED_MAP = 3,
     NS_PLATFORM_NUM_PORTS_PER_MAC_0 = 2,
     NS_PLATFORM_NUM_PORTS_PER_MAC_1 = 0,
     NS_PLATFORM_PCLK = 800,
     NS_PLATFORM_PORT_SPEED = (\<lambda>port. if port > 0 then 25 else 10),
     NS_PLATFORM_TCLK = 800,
     NS_PLATFORM_MAC_0_CORE_0_PORTS_MASK = 0x011,
     NS_PLATFORM_MAC_0_CORE_1_PORTS_MASK = 0x000,
     NS_PLATFORM_MAC_1_CORE_0_PORTS_MASK = 0x000,
     NS_PLATFORM_MAC_1_CORE_1_PORTS_MASK = 0x000\<rparr>"

definition STARFIGHTER_2x40 :: platform where
  "STARFIGHTER_2x40 = \<lparr>
     NS_PLATFORM_MAC_CORE = (\<lambda>_. 0),
     NS_PLATFORM_MAC_CORE_SERDES_LO = (\<lambda>port. push_bit 2 port),
     NS_PLATFORM_MAC_CORE_SERDES_HI = (\<lambda>port. push_bit 2 port + 3),
     NS_PLATFORM_MAC_CORE_SERDES_TO_PORT = (\<lambda>mac core serdes. drop_bit 2 serdes),
     NS_PLATFORM_MAC_CHANNEL_LO = (\<lambda>port. push_bit 4 port),
     NS_PLATFORM_MAC_CHANNEL_HI = (\<lambda>port. push_bit 4 port + 3),
     NS_PLATFORM_MAC_PCP_REMAP = (\<lambda>pcp. if pcp \<le> 3 then pcp else 3),
     NS_PLATFORM_MAC_UNTAGGED_MAP = 3,
     NS_PLATFORM_NUM_PORTS_PER_MAC_0 = 2,
     NS_PLATFORM_NUM_PORTS_PER_MAC_1 = 0,
     NS_PLATFORM_PCLK = 1200,
     NS_PLATFORM_PORT_SPEED = (\<lambda>_. 40),
     NS_PLATFORM_TCLK = 1200,
     NS_PLATFORM_MAC_0_CORE_0_PORTS_MASK = 0x011,
     NS_PLATFORM_MAC_0_CORE_1_PORTS_MASK = 0x000,
     NS_PLATFORM_MAC_1_CORE_0_PORTS_MASK = 0x000,
     NS_PLATFORM_MAC_1_CORE_1_PORTS_MASK = 0x000\<rparr>"

definition STARFIGHTER_1x100 :: platform where
  "STARFIGHTER_1x100 = \<lparr>
     NS_PLATFORM_MAC_CORE = (\<lambda>_. 0),
     NS_PLATFORM_MAC_CORE_SERDES_LO = (\<lambda>port. push_bit 2 port),
     NS_PLATFORM_MAC_CORE_SERDES_HI = (\<lambda>port. push_bit 2 port + 0),
     NS_PLATFORM_MAC_CORE_SERDES_TO_PORT = (\<lambda>mac core serdes. drop_bit 2 serdes),
     NS_PLATFORM_MAC_CHANNEL_LO = (\<lambda>port. push_bit 2 port),
     NS_PLATFORM_MAC_CHANNEL_HI = (\<lambda>port. push_bit 2 port + 3),
     NS_PLATFORM_MAC_PCP_REMAP = (\<lambda>pcp. if pcp \<le> 3 then pcp else 3),
     NS_PLATFORM_MAC_UNTAGGED_MAP = 3,
     NS_PLATFORM_NUM_PORTS_PER_MAC_0 = 1,
     NS_PLATFORM_NUM_PORTS_PER_MAC_1 = 0,
     NS_PLATFORM_PCLK = 1200,
     NS_PLATFORM_PORT_SPEED = (\<lambda>_. 100),
     NS_PLATFORM_TCLK = 1200,
     NS_PLATFORM_MAC_0_CORE_0_PORTS_MASK = 0x001,
     NS_PLATFORM_MAC_0_CORE_1_PORTS_MASK = 0x000,
     NS_PLATFORM_MAC_1_CORE_0_PORTS_MASK = 0x000,
     NS_PLATFORM_MAC_1_CORE_1_PORTS_MASK = 0x000\<rparr>"

definition SODIUM_2x10 :: platform where
  "SODIUM_2x10 = \<lparr>
     NS_PLATFORM_MAC_CORE = (\<lambda>_. 0),
     NS_PLATFORM_MAC_CORE_SERDES_LO = (\<lambda>port. push_bit 2 port),
     NS_PLATFORM_MAC_CORE_SERDES_HI = (\<lambda>port. push_bit 2 port),
     NS_PLATFORM_MAC_CORE_SERDES_TO_PORT = (\<lambda>mac core serdes. drop_bit 2 serdes),
     NS_PLATFORM_MAC_CHANNEL_LO = (\<lambda>port. push_bit 4 port),
     NS_PLATFORM_MAC_CHANNEL_HI = (\<lambda>port. push_bit 4 port + 3),
     NS_PLATFORM_MAC_PCP_REMAP = (\<lambda>pcp. if pcp \<le> 3 then pcp else 3),
     NS_PLATFORM_MAC_UNTAGGED_MAP = 3,
     NS_PLATFORM_NUM_PORTS_PER_MAC_0 = 2,
     NS_PLATFORM_NUM_PORTS_PER_MAC_1 = 0,
     NS_PLATFORM_PCLK = 800,
     NS_PLATFORM_PORT_SPEED = (\<lambda>_. 10),
     NS_PLATFORM_TCLK = 800,
     NS_PLATFORM_MAC_0_CORE_0_PORTS_MASK = 0x011,
     NS_PLATFORM_MAC_0_CORE_1_PORTS_MASK = 0x000,
     NS_PLATFORM_MAC_1_CORE_0_PORTS_MASK = 0x000,
     NS_PLATFORM_MAC_1_CORE_1_PORTS_MASK = 0x000\<rparr>"

definition CADMIUM_DDR_1x50 :: platform where
  "CADMIUM_DDR_1x50 = \<lparr>
     NS_PLATFORM_MAC_CORE = (\<lambda>port. if port = 0 then 0 else 1),
     NS_PLATFORM_MAC_CORE_SERDES_LO = (\<lambda>_. 0),
     NS_PLATFORM_MAC_CORE_SERDES_HI = (\<lambda>_. 0 + 3),
     NS_PLATFORM_MAC_CORE_SERDES_TO_PORT = (\<lambda>mac core serdes. if core = 0 then 0 else 12),
     NS_PLATFORM_MAC_CHANNEL_LO = (\<lambda>port. if port = 0 then 0 else 64),
     NS_PLATFORM_MAC_CHANNEL_HI = (\<lambda>port. (if port = 0 then 0 else 64) + 3),
     NS_PLATFORM_MAC_PCP_REMAP = (\<lambda>pcp. if pcp \<le> 3 then pcp else 3),
     NS_PLATFORM_MAC_UNTAGGED_MAP = 3,
     NS_PLATFORM_NUM_PORTS_PER_MAC_0 = 1,
     NS_PLATFORM_NUM_PORTS_PER_MAC_1 = 0,
     NS_PLATFORM_PCLK = 500,
     NS_PLATFORM_PORT_SPEED = (\<lambda>port. if port = 0 then 50 else 1),
     NS_PLATFORM_TCLK = 500,
     NS_PLATFORM_MAC_0_CORE_0_PORTS_MASK = 0x001,
     NS_PLATFORM_MAC_0_CORE_1_PORTS_MASK = 0x000,
     NS_PLATFORM_MAC_1_CORE_0_PORTS_MASK = 0x000,
     NS_PLATFORM_MAC_1_CORE_1_PORTS_MASK = 0x000\<rparr>"

text \<open>The \<open>#if\<close> chain on \<open>NS_PLATFORM_TYPE\<close>; 0 is intentionally invalid.\<close>

definition platform_of :: "nat \<Rightarrow> platform option" where
  "platform_of ty =
    (if ty = 1 then Some HYDROGEN
     else if ty = 2 then Some HYDROGEN_4x10
     else if ty = 3 then Some LITHIUM
     else if ty = 4 then Some LITHIUM_1x1_1x10
     else if ty = 5 then Some LITHIUM_1x10_1x1
     else if ty = 6 then Some LITHIUM_2x1
     else if ty = 7 then Some BERYLLIUM
     else if ty = 8 then Some BERYLLIUM_4x10_1x40
     else if ty = 9 then Some BERYLLIUM_8x10
     else if ty = 10 then Some CARBON
     else if ty = 11 then Some CARBON_2x10
     else if ty = 12 then Some CARBON_1x10_1x25
     else if ty = 13 \<or> ty = 15 then Some STARFIGHTER_2x40
     else if ty = 14 \<or> ty = 18 then Some STARFIGHTER_1x100
     else if ty = 16 \<or> ty = 17 then Some SODIUM_2x10
     else if ty = 19 then Some CADMIUM_DDR_1x50
     else None)"

section \<open>Derived macros\<close>

definition NS_PLATFORM_NUM_PORTS :: "platform \<Rightarrow> nat" where
  "NS_PLATFORM_NUM_PORTS p = NS_PLATFORM_NUM_PORTS_PER_MAC_0 p + NS_PLATFORM_NUM_PORTS_PER_MAC_1 p"

definition NS_PLATFORM_MAC :: "platform \<Rightarrow> nat \<Rightarrow> nat" where
  "NS_PLATFORM_MAC p port = (if port < NS_PLATFORM_NUM_PORTS_PER_MAC_0 p then 0 else 1)"

definition NS_PLATFORM_MAC_CHANNEL :: "platform \<Rightarrow> nat \<Rightarrow> nat \<Rightarrow> nat" where
  "NS_PLATFORM_MAC_CHANNEL p port pcp =
     NS_PLATFORM_MAC_CHANNEL_LO p port + NS_PLATFORM_MAC_PCP_REMAP p pcp"

definition NS_PLATFORM_MAC_CHANNEL_UNTAGGED :: "platform \<Rightarrow> nat \<Rightarrow> nat" where
  "NS_PLATFORM_MAC_CHANNEL_UNTAGGED p port =
     NS_PLATFORM_MAC_CHANNEL_LO p port + NS_PLATFORM_MAC_UNTAGGED_MAP p"

definition NS_PLATFORM_MAC_NUM_SERDES :: "platform \<Rightarrow> nat \<Rightarrow> int" where
  "NS_PLATFORM_MAC_NUM_SERDES p port =
     int (NS_PLATFORM_MAC_CORE_SERDES_HI p port) - int (NS_PLATFORM_MAC_CORE_SERDES_LO p port) + 1"

definition NS_PLATFORM_MAC_SERDES_HI :: "platform \<Rightarrow> nat \<Rightarrow> nat" where
  "NS_PLATFORM_MAC_SERDES_HI p port =
     NS_PLATFORM_MAC_CORE p port * 12 + NS_PLATFORM_MAC_CORE_SERDES_HI p port"

definition NS_PLATFORM_MAC_SERDES_LO :: "platform \<Rightarrow> nat \<Rightarrow> nat" where
  "NS_PLATFORM_MAC_SERDES_LO p port =
     NS_PLATFORM_MAC_CORE p port * 12 + NS_PLATFORM_MAC_CORE_SERDES_LO p port"

definition NS_PLATFORM_MAC_SERDES_TO_PORT :: "platform \<Rightarrow> nat \<Rightarrow> nat \<Rightarrow> nat" where
  "NS_PLATFORM_MAC_SERDES_TO_PORT p mac serdes =
    (if serdes < 12 then NS_PLATFORM_MAC_CORE_SERDES_TO_PORT p mac 0 serdes
     else NS_PLATFORM_MAC_CORE_SERDES_TO_PORT p mac 1 (serdes - 12))"

definition NS_PLATFORM_NBI_TM_QID :: "platform \<Rightarrow> nat \<Rightarrow> nat \<Rightarrow> nat \<Rightarrow> nat" where
  "NS_PLATFORM_NBI_TM_QID p port pcp l2q = push_bit 3 (NS_PLATFORM_MAC_CHANNEL p port pcp) + l2q"

definition NS_PLATFORM_NBI_TM_QID_HI :: "platform \<Rightarrow> nat \<Rightarrow> nat" where
  "NS_PLATFORM_NBI_TM_QID_HI p port = push_bit 3 (NS_PLATFORM_MAC_CHANNEL_HI p port) + 7"

definition NS_PLATFORM_NBI_TM_QID_LO :: "platform \<Rightarrow> nat \<Rightarrow> nat" where
  "NS_PLATFORM_NBI_TM_QID_LO p port = push_bit 3 (NS_PLATFORM_MAC_CHANNEL_LO p port)"

definition NS_PLATFORM_NBI_TM_QID_UNTAGGED :: "platform \<Rightarrow> nat \<Rightarrow> nat \<Rightarrow> nat" where
  "NS_PLATFORM_NBI_TM_QID_UNTAGGED p port l2q = push_bit 3 (NS_PLATFORM_MAC_CHANNEL_UNTAGGED p port)"

lemmas platform_blocks =
  HYDROGEN_def
  HYDROGEN_4x10_def
  LITHIUM_def
  LITHIUM_1x1_1x10_def
  LITHIUM_1x10_1x1_def
  LITHIUM_2x1_def
  BERYLLIUM_def
  BERYLLIUM_4x10_1x40_def
  BERYLLIUM_8x10_def
  CARBON_def
  CARBON_2x10_def
  CARBON_1x10_1x25_def
  STARFIGHTER_2x40_def
  STARFIGHTER_1x100_def
  SODIUM_2x10_def
  CADMIUM_DDR_1x50_def

lemmas [cdef] =
  NS_PLATFORM_NUM_PORTS_def NS_PLATFORM_MAC_def NS_PLATFORM_MAC_CHANNEL_def
  NS_PLATFORM_MAC_CHANNEL_UNTAGGED_def NS_PLATFORM_MAC_NUM_SERDES_def
  NS_PLATFORM_MAC_SERDES_HI_def NS_PLATFORM_MAC_SERDES_LO_def
  NS_PLATFORM_MAC_SERDES_TO_PORT_def NS_PLATFORM_NBI_TM_QID_def
  NS_PLATFORM_NBI_TM_QID_HI_def NS_PLATFORM_NBI_TM_QID_LO_def
  NS_PLATFORM_NBI_TM_QID_UNTAGGED_def

section \<open>Facts about every platform\<close>

lemma platform_of_range: "(\<exists>p. platform_of ty = Some p) \<longleftrightarrow> 1 \<le> ty \<and> ty \<le> 19"
  unfolding platform_of_def by (simp split: if_split) presburger

definition platforms :: "platform list" where
  "platforms = [HYDROGEN, HYDROGEN_4x10, LITHIUM, LITHIUM_1x1_1x10, LITHIUM_1x10_1x1, LITHIUM_2x1, BERYLLIUM, BERYLLIUM_4x10_1x40, BERYLLIUM_8x10, CARBON, CARBON_2x10, CARBON_1x10_1x25, STARFIGHTER_2x40, STARFIGHTER_1x100, SODIUM_2x10, CADMIUM_DDR_1x50]"

lemma platform_of_mem: "platform_of ty = Some p \<Longrightarrow> p \<in> set platforms"
  by (simp add: platform_of_def platforms_def split: if_splits)

text \<open>
  The facts every board has, as an executable check over its finitely many
  ports; the check is evaluated on all blocks once and used through the
  lemmas below.
\<close>

definition port_ok :: "platform \<Rightarrow> nat \<Rightarrow> bool" where
  "port_ok p port \<longleftrightarrow>
     NS_PLATFORM_MAC_SERDES_TO_PORT p (NS_PLATFORM_MAC p port) (NS_PLATFORM_MAC_SERDES_LO p port) = port \<and>
     NS_PLATFORM_MAC_CORE_SERDES_LO p port \<le> NS_PLATFORM_MAC_CORE_SERDES_HI p port \<and>
     NS_PLATFORM_MAC_CORE_SERDES_HI p port \<le> 11 \<and>
     NS_PLATFORM_MAC_CHANNEL_HI p port = NS_PLATFORM_MAC_CHANNEL_LO p port + 3 \<and>
     NS_PLATFORM_MAC_CHANNEL_HI p port \<le> 127 \<and>
     NS_PLATFORM_MAC_CORE p port = 0 \<and> NS_PLATFORM_MAC p port = 0"

definition ports_apart :: "platform \<Rightarrow> nat \<Rightarrow> nat \<Rightarrow> bool" where
  "ports_apart p i j \<longleftrightarrow> NS_PLATFORM_MAC_CHANNEL_HI p i < NS_PLATFORM_MAC_CHANNEL_LO p j \<and>
     NS_PLATFORM_MAC_CORE_SERDES_HI p i < NS_PLATFORM_MAC_CORE_SERDES_LO p j"

definition mask_ok :: "platform \<Rightarrow> bool" where
  "mask_ok p \<longleftrightarrow>
     map (bit (NS_PLATFORM_MAC_0_CORE_0_PORTS_MASK p)) [0..<32] =
     map (\<lambda>s. List.member (map (NS_PLATFORM_MAC_CORE_SERDES_LO p) [0..<NS_PLATFORM_NUM_PORTS p]) s) [0..<32]"

lemma ports_ok_check:
  "list_all (\<lambda>p. list_all (port_ok p) [0..<NS_PLATFORM_NUM_PORTS p]) platforms"
  by code_simp

lemma ports_apart_check:
  "list_all (\<lambda>p. list_all (\<lambda>j. list_all (\<lambda>i. ports_apart p i j) [0..<j])
     [0..<NS_PLATFORM_NUM_PORTS p]) platforms"
  by code_simp

lemma masks_check: "list_all mask_ok platforms"
  by code_simp

lemma pcp_remap_all:
  "platform_of ty = Some p \<Longrightarrow>
     NS_PLATFORM_MAC_PCP_REMAP p pcp = (if pcp \<le> 3 then pcp else 3) \<and> NS_PLATFORM_MAC_UNTAGGED_MAP p = 3"
  by (drule platform_of_mem) (auto simp: platforms_def platform_blocks)

lemma port_ok:
  assumes "platform_of ty = Some p" "port < NS_PLATFORM_NUM_PORTS p"
  shows "port_ok p port"
  using ports_ok_check platform_of_mem [OF assms(1)] assms(2) by (simp add: list_all_iff)

lemma ports_apart:
  assumes "platform_of ty = Some p" "j < NS_PLATFORM_NUM_PORTS p" "i < j"
  shows "ports_apart p i j"
  using ports_apart_check platform_of_mem [OF assms(1)] assms(2,3) by (simp add: list_all_iff)

lemma mask_ok:
  assumes "platform_of ty = Some p" "n < 32"
  shows "bit (NS_PLATFORM_MAC_0_CORE_0_PORTS_MASK p) n \<longleftrightarrow>
    n \<in> NS_PLATFORM_MAC_CORE_SERDES_LO p ` {..<NS_PLATFORM_NUM_PORTS p}"
  using masks_check platform_of_mem [OF assms(1)] assms(2)
  unfolding list_all_iff mask_ok_def List.member_iff map_eq_conv
  by (fastforce simp: atLeast0LessThan)

lemma tm_qid_eq:
  assumes "platform_of ty = Some p"
  shows "NS_PLATFORM_NBI_TM_QID p port pcp l2q =
    8 * (NS_PLATFORM_MAC_CHANNEL_LO p port + (if pcp \<le> 3 then pcp else 3)) + l2q"
  using pcp_remap_all [OF assms, of pcp] by (simp add: cdef push_bit_eq_mult)

section \<open>Properties\<close>

text \<open>On every supported board the macro that turns a MAC SerDes number
  into a port inverts the macro that gives a port's lowest SerDes.\<close>

lemma platform_serdes_roundtrip:
  assumes "platform_of ty = Some p" "port < NS_PLATFORM_NUM_PORTS p"
  shows "NS_PLATFORM_MAC_SERDES_TO_PORT p (NS_PLATFORM_MAC p port) (NS_PLATFORM_MAC_SERDES_LO p port) = port"
  using port_ok [OF assms] unfolding port_ok_def by blast

text \<open>On every supported board the NBI traffic manager queue of a port,
  priority and level-2 input queue lies between the port's lowest and highest
  queue, within the 1024 queues of the traffic manager, and two different
  ports never share a queue.\<close>

lemma platform_tm_queues:
  assumes "platform_of ty = Some p" "i < NS_PLATFORM_NUM_PORTS p" "j < NS_PLATFORM_NUM_PORTS p"
    and "l2q < 8" "l2q' < 8"
  shows "NS_PLATFORM_NBI_TM_QID_LO p i \<le> NS_PLATFORM_NBI_TM_QID p i pcp l2q \<and>
     NS_PLATFORM_NBI_TM_QID p i pcp l2q \<le> NS_PLATFORM_NBI_TM_QID_HI p i \<and>
     NS_PLATFORM_NBI_TM_QID_HI p i \<le> 1023 \<and>
     (NS_PLATFORM_NBI_TM_QID p i pcp l2q = NS_PLATFORM_NBI_TM_QID p j pcp' l2q' \<longrightarrow> i = j)"
proof -
  have ok: "NS_PLATFORM_MAC_CHANNEL_HI p k = NS_PLATFORM_MAC_CHANNEL_LO p k + 3 \<and>
      NS_PLATFORM_MAC_CHANNEL_LO p k \<le> 124" if "k = i \<or> k = j" for k
    using that port_ok [OF assms(1,2)] port_ok [OF assms(1,3)] unfolding port_ok_def by auto
  have "i = j \<or> NS_PLATFORM_MAC_CHANNEL_LO p i + 3 < NS_PLATFORM_MAC_CHANNEL_LO p j
      \<or> NS_PLATFORM_MAC_CHANNEL_LO p j + 3 < NS_PLATFORM_MAC_CHANNEL_LO p i"
    using ports_apart [OF assms(1,3), of i] ports_apart [OF assms(1,2), of j] ok [of i] ok [of j]
    unfolding ports_apart_def by (cases i j rule: linorder_cases) auto
  then show ?thesis
    using ok [of i] ok [of j] assms(4,5) unfolding tm_qid_eq [OF assms(1)]
      NS_PLATFORM_NBI_TM_QID_LO_def NS_PLATFORM_NBI_TM_QID_HI_def push_bit_eq_mult
    by auto
qed

text \<open>On every supported board the port mask of MAC core 0 has bit \<open>n\<close>
  set exactly when SerDes \<open>n\<close> is the lowest SerDes of one of the board's ports.\<close>

lemma platform_ports_mask:
  assumes "platform_of ty = Some p" "n < 32"
  shows "bit (NS_PLATFORM_MAC_0_CORE_0_PORTS_MASK p) n \<longleftrightarrow>
    (\<exists>port < NS_PLATFORM_NUM_PORTS p. NS_PLATFORM_MAC_SERDES_LO p port = n)"
proof -
  have "NS_PLATFORM_MAC_SERDES_LO p port = NS_PLATFORM_MAC_CORE_SERDES_LO p port"
    if "port < NS_PLATFORM_NUM_PORTS p" for port
    using port_ok [OF assms(1) that] unfolding port_ok_def NS_PLATFORM_MAC_SERDES_LO_def by simp
  then show ?thesis unfolding mask_ok [OF assms] by auto
qed

text \<open>The queue macro for untagged frames ignores its level-2 input queue
  argument: it always names input queue 0 of the channel that priorities 3 and
  above use, although the header documents the argument as selecting the
  queue.\<close>

lemma platform_untagged_qid_ignores_l2q:
  assumes "platform_of ty = Some p" "3 \<le> pcp"
  shows "NS_PLATFORM_NBI_TM_QID_UNTAGGED p port l2q = NS_PLATFORM_NBI_TM_QID p port pcp 0"
  using pcp_remap_all [OF assms(1), of pcp] assms(2)
  by (auto simp: cdef push_bit_eq_mult)

end
