(* ===== verification/TmConfig.thy ===== *)
theory TmConfig
  imports Platform
begin

unbundle bit_operations_syntax

text \<open>
  \<open>firmware/apps/nic/config.h\<close>: the start-up configuration of the NBI traffic
  managers.  The header computes, from the constants of the board, two families
  of numbered macros that the initialisation code of the NBI reads: the ranges
  of queues with the depth of a queue (\<open>NBI0_TM_Q_CFG_RANGE0\<close> ...) and the ranges
  of shapers with their rates (\<open>NBI0_TM_SHAPER_CFG_RANGE0\<close> ...).  A family is a
  function from the number of the macro to its value; \<open>None\<close> is a macro that the
  \<open>#if\<close> conditions leave undefined.  The header writes every member of a family
  out; members that differ in the port number only are one equation here.

  Shown: on every board each queue that the application enables for a port
  belongs to exactly one configured range, no other queue is configured and the
  queues never ask for more than 16384 packet buffers; where shapers are used
  each channel of a port has its level-2 shaper, each port a level-1 shaper of
  its own, and the rate of the root is the sum of the rates of the ports.
\<close>

section \<open>Queues\<close>

record tm_q_range =
  q_enabled :: bool
  q_first :: nat
  q_last :: nat
  q_log2_size :: nat

definition NS_PLATFORM_NBI_TM_10G_QSIZE :: nat where "NS_PLATFORM_NBI_TM_10G_QSIZE = 6"
definition NS_PLATFORM_NBI_TM_40G_QSIZE :: nat where "NS_PLATFORM_NBI_TM_40G_QSIZE = 8"

text \<open>\<open>None\<close> is the \<open>#error\<close> for more than 8 ports.\<close>

definition NS_PLATFORM_NBI_TM_0_QSIZE :: "platform \<Rightarrow> nat option" where
  "NS_PLATFORM_NBI_TM_0_QSIZE p =
    (if NS_PLATFORM_NUM_PORTS_PER_MAC_0 p \<le> 1 then Some 9
     else if NS_PLATFORM_NUM_PORTS_PER_MAC_0 p \<le> 2 then Some 8
     else if NS_PLATFORM_NUM_PORTS_PER_MAC_0 p \<le> 4 then Some 7
     else if NS_PLATFORM_NUM_PORTS_PER_MAC_0 p \<le> 8 then Some 6
     else None)"

definition NS_PLATFORM_NBI_TM_1_QSIZE :: "platform \<Rightarrow> nat option" where
  "NS_PLATFORM_NBI_TM_1_QSIZE p =
    (if NS_PLATFORM_NUM_PORTS_PER_MAC_1 p \<le> 1 then Some 9
     else if NS_PLATFORM_NUM_PORTS_PER_MAC_1 p \<le> 2 then Some 8
     else if NS_PLATFORM_NUM_PORTS_PER_MAC_1 p \<le> 4 then Some 7
     else if NS_PLATFORM_NUM_PORTS_PER_MAC_1 p \<le> 8 then Some 6
     else None)"

definition NS_PLATFORM_BERYLLIUM_4x10_1x40 :: nat where "NS_PLATFORM_BERYLLIUM_4x10_1x40 = 8"
definition NS_PLATFORM_CARBON :: nat where "NS_PLATFORM_CARBON = 10"
definition NS_PLATFORM_CARBON_1x10_1x25 :: nat where "NS_PLATFORM_CARBON_1x10_1x25 = 12"

text \<open>The queue ranges of NBI 0 on the board with ports of two speeds, and on all
  other boards.\<close>

definition mixed_q_cfg_range :: "platform \<Rightarrow> nat \<Rightarrow> tm_q_range option" where
  "mixed_q_cfg_range p k =
    (if k < 4 then Some \<lparr>q_enabled = True, q_first = NS_PLATFORM_NBI_TM_QID_LO p k, q_last = NS_PLATFORM_NBI_TM_QID_HI p k,
       q_log2_size = NS_PLATFORM_NBI_TM_10G_QSIZE\<rparr>
     else if k = 4 then Some \<lparr>q_enabled = True, q_first = NS_PLATFORM_NBI_TM_QID_LO p k, q_last = NS_PLATFORM_NBI_TM_QID_HI p k,
       q_log2_size = NS_PLATFORM_NBI_TM_40G_QSIZE\<rparr>
     else None)"

definition NBI0_TM_Q_CFG_RANGE :: "nat \<Rightarrow> platform \<Rightarrow> nat \<Rightarrow> tm_q_range option" where
  "NBI0_TM_Q_CFG_RANGE ty p k =
    (if ty = NS_PLATFORM_BERYLLIUM_4x10_1x40 then mixed_q_cfg_range p k
     else if k < 8 \<and> NS_PLATFORM_NUM_PORTS_PER_MAC_0 p > k
     then map_option (\<lambda>qs. \<lparr>q_enabled = True, q_first = NS_PLATFORM_NBI_TM_QID_LO p k, q_last = NS_PLATFORM_NBI_TM_QID_HI p k,
       q_log2_size = qs\<rparr>) (NS_PLATFORM_NBI_TM_0_QSIZE p)
     else None)"

text \<open>The ranges of NBI 1 add the index of the port to the queue number of the
  first port.\<close>

definition NBI1_TM_Q_CFG_RANGE :: "nat \<Rightarrow> platform \<Rightarrow> nat \<Rightarrow> tm_q_range option" where
  "NBI1_TM_Q_CFG_RANGE ty p k =
    (if ty = NS_PLATFORM_BERYLLIUM_4x10_1x40 then None
     else if k < 8 \<and> NS_PLATFORM_NUM_PORTS_PER_MAC_1 p > k
     then map_option (\<lambda>qs. \<lparr>q_enabled = True,
       q_first = NS_PLATFORM_NBI_TM_QID_LO p (NS_PLATFORM_NUM_PORTS_PER_MAC_0 p) + k,
       q_last = NS_PLATFORM_NBI_TM_QID_HI p (NS_PLATFORM_NUM_PORTS_PER_MAC_0 p) + k,
       q_log2_size = qs\<rparr>) (NS_PLATFORM_NBI_TM_1_QSIZE p)
     else None)"

section \<open>Shapers\<close>

record tm_shaper_range =
  sh_enabled :: bool
  sh_first :: nat
  sh_last :: nat
  sh_rate :: nat
  sh_threshold :: nat
  sh_overshoot :: nat
  sh_rate_adj :: int

definition NBI_TM_ENABLE_SHAPER :: "nat \<Rightarrow> bool" where
  "NBI_TM_ENABLE_SHAPER ty \<longleftrightarrow> ty = NS_PLATFORM_CARBON \<or> ty = NS_PLATFORM_CARBON_1x10_1x25"

definition PPM :: nat where "PPM = 1"

definition NBI_TM_L2_SHAPER_RATE :: "platform \<Rightarrow> nat \<Rightarrow> nat" where
  "NBI_TM_L2_SHAPER_RATE p port = NS_PLATFORM_PORT_SPEED p port * 100 * 1000 div NS_PLATFORM_PCLK p + PPM"

definition NBI_TM_L1_SHAPER_NUM :: "platform \<Rightarrow> nat \<Rightarrow> nat" where
  "NBI_TM_L1_SHAPER_NUM p port = 128 + drop_bit 3 (NS_PLATFORM_MAC_CHANNEL_LO p port)"

definition NBI_TM_L1_SHAPER_RATE :: "platform \<Rightarrow> nat \<Rightarrow> nat" where
  "NBI_TM_L1_SHAPER_RATE p port = NBI_TM_L2_SHAPER_RATE p port"

definition NBI_TM_L0_SHAPER_NUM :: nat where "NBI_TM_L0_SHAPER_NUM = 144"

definition NBI0_TM_L0_SHAPER_RATE :: "platform \<Rightarrow> nat option" where
  "NBI0_TM_L0_SHAPER_RATE p =
    (if NS_PLATFORM_NUM_PORTS_PER_MAC_0 p \<in> {1, 2, 3, 4, 5, 6, 7, 8}
     then Some (sum_list (map (NBI_TM_L1_SHAPER_RATE p) [0..<NS_PLATFORM_NUM_PORTS_PER_MAC_0 p])) else None)"

text \<open>The level-2 range covers the channels of a port.\<close>

definition l2_shaper :: "platform \<Rightarrow> nat \<Rightarrow> tm_shaper_range" where
  "l2_shaper p port = \<lparr>sh_enabled = True, sh_first = NS_PLATFORM_MAC_CHANNEL_LO p port, sh_last = NS_PLATFORM_MAC_CHANNEL_HI p port,
     sh_rate = NBI_TM_L2_SHAPER_RATE p port, sh_threshold = 0, sh_overshoot = 7, sh_rate_adj = -20\<rparr>"

definition l1_shaper :: "platform \<Rightarrow> nat \<Rightarrow> tm_shaper_range" where
  "l1_shaper p port = \<lparr>sh_enabled = True, sh_first = NBI_TM_L1_SHAPER_NUM p port, sh_last = NBI_TM_L1_SHAPER_NUM p port,
     sh_rate = NBI_TM_L1_SHAPER_RATE p port, sh_threshold = 0, sh_overshoot = 7, sh_rate_adj = -20\<rparr>"

definition NBI0_TM_SHAPER_CFG_RANGE :: "nat \<Rightarrow> platform \<Rightarrow> nat \<Rightarrow> tm_shaper_range option" where
  "NBI0_TM_SHAPER_CFG_RANGE ty p k =
    (if \<not> NBI_TM_ENABLE_SHAPER ty \<or> k > 16 then None
     else if k = 0 then (if NS_PLATFORM_NUM_PORTS_PER_MAC_0 p > 0
       then map_option (\<lambda>r. \<lparr>sh_enabled = True, sh_first = NBI_TM_L0_SHAPER_NUM, sh_last = NBI_TM_L0_SHAPER_NUM, sh_rate = r,
              sh_threshold = 7, sh_overshoot = 7, sh_rate_adj = -20\<rparr>) (NBI0_TM_L0_SHAPER_RATE p) else None)
     else if NS_PLATFORM_NUM_PORTS_PER_MAC_0 p > (k - 1) div 2
       then Some (if odd k then l1_shaper p ((k - 1) div 2) else l2_shaper p ((k - 1) div 2))
     else None)"

text \<open>On NBI 1 the sum of the rates is written with unbalanced parentheses from two
  ports on, so it is an expression for one port only (\<open>None\<close> otherwise).\<close>

definition NBI1_TM_L0_SHAPER_RATE :: "platform \<Rightarrow> nat option" where
  "NBI1_TM_L0_SHAPER_RATE p =
    (if NS_PLATFORM_NUM_PORTS_PER_MAC_1 p = 1 then Some (NBI_TM_L1_SHAPER_RATE p (NS_PLATFORM_NUM_PORTS_PER_MAC_0 p + 0)) else None)"

definition NBI1_TM_SHAPER_CFG_RANGE :: "nat \<Rightarrow> platform \<Rightarrow> nat \<Rightarrow> tm_shaper_range option" where
  "NBI1_TM_SHAPER_CFG_RANGE ty p k =
    (if \<not> NBI_TM_ENABLE_SHAPER ty \<or> k > 16 then None
     else if k = 0 then (if NS_PLATFORM_NUM_PORTS_PER_MAC_1 p > 0
       then map_option (\<lambda>r. \<lparr>sh_enabled = True, sh_first = NBI_TM_L0_SHAPER_NUM, sh_last = NBI_TM_L0_SHAPER_NUM, sh_rate = r,
              sh_threshold = 7, sh_overshoot = 7, sh_rate_adj = -20\<rparr>) (NBI1_TM_L0_SHAPER_RATE p) else None)
     else if NS_PLATFORM_NUM_PORTS_PER_MAC_1 p > (k - 1) div 2
       then Some (if odd k then l1_shaper p (NS_PLATFORM_NUM_PORTS_PER_MAC_0 p + (k - 1) div 2)
                  else l2_shaper p (NS_PLATFORM_NUM_PORTS_PER_MAC_0 p + (k - 1) div 2))
     else None)"

section \<open>Reorder contexts\<close>

definition GRO_CTX_PER_BLOCK :: "nat \<Rightarrow> nat option" where
  "GRO_CTX_PER_BLOCK num_blocks = (if num_blocks > 16 then Some 1 else if num_blocks < 1 then None else Some (16 div num_blocks))"

text \<open>The blocks together have the sixteen contexts that the comment asks for when
  their number divides 16; with three blocks they have fifteen.\<close>

lemma gro_contexts:
  "n \<in> {1, 2, 4, 8, 16} \<Longrightarrow> map_option ((*) n) (GRO_CTX_PER_BLOCK n) = Some 16"
  "map_option ((*) 3) (GRO_CTX_PER_BLOCK 3) = Some 15"
  by (auto simp: GRO_CTX_PER_BLOCK_def)

section \<open>The configured resources\<close>

definition in_q_range :: "tm_q_range \<Rightarrow> nat \<Rightarrow> bool" where
  "in_q_range r q \<longleftrightarrow> q_enabled r \<and> q_first r \<le> q \<and> q \<le> q_last r"

definition q_buffers :: "tm_q_range option \<Rightarrow> nat" where
  "q_buffers ro = (case ro of None \<Rightarrow> 0 | Some r \<Rightarrow> (Suc (q_last r) - q_first r) * 2 ^ q_log2_size r)"

text \<open>What every board has, as checks over the finitely many boards and macros.\<close>

definition tm_check :: "nat \<Rightarrow> bool" where
  "tm_check ty = (case platform_of ty of None \<Rightarrow> True | Some p \<Rightarrow> NS_PLATFORM_NUM_PORTS p \<le> 8 \<and>
     list_all (\<lambda>k. map_option (\<lambda>r. (q_enabled r, q_first r, q_last r)) (NBI0_TM_Q_CFG_RANGE ty p k) =
       (if k < NS_PLATFORM_NUM_PORTS p then Some (True, NS_PLATFORM_NBI_TM_QID_LO p k, NS_PLATFORM_NBI_TM_QID_HI p k) else None)) [0..<8] \<and>
     sum_list (map (\<lambda>k. q_buffers (NBI0_TM_Q_CFG_RANGE ty p k)) [0..<8]) \<le> 16384 \<and>
     NS_PLATFORM_NUM_PORTS_PER_MAC_1 p = 0)"

definition shaper_check :: "nat \<Rightarrow> bool" where
  "shaper_check ty = (case platform_of ty of None \<Rightarrow> True | Some p \<Rightarrow>
     NBI_TM_ENABLE_SHAPER ty \<longrightarrow>
       list_all (\<lambda>port. NBI0_TM_SHAPER_CFG_RANGE ty p (2 * port + 1) = Some (l1_shaper p port) \<and>
         NBI0_TM_SHAPER_CFG_RANGE ty p (2 * port + 2) = Some (l2_shaper p port)) [0..<NS_PLATFORM_NUM_PORTS p] \<and>
       map_option sh_rate (NBI0_TM_SHAPER_CFG_RANGE ty p 0) =
         Some (sum_list (map (\<lambda>port. sh_rate (l1_shaper p port)) [0..<NS_PLATFORM_NUM_PORTS p])) \<and>
       distinct (NBI_TM_L0_SHAPER_NUM # map (NBI_TM_L1_SHAPER_NUM p) [0..<NS_PLATFORM_NUM_PORTS p]))"

lemma upt_1_20: "[1..<20] = [1, 2, 3, 4, 5, 6, 7, 8, 9, 10, 11, 12, 13, 14, 15, 16, 17, 18, 19 :: nat]"
  by (simp add: upt_rec)

lemmas tm_eval = platform_of_def platform_blocks NS_PLATFORM_NBI_TM_QID_LO_def NS_PLATFORM_NBI_TM_QID_HI_def NS_PLATFORM_NUM_PORTS_def
  NS_PLATFORM_BERYLLIUM_4x10_1x40_def NS_PLATFORM_CARBON_def NS_PLATFORM_CARBON_1x10_1x25_def upt_rec push_bit_eq_mult

lemma tm_check_all: "list_all tm_check [1..<20]"
  unfolding upt_1_20 list.pred_inject
  by (intro conjI TrueI)
    (simp_all add: tm_check_def NBI0_TM_Q_CFG_RANGE_def mixed_q_cfg_range_def NS_PLATFORM_NBI_TM_0_QSIZE_def
      NS_PLATFORM_NBI_TM_10G_QSIZE_def NS_PLATFORM_NBI_TM_40G_QSIZE_def q_buffers_def tm_eval)

lemma shaper_check_all: "list_all shaper_check [1..<20]"
  unfolding upt_1_20 list.pred_inject
  by (intro conjI TrueI)
    (simp_all add: shaper_check_def NBI_TM_ENABLE_SHAPER_def NBI0_TM_SHAPER_CFG_RANGE_def NBI0_TM_L0_SHAPER_RATE_def
      NBI_TM_L0_SHAPER_NUM_def NBI_TM_L1_SHAPER_NUM_def l1_shaper_def drop_bit_eq_div tm_eval)

lemma board_checked: "platform_of ty = Some p \<Longrightarrow> tm_check ty \<and> shaper_check ty"
  using tm_check_all shaper_check_all platform_of_range [of ty] by (auto simp: list_all_iff)

lemma range_beyond:
  assumes "platform_of ty = Some p" "8 \<le> k"
  shows "NBI0_TM_Q_CFG_RANGE ty p k = None"
  using assms(2) by (simp add: NBI0_TM_Q_CFG_RANGE_def mixed_q_cfg_range_def)

lemma q_range_of_port:
  assumes "platform_of ty = Some p"
  shows "(\<exists>r. NBI0_TM_Q_CFG_RANGE ty p k = Some r \<and> in_q_range r q) \<longleftrightarrow>
    k < NS_PLATFORM_NUM_PORTS p \<and> NS_PLATFORM_NBI_TM_QID_LO p k \<le> q \<and> q \<le> NS_PLATFORM_NBI_TM_QID_HI p k"
proof (cases "k < 8")
  case True
  have "map_option (\<lambda>r. (q_enabled r, q_first r, q_last r)) (NBI0_TM_Q_CFG_RANGE ty p k) =
      (if k < NS_PLATFORM_NUM_PORTS p then Some (True, NS_PLATFORM_NBI_TM_QID_LO p k, NS_PLATFORM_NBI_TM_QID_HI p k) else None)"
    using board_checked [OF assms] assms True by (simp add: tm_check_def list_all_iff)
  then show ?thesis by (cases "NBI0_TM_Q_CFG_RANGE ty p k") (auto simp: in_q_range_def split: if_splits)
next
  case False
  moreover have "NS_PLATFORM_NUM_PORTS p \<le> 8"
    using board_checked [OF assms] assms by (simp add: tm_check_def)
  ultimately show ?thesis using range_beyond [OF assms, of k] by simp
qed

section \<open>Properties\<close>

text \<open>C29. On every board range \<open>k\<close> of the traffic manager configuration of NBI 0
  holds exactly the queues of port \<open>k\<close>, so that no queue is configured twice and
  none that a port uses is left out; all queues together have at most 16384
  packet buffers, and NBI 1 is not configured.  On the boards with shapers every
  port has its level-1 and level-2 shaper, the level-1 shapers are distinct from
  each other and from the root, and the rate of the root is the sum of the rates
  of the ports.\<close>

theorem tm_config_complete:
  assumes "platform_of ty = Some p"
  shows "((\<exists>r. NBI0_TM_Q_CFG_RANGE ty p k = Some r \<and> in_q_range r q) \<longleftrightarrow>
      k < NS_PLATFORM_NUM_PORTS p \<and> NS_PLATFORM_NBI_TM_QID_LO p k \<le> q \<and> q \<le> NS_PLATFORM_NBI_TM_QID_HI p k) \<and>
    (\<Sum>k < 8. q_buffers (NBI0_TM_Q_CFG_RANGE ty p k)) \<le> 16384 \<and>
    NBI1_TM_Q_CFG_RANGE ty p k = None \<and>
    (NBI_TM_ENABLE_SHAPER ty \<longrightarrow>
      (\<forall>port < NS_PLATFORM_NUM_PORTS p. NBI0_TM_SHAPER_CFG_RANGE ty p (2 * port + 1) = Some (l1_shaper p port) \<and>
         NBI0_TM_SHAPER_CFG_RANGE ty p (2 * port + 2) = Some (l2_shaper p port)) \<and>
      (\<exists>r. NBI0_TM_SHAPER_CFG_RANGE ty p 0 = Some r \<and> sh_rate r = (\<Sum>port < NS_PLATFORM_NUM_PORTS p. sh_rate (l1_shaper p port))) \<and>
      distinct (NBI_TM_L0_SHAPER_NUM # map (NBI_TM_L1_SHAPER_NUM p) [0..<NS_PLATFORM_NUM_PORTS p]))"
proof (intro conjI impI)
  note c = board_checked [OF assms, unfolded tm_check_def shaper_check_def assms option.case]
  show "(\<exists>r. NBI0_TM_Q_CFG_RANGE ty p k = Some r \<and> in_q_range r q) \<longleftrightarrow>
      k < NS_PLATFORM_NUM_PORTS p \<and> NS_PLATFORM_NBI_TM_QID_LO p k \<le> q \<and> q \<le> NS_PLATFORM_NBI_TM_QID_HI p k"
    by (rule q_range_of_port [OF assms])
  show "(\<Sum>k < 8. q_buffers (NBI0_TM_Q_CFG_RANGE ty p k)) \<le> 16384"
    using c by (simp add: sum_list_distinct_conv_sum_set atLeast0LessThan)
  show "NBI1_TM_Q_CFG_RANGE ty p k = None"
    using c by (simp add: NBI1_TM_Q_CFG_RANGE_def)
  assume "NBI_TM_ENABLE_SHAPER ty"
  note s = c [THEN conjunct2, THEN mp, OF this]
  show "\<forall>port < NS_PLATFORM_NUM_PORTS p. NBI0_TM_SHAPER_CFG_RANGE ty p (2 * port + 1) = Some (l1_shaper p port) \<and>
         NBI0_TM_SHAPER_CFG_RANGE ty p (2 * port + 2) = Some (l2_shaper p port)"
    using s by (simp add: list_all_iff)
  show "\<exists>r. NBI0_TM_SHAPER_CFG_RANGE ty p 0 = Some r \<and> sh_rate r = (\<Sum>port < NS_PLATFORM_NUM_PORTS p. sh_rate (l1_shaper p port))"
    using s by (auto simp: sum_list_distinct_conv_sum_set atLeast0LessThan)
  show "distinct (NBI_TM_L0_SHAPER_NUM # map (NBI_TM_L1_SHAPER_NUM p) [0..<NS_PLATFORM_NUM_PORTS p])"
    using s by blast
qed

theorem tm_config_complete_witness:
  "(\<exists>r. NBI0_TM_Q_CFG_RANGE 10 CARBON 1 = Some r \<and> in_q_range r 130) \<and>
   (\<exists>r. NBI0_TM_SHAPER_CFG_RANGE 10 CARBON 0 = Some r \<and> sh_rate r = 6252)"
proof -
  have two: "{..<2} = {0, 1 :: nat}" by auto
  have "platform_of 10 = Some CARBON" by (simp add: platform_of_def)
  from tm_config_complete [OF this, of 1 130] show ?thesis
    by (simp add: CARBON_def NS_PLATFORM_NUM_PORTS_def NS_PLATFORM_NBI_TM_QID_LO_def NS_PLATFORM_NBI_TM_QID_HI_def push_bit_eq_mult
        NBI_TM_ENABLE_SHAPER_def NS_PLATFORM_CARBON_def l1_shaper_def NBI_TM_L1_SHAPER_RATE_def NBI_TM_L2_SHAPER_RATE_def PPM_def two)
qed

text \<open>The queue ranges of a second port on NBI 1 would overlap those of the first
  in all but one queue, and the queues of that port beyond the first port's would
  stay unconfigured; no supported board has ports there.\<close>

lemma nbi1_ranges_overlap:
  assumes "ty \<noteq> NS_PLATFORM_BERYLLIUM_4x10_1x40" "NS_PLATFORM_NUM_PORTS_PER_MAC_1 p = 2"
    and "NS_PLATFORM_MAC_CHANNEL_LO p (NS_PLATFORM_NUM_PORTS_PER_MAC_0 p) < NS_PLATFORM_MAC_CHANNEL_HI p (NS_PLATFORM_NUM_PORTS_PER_MAC_0 p)"
  shows "\<exists>r s q. NBI1_TM_Q_CFG_RANGE ty p 0 = Some r \<and> NBI1_TM_Q_CFG_RANGE ty p 1 = Some s \<and> in_q_range r q \<and> in_q_range s q"
  using assms
  by (auto simp: NBI1_TM_Q_CFG_RANGE_def NS_PLATFORM_NBI_TM_1_QSIZE_def in_q_range_def NS_PLATFORM_NBI_TM_QID_LO_def
      NS_PLATFORM_NBI_TM_QID_HI_def push_bit_eq_mult
      intro!: exI [of _ "NS_PLATFORM_MAC_CHANNEL_HI p (NS_PLATFORM_NUM_PORTS_PER_MAC_0 p) * 8"])

end
