(* ===== verification/NfdCfg.thy ===== *)
theory NfdCfg
  imports Platform
begin

text \<open>
  The dimensions that \<open>firmware/apps/nic/nfd_user_cfg.h\<close> and \<open>blm_custom.h\<close>
  choose for a board and a flavour of the firmware when the build does not
  override them: virtual functions, queues per function, vNICs, the rings
  towards the PCIe engines and the buffer lists.  The number of control vNICs
  belongs to the host interface library and is a parameter (\<open>ctrl\<close>).
\<close>

definition NS_FLAVOR_NIC :: nat where "NS_FLAVOR_NIC = 1"
definition NS_FLAVOR_SRIOV :: nat where "NS_FLAVOR_SRIOV = 2"
definition NS_FLAVOR_BPF :: nat where "NS_FLAVOR_BPF = 3"

definition NVNICS_ABSOLUTE_MAX :: nat where "NVNICS_ABSOLUTE_MAX = 64"
definition NUM_PCIE_Q :: nat where "NUM_PCIE_Q = 64"

definition nfd_max_vfs :: "platform \<Rightarrow> nat \<Rightarrow> nat" where
  "nfd_max_vfs p flavor =
    (if flavor = NS_FLAVOR_SRIOV
     then if NS_PLATFORM_NUM_PORTS p > 8 then 40
          else if NS_PLATFORM_NUM_PORTS p > 4 then 48
          else if NS_PLATFORM_NUM_PORTS p > 2 then 48
          else if NS_PLATFORM_NUM_PORTS p > 1 then 48
          else 56
     else 0)"

definition nfd_max_pf_queues :: "platform \<Rightarrow> nat \<Rightarrow> nat" where
  "nfd_max_pf_queues p flavor =
    (if NS_PLATFORM_NUM_PORTS p > 8 then (if flavor = NS_FLAVOR_SRIOV then 2 else 4)
     else if NS_PLATFORM_NUM_PORTS p > 4 then (if flavor = NS_FLAVOR_SRIOV then 2 else 8)
     else if NS_PLATFORM_NUM_PORTS p > 2 then (if flavor = NS_FLAVOR_SRIOV then 4 else 16)
     else if NS_PLATFORM_NUM_PORTS p > 1 then (if flavor = NS_FLAVOR_SRIOV then 8 else 32)
     else (if flavor = NS_FLAVOR_SRIOV then 8 else 64))"

definition nfd_max_vf_queues :: "platform \<Rightarrow> nat \<Rightarrow> nat" where
  "nfd_max_vf_queues p flavor = (if nfd_max_vfs p flavor \<noteq> 0 then 1 else 0)"

definition nfd_max_pfs :: "platform \<Rightarrow> nat" where
  "nfd_max_pfs p = NS_PLATFORM_NUM_PORTS p"

definition nfd_nvnics :: "platform \<Rightarrow> nat \<Rightarrow> nat \<Rightarrow> nat" where
  "nfd_nvnics p flavor ctrl = nfd_max_pfs p + nfd_max_vfs p flavor + ctrl"

definition NFD_QUEUE_CREDITS :: nat where "NFD_QUEUE_CREDITS = 256"

definition NFD_OUT_RING_SZ :: nat where
  "NFD_OUT_RING_SZ = 2 * 16 * 64 * NFD_QUEUE_CREDITS"

text \<open>The sizes of the buffer list queues and the buffers on them; \<open>cadmium\<close> says
  that the board is \<open>NS_PLATFORM_CADMIUM_DDR_1x50\<close>.\<close>

definition BLM_NBI8_BLQ0_Q_SIZE :: "bool \<Rightarrow> nat" where
  "BLM_NBI8_BLQ0_Q_SIZE cadmium = (if cadmium then 32768 else 4096)"

definition BLM_NBI8_BLQ1_Q_SIZE :: "bool \<Rightarrow> nat" where
  "BLM_NBI8_BLQ1_Q_SIZE cadmium = (if cadmium then 16384 else 4096)"

definition BLM_NBI8_BLQ3_Q_SIZE :: nat where "BLM_NBI8_BLQ3_Q_SIZE = 1048576"

definition blm_nbi8_blq0_bufs :: "bool \<Rightarrow> nat" where
  "blm_nbi8_blq0_bufs cadmium = (if cadmium then 7168 else 1000)"

definition blm_nbi8_blq1_bufs :: "bool \<Rightarrow> nat" where
  "blm_nbi8_blq1_bufs cadmium = (if cadmium then 4096 + 0 else 650 + 350)"

definition blm_nbi8_blq3_bufs :: nat where "blm_nbi8_blq3_bufs = 64"

definition NFD_IN_WQ_SZ :: "bool \<Rightarrow> nat" where
  "NFD_IN_WQ_SZ cadmium = (BLM_NBI8_BLQ1_Q_SIZE cadmium div 4) * 16"

lemmas nfd_cfg_defs = NS_FLAVOR_NIC_def NS_FLAVOR_SRIOV_def NS_FLAVOR_BPF_def NVNICS_ABSOLUTE_MAX_def NUM_PCIE_Q_def
  nfd_max_vfs_def nfd_max_pf_queues_def nfd_max_vf_queues_def nfd_max_pfs_def nfd_nvnics_def NFD_QUEUE_CREDITS_def
  NFD_OUT_RING_SZ_def BLM_NBI8_BLQ0_Q_SIZE_def BLM_NBI8_BLQ1_Q_SIZE_def BLM_NBI8_BLQ3_Q_SIZE_def blm_nbi8_blq0_bufs_def
  blm_nbi8_blq1_bufs_def blm_nbi8_blq3_bufs_def NFD_IN_WQ_SZ_def

lemma num_ports_bounds:
  assumes "platform_of ty = Some p"
  shows "1 \<le> NS_PLATFORM_NUM_PORTS p" "NS_PLATFORM_NUM_PORTS p \<le> 8"
proof -
  have "list_all (\<lambda>p. 1 \<le> NS_PLATFORM_NUM_PORTS p \<and> NS_PLATFORM_NUM_PORTS p \<le> 8) platforms" by code_simp
  then show "1 \<le> NS_PLATFORM_NUM_PORTS p" "NS_PLATFORM_NUM_PORTS p \<le> 8"
    using platform_of_mem [OF assms] by (auto simp: list_all_iff)
qed

text \<open>The queues of all functions of one PCIe island and the vNICs.\<close>

definition nfd_total_queues :: "platform \<Rightarrow> nat \<Rightarrow> nat" where
  "nfd_total_queues p flavor =
     nfd_max_pfs p * nfd_max_pf_queues p flavor + nfd_max_vfs p flavor * nfd_max_vf_queues p flavor"

lemma total_queues:
  assumes "1 \<le> NS_PLATFORM_NUM_PORTS p" "NS_PLATFORM_NUM_PORTS p \<le> 8"
  shows "nfd_total_queues p flavor \<le> 64" "nfd_max_pfs p + nfd_max_vfs p flavor \<le> 57"
proof -
  have "NS_PLATFORM_NUM_PORTS p \<in> set [1..<9]" using assms by simp
  then have "NS_PLATFORM_NUM_PORTS p \<in> {1, 2, 3, 4, 5, 6, 7, 8}" by (simp add: upt_rec) auto
  then show "nfd_total_queues p flavor \<le> 64" "nfd_max_pfs p + nfd_max_vfs p flavor \<le> 57"
    by (auto simp: nfd_cfg_defs nfd_total_queues_def)
qed

text \<open>On every supported board and for every flavour the queues of the physical
  and virtual functions fit the 64 queues of a PCIe island, every function has
  a queue, and with at most seven control vNICs the vNICs stay within the absolute
  maximum of 64; the ring towards the host holds twice the credits of all
  those queues in 16-byte descriptors, every buffer list queue holds a word per
  buffer, and the work queue from the host holds a 16-byte descriptor for every
  buffer of its list.\<close>

lemma nfd_config_fits:
  assumes "platform_of ty = Some p" "ctrl \<le> 7"
  shows "nfd_total_queues p flavor \<le> NUM_PCIE_Q \<and> 1 \<le> nfd_max_pf_queues p flavor \<and>
     (nfd_max_vfs p flavor > 0 \<longrightarrow> nfd_max_vf_queues p flavor = 1) \<and>
     nfd_nvnics p flavor ctrl \<le> NVNICS_ABSOLUTE_MAX \<and>
     2 * (nfd_total_queues p flavor * NFD_QUEUE_CREDITS) * 16 \<le> NFD_OUT_RING_SZ \<and>
     (let cadmium = (ty = 19) in
       4 * blm_nbi8_blq0_bufs cadmium \<le> BLM_NBI8_BLQ0_Q_SIZE cadmium \<and>
       4 * blm_nbi8_blq1_bufs cadmium \<le> BLM_NBI8_BLQ1_Q_SIZE cadmium \<and>
       4 * blm_nbi8_blq3_bufs \<le> BLM_NBI8_BLQ3_Q_SIZE \<and>
       16 * blm_nbi8_blq1_bufs cadmium \<le> NFD_IN_WQ_SZ cadmium)"
proof -
  note q = total_queues [OF num_ports_bounds [OF assms(1)], of flavor]
  have "nfd_nvnics p flavor ctrl \<le> NVNICS_ABSOLUTE_MAX"
    using q(2) assms(2) by (simp add: nfd_nvnics_def NVNICS_ABSOLUTE_MAX_def)
  then show ?thesis using q(1) by (simp add: Let_def nfd_cfg_defs)
qed

end
