(* ===== verification/CfgEnv.thy ===== *)
theory CfgEnv
  imports Platform
begin

unbundle bit_operations_syntax

text \<open>
  What the configuration code is compiled against and what it reads from the
  host.  The vNIC numbering macros of the NFD library, the flag values of the
  driver interface \<open>nfp_net_ctrl.h\<close> and the compiler intrinsics are not in the
  repository: they are the fields of \<open>net_ctrl\<close> and \<open>cfg_env\<close>, arguments of the
  definitions that use them.  The configuration BARs and the VF configuration
  memory are written by the host; \<open>host_mem\<close> holds the fields the code reads.
  \<open>cfg_env_ex\<close> is a concrete instance, used by the witnesses: a two-port board
  with the driver interface's published flag values.
\<close>

definition NFD_BPF_START_OFF :: u32 where
  "NFD_BPF_START_OFF = 3072"

definition NFD_BPF_MAX_LEN :: u32 where
  "NFD_BPF_MAX_LEN = 2560"

datatype vnic_type = NFD_VNIC_TYPE_PF | NFD_VNIC_TYPE_VF | NFD_VNIC_TYPE_CTRL

record net_ctrl =
  CTRL_ENABLE :: u32
  CTRL_PROMISC :: u32
  CTRL_RXCSUM :: u32
  CTRL_TXCSUM :: u32
  CTRL_VXLAN :: u32
  CTRL_NVGRE :: u32
  CTRL_BPF :: u32
  CTRL_CSUM_COMPLETE :: u32
  CTRL_CHAIN_META :: u32
  CTRL_RSS_ANY :: u32
  UPDATE_GEN :: u32
  UPDATE_RSS :: u32
  UPDATE_BPF :: u32
  UPDATE_MACADDR :: u32
  UPDATE_VF :: u32
  RSS_IPV4_TCP :: u32
  RSS_IPV4_UDP :: u32
  RSS_IPV6_TCP :: u32
  RSS_IPV6_UDP :: u32

text \<open>Further flags of the driver interface, used by the capability masks and the
  local configuration cache.\<close>

record ctl_flags =
  CTRL_MSIXAUTO :: u32
  CTRL_GATHER :: u32
  CTRL_LSO :: u32
  CTRL_IRQMOD :: u32
  CTRL_RSS :: u32
  CTRL_RSS2 :: u32
  CTRL_LIVE_ADDR :: u32
  UPDATE_RING :: u32
  UPDATE_MSIX :: u32
  UPDATE_RESET :: u32
  UPDATE_IRQMOD :: u32
  UPDATE_VXLAN :: u32

record cfg_env =
  plat :: platform
  nc :: net_ctrl
  app_isl_ids :: "u32 list"
  cfg_mes_ids :: "u32 list"
  NFD_MAX_ISL :: nat
  NFD_MAX_VFS :: nat
  NFD_VID2VNIC :: "u32 \<Rightarrow> vnic_type \<times> u32"
  NFD_VID_MAXQS :: "u32 \<Rightarrow> nat"
  NFD_VID2QID :: "u32 \<Rightarrow> nat \<Rightarrow> u32"
  NFD_VID2NATQ :: "u32 \<Rightarrow> nat \<Rightarrow> u32"
  NFD_PF2VID :: "u32 \<Rightarrow> u32"
  NFD_VF2VID :: "u32 \<Rightarrow> u32"
  NFD_VID2VF :: "u32 \<Rightarrow> u32"
  NET_ETH_LEN :: u32
  NFD_CFG_MAJOR_PF :: nat
  RSS_ITBL_SZ :: u32
  N_VXLAN_PORTS :: nat
  ffs :: "u32 \<Rightarrow> u32"
  reg_zero :: "(nat \<Rightarrow> u32) \<Rightarrow> nat \<Rightarrow> (nat \<Rightarrow> u32)"

text \<open>The fields of a vNIC's configuration BAR, as the reads return them.\<close>

record cfg_bar =
  bar_mtu :: u32
  bar_mac0 :: u32
  bar_mac1 :: u32
  bar_rss_ctrl :: u32
  bar_rss_key0 :: u32
  bar_rxrs0 :: u32
  bar_rxrs1 :: u32
  bar_rss_itbl :: "u32 list"
  bar_vxlan :: "u16 list"
  bar_flbufsz :: u32

text \<open>The fields of \<open>struct sriov_cfg\<close> that the code names.\<close>

record sriov_cfg =
  sr_mac_hi :: u32
  sr_mac_lo :: u16
  sr_vlan_tag :: u16
  sr_vlan_id :: "12 word"
  ctrl_spoof :: bool
  ctrl_trusted :: bool
  ctrl_link_state :: "2 word"

record host_mem =
  bar :: "u32 \<Rightarrow> u32 \<Rightarrow> cfg_bar"
  vf_cfg :: "u32 \<Rightarrow> u32 \<Rightarrow> sriov_cfg"

definition flag :: "u32 \<Rightarrow> u32 \<Rightarrow> bool" where
  "flag w f \<longleftrightarrow> c_true (w AND f)"

definition net_ctrl_ex :: net_ctrl where
  "net_ctrl_ex = \<lparr>CTRL_ENABLE = 0x1, CTRL_PROMISC = 0x2, CTRL_RXCSUM = 0x10, CTRL_TXCSUM = 0x20,
     CTRL_VXLAN = 0x1000000, CTRL_NVGRE = 0x2000000, CTRL_BPF = 0x8000000,
     CTRL_CSUM_COMPLETE = 0x40000000, CTRL_CHAIN_META = 0x60000000, CTRL_RSS_ANY = 0x20020000,
     UPDATE_GEN = 0x1, UPDATE_RSS = 0x4, UPDATE_BPF = 0x400, UPDATE_MACADDR = 0x800, UPDATE_VF = 0x2000,
     RSS_IPV4_TCP = 0x2, RSS_IPV4_UDP = 0x4, RSS_IPV6_TCP = 0x10, RSS_IPV6_UDP = 0x20\<rparr>"

definition ctl_flags_ex :: ctl_flags where
  "ctl_flags_ex = \<lparr>CTRL_MSIXAUTO = 0x100000, CTRL_GATHER = 0x200, CTRL_LSO = 0x400, CTRL_IRQMOD = 0x40000,
     CTRL_RSS = 0x20000, CTRL_RSS2 = 0x20000000, CTRL_LIVE_ADDR = 0x80000000,
     UPDATE_RING = 0x2, UPDATE_MSIX = 0x20, UPDATE_RESET = 0x80, UPDATE_IRQMOD = 0x100, UPDATE_VXLAN = 0x200\<rparr>"

text \<open>VFs are vNICs 0..47, the two PF vNICs 48 and 49, the control vNIC 50.\<close>

definition cfg_env_ex :: cfg_env where
  "cfg_env_ex = \<lparr>plat = CARBON, nc = net_ctrl_ex, app_isl_ids = [0x200, 0x210], cfg_mes_ids = [0x204, 0x205],
     NFD_MAX_ISL = 1, NFD_MAX_VFS = 48,
     NFD_VID2VNIC = (\<lambda>vid. if vid < 48 then (NFD_VNIC_TYPE_VF, vid)
        else if vid < 50 then (NFD_VNIC_TYPE_PF, vid - 48) else (NFD_VNIC_TYPE_CTRL, 0)),
     NFD_VID_MAXQS = (\<lambda>vid. if vid < 48 then 1 else if vid < 50 then 4 else 1),
     NFD_VID2QID = (\<lambda>vid i. if vid < 48 then vid else if vid < 50 then 48 + (vid - 48) * 4 + of_nat i else 56),
     NFD_VID2NATQ = (\<lambda>vid i. if vid < 48 then vid else if vid < 50 then 48 + (vid - 48) * 4 + of_nat i else 56),
     NFD_PF2VID = (\<lambda>n. 48 + n), NFD_VF2VID = (\<lambda>n. n), NFD_VID2VF = (\<lambda>vid. vid),
     NET_ETH_LEN = 14, NFD_CFG_MAJOR_PF = 5,
     RSS_ITBL_SZ = 128, N_VXLAN_PORTS = 4,
     ffs = (\<lambda>w. if bit w 0 then 0 else if bit w 1 then 1 else if bit w 2 then 2 else 3),
     reg_zero = (\<lambda>a n i. if i < n then 0 else a i)\<rparr>"

definition bar_ex :: cfg_bar where
  "bar_ex = \<lparr>bar_mtu = 1500, bar_mac0 = 0x0015DEAD, bar_mac1 = 0xBEEF0000, bar_rss_ctrl = 0x7F02,
     bar_rss_key0 = 0x12345678, bar_rxrs0 = 0x3, bar_rxrs1 = 0, bar_rss_itbl = replicate 32 0x03020100,
     bar_vxlan = [0x12b5, 0, 0, 0], bar_flbufsz = 2048\<rparr>"

definition sriov_ex :: sriov_cfg where
  "sriov_ex = \<lparr>sr_mac_hi = 0x0015DEAD, sr_mac_lo = 0xBEE0, sr_vlan_tag = 5, sr_vlan_id = 5,
     ctrl_spoof = True, ctrl_trusted = False, ctrl_link_state = 0\<rparr>"

definition host_ex :: host_mem where
  "host_ex = \<lparr>bar = (\<lambda>_ _. bar_ex), vf_cfg = (\<lambda>_ _. sriov_ex)\<rparr>"

end
