(* ===== verification/ActionList.thy ===== *)
theory ActionList
  imports NicPrelude
begin

unbundle bit_operations_syntax

text \<open>
  Action lists of the data path (\<open>app_config_instr.h\<close>, \<open>app_config_tables.h\<close> and
  the primitive \<open>cfg_act_append\<close> of \<open>app_config_tables.c\<close>).  A list is an array
  of 16 instruction words with a fill count and the opcode of the last action;
  an action is an instruction word (15 bits of opcode, the pipeline bit, 16
  bits of arguments) followed by optional data words.  A write beyond the array
  is the result \<open>None\<close>.

  The abstract side is a list of actions and \<open>encode\<close>, which lays it out as the
  worker reads it: the pipeline bit says that the action directly follows its
  predecessor in the worker's code.  \<open>mk\<close> is the concrete list that holds an
  encoded one; the append primitive commutes with it, so that the builders of
  the next theory are computed action by action.
\<close>

section \<open>Instructions\<close>

datatype instruction_ops =
    INSTR_DROP | INSTR_RX_WIRE | INSTR_DST_MAC_MATCH | INSTR_CHECKSUM | INSTR_RSS
  | INSTR_TX_HOST | INSTR_RX_HOST | INSTR_TX_WIRE | INSTR_CMSG | INSTR_EBPF
  | INSTR_POP_VLAN | INSTR_PUSH_VLAN | INSTR_SRC_MAC_MATCH | INSTR_VEB_LOOKUP
  | INSTR_POP_PKT | INSTR_PUSH_PKT | INSTR_TX_VLAN | INSTR_L2_SWITCH_WIRE
  | INSTR_L2_SWITCH_HOST

text \<open>The numbers the C enumeration gives them.\<close>

fun opcode :: "instruction_ops \<Rightarrow> nat" where
  "opcode INSTR_DROP = 0"
| "opcode INSTR_RX_WIRE = 1"
| "opcode INSTR_DST_MAC_MATCH = 2"
| "opcode INSTR_CHECKSUM = 3"
| "opcode INSTR_RSS = 4"
| "opcode INSTR_TX_HOST = 5"
| "opcode INSTR_RX_HOST = 6"
| "opcode INSTR_TX_WIRE = 7"
| "opcode INSTR_CMSG = 8"
| "opcode INSTR_EBPF = 9"
| "opcode INSTR_POP_VLAN = 10"
| "opcode INSTR_PUSH_VLAN = 11"
| "opcode INSTR_SRC_MAC_MATCH = 12"
| "opcode INSTR_VEB_LOOKUP = 13"
| "opcode INSTR_POP_PKT = 14"
| "opcode INSTR_PUSH_PKT = 15"
| "opcode INSTR_TX_VLAN = 16"
| "opcode INSTR_L2_SWITCH_WIRE = 17"
| "opcode INSTR_L2_SWITCH_HOST = 18"

definition NIC_MAX_INSTR :: nat where
  "NIC_MAX_INSTR = 16"

text \<open>The fields of \<open>union instruction_format\<close>.\<close>

definition instr_op :: "u32 \<Rightarrow> u32" where
  "instr_op w = bf_get 17 15 w"

definition set_op :: "u32 \<Rightarrow> u32 \<Rightarrow> u32" where
  "set_op v w = bf_put 17 15 v w"

definition set_pipeline :: "u32 \<Rightarrow> u32 \<Rightarrow> u32" where
  "set_pipeline v w = bf_put 16 1 v w"

definition set_args :: "u16 \<Rightarrow> u32 \<Rightarrow> u32" where
  "set_args v w = bf_put 0 16 (ucast v) w"

record action_list =
  instr :: "nat \<Rightarrow> u32"
  count :: nat
  prev :: u32

definition cfg_act_map :: "u32 list" where
  "cfg_act_map =
    [0, 1, 2, 3, 4, 5, 6, 7, 8, 9, 10, 11, 12, 13, 14, 15,
     16, 17, 18, 19, 20, 21, 22, 23, 24, 25, 26, 27, 28, 29, 30, 31]"

text \<open>\<open>reg_zero\<close> is library code; the action list holds whatever it leaves.\<close>

definition cfg_act_init :: "((nat \<Rightarrow> u32) \<Rightarrow> nat \<Rightarrow> (nat \<Rightarrow> u32)) \<Rightarrow> action_list \<Rightarrow> action_list" where
  "cfg_act_init reg_zero acts =
     acts\<lparr>instr := reg_zero (instr acts) NIC_MAX_INSTR, count := 0, prev := 0\<rparr>"

definition cfg_act_append :: "instruction_ops \<Rightarrow> u16 \<Rightarrow> action_list \<Rightarrow> action_list option" where
  "cfg_act_append op args acts =
    (let precursor_act = 2 * cfg_act_map ! opcode op - cfg_act_map ! (opcode op + 1);
         w0 = instr acts (count acts);
         w1 = set_pipeline (c_bool (count acts \<noteq> 0 \<and> prev acts = precursor_act)) w0;
         w2 = set_op (cfg_act_map ! opcode op) w1;
         w3 = set_args args w2
     in if count acts < NIC_MAX_INSTR
        then Some (acts\<lparr>instr := (instr acts)(count acts := w3),
                        prev := cfg_act_map ! opcode op, count := count acts + 1\<rparr>)
        else None)"

text \<open>\<open>acts->instr[acts->count++].value = v\<close>\<close>

definition cfg_act_append_value :: "u32 \<Rightarrow> action_list \<Rightarrow> action_list option" where
  "cfg_act_append_value v acts =
    (if count acts < NIC_MAX_INSTR
     then Some (acts\<lparr>instr := (instr acts)(count acts := v), count := count acts + 1\<rparr>)
     else None)"

text \<open>The loop of \<open>cfg_act_remove_strip_vlan\<close> from index \<open>i\<close>; \<open>n\<close> is the number of
  iterations left.  With an empty list the bound \<open>count - 1\<close> wraps around and
  the loop leaves the array.\<close>

fun remove_strip_loop :: "nat \<Rightarrow> nat \<Rightarrow> bool \<Rightarrow> (nat \<Rightarrow> u32) \<Rightarrow> (nat \<Rightarrow> u32) \<times> bool" where
  "remove_strip_loop 0 i found a = (a, found)"
| "remove_strip_loop (Suc n) i found a =
    (if found then remove_strip_loop n (i + 1) True (a(i := a (i + 1)))
     else if instr_op (a i) = of_nat (opcode INSTR_POP_VLAN)
     then remove_strip_loop n (i + 1) True (a(i := set_pipeline 0 (a (i + 1))))
     else remove_strip_loop n (i + 1) False a)"

definition cfg_act_remove_strip_vlan :: "action_list \<Rightarrow> action_list option" where
  "cfg_act_remove_strip_vlan acts =
    (if count acts = 0 \<or> count acts > NIC_MAX_INSTR then None
     else let (a, found) = remove_strip_loop (count acts - 1) 0 False (instr acts)
          in Some (acts\<lparr>instr := a, count := count acts - (if found then 1 else 0)\<rparr>))"

section \<open>Actions and their encoding\<close>

datatype action = Act (aop: instruction_ops) (aargs: u16) (adata: "u32 list")

definition instr_word :: "instruction_ops \<Rightarrow> bool \<Rightarrow> u16 \<Rightarrow> u32" where
  "instr_word op pl args =
     push_bit 17 (of_nat (opcode op)) OR push_bit 16 (c_bool pl) OR ucast args"

text \<open>The first argument is the opcode of the preceding action, if any.\<close>

fun encode :: "nat option \<Rightarrow> action list \<Rightarrow> u32 list" where
  "encode p [] = []"
| "encode p (Act op args d # as) =
     instr_word op (p = Some (opcode op - 1) \<and> opcode op \<noteq> 0) args # d @ encode (Some (opcode op)) as"

fun last_op :: "nat option \<Rightarrow> action list \<Rightarrow> nat option" where
  "last_op p [] = p"
| "last_op p (Act op args d # as) = last_op (Some (opcode op)) as"

fun words :: "action list \<Rightarrow> nat" where
  "words [] = 0"
| "words (Act op args d # as) = 1 + length d + words as"

lemma length_encode [simp]: "length (encode p as) = words as"
  by (induction p as rule: encode.induct) auto

lemma encode_append [simp]: "encode p (as @ bs) = encode p as @ encode (last_op p as) bs"
  by (induction p as rule: encode.induct) auto

lemma last_op_append [simp]: "last_op p (as @ bs) = last_op (last_op p as) bs"
  by (induction p as rule: last_op.induct) auto

lemma words_append [simp]: "words (as @ bs) = words as + words bs"
  by (induction as rule: words.induct) auto

definition mk :: "action list \<Rightarrow> (nat \<Rightarrow> u32) \<Rightarrow> action_list" where
  "mk as junk =
    \<lparr>instr = array_fill junk 0 (encode None as), count = words as,
     prev = (case last_op None as of None \<Rightarrow> 0 | Some c \<Rightarrow> of_nat c)\<rparr>"

lemma opcode_less: "opcode op < 19"
  by (cases op) auto

lemma last_op_less: "(\<And>c. p = Some c \<Longrightarrow> c < 19) \<Longrightarrow> last_op p as = Some c \<Longrightarrow> c < 19"
  by (induction p as rule: last_op.induct) (auto simp: opcode_less)

lemma last_op_None: "last_op p as = None \<longleftrightarrow> p = None \<and> as = []"
  by (induction p as rule: last_op.induct) auto

lemma words_0: "words as = 0 \<longleftrightarrow> as = []"
  by (cases as rule: words.cases) auto

lemma cfg_act_map_check: "list_all (\<lambda>i. cfg_act_map ! i = of_nat i) [0..<32]"
  by code_simp

lemma cfg_act_map_nth: "i < 32 \<Longrightarrow> cfg_act_map ! i = of_nat i"
  using cfg_act_map_check unfolding list_all_iff set_upt by auto

lemma of_nat_eq_iff_small:
  "c < 2 ^ 32 \<Longrightarrow> d < 2 ^ 32 \<Longrightarrow> (of_nat c :: u32) = of_nat d \<longleftrightarrow> c = d"
  by (simp add: word_unat_eq_iff unsigned_of_nat take_bit_nat_eq_self)

lemma precursor_iff:
  assumes "c < 19"
  shows "(of_nat c :: u32) = 2 * cfg_act_map ! opcode op - cfg_act_map ! (opcode op + 1)
    \<longleftrightarrow> c = opcode op - 1 \<and> opcode op \<noteq> 0"
proof -
  note o = opcode_less [of op]
  have "2 * cfg_act_map ! opcode op - cfg_act_map ! (opcode op + 1) = of_nat (opcode op) - 1"
    using o by (simp add: cfg_act_map_nth)
  moreover have "(of_nat c :: u32) = of_nat (opcode op) - 1 \<longleftrightarrow> of_nat (c + 1) = (of_nat (opcode op) :: u32)"
    by (auto simp: eq_diff_eq add.commute)
  moreover have "of_nat (c + 1) = (of_nat (opcode op) :: u32) \<longleftrightarrow> c + 1 = opcode op"
    using o assms by (intro of_nat_eq_iff_small) auto
  ultimately show ?thesis by auto
qed

text \<open>Writing the three fields overwrites the whole word.\<close>

lemma bit_instr_word:
  "bit (instr_word op pl args) n \<longleftrightarrow>
     (if n < 16 then bit args n else if n = 16 then pl
      else n < 32 \<and> bit (of_nat (opcode op) :: u32) (n - 17))"
  by (auto simp: instr_word_def bit_or_iff bit_push_bit_iff c_bool_def bit_ucast_iff
      bit_1_iff dest: bit_imp_le_length)

lemma set_fields:
  "set_args args (set_op (of_nat (opcode op)) (set_pipeline (c_bool pl) w)) = instr_word op pl args"
  by (rule bit_word_eqI)
    (auto simp: bit_instr_word set_args_def set_op_def set_pipeline_def bit_bf_put c_bool_def
      bit_ucast_iff)

lemma prev_mk: "prev (mk as j) = precursor \<and> count (mk as j) \<noteq> 0 \<longleftrightarrow>
    (\<exists>c. last_op None as = Some c \<and> of_nat c = precursor)"
  by (auto simp: mk_def words_0 last_op_None split: option.splits)

lemma cfg_act_append_mk [simp]:
  assumes "words as < NIC_MAX_INSTR"
  shows "cfg_act_append op args (mk as j) = Some (mk (as @ [Act op args []]) j)"
proof -
  let ?pre = "2 * cfg_act_map ! opcode op - cfg_act_map ! (opcode op + 1)"
  have pl: "(count (mk as j) \<noteq> 0 \<and> prev (mk as j) = ?pre) \<longleftrightarrow>
      (last_op None as = Some (opcode op - 1) \<and> opcode op \<noteq> 0)"
    using prev_mk [of as j ?pre] precursor_iff last_op_less [of None as] by fastforce
  have m: "cfg_act_map ! opcode op = of_nat (opcode op)"
    using opcode_less [of op] by (intro cfg_act_map_nth) simp
  have n: "count (mk as j) < NIC_MAX_INSTR" using assms by (simp add: mk_def)
  show ?thesis
    using n array_fill_snoc [of j 0 "encode None as"]
    unfolding cfg_act_append_def Let_def pl unfolding m set_fields by (simp add: mk_def)
qed

lemma cfg_act_append_value_mk [simp]:
  assumes "words as + length d + 1 < NIC_MAX_INSTR"
  shows "cfg_act_append_value v (mk (as @ [Act op args d]) j) = Some (mk (as @ [Act op args (d @ [v])]) j)"
  using assms array_fill_snoc [of j 0 "encode None (as @ [Act op args d])" v]
  by (simp add: cfg_act_append_value_def mk_def)

lemma cfg_act_init_mk: "cfg_act_init rz acts = mk [] (rz (instr acts) NIC_MAX_INSTR)"
  if "acts = \<lparr>instr = a, count = n, prev = p\<rparr>"
  by (simp add: cfg_act_init_def mk_def that)

end
