(* ===== verification/CfgHw.thy ===== *)
theory CfgHw
  imports CfgEnv ActionList
begin

unbundle bit_operations_syntax

text \<open>
  The tables that the configuration code of \<open>app_config_tables.c\<close> writes for the
  workers: the instruction table and the RSS table in the cluster scratch of
  every application island, the next-neighbour registers of every worker
  micro-engine, the VLAN member cache in the CTM of the worker islands and the
  free-list buffer size cache.  A memory is a function from byte addresses to
  words; \<open>cls_write\<close> is a burst write of words.
\<close>

section \<open>State\<close>

record mac_vlan_key =
  vlan_id :: "12 word"
  mac_addr_hi :: u16
  mac_addr_lo :: u32

record cfg_hw =
  nn_regs :: "u32 \<times> u32 \<Rightarrow> nat \<Rightarrow> u32"
  cls_instr :: "u32 \<Rightarrow> u32 \<Rightarrow> u32"
  cls_rss :: "u32 \<Rightarrow> u32 \<Rightarrow> u32"
  ctm_vlan :: "u32 \<Rightarrow> nat \<Rightarrow> u64"
  nic_vlan_to_vnics_map_tbl :: "u32 \<Rightarrow> nat \<Rightarrow> u64"
  fl_buf_sz_cache :: "u32 \<Rightarrow> u32"
  cfg_error_rss_cntr :: u64
  veb_stored_keys :: "u32 \<Rightarrow> mac_vlan_key"
  nvnic_macs :: "u32 \<Rightarrow> u32 \<Rightarrow> u64"

fun cls_write :: "u32 \<Rightarrow> u32 list \<Rightarrow> (u32 \<Rightarrow> u32) \<Rightarrow> (u32 \<Rightarrow> u32)" where
  "cls_write addr [] m = m"
| "cls_write addr (x # xs) m = cls_write (addr + 4) xs (m(addr := x))"

text \<open>\<open>addr_hi\<close> of a worker island's cluster scratch.\<close>

definition isl_addr_hi :: "u32 \<Rightarrow> u32" where
  "isl_addr_hi isl_id = push_bit (34 - 8) (drop_bit 4 isl_id)"

section \<open>Next-neighbour registers\<close>

text \<open>The island and master fields of the write command select the engine; the
  register number has seven bits.\<close>

definition me_of :: "u32 \<Rightarrow> u32 \<times> u32" where
  "me_of me_id = (take_bit 6 (drop_bit 4 me_id), take_bit 4 (me_id AND 0x0f))"

definition ct_nn_write :: "u32 \<Rightarrow> u32 \<Rightarrow> u32 list \<Rightarrow> cfg_hw \<Rightarrow> cfg_hw" where
  "ct_nn_write me_id NN_reg_num xs hw =
     hw\<lparr>nn_regs := (nn_regs hw)(me_of me_id :=
          array_fill (nn_regs hw (me_of me_id)) (unat (take_bit 7 NN_reg_num)) xs)\<rparr>"

definition upd_nn_table_instr :: "cfg_env \<Rightarrow> u32 list \<Rightarrow> u32 \<Rightarrow> nat \<Rightarrow> cfg_hw \<Rightarrow> cfg_hw" where
  "upd_nn_table_instr e xwr_instr start_offset cnt hw =
     fold (\<lambda>me hw.
       ct_nn_write me (start_offset + of_nat (cnt div 2)) (take (cnt div 2) (drop (cnt div 2) xwr_instr))
         (ct_nn_write me start_offset (take (cnt div 2) xwr_instr) hw))
       (cfg_mes_ids e) hw"

definition init_nn_tables :: "cfg_env \<Rightarrow> cfg_hw \<Rightarrow> cfg_hw" where
  "init_nn_tables e hw =
     fold (\<lambda>i hw. fold (\<lambda>me hw. ct_nn_write me i (replicate 16 0) hw) (cfg_mes_ids e) hw)
       [0, 16, 32, 48, 64, 80, 96, 112] hw"

definition SLICC_HASH_PAD_NN_IDX :: u32 where
  "SLICC_HASH_PAD_NN_IDX = 64"

definition SLICC_HASH_PAD_SIZE_LW :: nat where
  "SLICC_HASH_PAD_SIZE_LW = 40"

text \<open>Four chunks of ten words; \<open>pad\<close> is the pad data in internal memory.\<close>

definition upd_slicc_hash_table :: "cfg_env \<Rightarrow> u32 list \<Rightarrow> cfg_hw \<Rightarrow> cfg_hw" where
  "upd_slicc_hash_table e pad hw =
     fold (\<lambda>t hw. upd_nn_table_instr e (take 10 (drop t pad)) (SLICC_HASH_PAD_NN_IDX + of_nat t) 10 hw)
       [0, 10, 20, 30] hw"

definition VXLAN_PORTS_NN_IDX :: u32 where
  "VXLAN_PORTS_NN_IDX = SLICC_HASH_PAD_NN_IDX + of_nat SLICC_HASH_PAD_SIZE_LW"

text \<open>The first loop packs the ports that are set, the second pads with zeros.\<close>

definition cfg_act_upd_vxlan_table :: "cfg_env \<Rightarrow> host_mem \<Rightarrow> u32 \<Rightarrow> u32 \<Rightarrow> cfg_hw \<Rightarrow> cfg_hw \<times> u32" where
  "cfg_act_upd_vxlan_table e h pcie vid hw =
    (let ports = take (N_VXLAN_PORTS e) (bar_vxlan (bar h pcie vid));
         packed = map ucast (filter (\<lambda>p. p \<noteq> 0) ports);
         n_vxlan = length packed;
         xwr_nn_info = packed @ replicate (N_VXLAN_PORTS e - n_vxlan) 0
     in (upd_nn_table_instr e xwr_nn_info VXLAN_PORTS_NN_IDX (N_VXLAN_PORTS e) hw, of_nat n_vxlan))"

section \<open>RSS table\<close>

definition wr_rss_tbl :: "cfg_env \<Rightarrow> u32 list \<Rightarrow> u32 \<Rightarrow> cfg_hw \<Rightarrow> cfg_hw" where
  "wr_rss_tbl e xwr_rss start_offset hw =
     fold (\<lambda>isl hw. hw\<lparr>cls_rss := (cls_rss hw)(isl_addr_hi isl :=
         cls_write start_offset xwr_rss (cls_rss hw (isl_addr_hi isl)))\<rparr>) (app_isl_ids e) hw"

definition NIC_RSS_TBL_SIZE :: "cfg_env \<Rightarrow> u32" where
  "NIC_RSS_TBL_SIZE e =
     RSS_ITBL_SZ e * of_nat (NS_PLATFORM_NUM_PORTS (plat e)) * of_nat (NFD_MAX_ISL e)"

definition upd_rss_table :: "cfg_env \<Rightarrow> u32 \<Rightarrow> cfg_bar \<Rightarrow> u32 \<Rightarrow> cfg_hw \<Rightarrow> cfg_hw" where
  "upd_rss_table e start_offset b vnic_port hw =
    (if start_offset + RSS_ITBL_SZ e > NIC_RSS_TBL_SIZE e
        \<or> vnic_port > of_nat (NS_PLATFORM_NUM_PORTS (plat e))
     then hw\<lparr>cfg_error_rss_cntr := cfg_error_rss_cntr hw + 1\<rparr>
     else wr_rss_tbl e (take (unat (RSS_ITBL_SZ e) div 4) (bar_rss_itbl b)) start_offset hw)"

section \<open>Instruction table\<close>

definition upd_rx_wire_instr :: "cfg_env \<Rightarrow> u32 list \<Rightarrow> u32 \<Rightarrow> cfg_hw \<Rightarrow> cfg_hw" where
  "upd_rx_wire_instr e xwr_instr start_offset hw =
     fold (\<lambda>isl hw. hw\<lparr>cls_instr := (cls_instr hw)(isl_addr_hi isl :=
         cls_write start_offset xwr_instr (cls_instr hw (isl_addr_hi isl)))\<rparr>) (app_isl_ids e) hw"

text \<open>\<open>num_pcie_q - 1\<close> writes and one more; with no queue the unsigned bound
  wraps around, which the model leaves undefined.\<close>

definition upd_rx_host_instr :: "cfg_env \<Rightarrow> u32 list \<Rightarrow> u32 \<Rightarrow> nat \<Rightarrow> cfg_hw \<Rightarrow> cfg_hw option" where
  "upd_rx_host_instr e xwr_instr start_offset num_pcie_q hw =
    (if num_pcie_q = 0 then None
     else Some (fold (\<lambda>isl hw. hw\<lparr>cls_instr := (cls_instr hw)(isl_addr_hi isl :=
         fold (\<lambda>i m. cls_write (start_offset + of_nat i * of_nat (push_bit 2 NIC_MAX_INSTR)) xwr_instr m)
           [0..<num_pcie_q] (cls_instr hw (isl_addr_hi isl)))\<rparr>) (app_isl_ids e) hw))"

text \<open>\<open>length = count - 1\<close> words follow the first one; an empty list makes the
  length wrap around, which the model leaves undefined.\<close>

definition cfg_act_write_queue :: "cfg_env \<Rightarrow> u32 \<Rightarrow> action_list \<Rightarrow> cfg_hw \<Rightarrow> cfg_hw option" where
  "cfg_act_write_queue e qid acts hw =
    (if count acts = 0 \<or> count acts > NIC_MAX_INSTR then None
     else Some (fold (\<lambda>isl hw. hw\<lparr>cls_instr := (cls_instr hw)(isl_addr_hi isl :=
         cls_write (qid * of_nat NIC_MAX_INSTR * 4) (map (instr acts) [0..<count acts])
           (cls_instr hw (isl_addr_hi isl)))\<rparr>) (app_isl_ids e) hw))"

fun write_queues :: "cfg_env \<Rightarrow> u32 list \<Rightarrow> action_list \<Rightarrow> cfg_hw \<Rightarrow> cfg_hw option" where
  "write_queues e [] acts hw = Some hw"
| "write_queues e (q # qs) acts hw = Option.bind (cfg_act_write_queue e q acts hw) (write_queues e qs acts)"

definition cfg_act_write_host :: "cfg_env \<Rightarrow> u32 \<Rightarrow> u32 \<Rightarrow> action_list \<Rightarrow> cfg_hw \<Rightarrow> cfg_hw option" where
  "cfg_act_write_host e pcie vid acts hw =
     write_queues e (map (\<lambda>i. push_bit 6 pcie OR NFD_VID2QID e vid i) [0..<NFD_VID_MAXQS e vid]) acts hw"

definition cfg_act_write_wire :: "cfg_env \<Rightarrow> u32 \<Rightarrow> action_list \<Rightarrow> cfg_hw \<Rightarrow> cfg_hw option" where
  "cfg_act_write_wire e port acts hw = cfg_act_write_queue e (push_bit 8 1 OR port) acts hw"

section \<open>Buffer size cache\<close>

definition cfg_act_cache_fl_buf_sz :: "cfg_env \<Rightarrow> host_mem \<Rightarrow> u32 \<Rightarrow> u32 \<Rightarrow> cfg_hw \<Rightarrow> cfg_hw" where
  "cfg_act_cache_fl_buf_sz e h pcie vid hw =
     fold (\<lambda>i hw. hw\<lparr>fl_buf_sz_cache := (fl_buf_sz_cache hw)
         (pcie * 64 + NFD_VID2NATQ e vid i := bar_flbufsz (bar h pcie vid))\<rparr>) [0..<NFD_VID_MAXQS e vid] hw"

section \<open>VLAN member cache\<close>

text \<open>Bytes \<open>start_offset\<close> to \<open>start_offset + 63\<close> are the eight table entries from
  \<open>start_offset / 8\<close>; islands 32 to 36 are the worker islands.\<close>

definition upd_ctm_vlan_members :: "u32 \<Rightarrow> cfg_hw \<Rightarrow> cfg_hw" where
  "upd_ctm_vlan_members pcie hw =
    (if pcie \<noteq> 0 then hw
     else fold (\<lambda>start_offset hw. fold (\<lambda>isl hw.
         hw\<lparr>ctm_vlan := (ctm_vlan hw)(isl := array_fill (ctm_vlan hw isl) (start_offset div 8)
           (map (nic_vlan_to_vnics_map_tbl hw pcie) [start_offset div 8..<start_offset div 8 + 8]))\<rparr>)
         [32, 33, 34, 35, 36] hw) (map (\<lambda>k. 64 * k) [0..<512]) hw)"

section \<open>Burst writes\<close>

lemma cls_write_below: "a \<notin> set (map (\<lambda>i. addr + 4 * of_nat i) [0..<length xs]) \<Longrightarrow> cls_write addr xs m a = m a"
proof (induction addr xs m rule: cls_write.induct)
  case (2 addr x xs m)
  have s: "map (\<lambda>i. addr + 4 * of_nat i) [0..<length (x # xs)] =
      addr # map (\<lambda>i. addr + 4 + 4 * of_nat i) [0..<length xs]"
    by (simp add: upt_conv_Cons map_Suc_upt [symmetric] comp_def algebra_simps del: upt_Suc)
  have a: "a \<noteq> addr" "a \<notin> set (map (\<lambda>i. addr + 4 + 4 * of_nat i) [0..<length xs])"
    using "2.prems" unfolding s by auto
  show ?case using "2.IH" [OF a(2)] a(1) unfolding cls_write.simps by (metis fun_upd_other)
qed simp

lemma addr4_inj:
  assumes "i < 2 ^ 30" "j < 2 ^ 30"
  shows "a + 4 * of_nat i = (a + 4 * of_nat j :: u32) \<longleftrightarrow> i = j"
proof -
  have "4 * of_nat i = (4 * of_nat j :: u32) \<longleftrightarrow> of_nat (4 * i) = (of_nat (4 * j) :: u32)" by simp
  also have "\<dots> \<longleftrightarrow> 4 * i = 4 * j" using assms by (intro of_nat_eq_iff_small) auto
  finally show ?thesis by simp
qed

lemma cls_write_at:
  "i < length xs \<Longrightarrow> length xs \<le> 2 ^ 30 \<Longrightarrow> cls_write addr xs m (addr + 4 * of_nat i) = xs ! i"
proof (induction addr xs m arbitrary: i rule: cls_write.induct)
  case (2 addr x xs m)
  show ?case
  proof (cases i)
    case 0
    have "addr \<notin> set (map (\<lambda>i. addr + 4 + 4 * of_nat i) [0..<length xs])"
    proof
      assume "addr \<in> set (map (\<lambda>i. addr + 4 + 4 * of_nat i) [0..<length xs])"
      then obtain j where j: "j < length xs" "addr + 4 * of_nat 0 = addr + 4 * of_nat (Suc j)"
        by (auto simp: algebra_simps)
      then show False using addr4_inj [of 0 "Suc j" addr] "2.prems" by simp
    qed
    then show ?thesis using 0 by (simp add: cls_write_below)
  next
    case (Suc k)
    then show ?thesis using "2.IH" [of k] "2.prems" by (simp add: algebra_simps del: fun_upd_apply)
  qed
qed simp

section \<open>Reading the instruction table back\<close>

definition instr_at :: "cfg_hw \<Rightarrow> u32 \<Rightarrow> u32 \<Rightarrow> nat \<Rightarrow> u32" where
  "instr_at hw island qid i = cls_instr hw (isl_addr_hi island) (qid * 64 + 4 * of_nat i)"

text \<open>One step of the loop over the islands.\<close>

definition isl_write :: "u32 \<Rightarrow> u32 list \<Rightarrow> u32 \<Rightarrow> cfg_hw \<Rightarrow> cfg_hw" where
  "isl_write addr xs island hw = hw\<lparr>cls_instr := (cls_instr hw)(isl_addr_hi island :=
     cls_write addr xs (cls_instr hw (isl_addr_hi island)))\<rparr>"

lemma isl_write_fold_other:
  assumes "a \<notin> set (map (\<lambda>i. addr + 4 * of_nat i) [0..<length xs])"
  shows "cls_instr (fold (isl_write addr xs) isls hw) ah a = cls_instr hw ah a"
proof (induction isls arbitrary: hw)
  case (Cons x isls)
  have "cls_instr (isl_write addr xs x hw) ah a = cls_instr hw ah a"
    using cls_write_below [OF assms] by (simp add: isl_write_def)
  then show ?case using Cons by simp
qed simp

lemma isl_write_fold_at:
  assumes "i < length xs" "length xs \<le> 2 ^ 30" "isl_addr_hi island \<in> isl_addr_hi ` set isls"
  shows "cls_instr (fold (isl_write addr xs) isls hw) (isl_addr_hi island) (addr + 4 * of_nat i) = xs ! i"
  using assms(3)
proof (induction isls rule: rev_induct)
  case (snoc x isls)
  then show ?case
    using cls_write_at [OF assms(1,2)] by (cases "isl_addr_hi island = isl_addr_hi x") (auto simp: isl_write_def)
qed simp

lemma unat_of_nat_small: "n < 2 ^ 32 \<Longrightarrow> unat (of_nat n :: u32) = n"
  by (simp add: unsigned_of_nat take_bit_nat_eq_self)

lemma slot_addr_inj:
  assumes "q < 2 ^ 26" "q' < 2 ^ 26" "i < 16" "j < 16"
    and "q * 64 + 4 * of_nat i = q' * 64 + 4 * (of_nat j :: u32)"
  shows "q = q' \<and> i = j"
proof -
  have u: "unat (x * 64 + 4 * of_nat k) = 64 * unat x + 4 * k" if "x < 2 ^ 26" "k < 16" for x :: u32 and k
  proof -
    have x: "unat x < 2 ^ 26" using that(1) by (simp add: word_less_nat_alt)
    have "x * 64 + 4 * of_nat k = (of_nat (64 * unat x + 4 * k) :: u32)" by simp
    moreover have "unat (of_nat (64 * unat x + 4 * k) :: u32) = 64 * unat x + 4 * k"
      using x that(2) by (intro unat_of_nat_small) simp
    ultimately show ?thesis by (simp add: mult.commute)
  qed
  have "64 * unat q + 4 * i = 64 * unat q' + 4 * j"
    using u [OF assms(1,3)] u [OF assms(2,4)] assms(5) by simp
  then have "unat q = unat q' \<and> i = j"
    using assms(3,4) by (cases "unat q" "unat q'" rule: linorder_cases) linarith+
  then show ?thesis by (simp add: word_unat_eq_iff)
qed

lemma write_queue_fold:
  "cfg_act_write_queue e qid acts hw = Some hw' \<longleftrightarrow>
     1 \<le> count acts \<and> count acts \<le> 16 \<and>
     hw' = fold (isl_write (qid * 64) (map (instr acts) [0..<count acts])) (app_isl_ids e) hw"
proof -
  have "isl_write (qid * 64) (map (instr acts) [0..<count acts]) = (\<lambda>isl hw. hw\<lparr>cls_instr :=
      (cls_instr hw)(isl_addr_hi isl := cls_write (qid * of_nat NIC_MAX_INSTR * 4)
        (map (instr acts) [0..<count acts]) (cls_instr hw (isl_addr_hi isl)))\<rparr>)"
    by (intro ext) (simp add: isl_write_def NIC_MAX_INSTR_def mult.assoc mult.commute)
  then show ?thesis by (auto simp: cfg_act_write_queue_def NIC_MAX_INSTR_def)
qed

lemma write_queue_at:
  assumes "cfg_act_write_queue e qid acts hw = Some hw'" "island \<in> set (app_isl_ids e)" "i < count acts"
  shows "instr_at hw' island qid i = instr acts i"
  using assms isl_write_fold_at [of i "map (instr acts) [0..<count acts]" island "app_isl_ids e" "qid * 64" hw]
  by (auto simp: write_queue_fold instr_at_def)

lemma write_queue_other:
  assumes "cfg_act_write_queue e qid acts hw = Some hw'" "qid < 2 ^ 26" "q < 2 ^ 26" "q \<noteq> qid" "i < 16"
  shows "instr_at hw' island q i = instr_at hw island q i"
proof -
  have "q * 64 + 4 * of_nat i \<notin> set (map (\<lambda>i. qid * 64 + 4 * of_nat i)
      [0..<length (map (instr acts) [0..<count acts])])"
  proof
    assume "q * 64 + 4 * of_nat i \<in> set (map (\<lambda>i. qid * 64 + 4 * of_nat i)
      [0..<length (map (instr acts) [0..<count acts])])"
    then obtain j where "j < count acts" "q * 64 + 4 * of_nat i = qid * 64 + 4 * (of_nat j :: u32)" by auto
    then show False
      using slot_addr_inj [OF assms(3,2,5), of j] assms(1,4) by (simp add: write_queue_fold)
  qed
  then show ?thesis
    using assms(1) isl_write_fold_other by (simp add: write_queue_fold instr_at_def del: length_map)
qed

lemma write_queues_other:
  "write_queues e qs acts hw = Some hw' \<Longrightarrow> \<forall>q\<in>set qs. q < 2 ^ 26 \<Longrightarrow> q < 2 ^ 26 \<Longrightarrow> q \<notin> set qs \<Longrightarrow> i < 16
   \<Longrightarrow> instr_at hw' island q i = instr_at hw island q i"
proof (induction e qs acts hw rule: write_queues.induct)
  case (2 e q1 qs acts hw)
  then obtain hw1 where "cfg_act_write_queue e q1 acts hw = Some hw1" "write_queues e qs acts hw1 = Some hw'"
    by (auto simp: bind_eq_Some)
  then show ?case using "2.IH" [of hw1] "2.prems" write_queue_other [of e q1 acts hw hw1 q i island] by auto
qed simp

lemma write_queues_at:
  "write_queues e qs acts hw = Some hw' \<Longrightarrow> \<forall>q\<in>set qs. q < 2 ^ 26 \<Longrightarrow> q \<in> set qs \<Longrightarrow> island \<in> set (app_isl_ids e)
   \<Longrightarrow> i < count acts \<Longrightarrow> instr_at hw' island q i = instr acts i"
proof (induction e qs acts hw rule: write_queues.induct)
  case (2 e q1 qs acts hw)
  then obtain hw1 where w: "cfg_act_write_queue e q1 acts hw = Some hw1" "write_queues e qs acts hw1 = Some hw'"
    by (auto simp: bind_eq_Some)
  have "count acts \<le> 16" using w(1) by (simp add: write_queue_fold)
  then show ?case
    using "2.IH" [OF w(1,2)] "2.prems" write_queue_at [OF w(1)] write_queues_other [OF w(2), of q i island]
    by (cases "q \<in> set qs") auto
qed simp

lemma write_queues_Some:
  "1 \<le> count acts \<Longrightarrow> count acts \<le> 16 \<Longrightarrow> \<exists>hw'. write_queues e qs acts hw = Some hw'"
  by (induction qs arbitrary: hw) (auto simp: cfg_act_write_queue_def NIC_MAX_INSTR_def)

section \<open>RSS table and registers\<close>

text \<open>The VXLAN ports occupy registers 104 and up, after the hash pad 64..103,
  and are written packed: the ports that are set, in order, then zeros.\<close>

lemma ct_nn_write_other:
  "me_of m \<noteq> me \<Longrightarrow> nn_regs (ct_nn_write m r xs hw) me = nn_regs hw me"
  by (simp add: ct_nn_write_def)

lemma array_fill_split:
  "array_fill (array_fill f i xs) (i + length xs) ys = array_fill f i (xs @ ys)"
  by (rule ext) (auto simp: array_fill_def nth_append)

lemma array_fill_idem: "array_fill (array_fill f i xs) i xs = array_fill f i xs"
  by (rule ext) (auto simp: array_fill_def)

lemma upd_nn_one:
  assumes "unat r + cnt \<le> 128" "length xs = cnt" "even cnt"
  shows "nn_regs (ct_nn_write m (r + of_nat (cnt div 2)) (take (cnt div 2) (drop (cnt div 2) xs))
         (ct_nn_write m r (take (cnt div 2) xs) hw)) = (nn_regs hw)(me_of m := array_fill (nn_regs hw (me_of m)) (unat r) xs)"
proof (cases "cnt = 0")
  case True
  then show ?thesis using assms(2) by (simp add: ct_nn_write_def)
next
  case False
  let ?h = "cnt div 2"
  have h: "cnt = ?h + ?h" "?h > 0" using assms(3) False by auto
  have r: "unat (take_bit 7 r) = unat r"
    using assms(1) h by (simp add: unsigned_take_bit_eq take_bit_nat_eq_self)
  have sum: "unat (r + of_nat ?h) = unat r + ?h"
  proof -
    have "r + of_nat ?h = of_nat (unat r + ?h)" by simp
    moreover have "unat (of_nat (unat r + ?h) :: u32) = unat r + ?h"
      using assms(1) h by (intro unat_of_nat_small) simp
    ultimately show ?thesis by simp
  qed
  have rh: "unat (take_bit 7 (r + of_nat ?h)) = unat r + ?h"
    using assms(1) h sum by (simp add: unsigned_take_bit_eq take_bit_nat_eq_self)
  have d: "take ?h (drop ?h xs) = drop ?h xs" using assms(2) h by simp
  have l: "length (take ?h xs) = ?h" using assms(2) h by simp
  show ?thesis
    using array_fill_split [of "nn_regs hw (me_of m)" "unat r" "take ?h xs" "drop ?h xs"]
    unfolding d l by (simp add: ct_nn_write_def r rh)
qed

lemma upd_nn_table_regs:
  assumes "unat r + cnt \<le> 128" "length xs = cnt" "even cnt"
  shows "nn_regs (upd_nn_table_instr e xs r cnt hw) me =
    (if me \<in> me_of ` set (cfg_mes_ids e) then array_fill (nn_regs hw me) (unat r) xs else nn_regs hw me)"
proof -
  have "nn_regs (fold (\<lambda>m hw. ct_nn_write m (r + of_nat (cnt div 2)) (take (cnt div 2) (drop (cnt div 2) xs))
         (ct_nn_write m r (take (cnt div 2) xs) hw)) ms hw) me =
      (if me \<in> me_of ` set ms then array_fill (nn_regs hw me) (unat r) xs else nn_regs hw me)" for ms
    by (induction ms arbitrary: hw) (auto simp: upd_nn_one [OF assms] array_fill_idem)
  then show ?thesis by (simp add: upd_nn_table_instr_def)
qed

section \<open>Properties\<close>

text \<open>C25. Writing an action list for a vNIC puts it in the instruction table
  slot of every queue of the vNIC in every worker island, and leaves every
  other queue's slot as it was; with between 1 and 16 words the write always
  happens.\<close>

theorem write_host_installs_list:
  assumes "1 \<le> count acts" "count acts \<le> 16"
    and "\<And>i. push_bit 6 pcie OR NFD_VID2QID e vid i < 2 ^ 26"
    and "island \<in> set (app_isl_ids e)"
  shows "\<exists>hw'. cfg_act_write_host e pcie vid acts hw = Some hw' \<and>
     (\<forall>k i. k < NFD_VID_MAXQS e vid \<and> i < count acts \<longrightarrow>
        instr_at hw' island (push_bit 6 pcie OR NFD_VID2QID e vid k) i = instr acts i) \<and>
     (\<forall>q i. q < 2 ^ 26 \<and> i < 16 \<and> (\<forall>k < NFD_VID_MAXQS e vid. q \<noteq> push_bit 6 pcie OR NFD_VID2QID e vid k) \<longrightarrow>
        instr_at hw' island q i = instr_at hw island q i)"
proof -
  let ?qs = "map (\<lambda>i. push_bit 6 pcie OR NFD_VID2QID e vid i) [0..<NFD_VID_MAXQS e vid]"
  obtain hw' where w: "write_queues e ?qs acts hw = Some hw'" using write_queues_Some [OF assms(1,2)] by blast
  have lt: "\<forall>q\<in>set ?qs. q < 2 ^ 26" using assms(3) by auto
  have "instr_at hw' island (push_bit 6 pcie OR NFD_VID2QID e vid k) i = instr acts i"
    if "k < NFD_VID_MAXQS e vid" "i < count acts" for k i
    using that by (intro write_queues_at [OF w lt _ assms(4)]) auto
  moreover have "instr_at hw' island q i = instr_at hw island q i"
    if "q < 2 ^ 26" "i < 16" "\<forall>k < NFD_VID_MAXQS e vid. q \<noteq> push_bit 6 pcie OR NFD_VID2QID e vid k" for q i
    using that by (intro write_queues_other [OF w lt]) auto
  ultimately show ?thesis unfolding cfg_act_write_host_def using w by blast
qed

definition hw_ex :: cfg_hw where
  "hw_ex = \<lparr>nn_regs = (\<lambda>_ _. 0), cls_instr = (\<lambda>_ _. 0), cls_rss = (\<lambda>_ _. 0), ctm_vlan = (\<lambda>_ _. 0),
     nic_vlan_to_vnics_map_tbl = (\<lambda>_ _. 0), fl_buf_sz_cache = (\<lambda>_. 2048), cfg_error_rss_cntr = 0,
     veb_stored_keys = (\<lambda>_. \<lparr>vlan_id = 0, mac_addr_hi = 0, mac_addr_lo = 0\<rparr>), nvnic_macs = (\<lambda>_ _. 0)\<rparr>"

lemma qid_ex: "push_bit 6 0 OR NFD_VID2QID cfg_env_ex 5 i < 2 ^ 26"
  by (simp add: cfg_env_ex_def)

theorem write_host_installs_list_witness:
  "\<exists>hw'. cfg_act_write_host cfg_env_ex 0 5 (mk [Act INSTR_DROP 0 []] (\<lambda>_. 7)) hw_ex = Some hw'
     \<and> instr_at hw' 0x200 5 0 = 0"
  using write_host_installs_list [OF _ _ qid_ex, of "mk [Act INSTR_DROP 0 []] (\<lambda>_. 7)" "0x200" hw_ex]
  by (auto simp: mk_def array_fill_def instr_word_def c_bool_def cfg_env_ex_def)

text \<open>Updating the next-neighbour registers writes the given words, both
  halves, at the start register of every worker micro-engine and no other
  register of any engine.\<close>

lemma nn_table_update:
  assumes "unat start_offset + cnt \<le> 128" "length xs = cnt" "even cnt"
  shows "nn_regs (upd_nn_table_instr e xs start_offset cnt hw) me r =
    (if me \<in> me_of ` set (cfg_mes_ids e) \<and> unat start_offset \<le> r \<and> r < unat start_offset + cnt
     then xs ! (r - unat start_offset) else nn_regs hw me r)"
  using upd_nn_table_regs [OF assms] assms(2) by (simp add: array_fill_def)

end
