(* ===== verification/ActBuild.thy ===== *)
theory ActBuild
  imports CfgHw
begin

unbundle bit_operations_syntax

text \<open>
  The builders of \<open>app_config_tables.c\<close>: for a PF, VF or control vNIC, the wire
  side, the embedded switch and the down states, the action list that the
  workers run.  \<open>cfg_act_append_*\<close> fills in the argument fields of one action
  and appends it; \<open>cfg_act_build_*\<close> appends the actions that the control flags
  ask for.  The result is \<open>None\<close> if a write leaves the 16-word array.

  The argument words are the bit fields of the unions in \<open>app_config_instr.h\<close>;
  \<open>jnk\<close> is the indeterminate content of a union the code does not clear.  The
  lemmas \<open>app_mk\<close> state that each appender adds one abstract action.
\<close>

named_theorems app_mk \<open>effect of the appenders on encoded action lists\<close>

section \<open>Argument words\<close>

definition rx_host_args :: "cfg_env \<Rightarrow> u32 \<Rightarrow> u32 \<Rightarrow> u16" where
  "rx_host_args e mtu outer_csum =
    (let r = 0;
         r = bf_put 2 14 (mtu + NET_ETH_LEN e + 1) r;
         r = bf_put 1 1 outer_csum r;
         r = bf_put 0 1 outer_csum r
     in ucast (r :: u32))"

definition checksum_args :: "u32 \<Rightarrow> u32 \<Rightarrow> u32 \<Rightarrow> u16" where
  "checksum_args outer inner complete =
    (let r = 0;
         r = bf_put 1 1 outer r;
         r = bf_put 0 1 outer r;
         r = bf_put 3 1 inner r;
         r = bf_put 2 1 inner r;
         r = bf_put 8 1 complete r
     in ucast (r :: u32))"

definition rx_wire_args :: "(u32 \<times> u32) option \<Rightarrow> u32 \<Rightarrow> u32 \<Rightarrow> u16" where
  "rx_wire_args vxlan nvgre rxcsum =
    (let r = 0;
         r = (case vxlan of None \<Rightarrow> r | Some (n, idx) \<Rightarrow> bf_put 6 7 idx (bf_put 3 3 n r));
         r = bf_put 1 1 nvgre r;
         r = bf_put 0 1 rxcsum r
     in ucast (r :: u32))"

definition rss_cfg_proto :: "cfg_env \<Rightarrow> u32 \<Rightarrow> u32" where
  "rss_cfg_proto e rss_ctrl =
    (let p = 0;
         p = (if flag rss_ctrl (RSS_IPV4_TCP (nc e)) then p OR push_bit 2 1 else p);
         p = (if flag rss_ctrl (RSS_IPV4_UDP (nc e)) then p OR push_bit 3 1 else p);
         p = (if flag rss_ctrl (RSS_IPV6_TCP (nc e)) then p OR push_bit 0 1 else p);
         p = (if flag rss_ctrl (RSS_IPV6_UDP (nc e)) then p OR push_bit 1 1 else p)
     in p)"

definition rss_max_queue :: "cfg_env \<Rightarrow> u32 \<Rightarrow> u32 \<Rightarrow> u32" where
  "rss_max_queue e rx_rings0 rx_rings1 =
    (if c_true (NOT rx_rings0) then ffs e (NOT rx_rings0) else 32 + ffs e (NOT rx_rings1) - 1)"

definition rss_args :: "cfg_env \<Rightarrow> u32 \<Rightarrow> cfg_bar \<Rightarrow> u32 \<Rightarrow> u32 \<Rightarrow> u16" where
  "rss_args e jnk b rss_tbl_idx v1_meta =
    (let r = bf_put 12 4 (rss_cfg_proto e (bar_rss_ctrl b)) jnk;
         r = bf_put 0 6 (rss_max_queue e (bar_rxrs0 b) (bar_rxrs1 b)) r;
         r = bf_put 6 1 v1_meta r;
         r = bf_put 7 5 rss_tbl_idx r
     in ucast (r :: u32))"

definition tx_wire_args :: "u32 \<Rightarrow> u32 \<Rightarrow> u32 \<Rightarrow> u32 \<Rightarrow> u16" where
  "tx_wire_args jnk tmq cont multicast =
    (let r = bf_put 0 11 tmq jnk;
         r = bf_put 15 1 cont r;
         r = bf_put 14 1 multicast r
     in ucast (r :: u32))"

definition tx_host_args :: "u32 \<Rightarrow> u32 \<Rightarrow> u32 \<Rightarrow> u32 \<Rightarrow> u32 \<Rightarrow> u32 \<Rightarrow> u16" where
  "tx_host_args jnk pcie queue cont multicast flbuf_sz =
    (let min_rxb = drop_bit 8 flbuf_sz;
         r = bf_put 6 2 pcie jnk;
         r = bf_put 0 6 queue r;
         r = bf_put 15 1 cont r;
         r = bf_put 14 1 multicast r;
         r = bf_put 8 6 (if min_rxb > 63 then 63 else min_rxb) r
     in ucast (r :: u32))"

section \<open>Appenders\<close>

definition cfg_act_append_drop :: "action_list \<Rightarrow> action_list option" where
  "cfg_act_append_drop acts = cfg_act_append INSTR_DROP 0 acts"

definition cfg_act_append_rx_host ::
  "cfg_env \<Rightarrow> host_mem \<Rightarrow> u32 \<Rightarrow> u32 \<Rightarrow> u32 \<Rightarrow> action_list \<Rightarrow> action_list option" where
  "cfg_act_append_rx_host e h pcie vid outer_csum acts =
     cfg_act_append INSTR_RX_HOST (rx_host_args e (bar_mtu (bar h pcie vid)) outer_csum) acts"

definition cfg_act_append_veb_lookup ::
  "host_mem \<Rightarrow> u32 \<Rightarrow> u32 \<Rightarrow> u32 \<Rightarrow> u32 \<Rightarrow> action_list \<Rightarrow> action_list option" where
  "cfg_act_append_veb_lookup h pcie vid promisc mac_match acts =
    (if c_true promisc
     then Option.bind (cfg_act_append INSTR_VEB_LOOKUP 0 acts) (cfg_act_append_value 0)
     else let (mac0, mac1) = (if c_true mac_match
                then (bar_mac0 (bar h pcie vid), bar_mac1 (bar h pcie vid)) else (0, 0))
          in Option.bind (cfg_act_append INSTR_VEB_LOOKUP (ucast (drop_bit 16 mac0)) acts)
               (cfg_act_append_value (push_bit 16 mac0 OR drop_bit 16 mac1)))"

definition cfg_act_append_dmac_match :: "u32 \<Rightarrow> u32 \<Rightarrow> action_list \<Rightarrow> action_list option" where
  "cfg_act_append_dmac_match mac_hi16 mac_lo32 acts =
     Option.bind (cfg_act_append INSTR_DST_MAC_MATCH (ucast mac_hi16) acts) (cfg_act_append_value mac_lo32)"

definition cfg_act_append_dmac_match_bar ::
  "host_mem \<Rightarrow> u32 \<Rightarrow> u32 \<Rightarrow> action_list \<Rightarrow> action_list option" where
  "cfg_act_append_dmac_match_bar h pcie vid acts =
    (let mac0 = bar_mac0 (bar h pcie vid); mac1 = bar_mac1 (bar h pcie vid)
     in cfg_act_append_dmac_match (drop_bit 16 mac0) (push_bit 16 mac0 OR drop_bit 16 mac1) acts)"

definition cfg_act_append_smac_match :: "u32 \<Rightarrow> u32 \<Rightarrow> action_list \<Rightarrow> action_list option" where
  "cfg_act_append_smac_match mac_hi32 mac_lo16 acts =
     Option.bind (cfg_act_append INSTR_SRC_MAC_MATCH (ucast mac_lo16) acts) (cfg_act_append_value mac_hi32)"

definition cfg_act_append_smac_match_sriov ::
  "cfg_env \<Rightarrow> host_mem \<Rightarrow> u32 \<Rightarrow> u32 \<Rightarrow> action_list \<Rightarrow> action_list option" where
  "cfg_act_append_smac_match_sriov e h pcie vid acts =
    (let sriov_cfg_data = vf_cfg h pcie (NFD_VID2VF e vid)
     in cfg_act_append_smac_match (sr_mac_hi sriov_cfg_data) (ucast (sr_mac_lo sriov_cfg_data)) acts)"

definition rss_tbl_idx_of :: "cfg_env \<Rightarrow> u32 \<Rightarrow> u32 \<Rightarrow> u32" where
  "rss_tbl_idx_of e pcie vid =
    (case NFD_VID2VNIC e vid of (ty, vnic) \<Rightarrow> vnic + pcie * of_nat (NS_PLATFORM_NUM_PORTS (plat e)))"

definition cfg_act_append_rss ::
  "cfg_env \<Rightarrow> host_mem \<Rightarrow> u32 \<Rightarrow> u32 \<Rightarrow> u32 \<Rightarrow> bool \<Rightarrow> u32 \<Rightarrow> action_list \<Rightarrow> cfg_hw \<Rightarrow> (action_list \<times> cfg_hw) option" where
  "cfg_act_append_rss e h jnk pcie vid update_map v1_meta acts hw =
    (let bar_base = bar h pcie vid;
         (ty, vnic) = NFD_VID2VNIC e vid;
         rss_tbl_idx = vnic + pcie * of_nat (NS_PLATFORM_NUM_PORTS (plat e));
         hw = (if update_map then upd_rss_table e (rss_tbl_idx * RSS_ITBL_SZ e) bar_base vnic hw else hw)
     in do {
          acts \<leftarrow> cfg_act_append INSTR_RSS (rss_args e jnk bar_base rss_tbl_idx v1_meta) acts;
          acts \<leftarrow> cfg_act_append_value (bar_rss_key0 bar_base) acts;
          Some (acts, hw) })"

definition cfg_act_append_push_pkt :: "action_list \<Rightarrow> action_list option" where
  "cfg_act_append_push_pkt acts = cfg_act_append INSTR_PUSH_PKT 0 acts"

definition cfg_act_append_pop_pkt :: "action_list \<Rightarrow> action_list option" where
  "cfg_act_append_pop_pkt acts = cfg_act_append INSTR_POP_PKT 0 acts"

definition cfg_act_append_checksum :: "u32 \<Rightarrow> u32 \<Rightarrow> u32 \<Rightarrow> action_list \<Rightarrow> action_list option" where
  "cfg_act_append_checksum outer inner complete acts =
     cfg_act_append INSTR_CHECKSUM (checksum_args outer inner complete) acts"

definition cfg_act_append_rx_wire ::
  "cfg_env \<Rightarrow> host_mem \<Rightarrow> u32 \<Rightarrow> u32 \<Rightarrow> u32 \<Rightarrow> u32 \<Rightarrow> u32 \<Rightarrow> action_list \<Rightarrow> cfg_hw \<Rightarrow> (action_list \<times> cfg_hw) option" where
  "cfg_act_append_rx_wire e h pcie vid vxlan nvgre rxcsum acts hw =
    (let (hw, vx) = (if c_true vxlan
           then (case cfg_act_upd_vxlan_table e h pcie vid hw of (hw, n) \<Rightarrow> (hw, Some (n, VXLAN_PORTS_NN_IDX)))
           else (hw, None))
     in map_option (\<lambda>acts. (acts, hw)) (cfg_act_append INSTR_RX_WIRE (rx_wire_args vx nvgre rxcsum) acts))"

definition cfg_act_append_strip_vlan :: "action_list \<Rightarrow> action_list option" where
  "cfg_act_append_strip_vlan acts = cfg_act_append INSTR_POP_VLAN 0 acts"

definition cfg_act_append_push_vlan :: "u32 \<Rightarrow> action_list \<Rightarrow> action_list option" where
  "cfg_act_append_push_vlan vlan_tag acts = cfg_act_append INSTR_PUSH_VLAN (ucast vlan_tag) acts"

definition cfg_act_append_tx_wire :: "u32 \<Rightarrow> u32 \<Rightarrow> u32 \<Rightarrow> u32 \<Rightarrow> action_list \<Rightarrow> action_list option" where
  "cfg_act_append_tx_wire jnk tmq cont multicast acts =
     cfg_act_append INSTR_TX_WIRE (tx_wire_args jnk tmq cont multicast) acts"

definition cfg_act_append_tx_host ::
  "cfg_env \<Rightarrow> u32 \<Rightarrow> u32 \<Rightarrow> u32 \<Rightarrow> u32 \<Rightarrow> u32 \<Rightarrow> cfg_hw \<Rightarrow> action_list \<Rightarrow> action_list option" where
  "cfg_act_append_tx_host e jnk pcie vid cont multicast hw acts =
    (let natq = NFD_VID2NATQ e vid 0;
         flbuf_sz = fl_buf_sz_cache hw (pcie * 64 + natq)
     in cfg_act_append INSTR_TX_HOST (tx_host_args jnk pcie natq cont multicast flbuf_sz) acts)"

definition cfg_act_append_tx_vlan :: "action_list \<Rightarrow> action_list option" where
  "cfg_act_append_tx_vlan acts = cfg_act_append INSTR_TX_VLAN 0 acts"

definition cfg_act_append_bpf :: "cfg_env \<Rightarrow> u32 \<Rightarrow> action_list \<Rightarrow> action_list option" where
  "cfg_act_append_bpf e vnic acts =
     cfg_act_append INSTR_EBPF (ucast (NFD_BPF_START_OFF + vnic * NFD_BPF_MAX_LEN)) acts"

definition cfg_act_append_cmsg :: "action_list \<Rightarrow> action_list option" where
  "cfg_act_append_cmsg acts = cfg_act_append INSTR_CMSG 0 acts"

text \<open>\<open>if (c) append(acts);\<close>\<close>

definition act_when :: "bool \<Rightarrow> ('a \<Rightarrow> 'a option) \<Rightarrow> 'a \<Rightarrow> 'a option" where
  "act_when c f acts = (if c then f acts else Some acts)"

section \<open>Builders\<close>

definition cfg_act_build_ctrl ::
  "cfg_env \<Rightarrow> host_mem \<Rightarrow> u32 \<Rightarrow> u32 \<Rightarrow> action_list \<Rightarrow> action_list option" where
  "cfg_act_build_ctrl e h pcie vid acts =
    (let acts = cfg_act_init (reg_zero e) acts;
         (ty, vnic) = NFD_VID2VNIC e vid
     in if ty \<noteq> NFD_VNIC_TYPE_CTRL then Some acts
        else do {
          acts \<leftarrow> cfg_act_append_rx_host e h pcie vid 0 acts;
          cfg_act_append_cmsg acts })"

definition cfg_act_build_pf ::
  "cfg_env \<Rightarrow> host_mem \<Rightarrow> u32 \<Rightarrow> u32 \<Rightarrow> u32 \<Rightarrow> u32 \<Rightarrow> u32 \<Rightarrow> action_list \<Rightarrow> action_list option" where
  "cfg_act_build_pf e h jnk pcie vid veb_up control acts =
    (let acts = cfg_act_init (reg_zero e) acts;
         (ty, vnic) = NFD_VID2VNIC e vid
     in if ty \<noteq> NFD_VNIC_TYPE_PF then Some acts
        else
        let csum_o = flag control (CTRL_TXCSUM (nc e));
            csum_i = (csum_o \<and> flag control (CTRL_VXLAN (nc e)));
            tmq = of_nat (NS_PLATFORM_NBI_TM_QID_LO (plat e) (unat vnic))
        in do {
          acts \<leftarrow> cfg_act_append_rx_host e h pcie vid veb_up acts;
          acts \<leftarrow> act_when csum_i (cfg_act_append_checksum 0 1 0) acts;
          acts \<leftarrow> act_when (c_true veb_up) (cfg_act_append_veb_lookup h pcie vid 0 0) acts;
          acts \<leftarrow> cfg_act_append_tx_wire jnk tmq 0 veb_up acts;
          act_when (c_true veb_up) (\<lambda>acts. do {
            acts \<leftarrow> act_when csum_o (cfg_act_append_checksum 1 0 0) acts;
            acts \<leftarrow> cfg_act_append_push_pkt acts;
            cfg_act_append_tx_vlan acts }) acts })"

definition cfg_act_build_vf ::
  "cfg_env \<Rightarrow> host_mem \<Rightarrow> u32 \<Rightarrow> u32 \<Rightarrow> u32 \<Rightarrow> u32 \<Rightarrow> u32 \<Rightarrow> cfg_hw \<Rightarrow> action_list \<Rightarrow> action_list option" where
  "cfg_act_build_vf e h jnk pcie vid pf_control vf_control hw acts =
    (let acts = cfg_act_init (reg_zero e) acts;
         (ty, vnic) = NFD_VID2VNIC e vid
     in if ty \<noteq> NFD_VNIC_TYPE_VF then Some acts
        else
        let csum_o = flag vf_control (CTRL_TXCSUM (nc e));
            csum_i = (csum_o \<and> flag vf_control (CTRL_VXLAN (nc e)));
            promisc = c_bool (flag pf_control (CTRL_PROMISC (nc e)));
            sriov_cfg_data = vf_cfg h pcie (NFD_VID2VF e vid)
        in do {
          acts \<leftarrow> cfg_act_append_rx_host e h pcie vid 1 acts;
          acts \<leftarrow> act_when (sr_vlan_tag sriov_cfg_data \<noteq> 0)
            (cfg_act_append_push_vlan (ucast (sr_vlan_tag sriov_cfg_data))) acts;
          acts \<leftarrow> act_when (ctrl_spoof sriov_cfg_data) (cfg_act_append_smac_match_sriov e h pcie vid) acts;
          acts \<leftarrow> cfg_act_append_veb_lookup h pcie vid 0 0 acts;
          acts \<leftarrow> act_when csum_i (cfg_act_append_checksum 0 1 0) acts;
          acts \<leftarrow> cfg_act_append_tx_wire jnk (of_nat (NS_PLATFORM_NBI_TM_QID_LO (plat e) 0)) promisc 1 acts;
          acts \<leftarrow> act_when csum_o (cfg_act_append_checksum 1 0 0) acts;
          acts \<leftarrow> cfg_act_append_tx_host e jnk pcie (NFD_PF2VID e 0) 0 1 hw acts;
          acts \<leftarrow> cfg_act_append_push_pkt acts;
          cfg_act_append_tx_vlan acts })"

definition cfg_act_build_pcie_down ::
  "cfg_env \<Rightarrow> host_mem \<Rightarrow> u32 \<Rightarrow> u32 \<Rightarrow> action_list \<Rightarrow> action_list option" where
  "cfg_act_build_pcie_down e h pcie vid acts =
    (let acts = cfg_act_init (reg_zero e) acts in do {
       acts \<leftarrow> cfg_act_append_rx_host e h pcie vid 0 acts;
       cfg_act_append_drop acts })"

definition cfg_act_build_nbi ::
  "cfg_env \<Rightarrow> host_mem \<Rightarrow> u32 \<Rightarrow> u32 \<Rightarrow> u32 \<Rightarrow> u32 \<Rightarrow> u32 \<Rightarrow> u32 \<Rightarrow> action_list \<Rightarrow> cfg_hw
     \<Rightarrow> (action_list \<times> cfg_hw) option" where
  "cfg_act_build_nbi e h jnk pcie vid veb_up control update acts hw =
    (let vxlan = c_bool (flag control (CTRL_VXLAN (nc e)));
         nvgre = c_bool (flag control (CTRL_NVGRE (nc e)));
         promisc = flag control (CTRL_PROMISC (nc e));
         csum_compl = flag control (CTRL_CSUM_COMPLETE (nc e));
         rx_csum = flag control (CTRL_RXCSUM (nc e));
         update_rss = (flag update (UPDATE_RSS (nc e)) \<or> flag update (CTRL_BPF (nc e)));
         rss_v1 = c_bool (NFD_CFG_MAJOR_PF e < 4 \<and> \<not> flag control (CTRL_CHAIN_META (nc e)));
         acts = cfg_act_init (reg_zero e) acts;
         (ty, vnic) = NFD_VID2VNIC e vid
     in if ty \<noteq> NFD_VNIC_TYPE_PF then Some (acts, hw)
        else do {
          (acts, hw) \<leftarrow> cfg_act_append_rx_wire e h pcie vid vxlan nvgre (c_bool (rx_csum \<and> \<not> csum_compl)) acts hw;
          acts \<leftarrow> (if c_true veb_up then cfg_act_append_veb_lookup h pcie vid (c_bool promisc) 1 acts
                  else act_when (\<not> promisc) (cfg_act_append_dmac_match_bar h pcie vid) acts);
          acts \<leftarrow> act_when (c_true veb_up \<or> csum_compl)
            (cfg_act_append_checksum veb_up veb_up (c_bool csum_compl)) acts;
          acts \<leftarrow> act_when (flag control (CTRL_BPF (nc e))) (cfg_act_append_bpf e vnic) acts;
          (acts, hw) \<leftarrow> (if flag control (CTRL_RSS_ANY (nc e)) \<or> flag control (CTRL_BPF (nc e))
            then cfg_act_append_rss e h jnk pcie vid update_rss rss_v1 acts hw else Some (acts, hw));
          acts \<leftarrow> cfg_act_append_tx_host e jnk pcie vid 0 veb_up hw acts;
          acts \<leftarrow> act_when (c_true veb_up) (\<lambda>acts. do {
            acts \<leftarrow> cfg_act_append_push_pkt acts;
            cfg_act_append_tx_vlan acts }) acts;
          Some (acts, hw) })"

definition cfg_act_build_nbi_down ::
  "cfg_env \<Rightarrow> host_mem \<Rightarrow> u32 \<Rightarrow> u32 \<Rightarrow> action_list \<Rightarrow> cfg_hw \<Rightarrow> (action_list \<times> cfg_hw) option" where
  "cfg_act_build_nbi_down e h pcie vid acts hw =
    (let acts = cfg_act_init (reg_zero e) acts in do {
       (acts, hw) \<leftarrow> cfg_act_append_rx_wire e h pcie vid 0 0 0 acts hw;
       acts \<leftarrow> cfg_act_append_drop acts;
       Some (acts, hw) })"

definition cfg_act_build_veb_pf ::
  "cfg_env \<Rightarrow> host_mem \<Rightarrow> u32 \<Rightarrow> u32 \<Rightarrow> u32 \<Rightarrow> u32 \<Rightarrow> u32 \<Rightarrow> action_list \<Rightarrow> cfg_hw
     \<Rightarrow> (action_list \<times> cfg_hw) option" where
  "cfg_act_build_veb_pf e h jnk pcie vid control update acts hw =
    (let update_rss = (flag update (UPDATE_RSS (nc e)) \<or> flag update (CTRL_BPF (nc e)));
         rss_v1 = c_bool (NFD_CFG_MAJOR_PF e < 4 \<and> \<not> flag control (CTRL_CHAIN_META (nc e)));
         csum_c = c_bool (flag control (CTRL_CSUM_COMPLETE (nc e)));
         acts = cfg_act_init (reg_zero e) acts;
         (ty, vnic) = NFD_VID2VNIC e vid
     in if ty \<noteq> NFD_VNIC_TYPE_PF then Some (acts, hw)
        else do {
          acts \<leftarrow> cfg_act_append_checksum 1 1 csum_c acts;
          acts \<leftarrow> act_when (flag control (CTRL_BPF (nc e))) (cfg_act_append_bpf e vnic) acts;
          (acts, hw) \<leftarrow> (if flag control (CTRL_RSS_ANY (nc e)) \<or> flag control (CTRL_BPF (nc e))
            then cfg_act_append_rss e h jnk pcie vid update_rss rss_v1 acts hw else Some (acts, hw));
          acts \<leftarrow> cfg_act_append_tx_host e jnk pcie vid 0 0 hw acts;
          Some (acts, hw) })"

definition cfg_act_build_veb_vf ::
  "cfg_env \<Rightarrow> host_mem \<Rightarrow> u32 \<Rightarrow> u32 \<Rightarrow> u32 \<Rightarrow> u32 \<Rightarrow> u32 \<Rightarrow> action_list \<Rightarrow> cfg_hw
     \<Rightarrow> (action_list \<times> cfg_hw) option" where
  "cfg_act_build_veb_vf e h jnk pcie vid pf_control vf_control acts hw =
    (let csum_c = c_bool (flag vf_control (CTRL_CSUM_COMPLETE (nc e)));
         promisc = flag pf_control (CTRL_PROMISC (nc e));
         acts = cfg_act_init (reg_zero e) acts;
         (ty, vnic) = NFD_VID2VNIC e vid
     in if ty \<noteq> NFD_VNIC_TYPE_VF then Some (acts, hw)
        else
        let sriov_cfg_data = vf_cfg h pcie (NFD_VID2VF e vid)
        in do {
          acts \<leftarrow> act_when promisc cfg_act_append_push_pkt acts;
          acts \<leftarrow> act_when (sr_vlan_tag sriov_cfg_data \<noteq> 0) cfg_act_append_strip_vlan acts;
          acts \<leftarrow> cfg_act_append_checksum 1 1 csum_c acts;
          acts \<leftarrow> cfg_act_append_tx_host e jnk pcie vid (c_bool promisc) 0 hw acts;
          (if promisc then do {
             acts \<leftarrow> cfg_act_append_pop_pkt acts;
             acts \<leftarrow> act_when (flag pf_control (CTRL_CSUM_COMPLETE (nc e))) (cfg_act_append_checksum 0 0 1) acts;
             acts \<leftarrow> act_when (flag pf_control (CTRL_BPF (nc e))) (cfg_act_append_bpf e vnic) acts;
             (acts, hw) \<leftarrow> (if flag pf_control (CTRL_RSS_ANY (nc e)) \<or> flag pf_control (CTRL_BPF (nc e))
               then cfg_act_append_rss e h jnk pcie (NFD_PF2VID e 0) False
                 (c_bool (NFD_CFG_MAJOR_PF e < 4 \<and> \<not> flag pf_control (CTRL_CHAIN_META (nc e)))) acts hw
               else Some (acts, hw));
             acts \<leftarrow> cfg_act_append_tx_host e jnk pcie (NFD_PF2VID e 0) 0 0 hw acts;
             Some (acts, hw) }
           else Some (acts, hw)) })"

section \<open>Effect of the appenders\<close>

lemma append2_mk:
  assumes "words as + 1 < NIC_MAX_INSTR"
  shows "Option.bind (cfg_act_append op args (mk as j)) (cfg_act_append_value v) =
     Some (mk (as @ [Act op args [v]]) j)"
  using assms cfg_act_append_value_mk [of as "[]" v op args j] by simp

definition a_rx_host :: "cfg_env \<Rightarrow> host_mem \<Rightarrow> u32 \<Rightarrow> u32 \<Rightarrow> u32 \<Rightarrow> action" where
  "a_rx_host e h pcie vid c = Act INSTR_RX_HOST (rx_host_args e (bar_mtu (bar h pcie vid)) c) []"

definition a_veb_lookup :: "u32 \<Rightarrow> u32 \<Rightarrow> action" where
  "a_veb_lookup mac0 mac1 =
     Act INSTR_VEB_LOOKUP (ucast (drop_bit 16 mac0)) [push_bit 16 mac0 OR drop_bit 16 mac1]"

definition a_dmac_match :: "u32 \<Rightarrow> u32 \<Rightarrow> action" where
  "a_dmac_match mac0 mac1 =
     Act INSTR_DST_MAC_MATCH (ucast (drop_bit 16 mac0)) [push_bit 16 mac0 OR drop_bit 16 mac1]"

definition a_smac_match :: "sriov_cfg \<Rightarrow> action" where
  "a_smac_match c = Act INSTR_SRC_MAC_MATCH (sr_mac_lo c) [sr_mac_hi c]"

definition a_rss :: "cfg_env \<Rightarrow> host_mem \<Rightarrow> u32 \<Rightarrow> u32 \<Rightarrow> u32 \<Rightarrow> u32 \<Rightarrow> action" where
  "a_rss e h jnk pcie vid v1 =
     Act INSTR_RSS (rss_args e jnk (bar h pcie vid) (rss_tbl_idx_of e pcie vid) v1) [bar_rss_key0 (bar h pcie vid)]"

definition a_checksum :: "u32 \<Rightarrow> u32 \<Rightarrow> u32 \<Rightarrow> action" where
  "a_checksum outer inner complete = Act INSTR_CHECKSUM (checksum_args outer inner complete) []"

definition a_rx_wire :: "cfg_env \<Rightarrow> host_mem \<Rightarrow> u32 \<Rightarrow> u32 \<Rightarrow> bool \<Rightarrow> bool \<Rightarrow> bool \<Rightarrow> action" where
  "a_rx_wire e h pcie vid vxlan nvgre rxcsum =
     Act INSTR_RX_WIRE (rx_wire_args
       (if vxlan then Some (of_nat (length (filter (\<lambda>p. p \<noteq> 0) (take (N_VXLAN_PORTS e) (bar_vxlan (bar h pcie vid))))),
                            VXLAN_PORTS_NN_IDX) else None)
       (c_bool nvgre) (c_bool rxcsum)) []"

definition a_tx_wire :: "u32 \<Rightarrow> u32 \<Rightarrow> u32 \<Rightarrow> u32 \<Rightarrow> action" where
  "a_tx_wire jnk tmq cont mc = Act INSTR_TX_WIRE (tx_wire_args jnk tmq cont mc) []"

definition a_tx_host :: "cfg_env \<Rightarrow> u32 \<Rightarrow> u32 \<Rightarrow> u32 \<Rightarrow> u32 \<Rightarrow> u32 \<Rightarrow> cfg_hw \<Rightarrow> action" where
  "a_tx_host e jnk pcie vid cont mc hw =
     Act INSTR_TX_HOST (tx_host_args jnk pcie (NFD_VID2NATQ e vid 0) cont mc
       (fl_buf_sz_cache hw (pcie * 64 + NFD_VID2NATQ e vid 0))) []"

definition a_bpf :: "cfg_env \<Rightarrow> u32 \<Rightarrow> action" where
  "a_bpf e vnic = Act INSTR_EBPF (ucast (NFD_BPF_START_OFF + vnic * NFD_BPF_MAX_LEN)) []"

definition a_plain :: "instruction_ops \<Rightarrow> action" where
  "a_plain op = Act op 0 []"

definition a_push_vlan :: "u16 \<Rightarrow> action" where
  "a_push_vlan tag = Act INSTR_PUSH_VLAN tag []"

lemma words_actions [simp]:
  "words (a_rx_host e h pcie vid c # as) = 1 + words as"
  "words (a_veb_lookup m0 m1 # as) = 2 + words as"
  "words (a_dmac_match m0 m1 # as) = 2 + words as"
  "words (a_smac_match sc # as) = 2 + words as"
  "words (a_rss e h jnk pcie vid v1 # as) = 2 + words as"
  "words (a_checksum x y z # as) = 1 + words as"
  "words (a_rx_wire e h pcie vid b1 b2 b3 # as) = 1 + words as"
  "words (a_tx_wire jnk tmq cont mc # as) = 1 + words as"
  "words (a_tx_host e jnk pcie vid cont mc hw # as) = 1 + words as"
  "words (a_bpf e vnic # as) = 1 + words as"
  "words (a_plain op # as) = 1 + words as"
  "words (a_push_vlan tag # as) = 1 + words as"
  by (simp_all add: a_rx_host_def a_veb_lookup_def a_dmac_match_def a_smac_match_def a_rss_def
      a_checksum_def a_rx_wire_def a_tx_wire_def a_tx_host_def a_bpf_def a_plain_def a_push_vlan_def)

text \<open>The BAR address 0 stands for \<open>promisc\<close> and for no MAC match.\<close>

definition veb_mac :: "host_mem \<Rightarrow> u32 \<Rightarrow> u32 \<Rightarrow> bool \<Rightarrow> action" where
  "veb_mac h pcie vid m =
     (if m then a_veb_lookup (bar_mac0 (bar h pcie vid)) (bar_mac1 (bar h pcie vid)) else a_veb_lookup 0 0)"

lemma words_veb_mac [simp]: "words (veb_mac h pcie vid m # as) = 2 + words as"
  by (simp add: veb_mac_def)

lemma ucast_16_32: "ucast (ucast t :: u32) = (t :: u16)"
  by (rule bit_word_eqI) (auto simp: bit_ucast_iff)

lemma append1_mk [app_mk]:
  assumes "words as < NIC_MAX_INSTR"
  shows "cfg_act_append_drop (mk as j) = Some (mk (as @ [a_plain INSTR_DROP]) j)"
    "cfg_act_append_rx_host e h pcie vid c (mk as j) = Some (mk (as @ [a_rx_host e h pcie vid c]) j)"
    "cfg_act_append_push_pkt (mk as j) = Some (mk (as @ [a_plain INSTR_PUSH_PKT]) j)"
    "cfg_act_append_pop_pkt (mk as j) = Some (mk (as @ [a_plain INSTR_POP_PKT]) j)"
    "cfg_act_append_checksum x y z (mk as j) = Some (mk (as @ [a_checksum x y z]) j)"
    "cfg_act_append_strip_vlan (mk as j) = Some (mk (as @ [a_plain INSTR_POP_VLAN]) j)"
    "cfg_act_append_push_vlan (ucast tag) (mk as j) = Some (mk (as @ [a_push_vlan tag]) j)"
    "cfg_act_append_tx_wire jnk tmq cont mc (mk as j) = Some (mk (as @ [a_tx_wire jnk tmq cont mc]) j)"
    "cfg_act_append_tx_host e jnk pcie vid cont mc hw (mk as j) =
       Some (mk (as @ [a_tx_host e jnk pcie vid cont mc hw]) j)"
    "cfg_act_append_tx_vlan (mk as j) = Some (mk (as @ [a_plain INSTR_TX_VLAN]) j)"
    "cfg_act_append_bpf e vnic (mk as j) = Some (mk (as @ [a_bpf e vnic]) j)"
    "cfg_act_append_cmsg (mk as j) = Some (mk (as @ [a_plain INSTR_CMSG]) j)"
  using assms by (simp_all add: cfg_act_append_drop_def cfg_act_append_rx_host_def
      cfg_act_append_push_pkt_def cfg_act_append_pop_pkt_def cfg_act_append_checksum_def
      cfg_act_append_strip_vlan_def cfg_act_append_push_vlan_def cfg_act_append_tx_wire_def
      cfg_act_append_tx_host_def cfg_act_append_tx_vlan_def cfg_act_append_bpf_def
      cfg_act_append_cmsg_def a_rx_host_def a_checksum_def a_tx_wire_def a_tx_host_def a_bpf_def
      a_plain_def a_push_vlan_def Let_def ucast_16_32)

lemma append_veb_lookup_mk [app_mk]:
  assumes "words as + 1 < NIC_MAX_INSTR"
  shows "cfg_act_append_veb_lookup h pcie vid promisc mac_match (mk as j) =
     Some (mk (as @ [veb_mac h pcie vid (\<not> c_true promisc \<and> c_true mac_match)]) j)"
  unfolding cfg_act_append_veb_lookup_def Let_def prod.case
  by (simp only: append2_mk [OF assms] prod.case split: if_split)
    (simp add: veb_mac_def a_veb_lookup_def append2_mk [OF assms])

lemma append_mac_match_mk [app_mk]:
  assumes "words as + 1 < NIC_MAX_INSTR"
  shows "cfg_act_append_dmac_match_bar h pcie vid (mk as j) =
      Some (mk (as @ [a_dmac_match (bar_mac0 (bar h pcie vid)) (bar_mac1 (bar h pcie vid))]) j)"
    "cfg_act_append_smac_match_sriov e h pcie vid (mk as j) =
      Some (mk (as @ [a_smac_match (vf_cfg h pcie (NFD_VID2VF e vid))]) j)"
  unfolding cfg_act_append_dmac_match_bar_def cfg_act_append_dmac_match_def
    cfg_act_append_smac_match_sriov_def cfg_act_append_smac_match_def Let_def
  by (simp_all only: append2_mk [OF assms] a_dmac_match_def a_smac_match_def ucast_16_32)

definition rss_update :: "cfg_env \<Rightarrow> host_mem \<Rightarrow> u32 \<Rightarrow> u32 \<Rightarrow> cfg_hw \<Rightarrow> cfg_hw" where
  "rss_update e h pcie vid hw =
     upd_rss_table e (rss_tbl_idx_of e pcie vid * RSS_ITBL_SZ e) (bar h pcie vid) (snd (NFD_VID2VNIC e vid)) hw"

lemma append_rss_mk [app_mk]:
  assumes "words as + 1 < NIC_MAX_INSTR"
  shows "cfg_act_append_rss e h jnk pcie vid upd v1 (mk as j) hw =
     Some (mk (as @ [a_rss e h jnk pcie vid v1]) j, if upd then rss_update e h pcie vid hw else hw)"
  using append2_mk [OF assms]
  by (cases "NFD_VID2VNIC e vid")
    (simp add: cfg_act_append_rss_def a_rss_def rss_tbl_idx_of_def rss_update_def Let_def bind_assoc [symmetric]
      del: cfg_act_append_mk)

lemma append_rx_wire_mk [app_mk]:
  assumes "words as < NIC_MAX_INSTR"
  shows "cfg_act_append_rx_wire e h pcie vid vx (c_bool nv) (c_bool rxc) (mk as j) hw =
     Some (mk (as @ [a_rx_wire e h pcie vid (c_true vx) nv rxc]) j,
           if c_true vx then fst (cfg_act_upd_vxlan_table e h pcie vid hw) else hw)"
  using assms by (simp add: cfg_act_append_rx_wire_def a_rx_wire_def cfg_act_upd_vxlan_table_def Let_def)

lemma rss_update_cache [simp]:
  "fl_buf_sz_cache (rss_update e h pcie vid hw) = fl_buf_sz_cache hw"
proof -
  have "fl_buf_sz_cache (fold (\<lambda>isl hw. hw\<lparr>cls_rss := (cls_rss hw)(isl_addr_hi isl :=
         cls_write s xs (cls_rss hw (isl_addr_hi isl)))\<rparr>) is hw) = fl_buf_sz_cache hw" for s xs "is"
    by (induction "is" arbitrary: hw) auto
  then show ?thesis by (simp add: rss_update_def upd_rss_table_def wr_rss_tbl_def)
qed

lemma nn_update_cache [simp]:
  "fl_buf_sz_cache (upd_nn_table_instr e xs s c hw) = fl_buf_sz_cache hw"
proof -
  have "fl_buf_sz_cache (fold (\<lambda>me hw. ct_nn_write me (f me) (g me) (ct_nn_write me (f' me) (g' me) hw)) ms hw)
      = fl_buf_sz_cache hw" for ms f g f' g'
    by (induction ms arbitrary: hw) (auto simp: ct_nn_write_def)
  then show ?thesis by (simp add: upd_nn_table_instr_def)
qed

lemma vxlan_update_cache [simp]:
  "fl_buf_sz_cache (fst (cfg_act_upd_vxlan_table e h pcie vid hw)) = fl_buf_sz_cache hw"
  by (simp add: cfg_act_upd_vxlan_table_def Let_def)

lemma a_tx_host_cong:
  "fl_buf_sz_cache hw = fl_buf_sz_cache hw' \<Longrightarrow>
     a_tx_host e jnk pcie vid cont mc hw = a_tx_host e jnk pcie vid cont mc hw'"
  by (simp add: a_tx_host_def)

lemma init_mk: "cfg_act_init rz acts = mk [] (rz (instr acts) NIC_MAX_INSTR)"
  by (cases acts) (simp add: cfg_act_init_def mk_def)

end
