(* ===== verification/InstrLayout.thy ===== *)
theory InstrLayout
  imports ActBuild
begin

unbundle bit_operations_syntax

text \<open>
  \<open>app_config_instr.h\<close> describes the argument fields of the instructions twice:
  as the unions that the control plane fills and as the bit field macros
  (\<open>word, high bit, low bit\<close>) with which the workers take an instruction apart.
  Here are the macros and the agreement of the two descriptions, for the
  argument words of \<open>ActBuild\<close> in an instruction word of \<open>ActionList\<close>.
\<close>

section \<open>The bit field macros\<close>

type_synonym bf_spec = "nat \<times> nat \<times> nat"

definition INSTR_PIPELINE_BIT :: nat where "INSTR_PIPELINE_BIT = 16"
definition INSTR_OPCODE_LSB :: nat where "INSTR_OPCODE_LSB = 17"

definition INSTR_RSS_CFG_PROTO_bf :: bf_spec where "INSTR_RSS_CFG_PROTO_bf = (0, 15, 12)"
definition INSTR_RSS_TABLE_IDX_bf :: bf_spec where "INSTR_RSS_TABLE_IDX_bf = (0, 11, 7)"
definition INSTR_RSS_V1_META_bf :: bf_spec where "INSTR_RSS_V1_META_bf = (0, 6, 6)"
definition INSTR_RSS_MAX_QUEUE_bf :: bf_spec where "INSTR_RSS_MAX_QUEUE_bf = (0, 5, 0)"
definition INSTR_RSS_KEY_bf :: bf_spec where "INSTR_RSS_KEY_bf = (1, 31, 0)"
definition INSTR_RX_HOST_MTU_bf :: bf_spec where "INSTR_RX_HOST_MTU_bf = (0, 15, 2)"
definition INSTR_RX_VXLAN_NN_IDX_bf :: bf_spec where "INSTR_RX_VXLAN_NN_IDX_bf = (0, 12, 6)"
definition INSTR_RX_PARSE_VXLANS_bf :: bf_spec where "INSTR_RX_PARSE_VXLANS_bf = (0, 5, 3)"
definition INSTR_RX_PARSE_GENEVE_bf :: bf_spec where "INSTR_RX_PARSE_GENEVE_bf = (0, 2, 2)"
definition INSTR_RX_PARSE_NVGRE_bf :: bf_spec where "INSTR_RX_PARSE_NVGRE_bf = (0, 1, 1)"
definition INSTR_RX_HOST_ENCAP_bf :: bf_spec where "INSTR_RX_HOST_ENCAP_bf = (0, 0, 0)"
definition INSTR_RX_WIRE_CSUM_bf :: bf_spec where "INSTR_RX_WIRE_CSUM_bf = (0, 0, 0)"
definition INSTR_TX_CONTINUE_bf :: bf_spec where "INSTR_TX_CONTINUE_bf = (0, 15, 15)"
definition INSTR_TX_MULTICAST_bf :: bf_spec where "INSTR_TX_MULTICAST_bf = (0, 14, 14)"
definition INSTR_TX_HOST_MIN_RXB_bf :: bf_spec where "INSTR_TX_HOST_MIN_RXB_bf = (0, 13, 8)"
definition INSTR_TX_WIRE_NBI_bf :: bf_spec where "INSTR_TX_WIRE_NBI_bf = (0, 10, 10)"
definition INSTR_TX_WIRE_TMQ_bf :: bf_spec where "INSTR_TX_WIRE_TMQ_bf = (0, 9, 0)"
definition INSTR_CSUM_META_bf :: bf_spec where "INSTR_CSUM_META_bf = (0, 8, 8)"
definition INSTR_CSUM_IL3_bf :: bf_spec where "INSTR_CSUM_IL3_bf = (0, 3, 3)"
definition INSTR_CSUM_IL4_bf :: bf_spec where "INSTR_CSUM_IL4_bf = (0, 2, 2)"
definition INSTR_CSUM_OL3_bf :: bf_spec where "INSTR_CSUM_OL3_bf = (0, 1, 1)"
definition INSTR_CSUM_OL4_bf :: bf_spec where "INSTR_CSUM_OL4_bf = (0, 0, 0)"

lemmas bf_macros = INSTR_RSS_CFG_PROTO_bf_def INSTR_RSS_TABLE_IDX_bf_def INSTR_RSS_V1_META_bf_def INSTR_RSS_MAX_QUEUE_bf_def
  INSTR_RSS_KEY_bf_def INSTR_RX_HOST_MTU_bf_def INSTR_RX_VXLAN_NN_IDX_bf_def INSTR_RX_PARSE_VXLANS_bf_def
  INSTR_RX_PARSE_GENEVE_bf_def INSTR_RX_PARSE_NVGRE_bf_def INSTR_RX_HOST_ENCAP_bf_def INSTR_RX_WIRE_CSUM_bf_def
  INSTR_TX_CONTINUE_bf_def INSTR_TX_MULTICAST_bf_def INSTR_TX_HOST_MIN_RXB_bf_def INSTR_TX_WIRE_NBI_bf_def INSTR_TX_WIRE_TMQ_bf_def
  INSTR_CSUM_META_bf_def INSTR_CSUM_IL3_bf_def INSTR_CSUM_IL4_bf_def INSTR_CSUM_OL3_bf_def INSTR_CSUM_OL4_bf_def

text \<open>What a worker reads with a macro from the words of an instruction.\<close>

definition bf_extract :: "bf_spec \<Rightarrow> u32 list \<Rightarrow> u32" where
  "bf_extract bf ws = (case bf of (w, hi, lo) \<Rightarrow> bf_get lo (hi + 1 - lo) (ws ! w))"

section \<open>Agreement\<close>

lemma extract_args:
  assumes "hi < 16" "lo \<le> hi"
  shows "bf_extract (0, hi, lo) (instr_word op p (ucast r) # ws) = bf_get lo (hi + 1 - lo) r"
proof (rule bit_word_eqI)
  fix n
  show "bit (bf_extract (0, hi, lo) (instr_word op p (ucast r) # ws)) n = bit (bf_get lo (hi + 1 - lo) r) n"
  proof (cases "lo + n \<le> hi")
    case True
    then have "lo + n < 16" using assms by simp
    with True show ?thesis by (simp add: bf_extract_def bit_bf_get bit_instr_word bit_ucast_iff)
  qed (auto simp: bf_extract_def bit_bf_get)
qed

lemma opcode_bits: "bit (opcode op) n \<Longrightarrow> n < 15"
proof -
  have "opcode op < 2 ^ 15" by (cases op) (simp_all add: opcode.simps)
  then have "take_bit 15 (opcode op) = opcode op" by (rule take_bit_nat_eq_self)
  then show "bit (opcode op) n \<Longrightarrow> n < 15" by (metis bit_take_bit_iff)
qed

lemma extract_word: "bf_extract (Suc 0, 31, 0) (w # key # ws) = key"
  by (auto simp: bf_extract_def bit_bf_get intro!: bit_word_eqI dest: bit_imp_le_length)

lemma bf_part: "lo \<le> lo' \<Longrightarrow> lo' + w' \<le> lo + w \<Longrightarrow> lo + w \<le> 32 \<Longrightarrow> bf_get lo' w' (bf_put lo w v x) = bf_get (lo' - lo) w' v"
  for x :: u32
  by (auto simp: bit_bf_get bit_bf_put intro!: bit_word_eqI)

lemma take_6_capped: "take_bit 6 (if x > 63 then 63 else x) = (if x > 63 then 63 else x)" for x :: u32
  by (rule take_bit_id) (auto simp: word_less_nat_alt)

text \<open>C23. The two descriptions of the instruction formats agree: in an instruction
  word with any opcode and pipeline bit, the opcode is the bits from
  \<open>INSTR_OPCODE_LSB\<close> upwards, and every macro of the workers reads, cut to its width, the value
  that the control plane put into the field of the union, whatever the
  uncleared unions held before.  The eleven-bit queue field of a transmission
  to the wire is what the workers read as ten bits of queue and the NBI bit above it.\<close>

theorem worker_fields_agree:
  "drop_bit INSTR_OPCODE_LSB (instr_word op p a) = of_nat (opcode op) \<and>
   bit (instr_word op p a) INSTR_PIPELINE_BIT = p \<and>
   bf_extract INSTR_RX_HOST_MTU_bf [instr_word op p (rx_host_args e mtu oc)] = take_bit 14 (mtu + NET_ETH_LEN e + 1) \<and>
   map (\<lambda>bf. bf_extract bf [instr_word op p (checksum_args outer inner complete)])
     [INSTR_CSUM_META_bf, INSTR_CSUM_IL3_bf, INSTR_CSUM_IL4_bf, INSTR_CSUM_OL3_bf, INSTR_CSUM_OL4_bf] =
   [take_bit 1 complete, take_bit 1 inner, take_bit 1 inner, take_bit 1 outer, take_bit 1 outer] \<and>
   map (\<lambda>bf. bf_extract bf [instr_word op p (rx_wire_args (Some (n, idx)) nvgre rxcsum)])
     [INSTR_RX_VXLAN_NN_IDX_bf, INSTR_RX_PARSE_VXLANS_bf, INSTR_RX_PARSE_GENEVE_bf, INSTR_RX_PARSE_NVGRE_bf, INSTR_RX_WIRE_CSUM_bf] =
   [take_bit 7 idx, take_bit 3 n, 0, take_bit 1 nvgre, take_bit 1 rxcsum] \<and>
   map (\<lambda>bf. bf_extract bf [instr_word op p (rss_args e jnk b tbl v1), key])
     [INSTR_RSS_CFG_PROTO_bf, INSTR_RSS_TABLE_IDX_bf, INSTR_RSS_V1_META_bf, INSTR_RSS_MAX_QUEUE_bf, INSTR_RSS_KEY_bf] =
   [take_bit 4 (rss_cfg_proto e (bar_rss_ctrl b)), take_bit 5 tbl, take_bit 1 v1, take_bit 6 (rss_max_queue e (bar_rxrs0 b) (bar_rxrs1 b)), key] \<and>
   map (\<lambda>bf. bf_extract bf [instr_word op p (tx_wire_args jnk tmq cont mc)])
     [INSTR_TX_CONTINUE_bf, INSTR_TX_MULTICAST_bf, INSTR_TX_WIRE_NBI_bf, INSTR_TX_WIRE_TMQ_bf] =
   [take_bit 1 cont, take_bit 1 mc, bf_get 10 1 tmq, take_bit 10 tmq] \<and>
   map (\<lambda>bf. bf_extract bf [instr_word op p (tx_host_args jnk pcie queue cont mc flbuf)])
     [INSTR_TX_CONTINUE_bf, INSTR_TX_MULTICAST_bf, INSTR_TX_HOST_MIN_RXB_bf] =
   [take_bit 1 cont, take_bit 1 mc, (if drop_bit 8 flbuf > 63 then 63 else drop_bit 8 flbuf)]"
proof -
  have op: "drop_bit INSTR_OPCODE_LSB (instr_word op p a) = of_nat (opcode op)" "bit (instr_word op p a) INSTR_PIPELINE_BIT = p"
    by (auto simp: INSTR_OPCODE_LSB_def INSTR_PIPELINE_BIT_def bit_instr_word bit_simps dest: opcode_bits intro!: bit_word_eqI)
  have "take_bit 10 tmq = bf_get 0 10 tmq" by (simp add: bf_get_def)
  then show ?thesis using op
    unfolding bf_macros rx_host_args_def checksum_args_def rx_wire_args_def rss_args_def tx_wire_args_def tx_host_args_def Let_def
    by (simp add: extract_args extract_word bf_law bf_part take_6_capped)
qed

end
