(* ===== verification/PktMeta.thy ===== *)
theory PktMeta
  imports NicPrelude
begin

unbundle bit_operations_syntax

text \<open>
  \<open>firmware/lib/infra_basic/infra_basic.h\<close>: the 16-bit port identifiers
  (type, subsystem, queue) with their building and decoding macros, the packet
  metadata \<open>struct pkt_meta\<close> with its raw form of seven words, and the handle
  that stands for a packet on a work queue.  The first two words of the metadata
  are \<open>struct nbi_meta_pkt_info\<close> of the packet library, whose fields are
  reached through a layout that is a parameter of the operations in \<open>PktIo\<close>.
\<close>

section \<open>Memory units and islands\<close>

definition MEM_RING_ADDR_TO_MUID :: "u32 \<Rightarrow> u32" where
  "MEM_RING_ADDR_TO_MUID x = drop_bit (35 - 8) x AND 0x7"

definition ISL_TO_MUID :: "u32 \<Rightarrow> u32" where
  "ISL_TO_MUID x = (if x \<le> 26 then (x - 24) OR 4 else x - 28)"

definition MUID_TO_MEM_RING_ADDR :: "u32 \<Rightarrow> u32" where
  "MUID_TO_MEM_RING_ADDR x = push_bit (35 - 8) x"

definition MUID_TO_ISL :: "u32 \<Rightarrow> u32" where
  "MUID_TO_ISL x = (if x < 4 then x + 28 else (x AND 0x3) + 24)"

section \<open>Port identifiers\<close>

definition PKT_PTYPE_DROP :: u32 where "PKT_PTYPE_DROP = 0"
definition PKT_PTYPE_WIRE :: u32 where "PKT_PTYPE_WIRE = 1"
definition PKT_PTYPE_HOST :: u32 where "PKT_PTYPE_HOST = 2"
definition PKT_PTYPE_WQ :: u32 where "PKT_PTYPE_WQ = 3"
definition PKT_PTYPE_NONE :: u32 where "PKT_PTYPE_NONE = 4"
definition PKT_PTYPE_DROP_SEQ :: u32 where "PKT_PTYPE_DROP_SEQ = 5"
definition PKT_PTYPE_DROP_WIRE :: u32 where "PKT_PTYPE_DROP_WIRE = 6"
definition PKT_PTYPE_DROP_HOST :: u32 where "PKT_PTYPE_DROP_HOST = 7"

lemmas ptypes = PKT_PTYPE_DROP_def PKT_PTYPE_WIRE_def PKT_PTYPE_HOST_def PKT_PTYPE_WQ_def PKT_PTYPE_NONE_def
  PKT_PTYPE_DROP_SEQ_def PKT_PTYPE_DROP_WIRE_def PKT_PTYPE_DROP_HOST_def

definition PKT_PORT_BUILD :: "u32 \<Rightarrow> u32 \<Rightarrow> u32 \<Rightarrow> u32" where
  "PKT_PORT_BUILD ty subsys queue = push_bit 13 ty OR push_bit 10 subsys OR queue"

definition PKT_DROP_SEQ :: u32 where "PKT_DROP_SEQ = PKT_PORT_BUILD PKT_PTYPE_DROP_SEQ 0 0"
definition PKT_DROP_WIRE :: u32 where "PKT_DROP_WIRE = PKT_PORT_BUILD PKT_PTYPE_DROP_WIRE 0 0"
definition PKT_DROP_HOST :: u32 where "PKT_DROP_HOST = PKT_PORT_BUILD PKT_PTYPE_DROP_HOST 0 0"
definition PKT_DROP :: u32 where "PKT_DROP = PKT_DROP_HOST"
definition PKT_NOTX :: u32 where "PKT_NOTX = PKT_PORT_BUILD PKT_PTYPE_NONE 0 0"

definition PKT_WIRE_PORT :: "u32 \<Rightarrow> u32 \<Rightarrow> u32" where
  "PKT_WIRE_PORT nbi q = PKT_PORT_BUILD PKT_PTYPE_WIRE nbi q"

definition PKT_HOST_PORT_FROMQ :: "u32 \<Rightarrow> u32 \<Rightarrow> u32" where
  "PKT_HOST_PORT_FROMQ pcie q = PKT_PORT_BUILD PKT_PTYPE_HOST pcie q"

definition PKT_WQ_PORT :: "u32 \<Rightarrow> u32 \<Rightarrow> u32" where
  "PKT_WQ_PORT muid q = PKT_PORT_BUILD PKT_PTYPE_WQ muid q"

definition PKT_PORT_TYPE_of :: "u32 \<Rightarrow> u32" where
  "PKT_PORT_TYPE_of port = drop_bit 13 port AND 0x7"

definition PKT_PORT_SUBSYS_of :: "u32 \<Rightarrow> u32" where
  "PKT_PORT_SUBSYS_of port = drop_bit 10 port AND 0x7"

definition PKT_PORT_QUEUE_of :: "u32 \<Rightarrow> u32" where
  "PKT_PORT_QUEUE_of port = port AND 0xff"

definition PKT_PORT_WQNUM_of :: "u32 \<Rightarrow> u32" where
  "PKT_PORT_WQNUM_of port = port AND 0x3ff"

definition PKT_PORT_MUID_of :: "u32 \<Rightarrow> u32" where
  "PKT_PORT_MUID_of port = drop_bit 10 port AND 0x7"

section \<open>Packet metadata\<close>

type_synonym nbi_info = "u32 \<times> u32"

record pkt_meta =
  p_nbi :: nbi_info
  p_seq :: u16
  p_offset :: u16
  p_ctm_sz :: "2 word"
  p_ro_ctx :: "6 word"
  p_is_gro_sequenced :: bool
  p_rx_l3_csum_present :: bool
  p_rx_l3_csum_ok :: bool
  p_rx_l4_csum_present :: bool
  p_rx_l4_csum_ok :: bool
  p_rx_l4_tcp :: bool
  p_tx_l3_csum :: bool
  p_tx_l4_csum :: bool
  p_rx_lso :: bool
  p_wq_type :: bool
  p_orig_len :: "14 word"
  p_src :: u16
  p_dst :: u16
  app0 :: u32
  app1 :: u32

definition META_LW_CNT :: nat where "META_LW_CNT = 2 + 5"

text \<open>The raw words of the union; bit fields start at the most significant bit.\<close>

definition meta_flags :: "pkt_meta \<Rightarrow> bool list" where
  "meta_flags m = [p_is_gro_sequenced m, p_rx_l3_csum_present m, p_rx_l3_csum_ok m, p_rx_l4_csum_present m,
     p_rx_l4_csum_ok m, p_rx_l4_tcp m, p_tx_l3_csum m, p_tx_l4_csum m, p_rx_lso m, p_wq_type m]"

text \<open>The flags from bit 23 downwards.\<close>

definition flag_bits :: "bool list \<Rightarrow> u32" where
  "flag_bits fs = push_bit 14 (horner_sum of_bool 2 (rev fs))"

definition pkt_raw :: "pkt_meta \<Rightarrow> u32 list" where
  "pkt_raw m =
    [fst (p_nbi m), snd (p_nbi m),
     push_bit 16 (ucast (p_seq m)) OR ucast (p_offset m),
     push_bit 30 (ucast (p_ctm_sz m)) OR push_bit 24 (ucast (p_ro_ctx m)) OR flag_bits (meta_flags m) OR ucast (p_orig_len m),
     push_bit 16 (ucast (p_src m)) OR ucast (p_dst m),
     app0 m, app1 m]"

definition pkt_of_raw :: "u32 list \<Rightarrow> pkt_meta" where
  "pkt_of_raw ws =
    \<lparr>p_nbi = (ws ! 0, ws ! 1), p_seq = ucast (drop_bit 16 (ws ! 2)), p_offset = ucast (ws ! 2),
     p_ctm_sz = ucast (drop_bit 30 (ws ! 3)), p_ro_ctx = ucast (drop_bit 24 (ws ! 3)),
     p_is_gro_sequenced = bit (ws ! 3) 23, p_rx_l3_csum_present = bit (ws ! 3) 22, p_rx_l3_csum_ok = bit (ws ! 3) 21,
     p_rx_l4_csum_present = bit (ws ! 3) 20, p_rx_l4_csum_ok = bit (ws ! 3) 19, p_rx_l4_tcp = bit (ws ! 3) 18,
     p_tx_l3_csum = bit (ws ! 3) 17, p_tx_l4_csum = bit (ws ! 3) 16, p_rx_lso = bit (ws ! 3) 15, p_wq_type = bit (ws ! 3) 14,
     p_orig_len = ucast (ws ! 3), p_src = ucast (drop_bit 16 (ws ! 4)), p_dst = ucast (ws ! 4),
     app0 = ws ! 5, app1 = ws ! 6\<rparr>"

definition pkt_zero :: pkt_meta where
  "pkt_zero = pkt_of_raw (replicate META_LW_CNT 0)"

text \<open>\<open>struct pkt_handle\<close> of \<open>libinfra_basic.c\<close>: island, padding, packet number.\<close>

definition handle_raw :: "u8 \<Rightarrow> u16 \<Rightarrow> u32" where
  "handle_raw island pnum = push_bit 24 (ucast island) OR ucast pnum"

definition ph_isl :: "u32 \<Rightarrow> u8" where
  "ph_isl raw = ucast (drop_bit 24 raw)"

definition ph_pnum :: "u32 \<Rightarrow> u16" where
  "ph_pnum raw = ucast raw"

section \<open>Round trips\<close>

lemma bit_flag_bits: "bit (flag_bits fs) n \<longleftrightarrow> 14 \<le> n \<and> n < 32 \<and> n - 14 < length fs \<and> rev fs ! (n - 14)"
  by (auto simp: flag_bits_def bit_push_bit_iff bit_horner_sum_bit_iff)

lemma bit_meta_flags:
  "bit (flag_bits (meta_flags m)) n \<longleftrightarrow> n \<in> {14..<24} \<and> meta_flags m ! (23 - n)"
proof -
  have "length (meta_flags m) = 10" by (simp add: meta_flags_def)
  then show ?thesis by (auto simp: bit_flag_bits rev_nth)
qed

lemma handle_fields [simp]: "ph_isl (handle_raw i p) = i" "ph_pnum (handle_raw i p) = p"
proof -
  have "\<not> bit p (24 + n)" for n using bit_imp_le_length [of p "24 + n"] by auto
  then show "ph_isl (handle_raw i p) = i"
    by (auto simp: ph_isl_def handle_raw_def bit_simps intro!: bit_word_eqI)
  show "ph_pnum (handle_raw i p) = p"
    by (auto simp: ph_pnum_def handle_raw_def bit_simps intro!: bit_word_eqI)
qed

lemma pkt_raw_length [simp]: "length (pkt_raw m) = META_LW_CNT"
  by (simp add: pkt_raw_def META_LW_CNT_def)

lemma pkt_of_raw_raw [simp]: "pkt_of_raw (pkt_raw m) = m"
proof -
  let ?w = "pkt_raw m ! 3"
  have w: "bit ?w n \<longleftrightarrow> n < 32 \<and> (if n < 14 then bit (p_orig_len m) n else if n < 24 then meta_flags m ! (23 - n)
      else if n < 30 then bit (p_ro_ctx m) (n - 24) else bit (p_ctm_sz m) (n - 30))" for n
    by (auto simp: pkt_raw_def bit_simps bit_meta_flags dest: bit_imp_le_length)
  show ?thesis
    by (rule pkt_meta.equality)
      (auto simp: pkt_of_raw_def w meta_flags_def bit_simps intro!: bit_word_eqI, auto simp: pkt_raw_def bit_simps dest: bit_imp_le_length)
qed

lemma muid_islands:
  "list_all (\<lambda>m. MEM_RING_ADDR_TO_MUID (MUID_TO_MEM_RING_ADDR m) = m \<and> (m = 7 \<or> ISL_TO_MUID (MUID_TO_ISL m) = m)) [0, 1, 2, 3, 4, 5, 6, 7]"
  by (simp add: MEM_RING_ADDR_TO_MUID_def ISL_TO_MUID_def MUID_TO_MEM_RING_ADDR_def MUID_TO_ISL_def)

lemma port_masks: "x AND 0x7 = take_bit 3 x" "x AND 0xff = take_bit 8 x" "x AND 0x3ff = take_bit 10 x" for x :: u32
  by (simp_all add: take_bit_eq_mask mask_eq_exp_minus_1)

lemma less_pow_bits: "x < 2 ^ k \<Longrightarrow> k < 32 \<Longrightarrow> bit x n \<Longrightarrow> n < k" for x :: u32
  by (metis bit_take_bit_iff less_mask_eq take_bit_eq_mask unat_pow2 word_less_nat_alt take_bit_id)

text \<open>A port identifier built from a type, a subsystem below 8 and a queue below
  1024 fits 16 bits, so it survives being stored in the metadata; its type,
  subsystem, memory unit and work queue number are read back unchanged, and
  the queue number that the transmit path reads is the queue modulo 256.\<close>

lemma port_build_fields:
  assumes "ty < 8" "subsys < 8" "queue < 1024"
  shows "ucast (ucast (PKT_PORT_BUILD ty subsys queue) :: u16) = PKT_PORT_BUILD ty subsys queue"
    and "PKT_PORT_TYPE_of (PKT_PORT_BUILD ty subsys queue) = ty" "PKT_PORT_SUBSYS_of (PKT_PORT_BUILD ty subsys queue) = subsys"
    and "PKT_PORT_MUID_of (PKT_PORT_BUILD ty subsys queue) = subsys" "PKT_PORT_WQNUM_of (PKT_PORT_BUILD ty subsys queue) = queue"
    and "PKT_PORT_QUEUE_of (PKT_PORT_BUILD ty subsys queue) = queue mod 256"
proof -
  let ?p = "PKT_PORT_BUILD ty subsys queue"
  have lt: "\<And>n. bit ty n \<Longrightarrow> n < 3" "\<And>n. bit subsys n \<Longrightarrow> n < 3" "\<And>n. bit queue n \<Longrightarrow> n < 10"
    using less_pow_bits [of ty 3] less_pow_bits [of subsys 3] less_pow_bits [of queue 10] assms by simp_all
  have b: "bit ?p n \<longleftrightarrow> (if n < 10 then bit queue n else if n < 13 then bit subsys (n - 10) else bit ty (n - 13))" for n
    using lt(1) [of "n - 13"] lt(2) [of "n - 10"] lt(3) [of n] by (auto simp: PKT_PORT_BUILD_def bit_simps)
  have hi: "n < 16" if "bit ?p n" for n
    using that lt(1) [of "n - 13"] lt(2) [of "n - 10"] lt(3) [of n] by (auto simp: b split: if_splits)
  show "ucast (ucast ?p :: u16) = ?p" using hi by (auto simp: bit_simps intro!: bit_word_eqI)
  show "PKT_PORT_TYPE_of ?p = ty" "PKT_PORT_SUBSYS_of ?p = subsys" "PKT_PORT_MUID_of ?p = subsys" "PKT_PORT_WQNUM_of ?p = queue"
    unfolding PKT_PORT_TYPE_of_def PKT_PORT_SUBSYS_of_def PKT_PORT_MUID_of_def PKT_PORT_WQNUM_of_def port_masks
    by (auto simp: bit_take_bit_iff bit_drop_bit_eq b dest: lt intro!: bit_word_eqI split: if_splits)
  have "PKT_PORT_QUEUE_of ?p = take_bit 8 queue"
    by (auto simp: PKT_PORT_QUEUE_of_def port_masks bit_take_bit_iff b intro!: bit_word_eqI)
  then show "PKT_PORT_QUEUE_of ?p = queue mod 256" by (simp add: take_bit_eq_mod [of 8 queue])
qed

end
