(* ===== verification/PollLoop.thy ===== *)
theory PollLoop
  imports NicPrelude
begin

text \<open>
  The contract of the firmware's unbounded waiting loops.  A client supplies the
  loop as a partial function with its test (\<open>busy\<close>), the state in which the next
  round starts (\<open>again\<close>) and the result of the round that ends it (\<open>finish\<close>); the
  only law is the unfolding of one round.  The lemmas give what every such loop
  promises: it returns as soon as some later round is not busy, from the first
  such round, and it keeps what a busy round keeps.  The allocation loop of the
  switch messages, the MAC inhibit poll, the loop that forces threads to
  quiesce and the epoch loop are instances.
\<close>

locale poll_loop =
  fixes loop :: "'s \<Rightarrow> 'r option"
    and busy :: "'s \<Rightarrow> bool"
    and again :: "'s \<Rightarrow> 's"
    and finish :: "'s \<Rightarrow> 'r"
  assumes round: "loop s = (if busy s then loop (again s) else Some (finish s))"
begin

lemma after_busy_rounds:
  "\<forall>i < k. busy ((again ^^ i) s) \<Longrightarrow> loop s = loop ((again ^^ k) s)"
proof (induction k)
  case (Suc k)
  then have "loop s = loop ((again ^^ k) s)" by simp
  then show ?case using Suc.prems round [of "(again ^^ k) s"] by simp
qed simp

lemma first_idle:
  assumes "\<not> busy ((again ^^ k) s)"
  shows "\<exists>j \<le> k. loop s = Some (finish ((again ^^ j) s)) \<and> \<not> busy ((again ^^ j) s) \<and> (\<forall>i < j. busy ((again ^^ i) s))"
proof -
  define j where "j = (LEAST i. \<not> busy ((again ^^ i) s))"
  have j: "\<not> busy ((again ^^ j) s)" "j \<le> k" "\<forall>i < j. busy ((again ^^ i) s)"
    using assms LeastI [of "\<lambda>i. \<not> busy ((again ^^ i) s)" k] Least_le [of "\<lambda>i. \<not> busy ((again ^^ i) s)" k]
      not_less_Least [of _ "\<lambda>i. \<not> busy ((again ^^ i) s)"]
    unfolding j_def by blast+
  then have "loop s = Some (finish ((again ^^ j) s))"
    using after_busy_rounds [OF j(3)] round [of "(again ^^ j) s"] by simp
  with j show ?thesis by blast
qed

lemma ends_with:
  assumes "\<not> busy ((again ^^ k) s)" "P s" "\<And>t. P t \<Longrightarrow> busy t \<Longrightarrow> P (again t)"
  shows "\<exists>t. loop s = Some (finish t) \<and> P t \<and> \<not> busy t"
proof -
  obtain j where j: "loop s = Some (finish ((again ^^ j) s))" "\<not> busy ((again ^^ j) s)" "\<forall>i < j. busy ((again ^^ i) s)"
    using first_idle [OF assms(1)] by blast
  have "P ((again ^^ i) s)" if "i \<le> j" for i
    using that by (induction i) (use assms(2,3) j(3) in auto)
  then show ?thesis using j by blast
qed

end

end
