(* ===== verification/PktIo.thy ===== *)
theory PktIo
  imports PktMeta PollLoop Platform
begin

unbundle bit_operations_syntax

text \<open>
  \<open>firmware/lib/infra_basic/libinfra_basic.c\<close>: receiving a packet from the
  wire, the host or a work queue into the metadata \<open>Pkt\<close> of the thread, and
  sending it to the destination that the application chose.  The blocks behind
  the library (NBI, NFD, buffer list manager, packet engine, global reorder)
  are parameters: what a receive, an allocation, a credit request or a memory
  read returns is a function of the history of commands, and every command is an
  event of that history (newest first).  The commands that build a reorder
  descriptor give a value of \<open>gro_meta\<close>; the descriptor that was never built is
  \<open>None\<close>.
\<close>

section \<open>The blocks behind the library\<close>

type_synonym nfd_out_input = "u32 list"

datatype gro_meta =
    GroNbi u32 u32 u32 u32 u32 u32 nat
  | GroNfd nfd_out_input u32 u32
  | GroMemq u32 u32 u32
  | GroDrop u32 u32
  | GroDropSeq

datatype pkt_event =
    CtmAlloc u32
  | NbiRecv
  | PktStatusRead u32 u32
  | NfdInRecv u32
  | PktRead64 u64
  | PktWrite64 u64 "u64 list"
  | PktRead32 u64 nat
  | PktWrite32 u64 "u32 list"
  | ScriptRead u32
  | MacCmdWrite u64 u32 bool bool
  | NbiSend u32 u32 u32 u32 u32 u32 nat u32 u32 u32
  | NbiDropSeq u32 u32 u32 u32 u32 u32
  | BlmFree u32 u32
  | CtmFree u32 u32
  | NfdOutCredit u32 u32
  | NfdOutSend u32 u32 nfd_out_input
  | WorkqAddThread u32 u32
  | WorkqAddWork u32 u32 u32
  | GroSend "gro_meta option" u32 u32
  | InfraCntr u32
  | InfraCntrBase
  | EngineHalt
  | NfdInRecvInit
  | NfdOutSendInit
  | GroCliInit

type_synonym pkt_hist = "pkt_event list"

text \<open>What a receive from the NBI returns, by the fields that the code reads.\<close>

record nbi_rxd =
  rx_seq :: u16
  rx_pkt_info :: nbi_info
  rx_meta_type :: u32
  rx_port :: u32
  rx_seqr :: u32
  rx_ie :: bool

type_synonym nfd_in_desc = "u32 \<times> u32 \<times> u32 \<times> u32"

text \<open>The parameters: build options, the layouts of the structures of other
  libraries, their constants and conversions, and the devices.\<close>

record pkt_env =
  pe_island :: u32
  pe_cntrs_enable :: bool
  pe_remote_packets :: bool
  pe_ctm_size_256 :: nat
  pe_nbi_offset :: u16
  pe_nfd_offset :: u16
  pe_scripts :: u32
  nbi_isl :: "nbi_info \<Rightarrow> u32"
  nbi_pnum :: "nbi_info \<Rightarrow> u32"
  nbi_bls :: "nbi_info \<Rightarrow> u32"
  nbi_len :: "nbi_info \<Rightarrow> u32"
  nbi_muptr :: "nbi_info \<Rightarrow> u32"
  nbi_set_isl :: "u32 \<Rightarrow> nbi_info \<Rightarrow> nbi_info"
  nbi_set_pnum :: "u32 \<Rightarrow> nbi_info \<Rightarrow> nbi_info"
  nbi_set_split :: "bool \<Rightarrow> nbi_info \<Rightarrow> nbi_info"
  nfd_fill_meta :: "nfd_in_desc \<Rightarrow> nbi_info"
  nfd_seqn :: "nfd_in_desc \<Rightarrow> u16"
  nfd_intf :: "nfd_in_desc \<Rightarrow> u32"
  nfd_q_num :: "nfd_in_desc \<Rightarrow> u32"
  nfd_invalid :: "nfd_in_desc \<Rightarrow> bool"
  nfd_data_len :: "nfd_in_desc \<Rightarrow> u32"
  nfd_seqr_num :: "u32 \<Rightarrow> u32"
  nfd_bmq2natq :: "u32 \<Rightarrow> u32"
  nfd_out_fill :: "nbi_info \<Rightarrow> u32 \<Rightarrow> u32 \<Rightarrow> nfd_out_input"
  nfd_out_ctm_only :: "nfd_out_input \<Rightarrow> nfd_out_input"
  nfd_out_set_dd :: "nfd_out_input \<Rightarrow> nfd_out_input"
  nfd_out_set_raw :: "nat \<Rightarrow> u32 \<Rightarrow> nfd_out_input \<Rightarrow> nfd_out_input"
  ctm_ptr40 :: "u32 \<Rightarrow> u32 \<Rightarrow> u32 \<Rightarrow> u64"
  ctm_alloc_dev :: "pkt_hist \<Rightarrow> u32"
  nbi_recv_dev :: "pkt_hist \<Rightarrow> nbi_rxd"
  status_size_dev :: "pkt_hist \<Rightarrow> u32 \<Rightarrow> u32"
  nfd_in_dev :: "pkt_hist \<Rightarrow> nfd_in_desc"
  mem64_dev :: "pkt_hist \<Rightarrow> u64 \<Rightarrow> u64 list"
  mem32_dev :: "pkt_hist \<Rightarrow> u64 \<Rightarrow> nat \<Rightarrow> u32 list"
  script_dev :: "pkt_hist \<Rightarrow> u32 \<Rightarrow> u32 \<times> u32 \<times> u32 \<times> u32"
  workq_dev :: "pkt_hist \<Rightarrow> u32 \<Rightarrow> u32 \<Rightarrow> u32"
  credit_dev :: "pkt_hist \<Rightarrow> u32 \<Rightarrow> u32 \<Rightarrow> bool"

section \<open>Definitions of the library\<close>

definition INFRA_CNTR_RX_FROM_WIRE :: u32 where "INFRA_CNTR_RX_FROM_WIRE = 0"
definition INFRA_CNTR_ERR_FROM_WIRE :: u32 where "INFRA_CNTR_ERR_FROM_WIRE = 1"
definition INFRA_CNTR_RX_FROM_HOST :: u32 where "INFRA_CNTR_RX_FROM_HOST = 2"
definition INFRA_CNTR_ERR_FROM_HOST :: u32 where "INFRA_CNTR_ERR_FROM_HOST = 3"
definition INFRA_CNTR_TX_TO_WIRE_DROP :: u32 where "INFRA_CNTR_TX_TO_WIRE_DROP = 4"
definition INFRA_CNTR_TX_TO_WIRE :: u32 where "INFRA_CNTR_TX_TO_WIRE = 5"
definition INFRA_CNTR_TX_TO_HOST :: u32 where "INFRA_CNTR_TX_TO_HOST = 6"
definition INFRA_CNTR_TX_TO_HOST_DROP :: u32 where "INFRA_CNTR_TX_TO_HOST_DROP = 7"
definition INFRA_CNTR_ERR_TO_HOST :: u32 where "INFRA_CNTR_ERR_TO_HOST = 8"

definition INFRA_CNTR_INC :: "pkt_env \<Rightarrow> u32 \<Rightarrow> pkt_hist \<Rightarrow> pkt_hist" where
  "INFRA_CNTR_INC e cntr hs = (if pe_cntrs_enable e then InfraCntr cntr # hs else hs)"

definition INFRA_CNTRS_SET_BASE :: "pkt_env \<Rightarrow> pkt_hist \<Rightarrow> pkt_hist" where
  "INFRA_CNTRS_SET_BASE e hs = (if pe_cntrs_enable e then InfraCntrBase # hs else hs)"

definition MIN_CTM_SIZE :: "pkt_env \<Rightarrow> u32" where
  "MIN_CTM_SIZE e = push_bit (pe_ctm_size_256 e) 256"

definition CTM_SPLIT_LEN :: u32 where "CTM_SPLIT_LEN = 3"
definition NFD_IN_WQ :: u32 where "NFD_IN_WQ = 0"
definition CTM_ALLOC_ERR :: u32 where "CTM_ALLOC_ERR = 0xffffffff"
definition PMS_STRUCT_SIZE :: u32 where "PMS_STRUCT_SIZE = push_bit 2 4"
definition PMS_SCRIPT_OFS_MIN :: u32 where "PMS_SCRIPT_OFS_MIN = 32"
definition PMS_SCRIPT_OFS_MAX :: u32 where "PMS_SCRIPT_OFS_MAX = 120"
definition PMS_DEL_PKT_OFS_MIN :: u32 where "PMS_DEL_PKT_OFS_MIN = PMS_SCRIPT_OFS_MIN + 8"
definition PMS_DEL_PKT_OFS_MAX :: u32 where "PMS_DEL_PKT_OFS_MAX = PMS_SCRIPT_OFS_MAX + 7 * 16 + 16"
definition PMS_DEL_PKT_OFS_STEP :: u32 where "PMS_DEL_PKT_OFS_STEP = 2"

lemmas pms_consts = PMS_STRUCT_SIZE_def PMS_SCRIPT_OFS_MIN_def PMS_SCRIPT_OFS_MAX_def PMS_DEL_PKT_OFS_MIN_def
  PMS_DEL_PKT_OFS_MAX_def PMS_DEL_PKT_OFS_STEP_def

text \<open>The address in the table of modification scripts.\<close>

definition pms_script_addr :: "pkt_env \<Rightarrow> u32 \<Rightarrow> u32" where
  "pms_script_addr e pkt_offset =
    pe_scripts e + PMS_STRUCT_SIZE * (pkt_offset - PMS_DEL_PKT_OFS_MIN) div PMS_DEL_PKT_OFS_STEP"

text \<open>The result is the offset of the script in the packet buffer.\<close>

definition pkt_pms_write :: "pkt_env \<Rightarrow> u64 \<Rightarrow> u32 \<Rightarrow> pkt_hist \<Rightarrow> u32 \<times> pkt_hist" where
  "pkt_pms_write e ctm_base pkt_offset hs =
    (let script_base = pms_script_addr e pkt_offset;
         (s0, s1, s2, s3) = script_dev e hs script_base;
         hs = ScriptRead script_base # hs;
         out_pms_offset = s3 AND 0xFF;
         len0 = drop_bit 8 s3 AND 0x3;
         base = ctm_base + ucast out_pms_offset;
         hs = PktWrite32 base (take (unat len0 + 1) [s0, s1, s2, s3]) # hs;
         hs = PktRead32 base 1 # hs
     in (out_pms_offset, hs))"

section \<open>Packet pointers\<close>

abbreviation p_isl :: "pkt_env \<Rightarrow> pkt_meta \<Rightarrow> u32" where "p_isl e pk \<equiv> nbi_isl e (p_nbi pk)"
abbreviation p_pnum :: "pkt_env \<Rightarrow> pkt_meta \<Rightarrow> u32" where "p_pnum e pk \<equiv> nbi_pnum e (p_nbi pk)"
abbreviation p_bls :: "pkt_env \<Rightarrow> pkt_meta \<Rightarrow> u32" where "p_bls e pk \<equiv> nbi_bls e (p_nbi pk)"
abbreviation p_len :: "pkt_env \<Rightarrow> pkt_meta \<Rightarrow> u32" where "p_len e pk \<equiv> nbi_len e (p_nbi pk)"
abbreviation p_muptr :: "pkt_env \<Rightarrow> pkt_meta \<Rightarrow> u32" where "p_muptr e pk \<equiv> nbi_muptr e (p_nbi pk)"

definition mu_addr :: "pkt_env \<Rightarrow> pkt_meta \<Rightarrow> u64" where
  "mu_addr e pk = push_bit 11 (ucast (p_muptr e pk))"

definition pkt_ptr :: "pkt_env \<Rightarrow> pkt_meta \<Rightarrow> u32 \<Rightarrow> u64" where
  "pkt_ptr e pk offset =
    (let abs_off = offset + ucast (p_offset pk)
     in if abs_off < push_bit (unat (p_ctm_sz pk)) 256
        then ctm_ptr40 e (p_isl e pk) (p_pnum e pk) abs_off
        else mu_addr e pk + ucast abs_off)"

text \<open>The results are \<open>frame_off\<close>, \<open>ctm_ptr\<close> and \<open>mem_ptr\<close>.\<close>

definition pkt_ptrs :: "pkt_env \<Rightarrow> pkt_meta \<Rightarrow> u32 \<Rightarrow> u32 \<times> u64 \<times> u64" where
  "pkt_ptrs e pk offset =
    (let abs_off = offset + ucast (p_offset pk);
         ctm_ptr = (if abs_off < push_bit (unat (p_ctm_sz pk)) 256
                    then ctm_ptr40 e (p_isl e pk) (p_pnum e pk) abs_off else 0)
     in (abs_off, ctm_ptr, mu_addr e pk + ucast abs_off))"

definition ctm_split :: u32 where
  "ctm_split = CTM_SPLIT_LEN"

section \<open>Receiving\<close>

definition pkt_rx_wire :: "pkt_env \<Rightarrow> pkt_hist \<Rightarrow> int \<times> pkt_meta \<times> pkt_hist" where
  "pkt_rx_wire e hs =
    (let rxd = nbi_recv_dev e hs;
         hs = NbiRecv # hs;
         pk = pkt_zero\<lparr>p_seq := rx_seq rxd, p_offset := pe_nbi_offset e, p_nbi := rx_pkt_info rxd,
                       p_src := ucast (PKT_WIRE_PORT (rx_meta_type rxd) (rx_port rxd))\<rparr>;
         size = status_size_dev e hs (p_pnum e pk);
         hs = PktStatusRead 0 (p_pnum e pk) # hs;
         pk = pk\<lparr>p_ctm_sz := ucast size\<rparr>;
         pk = (if rx_seqr rxd \<noteq> 0
               then pk\<lparr>p_ro_ctx := ucast (push_bit 1 (rx_seqr rxd) - 1), p_is_gro_sequenced := True\<rparr> else pk);
         pk = pk\<lparr>p_orig_len := ucast (p_len e pk)\<rparr>
     in if rx_ie rxd then (-1, pk, INFRA_CNTR_INC e INFRA_CNTR_ERR_FROM_WIRE hs)
        else (0, pk, INFRA_CNTR_INC e INFRA_CNTR_RX_FROM_WIRE hs))"

text \<open>The loop that polls for a CTM packet.\<close>

partial_function (option) ctm_alloc_loop :: "pkt_env \<Rightarrow> pkt_hist \<Rightarrow> (u32 \<times> pkt_hist) option" where
  "ctm_alloc_loop e hs =
    (if ctm_alloc_dev e hs = CTM_ALLOC_ERR then ctm_alloc_loop e (CtmAlloc (pe_island e) # hs)
     else Some (ctm_alloc_dev e hs, CtmAlloc (pe_island e) # hs))"

declare ctm_alloc_loop.simps [code]

definition rx_copy_block :: "pkt_env \<Rightarrow> pkt_meta \<Rightarrow> u32 \<Rightarrow> u16 \<Rightarrow> pkt_hist \<Rightarrow> pkt_hist" where
  "rx_copy_block e pk ctm_pnum i hs =
    (let mu_ptr = mu_addr e pk OR ucast i;
         ctm_ptr = ctm_ptr40 e (pe_island e) ctm_pnum (ucast i);
         buf_xr = mem64_dev e hs mu_ptr;
         hs = PktRead64 mu_ptr # hs
     in PktWrite64 ctm_ptr buf_xr # hs)"

partial_function (option) rx_copy_loop :: "pkt_env \<Rightarrow> pkt_meta \<Rightarrow> u32 \<Rightarrow> u16 \<Rightarrow> u16 \<Rightarrow> pkt_hist \<Rightarrow> pkt_hist option" where
  "rx_copy_loop e pk ctm_pnum cpy_end i hs =
    (if i < cpy_end then rx_copy_loop e pk ctm_pnum cpy_end (i + 64) (rx_copy_block e pk ctm_pnum i hs)
     else Some hs)"

declare rx_copy_loop.simps [code]

text \<open>The metadata of a packet from the host, before the test of the invalid flag.\<close>

definition rx_host_meta :: "pkt_env \<Rightarrow> u32 \<Rightarrow> nfd_in_desc \<Rightarrow> pkt_meta" where
  "rx_host_meta e ctm_pnum rxd =
    (let pk = pkt_zero\<lparr>p_nbi := nbi_set_pnum e ctm_pnum (nbi_set_isl e (pe_island e) (nfd_fill_meta e rxd)),
                       p_seq := nfd_seqn e rxd, p_offset := pe_nfd_offset e, p_ctm_sz := of_nat (pe_ctm_size_256 e),
                       p_ro_ctx := ucast (push_bit 1 (nfd_seqr_num e (nfd_q_num e rxd)))\<rparr>
     in pk\<lparr>p_orig_len := ucast (p_len e pk),
           p_src := ucast (PKT_HOST_PORT_FROMQ (nfd_intf e rxd) (nfd_bmq2natq e (nfd_q_num e rxd)))\<rparr>)"

definition pkt_rx_host :: "pkt_env \<Rightarrow> pkt_hist \<Rightarrow> (int \<times> pkt_meta \<times> pkt_hist) option" where
  "pkt_rx_host e hs =
    do {
      (ctm_pnum, hs) \<leftarrow> ctm_alloc_loop e hs;
      let rxd = nfd_in_dev e hs;
      let hs = NfdInRecv NFD_IN_WQ # hs;
      let pk = rx_host_meta e ctm_pnum rxd;
      (if nfd_invalid e rxd then Some (-1, pk, INFRA_CNTR_INC e INFRA_CNTR_ERR_FROM_HOST hs)
       else do {
         let pk = pk\<lparr>app0 := fst (snd (snd rxd)), app1 := snd (snd (snd rxd))\<rparr>;
         let cpy_start = pe_nfd_offset e AND NOT 0x3F;
         let data_end = nfd_data_len e rxd + ucast (pe_nfd_offset e);
         let split = data_end > MIN_CTM_SIZE e;
         let pk = pk\<lparr>p_nbi := nbi_set_split e split (p_nbi pk)\<rparr>;
         let cpy_end = (if split then ucast (MIN_CTM_SIZE e) else ucast data_end);
         hs \<leftarrow> rx_copy_loop e pk ctm_pnum cpy_end cpy_start hs;
         Some (0, pk, INFRA_CNTR_INC e INFRA_CNTR_RX_FROM_HOST hs)
       })
    }"

definition pkt_rx_wq :: "pkt_env \<Rightarrow> u32 \<Rightarrow> u32 \<Rightarrow> pkt_hist \<Rightarrow> pkt_meta \<times> pkt_hist" where
  "pkt_rx_wq e ring_num ring_addr hs =
    (let xph = workq_dev e hs ring_num ring_addr;
         hs = WorkqAddThread ring_num ring_addr # hs;
         p = ctm_ptr40 e (ucast (ph_isl xph)) (ucast (ph_pnum xph)) 0;
         xpm = mem32_dev e hs p META_LW_CNT;
         hs = PktRead32 p META_LW_CNT # hs
     in ((pkt_of_raw xpm)\<lparr>p_is_gro_sequenced := False, p_dst := ucast PKT_DROP\<rparr>, hs))"

section \<open>Sending\<close>

definition drop_packet :: "pkt_env \<Rightarrow> pkt_meta \<Rightarrow> gro_meta option \<Rightarrow> pkt_hist \<Rightarrow> gro_meta option \<times> pkt_hist" where
  "drop_packet e pk gmeta hs =
    (let hs = BlmFree (p_muptr e pk) (p_bls e pk) # hs;
         hs = (if \<not> p_is_gro_sequenced pk
               then CtmFree (if pe_remote_packets e then p_isl e pk else 0) (p_pnum e pk) # hs else hs)
     in (if p_is_gro_sequenced pk then Some (GroDrop (p_isl e pk) (p_pnum e pk)) else gmeta, hs))"

definition tx_wire :: "pkt_env \<Rightarrow> platform \<Rightarrow> pkt_meta \<Rightarrow> u32 \<Rightarrow> u32 \<Rightarrow> pkt_hist \<Rightarrow> gro_meta option \<times> pkt_hist" where
  "tx_wire e pf pk ss outq hs =
    (let p = ctm_ptr40 e (p_isl e pk) (p_pnum e pk) 0;
         hs = PktWrite64 p [word_cat (fst (p_nbi pk)) (snd (p_nbi pk))] # hs;
         offset = ucast (p_offset pk);
         len = p_len e pk;
         hs = MacCmdWrite p offset (p_tx_l3_csum pk) (p_tx_l4_csum pk) # hs;
         offset = offset - 4;
         len = len + 4;
         pmoff = offset;
         (offset, hs) = pkt_pms_write e p offset hs;
         outq = NS_PLATFORM_NBI_TM_QID_LO pf (unat outq)
     in if p_is_gro_sequenced pk
        then (Some (GroNbi (pe_island e) (p_pnum e pk) (ucast (p_ctm_sz pk)) offset (len + pmoff) ss outq),
              INFRA_CNTR_INC e INFRA_CNTR_TX_TO_WIRE hs)
        else (None, INFRA_CNTR_INC e INFRA_CNTR_TX_TO_WIRE
               (NbiSend (pe_island e) (p_pnum e pk) (drop_bit 3 offset - 1) pmoff len ss outq
                  (ucast (p_ro_ctx pk)) (ucast (p_seq pk)) (ucast (p_ctm_sz pk)) # hs)))"

definition tx_host_desc :: "pkt_env \<Rightarrow> pkt_meta \<Rightarrow> nfd_out_input" where
  "tx_host_desc e pk =
    (let noi = nfd_out_fill e (p_nbi pk) (ucast (p_ctm_sz pk)) (ucast (p_offset pk));
         noi = nfd_out_ctm_only e noi;
         noi = nfd_out_set_dd e noi;
         noi = nfd_out_set_raw e 0 (app0 pk) noi
     in nfd_out_set_raw e 1 (app1 pk) noi)"

definition tx_host :: "pkt_env \<Rightarrow> pkt_meta \<Rightarrow> u32 \<Rightarrow> u32 \<Rightarrow> pkt_hist \<Rightarrow> int \<times> gro_meta option \<times> pkt_hist" where
  "tx_host e pk ss outq hs =
    (if \<not> credit_dev e hs ss outq
     then let (gmeta, hs) = drop_packet e pk None (NfdOutCredit ss outq # hs)
          in (-1, gmeta, INFRA_CNTR_INC e INFRA_CNTR_ERR_TO_HOST hs)
     else let hs = NfdOutCredit ss outq # hs; noi = tx_host_desc e pk
          in if p_is_gro_sequenced pk
             then (0, Some (GroNfd noi ss outq), INFRA_CNTR_INC e INFRA_CNTR_TX_TO_HOST hs)
             else (0, None, INFRA_CNTR_INC e INFRA_CNTR_TX_TO_HOST (NfdOutSend ss outq noi # hs)))"

definition tx_wq :: "pkt_env \<Rightarrow> pkt_meta \<Rightarrow> u32 \<Rightarrow> u32 \<Rightarrow> pkt_hist \<Rightarrow> gro_meta option \<times> pkt_hist" where
  "tx_wq e pk ss outq hs =
    (let p = ctm_ptr40 e (p_isl e pk) (p_pnum e pk) 0;
         hs = PktWrite32 p (pkt_raw pk) # hs;
         ph = handle_raw (ucast (p_isl e pk)) (ucast (p_pnum e pk))
     in if p_is_gro_sequenced pk then (Some (GroMemq (MUID_TO_ISL ss) outq ph), hs)
        else (None, WorkqAddWork outq (MUID_TO_MEM_RING_ADDR ss) ph # hs))"

datatype tx_result = TxHalt pkt_hist | TxRet int pkt_hist

text \<open>The last statement of the send: the reorder descriptor of a sequenced packet.\<close>

definition gro_finish :: "pkt_meta \<Rightarrow> gro_meta option \<Rightarrow> pkt_hist \<Rightarrow> pkt_hist" where
  "gro_finish pk gmeta hs =
    (if p_is_gro_sequenced pk then GroSend gmeta (ucast (p_ro_ctx pk)) (ucast (p_seq pk)) # hs else hs)"

definition pkt_tx :: "pkt_env \<Rightarrow> platform \<Rightarrow> pkt_meta \<Rightarrow> pkt_hist \<Rightarrow> tx_result" where
  "pkt_tx e pf pk hs =
    (let ss = PKT_PORT_SUBSYS_of (ucast (p_dst pk));
         outq = PKT_PORT_QUEUE_of (ucast (p_dst pk));
         ty = PKT_PORT_TYPE_of (ucast (p_dst pk));
         finish = (\<lambda>ret (gmeta, hs). TxRet ret (gro_finish pk gmeta hs))
     in if ty = PKT_PTYPE_WIRE then finish 0 (tx_wire e pf pk ss outq hs)
        else if ty = PKT_PTYPE_HOST then (let (ret, r) = tx_host e pk ss outq hs in finish ret r)
        else if ty = PKT_PTYPE_WQ then finish 0 (tx_wq e pk ss outq hs)
        else if ty = PKT_PTYPE_NONE then TxRet 0 hs
        else if ty = PKT_PTYPE_DROP_SEQ then finish 0 (Some GroDropSeq, hs)
        else if ty = PKT_PTYPE_DROP_HOST
             then (let (gmeta, hs) = drop_packet e pk None hs in finish 0 (gmeta, INFRA_CNTR_INC e INFRA_CNTR_TX_TO_HOST_DROP hs))
        else if ty = PKT_PTYPE_DROP_WIRE
             then (let hs = NbiDropSeq (p_isl e pk) (p_pnum e pk) (p_len e pk) (ucast (p_ro_ctx pk)) (ucast (p_seq pk))
                              (ucast (p_ctm_sz pk)) # hs;
                       (gmeta, hs) = drop_packet e pk None hs
                   in finish 0 (gmeta, INFRA_CNTR_INC e INFRA_CNTR_TX_TO_WIRE_DROP hs))
        else TxHalt (EngineHalt # hs))"

definition init_tx :: "pkt_env \<Rightarrow> pkt_hist \<Rightarrow> pkt_hist" where
  "init_tx e hs = NfdInRecvInit # INFRA_CNTRS_SET_BASE e hs"

definition init_rx :: "pkt_env \<Rightarrow> pkt_hist \<Rightarrow> pkt_hist" where
  "init_rx e hs = GroCliInit # NfdOutSendInit # INFRA_CNTRS_SET_BASE e hs"

end
