(* ===== verification/PktIoSpec.thy ===== *)
theory PktIoSpec
  imports PktIo
begin

unbundle bit_operations_syntax

text \<open>
  What the packet library promises: the send disposes of the two buffers of a
  packet exactly once and answers the reorder block exactly once, a packet sent
  through a work queue arrives with its metadata, and a packet from the host is
  copied into the packet memory up to the end of the smallest buffer.  The
  allocation loop is an instance of the contract in \<open>PollLoop\<close>.
\<close>

section \<open>A concrete environment\<close>

text \<open>Blocks for the witnesses: the packet memory service refuses twice, memory
  words hold their addresses, one packet of 100 bytes waits at the host, and the work queue
  delivers the packet \<open>demo_pkt\<close>.\<close>

definition demo_pkt :: pkt_meta where
  "demo_pkt = pkt_zero\<lparr>p_nbi := (0x84070064, 0x123), p_seq := 9, p_dst := ucast (PKT_WQ_PORT 5 0x2a1)\<rparr>"

definition demo_pkt_env :: pkt_env where
  "demo_pkt_env = \<lparr>pe_island = 33, pe_cntrs_enable = True, pe_remote_packets = False, pe_ctm_size_256 = 0,
     pe_nbi_offset = 128, pe_nfd_offset = 128, pe_scripts = 0x1000,
     nbi_isl = (\<lambda>n. bf_get 26 6 (fst n)), nbi_pnum = (\<lambda>n. bf_get 16 10 (fst n)), nbi_bls = (\<lambda>n. bf_get 29 2 (snd n)),
     nbi_len = (\<lambda>n. bf_get 0 14 (fst n)), nbi_muptr = (\<lambda>n. bf_get 0 29 (snd n)),
     nbi_set_isl = (\<lambda>v n. (bf_put 26 6 v (fst n), snd n)), nbi_set_pnum = (\<lambda>v n. (bf_put 16 10 v (fst n), snd n)),
     nbi_set_split = (\<lambda>b n. (fst n, bf_put 31 1 (c_bool b) (snd n))),
     nfd_fill_meta = (\<lambda>d. (fst d, fst (snd d))), nfd_seqn = (\<lambda>d. 9), nfd_intf = (\<lambda>d. 0), nfd_q_num = (\<lambda>d. 6),
     nfd_invalid = (\<lambda>d. False), nfd_data_len = (\<lambda>d. bf_get 0 14 (fst d)), nfd_seqr_num = (\<lambda>q. q AND 1), nfd_bmq2natq = (\<lambda>q. q),
     nfd_out_fill = (\<lambda>n c off. [fst n, snd n, c, off]), nfd_out_ctm_only = (\<lambda>x. x), nfd_out_set_dd = (\<lambda>x. x),
     nfd_out_set_raw = (\<lambda>i v x. x[i := v]),
     ctm_ptr40 = (\<lambda>i p off. push_bit 32 (ucast i) OR push_bit 11 (ucast p) OR ucast off),
     ctm_alloc_dev = (\<lambda>hs. if length hs < 2 then CTM_ALLOC_ERR else 7), nbi_recv_dev = (\<lambda>hs. \<lparr>rx_seq = 1, rx_pkt_info = (0, 0),
       rx_meta_type = 0, rx_port = 0, rx_seqr = 0, rx_ie = False\<rparr>),
     status_size_dev = (\<lambda>hs p. 0), nfd_in_dev = (\<lambda>hs. (100, 0x123, 0, 0)), mem64_dev = (\<lambda>hs a. replicate 8 a),
     mem32_dev = (\<lambda>hs a n. pkt_raw demo_pkt), script_dev = (\<lambda>hs a. (0, 0, 0, 0)),
     workq_dev = (\<lambda>hs r a. handle_raw 33 7), credit_dev = (\<lambda>hs ss q. True)\<rparr>"

section \<open>Disposal of the buffers\<close>

text \<open>The commands that give the external buffer of the packet away, and those that
  give its packet memory away: a send passes both on, the free commands and a
  reorder drop return one.\<close>

fun gives_mu :: "pkt_event \<Rightarrow> bool" where
  "gives_mu (NbiSend _ _ _ _ _ _ _ _ _ _) = True"
| "gives_mu (NfdOutSend _ _ _) = True"
| "gives_mu (WorkqAddWork _ _ _) = True"
| "gives_mu (BlmFree _ _) = True"
| "gives_mu (GroSend (Some (GroNbi _ _ _ _ _ _ _)) _ _) = True"
| "gives_mu (GroSend (Some (GroNfd _ _ _)) _ _) = True"
| "gives_mu (GroSend (Some (GroMemq _ _ _)) _ _) = True"
| "gives_mu _ = False"

fun gives_ctm :: "pkt_event \<Rightarrow> bool" where
  "gives_ctm (NbiSend _ _ _ _ _ _ _ _ _ _) = True"
| "gives_ctm (NfdOutSend _ _ _) = True"
| "gives_ctm (WorkqAddWork _ _ _) = True"
| "gives_ctm (CtmFree _ _) = True"
| "gives_ctm (GroSend (Some (GroNbi _ _ _ _ _ _ _)) _ _) = True"
| "gives_ctm (GroSend (Some (GroNfd _ _ _)) _ _) = True"
| "gives_ctm (GroSend (Some (GroMemq _ _ _)) _ _) = True"
| "gives_ctm (GroSend (Some (GroDrop _ _)) _ _) = True"
| "gives_ctm _ = False"

fun gro_answer :: "pkt_event \<Rightarrow> bool" where
  "gro_answer (GroSend g _ _) = (g \<noteq> None)"
| "gro_answer _ = False"

text \<open>The number of commands of each kind.\<close>

definition tx_counts :: "pkt_hist \<Rightarrow> nat \<times> nat \<times> nat" where
  "tx_counts evs = (length (filter gives_mu evs), length (filter gives_ctm evs), length (filter gro_answer evs))"

text \<open>A step of the send that adds events of the given counts.\<close>

definition adds :: "pkt_hist \<Rightarrow> pkt_hist \<Rightarrow> nat \<times> nat \<times> nat \<Rightarrow> bool" where
  "adds hs hs' n \<longleftrightarrow> (\<exists>evs. hs' = evs @ hs \<and> tx_counts evs = n)"

lemma adds_refl [simp]: "adds hs hs (0, 0, 0)"
  by (simp add: adds_def tx_counts_def)

lemma adds_Cons: "adds hs hs' (a, b, c) \<Longrightarrow>
   adds hs (ev # hs') (a + of_bool (gives_mu ev), b + of_bool (gives_ctm ev), c + of_bool (gro_answer ev))"
  unfolding adds_def
proof (elim exE conjE)
  fix evs assume "hs' = evs @ hs" "tx_counts evs = (a, b, c)"
  then show "\<exists>es. ev # hs' = es @ hs \<and> tx_counts es = (a + of_bool (gives_mu ev), b + of_bool (gives_ctm ev), c + of_bool (gro_answer ev))"
    by (intro exI [of _ "ev # evs"]) (auto simp: tx_counts_def)
qed

lemma adds_cntr: "adds hs hs' n \<Longrightarrow> adds hs (INFRA_CNTR_INC e c hs') n"
  using adds_Cons [of hs hs' "fst n" "fst (snd n)" "snd (snd n)" "InfraCntr c"] by (simp add: INFRA_CNTR_INC_def)

lemma adds_eq: "adds hs hs' n \<Longrightarrow> n = n' \<Longrightarrow> adds hs hs' n'"
  by simp

text \<open>What a branch of the send has to hand to the last statement.\<close>

definition branch_ok :: "pkt_meta \<Rightarrow> pkt_hist \<Rightarrow> gro_meta option \<times> pkt_hist \<Rightarrow> bool" where
  "branch_ok pk hs r \<longleftrightarrow> adds hs (gro_finish pk (fst r) (snd r)) (1, 1, of_bool (p_is_gro_sequenced pk))"

lemma branchI:
  assumes "\<not> p_is_gro_sequenced pk \<Longrightarrow> adds hs hs' (1, 1, 0)"
    and "p_is_gro_sequenced pk \<Longrightarrow> adds hs hs' (a, b, 0) \<and> g \<noteq> None \<and>
       a + of_bool (gives_mu (GroSend g 0 0)) = 1 \<and> b + of_bool (gives_ctm (GroSend g 0 0)) = 1"
  shows "branch_ok pk hs (g, hs')"
proof (cases "p_is_gro_sequenced pk")
  case True
  obtain m where [simp]: "g = Some m" using assms(2) True by auto
  have "gives_mu (GroSend g x y) = gives_mu (GroSend g 0 0)" "gives_ctm (GroSend g x y) = gives_ctm (GroSend g 0 0)" for x y
    by (cases m; simp)+
  note same = this [of "ucast (p_ro_ctx pk)" "ucast (p_seq pk)"]
  have "adds hs hs' (a, b, 0)" "a + of_bool (gives_mu (GroSend g 0 0)) = 1" "b + of_bool (gives_ctm (GroSend g 0 0)) = 1"
    using assms(2) True by blast+
  then show ?thesis using True adds_Cons [of hs hs' a b 0 "GroSend g (ucast (p_ro_ctx pk)) (ucast (p_seq pk))"]
    unfolding same branch_ok_def gro_finish_def by simp
qed (use assms in \<open>simp add: branch_ok_def gro_finish_def\<close>)

lemma drop_branch:
  assumes "adds hs hs0 (0, 0, 0)"
  shows "branch_ok pk hs (fst (drop_packet e pk g hs0), INFRA_CNTR_INC e c (snd (drop_packet e pk g hs0)))"
proof -
  have "adds hs (BlmFree (p_muptr e pk) (p_bls e pk) # hs0) (Suc 0, 0, 0)"
    using adds_Cons [OF assms, of "BlmFree (p_muptr e pk) (p_bls e pk)"] by simp
  moreover have "adds hs (CtmFree i j # BlmFree (p_muptr e pk) (p_bls e pk) # hs0) (Suc 0, Suc 0, 0)" for i j
    using adds_Cons [OF calculation, of "CtmFree i j"] by simp
  ultimately show ?thesis by (intro branchI [where a = 1 and b = 0] adds_cntr conjI) (simp_all add: drop_packet_def Let_def adds_cntr)
qed

lemma wq_branch: "branch_ok pk hs (tx_wq e pk ss outq hs)"
proof -
  have w: "adds hs (PktWrite32 a ws # hs) (0, 0, 0)" for a ws
    using adds_Cons [OF adds_refl, of hs "PktWrite32 a ws"] by simp
  have "adds hs (WorkqAddWork x y z # PktWrite32 a ws # hs) (Suc 0, Suc 0, 0)" for x y z a ws
    using adds_Cons [OF w, of "WorkqAddWork x y z"] by simp
  then show ?thesis
    by (subst prod.collapse [symmetric], intro branchI [where a = 0 and b = 0]) (simp_all add: tx_wq_def Let_def w)
qed

lemma host_branch: "branch_ok pk hs (snd (tx_host e pk ss outq hs))"
proof -
  have c: "adds hs (NfdOutCredit ss outq # hs) (0, 0, 0)"
    using adds_Cons [OF adds_refl, of hs "NfdOutCredit ss outq"] by simp
  have s: "adds hs (NfdOutSend ss outq noi # NfdOutCredit ss outq # hs) (Suc 0, Suc 0, 0)" for noi
    using adds_Cons [OF c, of "NfdOutSend ss outq noi"] by simp
  show ?thesis
  proof (cases "credit_dev e hs ss outq")
    case True
    then show ?thesis
      by (subst prod.collapse [symmetric], intro branchI [where a = 0 and b = 0]) (simp_all add: tx_host_def Let_def c s adds_cntr)
  qed (use drop_branch [OF c] in \<open>simp add: tx_host_def case_prod_beta\<close>)
qed

lemma wire_branch: "branch_ok pk hs (tx_wire e pf pk ss outq hs)"
proof -
  have q: "adds hs (ev # hs') (0, 0, 0)" if "adds hs hs' (0, 0, 0)" "\<not> gives_mu ev" "\<not> gives_ctm ev" "\<not> gro_answer ev" for ev hs'
    using adds_Cons [OF that(1), of ev] that(2-4) by simp
  have s: "adds hs (NbiSend a b c d x y z u v w # hs') (Suc 0, Suc 0, 0)" if "adds hs hs' (0, 0, 0)" for a b c d x y z u v w hs'
    using adds_Cons [OF that, of "NbiSend a b c d x y z u v w"] by simp
  show ?thesis
    by (subst prod.collapse [symmetric], intro branchI [where a = 0 and b = 0])
      (simp_all add: tx_wire_def pkt_pms_write_def Let_def case_prod_beta q s adds_cntr)
qed

lemma port_type_cases:
  "PKT_PORT_TYPE_of x \<in> {PKT_PTYPE_DROP, PKT_PTYPE_WIRE, PKT_PTYPE_HOST, PKT_PTYPE_WQ, PKT_PTYPE_NONE, PKT_PTYPE_DROP_SEQ,
     PKT_PTYPE_DROP_WIRE, PKT_PTYPE_DROP_HOST}"
proof -
  have "unat (PKT_PORT_TYPE_of x) < 8"
    using unat_mask_and [of "drop_bit 13 x" 3] by (simp add: PKT_PORT_TYPE_of_def mask_eq_exp_minus_1)
  then have "unat (PKT_PORT_TYPE_of x) \<in> set [0..<8]" by simp
  then have "unat (PKT_PORT_TYPE_of x) \<in> {0, 1, 2, 3, 4, 5, 6, 7}" by (simp add: upt_rec) auto
  then show ?thesis unfolding ptypes by (auto simp: word_unat_eq_iff)
qed

text \<open>C5. For every packet and every answer of the blocks behind it, the send gives
  the external buffer away exactly once and the packet memory exactly once, by a
  send, a free or a reorder descriptor, when the destination is the wire, the
  host, a work queue or a drop; it keeps both for the destinations \<open>PKT_NOTX\<close> and
  \<open>PKT_DROP_SEQ\<close>.  A sequenced packet is answered to the reorder block with
  exactly one descriptor that was built, except for \<open>PKT_NOTX\<close>, and an
  unsequenced packet with none.  The engine halts exactly on the type 0, which
  the header calls \<open>PKT_PTYPE_DROP\<close>, with both buffers kept.\<close>

theorem pkt_tx_disposes_once:
  fixes e pf pk hs
  defines "ty \<equiv> PKT_PORT_TYPE_of (ucast (p_dst pk))"
  shows "case pkt_tx e pf pk hs of
      TxHalt hs' \<Rightarrow> ty = PKT_PTYPE_DROP \<and> hs' = EngineHalt # hs
    | TxRet ret hs' \<Rightarrow> ty \<noteq> PKT_PTYPE_DROP \<and>
        (\<exists>evs. hs' = evs @ hs \<and>
          length (filter gives_mu evs) = (if ty = PKT_PTYPE_NONE \<or> ty = PKT_PTYPE_DROP_SEQ then 0 else 1) \<and>
          length (filter gives_ctm evs) = (if ty = PKT_PTYPE_NONE \<or> ty = PKT_PTYPE_DROP_SEQ then 0 else 1) \<and>
          length (filter gro_answer evs) = (if p_is_gro_sequenced pk \<and> ty \<noteq> PKT_PTYPE_NONE then 1 else 0))"
proof -
  have ty: "ty \<in> {PKT_PTYPE_DROP, PKT_PTYPE_WIRE, PKT_PTYPE_HOST, PKT_PTYPE_WQ, PKT_PTYPE_NONE, PKT_PTYPE_DROP_SEQ,
     PKT_PTYPE_DROP_WIRE, PKT_PTYPE_DROP_HOST}" unfolding ty_def by (rule port_type_cases)
  have fin: "\<exists>evs. gro_finish pk (fst r) (snd r) = evs @ hs \<and> length (filter gives_mu evs) = 1 \<and> length (filter gives_ctm evs) = 1 \<and>
      length (filter gro_answer evs) = (if p_is_gro_sequenced pk then 1 else 0)" if "branch_ok pk hs r" for r
    using that unfolding branch_ok_def adds_def tx_counts_def by (auto split: if_splits)
  have dseq: "\<exists>evs. gro_finish pk (Some GroDropSeq) hs = evs @ hs \<and> length (filter gives_mu evs) = 0 \<and> length (filter gives_ctm evs) = 0 \<and>
      length (filter gro_answer evs) = (if p_is_gro_sequenced pk then 1 else 0)"
    by (cases "p_is_gro_sequenced pk") (simp_all add: gro_finish_def)
  have w: "adds hs (NbiDropSeq a b c d x y # hs) (0, 0, 0)" for a b c d x y
    using adds_Cons [OF adds_refl, of hs "NbiDropSeq a b c d x y"] by simp
  note branches = fin [OF wire_branch] fin [OF host_branch] fin [OF wq_branch] fin [OF drop_branch, OF adds_refl]
    fin [OF drop_branch, OF w] dseq
  show ?thesis using ty branches unfolding ty_def
    by (auto simp: pkt_tx_def ptypes Let_def case_prod_beta)
qed

section \<open>Modification scripts and packets from the wire\<close>

text \<open>For the even offsets from \<open>PMS_DEL_PKT_OFS_MIN\<close> to \<open>PMS_DEL_PKT_OFS_MAX\<close> the
  script is the entry of the table at half the rebased offset.\<close>

lemma pms_script_entry:
  assumes "n \<le> 104"
  shows "pms_script_addr e (PMS_DEL_PKT_OFS_MIN + 2 * of_nat n) = pe_scripts e + 16 * of_nat n"
    and "PMS_DEL_PKT_OFS_MIN + 2 * of_nat n \<le> PMS_DEL_PKT_OFS_MAX"
proof -
  have "unat (of_nat (32 * n) :: u32) = 32 * n" using assms by (simp add: unat_of_nat del: of_nat_mult)
  then have "(of_nat (32 * n) :: u32) div 2 = of_nat (16 * n)"
    using assms by (simp add: word_unat_eq_iff unat_div_distrib unat_of_nat del: of_nat_mult)
  then show "pms_script_addr e (PMS_DEL_PKT_OFS_MIN + 2 * of_nat n) = pe_scripts e + 16 * of_nat n"
    by (simp add: pms_script_addr_def pms_consts algebra_simps)
  have "unat (40 + 2 * of_nat n :: u32) = 40 + 2 * n"
    using assms unat_of_nat [of "40 + 2 * n", where ?'a = 32] by simp
  then show "PMS_DEL_PKT_OFS_MIN + 2 * of_nat n \<le> PMS_DEL_PKT_OFS_MAX"
    using assms by (simp add: pms_consts word_le_nat_alt)
qed

text \<open>The four sequencers of the NBI use the odd reorder contexts; a packet without a
  sequencer is malformed and stays unsequenced.\<close>

lemma rx_wire_reorder:
  fixes e hs
  defines "pk \<equiv> fst (snd (pkt_rx_wire e hs))"
  shows "p_is_gro_sequenced pk \<longleftrightarrow> rx_seqr (nbi_recv_dev e hs) \<noteq> 0"
    and "rx_seqr (nbi_recv_dev e hs) \<in> {1, 2, 3, 4} \<Longrightarrow> ucast (p_ro_ctx pk) = 2 * rx_seqr (nbi_recv_dev e hs) - 1"
    and "p_nbi pk = rx_pkt_info (nbi_recv_dev e hs)" "p_orig_len pk = ucast (p_len e pk)" "p_dst pk = 0"
    and "fst (pkt_rx_wire e hs) = (if rx_ie (nbi_recv_dev e hs) then -1 else 0)"
  unfolding pk_def by (auto simp: pkt_rx_wire_def Let_def pkt_zero_def pkt_of_raw_def META_LW_CNT_def nth_Cons')

section \<open>Work queues\<close>

text \<open>C24. A packet sent to a work queue is written with its whole metadata to the
  front of its packet memory and its handle is added to ring \<open>queue mod 256\<close> of the memory
  unit, directly or through the reorder block.  A thread that takes the handle
  and finds the packet memory as it was written gets the metadata back, no
  longer sequenced and with the drop destination.\<close>

theorem wq_handover:
  assumes dst: "p_dst pk = ucast (PKT_WQ_PORT muid queue)" "muid < 8" "queue < 1024"
    and fits: "p_isl e pk < 256" "p_pnum e pk < 65536"
    and recv: "workq_dev r hs' ring addr = handle_raw (ucast (p_isl e pk)) (ucast (p_pnum e pk))"
      "ctm_ptr40 r = ctm_ptr40 e"
      "mem32_dev r (WorkqAddThread ring addr # hs') (ctm_ptr40 e (p_isl e pk) (p_pnum e pk) 0) META_LW_CNT = pkt_raw pk"
  shows "pkt_tx e pf pk hs = TxRet 0
      ((if p_is_gro_sequenced pk
        then GroSend (Some (GroMemq (MUID_TO_ISL muid) (queue mod 256) (workq_dev r hs' ring addr)))
               (ucast (p_ro_ctx pk)) (ucast (p_seq pk))
        else WorkqAddWork (queue mod 256) (MUID_TO_MEM_RING_ADDR muid) (workq_dev r hs' ring addr)) #
       PktWrite32 (ctm_ptr40 e (p_isl e pk) (p_pnum e pk) 0) (pkt_raw pk) # hs) \<and>
    fst (pkt_rx_wq r ring addr hs') = pk\<lparr>p_is_gro_sequenced := False, p_dst := ucast PKT_DROP\<rparr>"
proof
  have t: "PKT_PTYPE_WQ < 8" by (simp add: ptypes)
  show "pkt_tx e pf pk hs = TxRet 0
      ((if p_is_gro_sequenced pk
        then GroSend (Some (GroMemq (MUID_TO_ISL muid) (queue mod 256) (workq_dev r hs' ring addr)))
               (ucast (p_ro_ctx pk)) (ucast (p_seq pk))
        else WorkqAddWork (queue mod 256) (MUID_TO_MEM_RING_ADDR muid) (workq_dev r hs' ring addr)) #
       PktWrite32 (ctm_ptr40 e (p_isl e pk) (p_pnum e pk) 0) (pkt_raw pk) # hs)"
    using port_build_fields [OF t dst(2,3)]
    by (simp add: pkt_tx_def dst(1) PKT_WQ_PORT_def recv(1) tx_wq_def gro_finish_def Let_def) (simp add: ptypes)
  have "ucast (ucast (p_isl e pk) :: u8) = p_isl e pk" "ucast (ucast (p_pnum e pk) :: u16) = p_pnum e pk"
    using fits less_pow_bits [of "p_isl e pk" 8] less_pow_bits [of "p_pnum e pk" 16] by (auto simp: bit_simps intro!: bit_word_eqI)
  then show "fst (pkt_rx_wq r ring addr hs') = pk\<lparr>p_is_gro_sequenced := False, p_dst := ucast PKT_DROP\<rparr>"
    using recv by (simp add: pkt_rx_wq_def Let_def)
qed

theorem wq_handover_witness:
  "pkt_tx demo_pkt_env HYDROGEN demo_pkt [] = TxRet 0
     [WorkqAddWork 0xa1 (MUID_TO_MEM_RING_ADDR 5) (handle_raw 33 7), PktWrite32 (ctm_ptr40 demo_pkt_env 33 7 0) (pkt_raw demo_pkt)] \<and>
   fst (pkt_rx_wq demo_pkt_env 0xa1 0 []) = demo_pkt\<lparr>p_is_gro_sequenced := False, p_dst := ucast PKT_DROP\<rparr>"
proof -
  have pk: "p_dst demo_pkt = ucast (PKT_WQ_PORT 5 0x2a1)" "p_isl demo_pkt_env demo_pkt = 33" "p_pnum demo_pkt_env demo_pkt = 7"
    "\<not> p_is_gro_sequenced demo_pkt"
    by (simp_all add: demo_pkt_def demo_pkt_env_def bf_get_def take_bit_eq_mod pkt_zero_def pkt_of_raw_def META_LW_CNT_def nth_Cons')
  have q: "(0x2a1 :: u32) mod 256 = 0xa1" by simp
  have w: "workq_dev demo_pkt_env [] 0xa1 0 = handle_raw 33 7"
    "mem32_dev demo_pkt_env [WorkqAddThread 0xa1 0] (ctm_ptr40 demo_pkt_env 33 7 0) META_LW_CNT = pkt_raw demo_pkt"
    by (simp_all add: demo_pkt_env_def)
  show ?thesis
    using wq_handover [of demo_pkt 5 "0x2a1" demo_pkt_env demo_pkt_env "[]" "0xa1" 0 HYDROGEN "[]"] pk q w by simp
qed

section \<open>Packets from the host\<close>

interpretation ctmal: poll_loop "ctm_alloc_loop e" "\<lambda>hs. ctm_alloc_dev e hs = CTM_ALLOC_ERR" "\<lambda>hs. CtmAlloc (pe_island e) # hs"
  "\<lambda>hs. (ctm_alloc_dev e hs, CtmAlloc (pe_island e) # hs)"
  for e
  by unfold_locales (subst ctm_alloc_loop.simps, rule refl)

lemma alloc_polls: "((\<lambda>hs. CtmAlloc a # hs) ^^ k) hs = replicate k (CtmAlloc a) @ hs"
  by (induction k) simp_all

lemma ctm_alloc_returns:
  assumes "ctm_alloc_dev e (replicate k (CtmAlloc (pe_island e)) @ hs) \<noteq> CTM_ALLOC_ERR"
  shows "\<exists>j \<le> k. ctm_alloc_loop e hs =
      Some (ctm_alloc_dev e (replicate j (CtmAlloc (pe_island e)) @ hs), replicate (Suc j) (CtmAlloc (pe_island e)) @ hs) \<and>
     ctm_alloc_dev e (replicate j (CtmAlloc (pe_island e)) @ hs) \<noteq> CTM_ALLOC_ERR"
  using ctmal.first_idle [where k = k and s = hs and e = e] assms unfolding alloc_polls by (metis append_Cons replicate_Suc)

text \<open>The copy loop runs over the 64-byte blocks that start before the end.\<close>

lemma rx_copy_loop_blocks:
  assumes "c \<le> 256" "b < 1024"
  shows "rx_copy_loop e pk pn (of_nat c) (of_nat (64 * b)) hs =
     Some (fold (\<lambda>k. rx_copy_block e pk pn (of_nat (64 * k))) [b..<(c + 63) div 64] hs)"
  using assms(2)
proof (induction "4 - b" arbitrary: b hs rule: less_induct)
  case less
  have lt: "(of_nat (64 * b) :: u16) < of_nat c \<longleftrightarrow> 64 * b < c"
    using assms(1) less.prems unfolding word_less_nat_alt unat_of_nat by simp
  show ?case
  proof (cases "64 * b < c")
    case True
    then have b: "b < 4" "b < (c + 63) div 64" using assms(1) by linarith+
    have next_block: "(of_nat (64 * b) + 64 :: u16) = of_nat (64 * Suc b)" by simp
    have "rx_copy_loop e pk pn (of_nat c) (of_nat (64 * Suc b)) h =
        Some (fold (\<lambda>k. rx_copy_block e pk pn (of_nat (64 * k))) [Suc b..<(c + 63) div 64] h)" for h
      using less.hyps [of "Suc b" h] b by simp
    then show ?thesis
      by (subst rx_copy_loop.simps) (simp only: next_block lt True if_True upt_conv_Cons [OF b(2)] fold_simps)
  next
    case False
    then have "[b..<(c + 63) div 64] = []" by auto
    with False lt show ?thesis by (subst rx_copy_loop.simps) simp
  qed
qed

lemma round_down_64: "x AND NOT 0x3F = of_nat (64 * (unat x div 64))" for x :: u16
proof -
  have m: "(0x3F :: u16) = mask 6" by (simp add: mask_eq_exp_minus_1)
  have "x AND NOT 0x3F = push_bit 6 (drop_bit 6 x)"
    unfolding m by (rule bit_word_eqI) (auto simp: bit_and_iff bit_not_iff bit_mask_iff bit_push_bit_iff bit_drop_bit_eq simp del: mask_numeral)
  moreover have "(push_bit 6 w :: u16) = 64 * w" for w by (simp add: push_bit_eq_mult)
  moreover have "unat x div 64 < 65536" using unsigned_less [of x, where ?'a = nat] by simp
  then have "drop_bit 6 x = of_nat (unat x div 64)"
    by (simp add: word_unat_eq_iff unat_of_nat unat_div_distrib drop_bit_eq_div)
  ultimately show ?thesis by simp
qed

text \<open>The events of a receive from the host, and an external buffer at \<open>base\<close> whose
  contents they do not change.\<close>

fun copy_event :: "pkt_env \<Rightarrow> pkt_event \<Rightarrow> bool" where
  "copy_event e (CtmAlloc _) = True"
| "copy_event e (NfdInRecv _) = True"
| "copy_event e (PktRead64 _) = True"
| "copy_event e (PktWrite64 a _) = (\<exists>i p off. a = ctm_ptr40 e i p off)"
| "copy_event e _ = False"

definition mu_stable :: "pkt_env \<Rightarrow> u64 \<Rightarrow> (u16 \<Rightarrow> u64 list) \<Rightarrow> pkt_hist \<Rightarrow> bool" where
  "mu_stable e base img hs \<longleftrightarrow>
     (\<forall>evs i. (\<forall>ev \<in> set evs. copy_event e ev) \<longrightarrow> mem64_dev e (evs @ hs) (base OR ucast i) = img i)"

text \<open>The 64-bit writes of a history, newest first.\<close>

fun pkt_writes :: "pkt_hist \<Rightarrow> (u64 \<times> u64 list) list" where
  "pkt_writes [] = []"
| "pkt_writes (PktWrite64 a ws # hs) = (a, ws) # pkt_writes hs"
| "pkt_writes (_ # hs) = pkt_writes hs"

lemma pkt_writes_append: "pkt_writes (hs @ hs') = pkt_writes hs @ pkt_writes hs'"
  by (induction hs rule: pkt_writes.induct) simp_all

lemma copy_blocks_events:
  assumes "mu_stable e (mu_addr e pk) img hs"
  shows "\<exists>evs. fold (\<lambda>k. rx_copy_block e pk pn (of_nat (64 * k))) bs hs = evs @ hs \<and> (\<forall>ev \<in> set evs. copy_event e ev) \<and>
     pkt_writes evs = rev (map (\<lambda>k. (ctm_ptr40 e (pe_island e) pn (ucast (of_nat (64 * k) :: u16)), img (of_nat (64 * k)))) bs)"
proof (induction bs rule: rev_induct)
  case (snoc b bs)
  then obtain evs where evs: "fold (\<lambda>k. rx_copy_block e pk pn (of_nat (64 * k))) bs hs = evs @ hs" "\<forall>ev \<in> set evs. copy_event e ev"
    "pkt_writes evs = rev (map (\<lambda>k. (ctm_ptr40 e (pe_island e) pn (ucast (of_nat (64 * k) :: u16)), img (of_nat (64 * k)))) bs)" by blast
  let ?c = "ctm_ptr40 e (pe_island e) pn (ucast (of_nat (64 * b) :: u16))" and ?m = "mu_addr e pk OR ucast (of_nat (64 * b) :: u16)"
  have "mem64_dev e (evs @ hs) ?m = img (of_nat (64 * b))" using assms evs(2) unfolding mu_stable_def by blast
  then have "rx_copy_block e pk pn (of_nat (64 * b)) (evs @ hs) = (PktWrite64 ?c (img (of_nat (64 * b))) # PktRead64 ?m # evs) @ hs"
    by (simp add: rx_copy_block_def Let_def del: of_nat_mult)
  then show ?case using evs by (intro exI [of _ "PktWrite64 ?c (img (of_nat (64 * b))) # PktRead64 ?m # evs"]) (auto simp del: of_nat_mult)
qed simp

lemma block_offset: "b < 1024 \<Longrightarrow> ucast (of_nat (64 * b) :: u16) = (of_nat (64 * b) :: u32)"
  by (simp add: word_unat_eq_iff unsigned_ucast_eq unat_of_nat take_bit_eq_mod del: of_nat_mult)

text \<open>The setters of the metadata that the receive uses leave the buffer address.\<close>

definition nbi_layout_ok :: "pkt_env \<Rightarrow> bool" where
  "nbi_layout_ok e \<longleftrightarrow> (\<forall>n v b. nbi_muptr e (nbi_set_isl e v n) = nbi_muptr e n \<and> nbi_muptr e (nbi_set_pnum e v n) = nbi_muptr e n \<and>
     nbi_muptr e (nbi_set_split e b n) = nbi_muptr e n)"

lemma copy_end:
  assumes "d < 0x10000" "pe_ctm_size_256 e = 0"
  shows "(if d + ucast off > MIN_CTM_SIZE e then ucast (MIN_CTM_SIZE e) else ucast (d + ucast off)) =
      (of_nat (min 256 (unat d + unat (off :: u16))) :: u16)" "MIN_CTM_SIZE e < d + ucast off \<longleftrightarrow> 256 < unat d + unat off"
proof -
  have u: "unat (d + ucast off) = unat d + unat off"
    using assms(1) unsigned_less [of off, where ?'a = nat] by (simp add: unat_word_ariths unsigned_ucast_eq take_bit_eq_mod word_less_nat_alt)
  have g: "MIN_CTM_SIZE e < d + ucast off \<longleftrightarrow> 256 < unat d + unat off"
    unfolding word_less_nat_alt u by (simp add: MIN_CTM_SIZE_def assms(2))
  then show "MIN_CTM_SIZE e < d + ucast off \<longleftrightarrow> 256 < unat d + unat off" .
  have "ucast (d + ucast off) = (of_nat (unat d + unat off) :: u16)" unfolding u [symmetric] by (simp add: unsigned_of_nat)
  then show "(if d + ucast off > MIN_CTM_SIZE e then ucast (MIN_CTM_SIZE e) else ucast (d + ucast off)) =
      (of_nat (min 256 (unat d + unat off)) :: u16)"
    using g by (auto simp: MIN_CTM_SIZE_def assms(2) min_def)
qed

lemma mu_stable_mono: "mu_stable e base img hs \<Longrightarrow> \<forall>ev \<in> set evs. copy_event e ev \<Longrightarrow> mu_stable e base img (evs @ hs)"
  unfolding mu_stable_def by (metis Un_iff append_assoc set_append)

text \<open>The metadata of a valid packet from the host.\<close>

definition rx_host_pkt :: "pkt_env \<Rightarrow> u32 \<Rightarrow> nfd_in_desc \<Rightarrow> pkt_meta" where
  "rx_host_pkt e pn rxd = (rx_host_meta e pn rxd)\<lparr>app0 := fst (snd (snd rxd)), app1 := snd (snd (snd rxd)),
     p_nbi := nbi_set_split e (256 < unat (nfd_data_len e rxd) + unat (pe_nfd_offset e)) (p_nbi (rx_host_meta e pn rxd))\<rparr>"

lemma rx_host_mu_addr: "nbi_layout_ok e \<Longrightarrow> mu_addr e (rx_host_pkt e pn rxd) = push_bit 11 (ucast (nbi_muptr e (nfd_fill_meta e rxd)))"
  by (simp add: mu_addr_def rx_host_pkt_def rx_host_meta_def nbi_layout_ok_def Let_def del: split_paired_All)

lemma rx_host_valid:
  assumes "ctm_alloc_loop e hs = Some (pn, h)" "nfd_in_dev e h = rxd" "\<not> nfd_invalid e rxd"
    and "nfd_data_len e rxd < 0x10000" "pe_ctm_size_256 e = 0"
  defines "h' \<equiv> fold (\<lambda>b. rx_copy_block e (rx_host_pkt e pn rxd) pn (of_nat (64 * b)))
     [unat (pe_nfd_offset e) div 64..<(min 256 (unat (nfd_data_len e rxd) + unat (pe_nfd_offset e)) + 63) div 64] (NfdInRecv NFD_IN_WQ # h)"
  shows "pkt_rx_host e hs = Some (0, rx_host_pkt e pn rxd, INFRA_CNTR_INC e INFRA_CNTR_RX_FROM_HOST h')"
proof -
  let ?off = "pe_nfd_offset e" and ?d = "nfd_data_len e rxd"
  have "unat ?off div 64 < 1024" using unsigned_less [of ?off, where ?'a = nat] by simp
  from rx_copy_loop_blocks [OF _ this, of "min 256 (unat ?d + unat ?off)" e "rx_host_pkt e pn rxd" pn "NfdInRecv NFD_IN_WQ # h"]
  have loop: "rx_copy_loop e (rx_host_pkt e pn rxd) pn (of_nat (min 256 (unat ?d + unat ?off))) (?off AND NOT 0x3F) (NfdInRecv NFD_IN_WQ # h) = Some h'"
    unfolding round_down_64 h'_def by simp
  have pk: "(rx_host_meta e pn rxd)\<lparr>app0 := fst (snd (snd rxd)), app1 := snd (snd (snd rxd)),
      p_nbi := nbi_set_split e (MIN_CTM_SIZE e < ?d + ucast ?off)
        (p_nbi ((rx_host_meta e pn rxd)\<lparr>app0 := fst (snd (snd rxd)), app1 := snd (snd (snd rxd))\<rparr>))\<rparr> = rx_host_pkt e pn rxd"
    by (simp add: rx_host_pkt_def copy_end(2) [OF assms(4,5)])
  show ?thesis
    using assms(1-3) loop unfolding pkt_rx_host_def Let_def
    by (simp only: bind.bind_lunit prod.case if_False pkt_meta.simps copy_end(1) [OF assms(4,5)] pk)
qed

text \<open>What the receive leaves in the packet, all fields: the frame information of
  the descriptor with island, packet number and, for a valid descriptor, the
  split flag; the sequence number and the sequencer of the queue, the offset,
  the length and the source of the descriptor; the words 2 and 3 of a valid
  descriptor; and zero otherwise.\<close>

definition host_pkt_spec :: "pkt_env \<Rightarrow> u32 \<Rightarrow> nfd_in_desc \<Rightarrow> pkt_meta" where
  "host_pkt_spec e pn rxd =
    (let n = nbi_set_pnum e pn (nbi_set_isl e (pe_island e) (nfd_fill_meta e rxd)); ok = (\<not> nfd_invalid e rxd) in
     \<lparr>p_nbi = (if ok then nbi_set_split e (256 < unat (nfd_data_len e rxd) + unat (pe_nfd_offset e)) n else n),
      p_seq = nfd_seqn e rxd, p_offset = pe_nfd_offset e, p_ctm_sz = 0, p_ro_ctx = ucast (2 * nfd_seqr_num e (nfd_q_num e rxd)),
      p_is_gro_sequenced = False, p_rx_l3_csum_present = False, p_rx_l3_csum_ok = False, p_rx_l4_csum_present = False,
      p_rx_l4_csum_ok = False, p_rx_l4_tcp = False, p_tx_l3_csum = False, p_tx_l4_csum = False, p_rx_lso = False, p_wq_type = False,
      p_orig_len = ucast (nbi_len e n), p_src = ucast (PKT_HOST_PORT_FROMQ (nfd_intf e rxd) (nfd_bmq2natq e (nfd_q_num e rxd))),
      p_dst = 0, app0 = (if ok then fst (snd (snd rxd)) else 0), app1 = (if ok then snd (snd (snd rxd)) else 0)\<rparr>)"

lemma host_pkt_fields:
  assumes "pe_ctm_size_256 e = 0"
  shows "\<not> nfd_invalid e rxd \<Longrightarrow> rx_host_pkt e pn rxd = host_pkt_spec e pn rxd"
    "nfd_invalid e rxd \<Longrightarrow> rx_host_meta e pn rxd = host_pkt_spec e pn rxd"
  using assms
  by (simp_all add: rx_host_pkt_def rx_host_meta_def host_pkt_spec_def Let_def pkt_zero_def pkt_of_raw_def META_LW_CNT_def
      nth_Cons' push_bit_eq_mult mult.commute)

lemma rx_host_invalid:
  assumes "ctm_alloc_loop e hs = Some (pn, h)" "nfd_in_dev e h = rxd" "nfd_invalid e rxd" "pe_ctm_size_256 e = 0"
  shows "pkt_rx_host e hs = Some (-1, host_pkt_spec e pn rxd, INFRA_CNTR_INC e INFRA_CNTR_ERR_FROM_HOST (NfdInRecv NFD_IN_WQ # h))"
  using assms(1-3) by (simp add: pkt_rx_host_def Let_def host_pkt_fields(2) [OF assms(4)])

lemma polls_no_writes: "pkt_writes (evs @ NfdInRecv w # replicate j (CtmAlloc i)) = pkt_writes evs"
  unfolding pkt_writes_append by (induction j) simp_all

lemma counter_no_writes: "\<exists>es. INFRA_CNTR_INC e c (xs @ hs) = es @ hs \<and> pkt_writes es = pkt_writes xs"
  by (cases "pe_cntrs_enable e") (auto simp: INFRA_CNTR_INC_def intro: exI [of _ "InfraCntr c # xs"])

text \<open>C16. When the packet memory service answers within \<open>k\<close> further polls, the
  receive from the host returns the packet with the first packet number that was
  not the error value, and its metadata are those of the descriptor, in every
  field.  For a valid descriptor it returns 0 and its 64-bit writes are, in
  order, one for each 64-byte block from the one that holds the first byte of the
  frame to the last one that starts before the end of the frame or of the
  256-byte buffer, each at the block's place in the packet memory and with what
  the external buffer holds there; the split flag is set exactly when the frame
  ends behind byte 256.  For an invalid descriptor it returns \<open>-1\<close>, copies nothing
  and leaves the split flag and the two application words unset.  The external
  buffer must keep its content during the copy, and the fields of the frame
  information must not overlap its address.\<close>

theorem rx_host_copies:
  assumes "ctm_alloc_dev e (replicate k (CtmAlloc (pe_island e)) @ hs) \<noteq> CTM_ALLOC_ERR"
    and "\<forall>j \<le> Suc k. nfd_in_dev e (replicate j (CtmAlloc (pe_island e)) @ hs) = rxd"
    and "nfd_data_len e rxd < 0x10000" "pe_ctm_size_256 e = 0" "nbi_layout_ok e"
    and "mu_stable e (push_bit 11 (ucast (nbi_muptr e (nfd_fill_meta e rxd)))) img hs"
  shows "\<exists>pn evs. pkt_rx_host e hs = Some (if nfd_invalid e rxd then -1 else 0, host_pkt_spec e pn rxd, evs @ hs) \<and> pn \<noteq> CTM_ALLOC_ERR \<and>
     (\<exists>j \<le> k. pn = ctm_alloc_dev e (replicate j (CtmAlloc (pe_island e)) @ hs)) \<and>
     rev (pkt_writes evs) = (if nfd_invalid e rxd then []
       else map (\<lambda>b. (ctm_ptr40 e (pe_island e) pn (of_nat (64 * b)), img (of_nat (64 * b))))
         [unat (pe_nfd_offset e) div 64..<(min 256 (unat (nfd_data_len e rxd) + unat (pe_nfd_offset e)) + 63) div 64])"
proof -
  let ?A = "\<lambda>j. replicate j (CtmAlloc (pe_island e)) @ hs"
  let ?bs = "[unat (pe_nfd_offset e) div 64..<(min 256 (unat (nfd_data_len e rxd) + unat (pe_nfd_offset e)) + 63) div 64]"
  obtain j where j: "j \<le> k" "ctm_alloc_loop e hs = Some (ctm_alloc_dev e (?A j), ?A (Suc j))" "ctm_alloc_dev e (?A j) \<noteq> CTM_ALLOC_ERR"
    using ctm_alloc_returns [OF assms(1)] by blast
  let ?pn = "ctm_alloc_dev e (?A j)" and ?p = "NfdInRecv NFD_IN_WQ # replicate (Suc j) (CtmAlloc (pe_island e))"
  have rxd: "nfd_in_dev e (?A (Suc j)) = rxd" using assms(2) j(1) by (meson Suc_le_mono)
  show ?thesis
  proof (cases "nfd_invalid e rxd")
    case True
    obtain es where "INFRA_CNTR_INC e INFRA_CNTR_ERR_FROM_HOST (?p @ hs) = es @ hs" "pkt_writes es = []"
      using counter_no_writes [of e INFRA_CNTR_ERR_FROM_HOST "[] @ ?p" hs] unfolding polls_no_writes by auto
    then show ?thesis using rx_host_invalid [OF j(2) rxd True assms(4)] j True
      by (intro exI [of _ ?pn] exI [of _ es]) auto
  next
    case False
    have "mu_stable e (mu_addr e (rx_host_pkt e ?pn rxd)) img (?p @ hs)"
      unfolding rx_host_mu_addr [OF assms(5)] by (rule mu_stable_mono [OF assms(6)]) (auto split: if_splits)
    from copy_blocks_events [OF this, of ?pn ?bs] obtain evs where
      evs: "fold (\<lambda>b. rx_copy_block e (rx_host_pkt e ?pn rxd) ?pn (of_nat (64 * b))) ?bs (?p @ hs) = evs @ ?p @ hs"
      "pkt_writes evs = rev (map (\<lambda>b. (ctm_ptr40 e (pe_island e) ?pn (ucast (of_nat (64 * b) :: u16)), img (of_nat (64 * b)))) ?bs)" by blast
    have bs: "b < 1024" if "b \<in> set ?bs" for b using that by auto
    obtain es where es: "INFRA_CNTR_INC e INFRA_CNTR_RX_FROM_HOST ((evs @ ?p) @ hs) = es @ hs" "pkt_writes es = pkt_writes evs"
      using counter_no_writes [of e INFRA_CNTR_RX_FROM_HOST "evs @ ?p" hs] unfolding polls_no_writes by blast
    have "pkt_rx_host e hs = Some (0, host_pkt_spec e ?pn rxd, es @ hs)"
      using rx_host_valid [OF j(2) rxd False assms(3,4)] evs(1) es(1) host_pkt_fields(1) [OF assms(4) False] by simp
    moreover have "rev (pkt_writes es) = map (\<lambda>b. (ctm_ptr40 e (pe_island e) ?pn (of_nat (64 * b)), img (of_nat (64 * b)))) ?bs"
      unfolding es(2) evs(2) rev_rev_ident by (rule map_cong [OF refl]) (simp only: block_offset [OF bs])
    ultimately show ?thesis using j False by (intro exI [of _ ?pn] exI [of _ es]) auto
  qed
qed

theorem rx_host_copies_witness:
  "\<exists>pn evs. pkt_rx_host demo_pkt_env [] = Some (0, host_pkt_spec demo_pkt_env pn (100, 0x123, 0, 0), evs) \<and> pn \<noteq> CTM_ALLOC_ERR \<and>
     (\<exists>j \<le> 2. pn = ctm_alloc_dev demo_pkt_env (replicate j (CtmAlloc (pe_island demo_pkt_env)))) \<and>
     rev (pkt_writes evs) = map (\<lambda>b. (ctm_ptr40 demo_pkt_env (pe_island demo_pkt_env) pn (of_nat (64 * b)),
       replicate 8 (push_bit 11 0x123 OR ucast (of_nat (64 * b) :: u16)))) [2, 3]"
proof -
  let ?e = demo_pkt_env and ?rxd = "(100, 0x123, 0, 0) :: nfd_in_desc"
  have a: "ctm_alloc_dev ?e (replicate 2 (CtmAlloc (pe_island ?e)) @ []) \<noteq> CTM_ALLOC_ERR"
    by (simp add: demo_pkt_env_def CTM_ALLOC_ERR_def)
  have d: "nfd_data_len ?e ?rxd = 100" "pe_nfd_offset ?e = 128" "nbi_muptr ?e (nfd_fill_meta ?e ?rxd) = 0x123"
    by (simp_all add: demo_pkt_env_def bf_get_def take_bit_eq_mod)
  have r: "\<forall>j \<le> Suc 2. nfd_in_dev ?e (replicate j (CtmAlloc (pe_island ?e)) @ []) = ?rxd"
    "nfd_data_len ?e ?rxd < 0x10000" "pe_ctm_size_256 ?e = 0"
    by (simp_all add: demo_pkt_env_def bf_get_def take_bit_eq_mod)
  have i: "\<not> nfd_invalid ?e ?rxd" by (simp add: demo_pkt_env_def bf_get_def take_bit_eq_mod)
  have l: "nbi_layout_ok ?e" by (simp add: nbi_layout_ok_def demo_pkt_env_def bf_law)
  have m: "mu_stable ?e (push_bit 11 (ucast (nbi_muptr ?e (nfd_fill_meta ?e ?rxd)))) (\<lambda>i. replicate 8 (push_bit 11 0x123 OR ucast i)) []"
    unfolding d(3) by (simp add: mu_stable_def demo_pkt_env_def)
  have b: "[unat (pe_nfd_offset ?e) div 64..<(min 256 (unat (nfd_data_len ?e ?rxd) + unat (pe_nfd_offset ?e)) + 63) div 64] = [2, 3]"
    unfolding d by (simp add: upt_rec)
  show ?thesis using rx_host_copies [OF a r l m] i unfolding b append_Nil2 by simp
qed

end
