(* ===== verification/ActSpec.thy ===== *)
theory ActSpec
  imports ActBuild
begin

unbundle bit_operations_syntax

text \<open>
  What the builders promise: for each vNIC type and control word, the sequence
  of abstract actions that its list consists of, laid out by \<open>encode\<close>.  The wire
  list of a PF agrees with the action lists in the comment at the head of
  \<open>app_config_tables.c\<close>; where the other builders differ from that comment, the
  sequences here are those of the code.  Every builder returns, never writes beyond the 16 words, and its
  list is exactly the encoded sequence.  The last section reads argument fields
  back the way the worker does.
\<close>

section \<open>Abstract action sequences\<close>

definition when_list :: "bool \<Rightarrow> 'a list \<Rightarrow> 'a list" where
  "when_list c xs = (if c then xs else [])"

definition spec_nbi :: "cfg_env \<Rightarrow> host_mem \<Rightarrow> u32 \<Rightarrow> u32 \<Rightarrow> u32 \<Rightarrow> u32 \<Rightarrow> u32 \<Rightarrow> cfg_hw \<Rightarrow> action list" where
  "spec_nbi e h jnk pcie vid veb_up control hw =
    (let c = flag control; n = nc e; veb = c_true veb_up; vnic = snd (NFD_VID2VNIC e vid) in
     [a_rx_wire e h pcie vid (c (CTRL_VXLAN n)) (c (CTRL_NVGRE n)) (c (CTRL_RXCSUM n) \<and> \<not> c (CTRL_CSUM_COMPLETE n))]
     @ when_list veb [veb_mac h pcie vid (\<not> c (CTRL_PROMISC n))]
     @ when_list (\<not> veb \<and> \<not> c (CTRL_PROMISC n))
         [a_dmac_match (bar_mac0 (bar h pcie vid)) (bar_mac1 (bar h pcie vid))]
     @ when_list (veb \<or> c (CTRL_CSUM_COMPLETE n)) [a_checksum veb_up veb_up (c_bool (c (CTRL_CSUM_COMPLETE n)))]
     @ when_list (c (CTRL_BPF n)) [a_bpf e vnic]
     @ when_list (c (CTRL_RSS_ANY n) \<or> c (CTRL_BPF n))
         [a_rss e h jnk pcie vid (c_bool (NFD_CFG_MAJOR_PF e < 4 \<and> \<not> c (CTRL_CHAIN_META n)))]
     @ [a_tx_host e jnk pcie vid 0 veb_up hw]
     @ when_list veb [a_plain INSTR_PUSH_PKT, a_plain INSTR_TX_VLAN])"

definition spec_pf :: "cfg_env \<Rightarrow> host_mem \<Rightarrow> u32 \<Rightarrow> u32 \<Rightarrow> u32 \<Rightarrow> u32 \<Rightarrow> u32 \<Rightarrow> action list" where
  "spec_pf e h jnk pcie vid veb_up control =
    (let c = flag control; n = nc e; veb = c_true veb_up; vnic = snd (NFD_VID2VNIC e vid) in
     [a_rx_host e h pcie vid veb_up]
     @ when_list (c (CTRL_TXCSUM n) \<and> c (CTRL_VXLAN n)) [a_checksum 0 1 0]
     @ when_list veb [veb_mac h pcie vid False]
     @ [a_tx_wire jnk (of_nat (NS_PLATFORM_NBI_TM_QID_LO (plat e) (unat vnic))) 0 veb_up]
     @ when_list (veb \<and> c (CTRL_TXCSUM n)) [a_checksum 1 0 0]
     @ when_list veb [a_plain INSTR_PUSH_PKT, a_plain INSTR_TX_VLAN])"

definition spec_vf :: "cfg_env \<Rightarrow> host_mem \<Rightarrow> u32 \<Rightarrow> u32 \<Rightarrow> u32 \<Rightarrow> u32 \<Rightarrow> u32 \<Rightarrow> cfg_hw \<Rightarrow> action list" where
  "spec_vf e h jnk pcie vid pf_control vf_control hw =
    (let c = flag vf_control; n = nc e; sc = vf_cfg h pcie (NFD_VID2VF e vid) in
     [a_rx_host e h pcie vid 1]
     @ when_list (sr_vlan_tag sc \<noteq> 0) [a_push_vlan (sr_vlan_tag sc)]
     @ when_list (ctrl_spoof sc) [a_smac_match sc]
     @ [veb_mac h pcie vid False]
     @ when_list (c (CTRL_TXCSUM n) \<and> c (CTRL_VXLAN n)) [a_checksum 0 1 0]
     @ [a_tx_wire jnk (of_nat (NS_PLATFORM_NBI_TM_QID_LO (plat e) 0)) (c_bool (flag pf_control (CTRL_PROMISC n))) 1]
     @ when_list (c (CTRL_TXCSUM n)) [a_checksum 1 0 0]
     @ [a_tx_host e jnk pcie (NFD_PF2VID e 0) 0 1 hw, a_plain INSTR_PUSH_PKT, a_plain INSTR_TX_VLAN])"

definition spec_veb_pf :: "cfg_env \<Rightarrow> host_mem \<Rightarrow> u32 \<Rightarrow> u32 \<Rightarrow> u32 \<Rightarrow> u32 \<Rightarrow> cfg_hw \<Rightarrow> action list" where
  "spec_veb_pf e h jnk pcie vid control hw =
    (let c = flag control; n = nc e; vnic = snd (NFD_VID2VNIC e vid) in
     [a_checksum 1 1 (c_bool (c (CTRL_CSUM_COMPLETE n)))]
     @ when_list (c (CTRL_BPF n)) [a_bpf e vnic]
     @ when_list (c (CTRL_RSS_ANY n) \<or> c (CTRL_BPF n))
         [a_rss e h jnk pcie vid (c_bool (NFD_CFG_MAJOR_PF e < 4 \<and> \<not> c (CTRL_CHAIN_META n)))]
     @ [a_tx_host e jnk pcie vid 0 0 hw])"

definition spec_veb_vf :: "cfg_env \<Rightarrow> host_mem \<Rightarrow> u32 \<Rightarrow> u32 \<Rightarrow> u32 \<Rightarrow> u32 \<Rightarrow> u32 \<Rightarrow> cfg_hw \<Rightarrow> action list" where
  "spec_veb_vf e h jnk pcie vid pf_control vf_control hw =
    (let c = flag pf_control; n = nc e; promisc = c (CTRL_PROMISC n); vnic = snd (NFD_VID2VNIC e vid);
         sc = vf_cfg h pcie (NFD_VID2VF e vid) in
     when_list promisc [a_plain INSTR_PUSH_PKT]
     @ when_list (sr_vlan_tag sc \<noteq> 0) [a_plain INSTR_POP_VLAN]
     @ [a_checksum 1 1 (c_bool (flag vf_control (CTRL_CSUM_COMPLETE n))),
        a_tx_host e jnk pcie vid (c_bool promisc) 0 hw]
     @ when_list promisc
        ([a_plain INSTR_POP_PKT]
         @ when_list (c (CTRL_CSUM_COMPLETE n)) [a_checksum 0 0 1]
         @ when_list (c (CTRL_BPF n)) [a_bpf e vnic]
         @ when_list (c (CTRL_RSS_ANY n) \<or> c (CTRL_BPF n))
             [a_rss e h jnk pcie (NFD_PF2VID e 0) (c_bool (NFD_CFG_MAJOR_PF e < 4 \<and> \<not> c (CTRL_CHAIN_META n)))]
         @ [a_tx_host e jnk pcie (NFD_PF2VID e 0) 0 0 hw]))"

definition spec_down_host :: "cfg_env \<Rightarrow> host_mem \<Rightarrow> u32 \<Rightarrow> u32 \<Rightarrow> action list" where
  "spec_down_host e h pcie vid = [a_rx_host e h pcie vid 0, a_plain INSTR_DROP]"

definition spec_down_wire :: "cfg_env \<Rightarrow> host_mem \<Rightarrow> u32 \<Rightarrow> u32 \<Rightarrow> action list" where
  "spec_down_wire e h pcie vid = [a_rx_wire e h pcie vid False False False, a_plain INSTR_DROP]"

text \<open>The words the workers see.\<close>

definition view :: "action_list \<Rightarrow> u32 list" where
  "view acts = map (instr acts) [0..<count acts]"

lemma view_mk: "view (mk as j) = encode None as"
  by (rule nth_equalityI) (auto simp: view_def mk_def array_fill_def)

lemmas builder_simps = act_when_def when_list_def Let_def NIC_MAX_INSTR_def app_mk init_mk

section \<open>The builders compute the sequences\<close>

definition nbi_hw :: "cfg_env \<Rightarrow> host_mem \<Rightarrow> u32 \<Rightarrow> u32 \<Rightarrow> u32 \<Rightarrow> u32 \<Rightarrow> cfg_hw \<Rightarrow> cfg_hw" where
  "nbi_hw e h pcie vid control update hw =
    (let hw = (if flag control (CTRL_VXLAN (nc e)) then fst (cfg_act_upd_vxlan_table e h pcie vid hw) else hw)
     in if (flag control (CTRL_RSS_ANY (nc e)) \<or> flag control (CTRL_BPF (nc e)))
           \<and> (flag update (UPDATE_RSS (nc e)) \<or> flag update (CTRL_BPF (nc e)))
        then rss_update e h pcie vid hw else hw)"

lemma nbi_hw_cache [simp]: "fl_buf_sz_cache (nbi_hw e h pcie vid control update hw) = fl_buf_sz_cache hw"
  by (simp add: nbi_hw_def Let_def)

lemma build_nbi_mk:
  assumes "NFD_VID2VNIC e vid = (NFD_VNIC_TYPE_PF, vnic)"
  shows "cfg_act_build_nbi e h jnk pcie vid veb_up control update acts hw =
     Some (mk (spec_nbi e h jnk pcie vid veb_up control hw) (reg_zero e (instr acts) NIC_MAX_INSTR),
           nbi_hw e h pcie vid control update hw)"
proof -
  note tx = a_tx_host_cong [OF rss_update_cache] a_tx_host_cong [OF vxlan_update_cache]
  show ?thesis
    unfolding cfg_act_build_nbi_def spec_nbi_def nbi_hw_def assms Let_def
    by (cases "c_true veb_up"; cases "flag control (CTRL_PROMISC (nc e))";
        cases "flag control (CTRL_CSUM_COMPLETE (nc e))"; cases "flag control (CTRL_BPF (nc e))";
        cases "flag control (CTRL_RSS_ANY (nc e))"; cases "flag control (CTRL_VXLAN (nc e))";
        cases "flag update (UPDATE_RSS (nc e)) \<or> flag update (CTRL_BPF (nc e))";
        simp add: builder_simps tx)
qed

lemma build_pf_mk:
  assumes "NFD_VID2VNIC e vid = (NFD_VNIC_TYPE_PF, vnic)"
  shows "cfg_act_build_pf e h jnk pcie vid veb_up control acts =
     Some (mk (spec_pf e h jnk pcie vid veb_up control) (reg_zero e (instr acts) NIC_MAX_INSTR))"
  unfolding cfg_act_build_pf_def spec_pf_def assms Let_def
  by (cases "c_true veb_up"; cases "flag control (CTRL_TXCSUM (nc e))";
      cases "flag control (CTRL_VXLAN (nc e))"; simp add: builder_simps)

lemma build_vf_mk:
  assumes "NFD_VID2VNIC e vid = (NFD_VNIC_TYPE_VF, vnic)"
  shows "cfg_act_build_vf e h jnk pcie vid pf_control vf_control hw acts =
     Some (mk (spec_vf e h jnk pcie vid pf_control vf_control hw) (reg_zero e (instr acts) NIC_MAX_INSTR))"
  unfolding cfg_act_build_vf_def spec_vf_def assms Let_def
  by (cases "flag vf_control (CTRL_TXCSUM (nc e))"; cases "flag vf_control (CTRL_VXLAN (nc e))";
      cases "sr_vlan_tag (vf_cfg h pcie (NFD_VID2VF e vid)) = 0";
      cases "ctrl_spoof (vf_cfg h pcie (NFD_VID2VF e vid))"; simp add: builder_simps)

lemma build_veb_pf_mk:
  assumes "NFD_VID2VNIC e vid = (NFD_VNIC_TYPE_PF, vnic)"
  shows "\<exists>hw'. cfg_act_build_veb_pf e h jnk pcie vid control update acts hw =
     Some (mk (spec_veb_pf e h jnk pcie vid control hw) (reg_zero e (instr acts) NIC_MAX_INSTR), hw')
     \<and> (hw' = hw \<or> hw' = rss_update e h pcie vid hw)"
proof -
  note tx = a_tx_host_cong [OF rss_update_cache]
  show ?thesis
    unfolding cfg_act_build_veb_pf_def spec_veb_pf_def assms Let_def
    by (cases "flag control (CTRL_BPF (nc e))"; cases "flag control (CTRL_RSS_ANY (nc e))";
        cases "flag update (UPDATE_RSS (nc e)) \<or> flag update (CTRL_BPF (nc e))";
        simp add: builder_simps tx)
qed

lemma build_veb_vf_mk:
  assumes "NFD_VID2VNIC e vid = (NFD_VNIC_TYPE_VF, vnic)"
  shows "cfg_act_build_veb_vf e h jnk pcie vid pf_control vf_control acts hw =
     Some (mk (spec_veb_vf e h jnk pcie vid pf_control vf_control hw) (reg_zero e (instr acts) NIC_MAX_INSTR), hw)"
  unfolding cfg_act_build_veb_vf_def spec_veb_vf_def assms Let_def
  by (cases "flag pf_control (CTRL_PROMISC (nc e))"; cases "flag pf_control (CTRL_CSUM_COMPLETE (nc e))";
      cases "flag pf_control (CTRL_BPF (nc e))"; cases "flag pf_control (CTRL_RSS_ANY (nc e))";
      cases "sr_vlan_tag (vf_cfg h pcie (NFD_VID2VF e vid)) = 0"; simp add: builder_simps)

lemma build_down_mk:
  "cfg_act_build_pcie_down e h pcie vid acts =
     Some (mk (spec_down_host e h pcie vid) (reg_zero e (instr acts) NIC_MAX_INSTR))"
  "cfg_act_build_nbi_down e h pcie vid acts hw =
     Some (mk (spec_down_wire e h pcie vid) (reg_zero e (instr acts) NIC_MAX_INSTR), hw)"
proof -
  have z: "cfg_act_append_rx_wire e h pcie vid 0 0 0 a hw = cfg_act_append_rx_wire e h pcie vid 0 (c_bool False) (c_bool False) a hw" for a
    by (simp add: c_bool_def)
  show "cfg_act_build_pcie_down e h pcie vid acts =
     Some (mk (spec_down_host e h pcie vid) (reg_zero e (instr acts) NIC_MAX_INSTR))"
    by (simp add: cfg_act_build_pcie_down_def spec_down_host_def builder_simps)
  show "cfg_act_build_nbi_down e h pcie vid acts hw =
     Some (mk (spec_down_wire e h pcie vid) (reg_zero e (instr acts) NIC_MAX_INSTR), hw)"
    unfolding cfg_act_build_nbi_down_def z by (simp add: spec_down_wire_def builder_simps)
qed

lemma words_when_le: "words (when_list c xs) \<le> words xs"
  by (simp add: when_list_def)

lemma spec_words:
  "words (spec_nbi e h jnk pcie vid veb_up control hw) \<le> 12"
  "words (spec_pf e h jnk pcie vid veb_up control) \<le> 8"
  "words (spec_vf e h jnk pcie vid pf_control vf_control hw) \<le> 12"
  "words (spec_veb_pf e h jnk pcie vid control hw) \<le> 5"
  "words (spec_veb_vf e h jnk pcie vid pf_control vf_control hw) \<le> 10"
  by (simp_all add: spec_nbi_def spec_pf_def spec_vf_def spec_veb_pf_def spec_veb_vf_def when_list_def Let_def)

lemma spec_words_pos:
  "0 < words (spec_nbi e h jnk pcie vid veb_up control hw)"
  "0 < words (spec_pf e h jnk pcie vid veb_up control)"
  "0 < words (spec_vf e h jnk pcie vid pf_control vf_control hw)"
  "0 < words (spec_down_host e h pcie vid)" "0 < words (spec_down_wire e h pcie vid)"
  by (simp_all add: spec_nbi_def spec_pf_def spec_vf_def spec_down_host_def spec_down_wire_def Let_def)

lemma count_mk [simp]: "count (mk as j) = words as"
  by (simp add: mk_def)

section \<open>Stripping the VLAN action\<close>

text \<open>On words, \<open>cfg_act_remove_strip_vlan\<close> drops the first word, other than the
  last, whose opcode field is that of \<open>INSTR_POP_VLAN\<close>, and clears the pipeline
  bit of the word behind it.\<close>

fun strip_words :: "u32 list \<Rightarrow> u32 list" where
  "strip_words [] = []"
| "strip_words [w] = [w]"
| "strip_words (w # v # ws) =
    (if instr_op w = of_nat (opcode INSTR_POP_VLAN) then set_pipeline 0 v # ws else w # strip_words (v # ws))"

lemma shift_loop:
  "remove_strip_loop n i True a = ((\<lambda>k. if i \<le> k \<and> k < i + n then a (k + 1) else a k), True)"
proof (induction n arbitrary: i a)
  case (Suc n)
  show ?case unfolding remove_strip_loop.simps Suc if_True by (auto intro!: ext)
qed (auto intro!: ext)

lemma remove_strip_loop_words:
  "map (fst (remove_strip_loop n i False a)) [i..<i + Suc n - (if snd (remove_strip_loop n i False a) then 1 else 0)]
     = strip_words (map a [i..<i + Suc n])"
proof (induction n arbitrary: i)
  case 0
  then show ?case by simp
next
  case (Suc n)
  have two: "map a [i..<i + Suc (Suc n)] = a i # a (Suc i) # map a [Suc (Suc i)..<i + Suc (Suc n)]"
    by (simp add: upt_conv_Cons del: upt_Suc)
  show ?case
  proof (cases "instr_op (a i) = of_nat (opcode INSTR_POP_VLAN)")
    case True
    have "map (\<lambda>k. if i + 1 \<le> k \<and> k < i + 1 + n then (a(i := w)) (k + 1) else (a(i := w)) k) [Suc i..<i + Suc n]
        = map a [Suc (Suc i)..<i + Suc (Suc n)]" for w
      by (rule nth_equalityI) (auto simp del: upt_Suc)
    then show ?thesis unfolding two remove_strip_loop.simps shift_loop using True by (simp add: upt_conv_Cons del: upt_Suc)
  next
    case False
    have "map (fst (remove_strip_loop (Suc n) i False a))
        [i..<i + Suc (Suc n) - (if snd (remove_strip_loop (Suc n) i False a) then 1 else 0)]
      = fst (remove_strip_loop n (i + 1) False a) i # map (fst (remove_strip_loop n (i + 1) False a))
        [i + 1..<i + 1 + Suc n - (if snd (remove_strip_loop n (i + 1) False a) then 1 else 0)]"
      using False by (simp add: upt_conv_Cons del: upt_Suc)
    moreover have "fst (remove_strip_loop n (i + 1) False a) i = a i"
    proof -
      have "fst (remove_strip_loop n j False b) k = b k" if "k < j" for n j b k
        using that by (induction n arbitrary: j) (auto simp: shift_loop)
      then show ?thesis by simp
    qed
    moreover have "strip_words (map a [i..<i + Suc (Suc n)]) = a i # strip_words (map a [i + 1..<i + 1 + Suc n])"
      using False unfolding two by (simp add: upt_conv_Cons del: upt_Suc)
    ultimately show ?thesis using Suc [of "i + 1"] by simp
  qed
qed

text \<open>Removing the VLAN-strip action works on raw words: it drops the first
  word, other than the last, whose top 15 bits equal the opcode of POP_VLAN,
  so a data word such as an RSS key with those top bits is dropped as well.\<close>

lemma remove_strip_vlan_view:
  assumes "1 \<le> count acts" "count acts \<le> 16"
  shows "\<exists>acts'. cfg_act_remove_strip_vlan acts = Some acts' \<and> view acts' = strip_words (view acts)"
  using assms remove_strip_loop_words [of "count acts - 1" 0 "instr acts"]
  by (auto simp: cfg_act_remove_strip_vlan_def NIC_MAX_INSTR_def view_def Let_def split: prod.splits)

lemma bf_get_args:
  "lo + w \<le> 16 \<Longrightarrow> bf_get lo w (ucast (ucast r :: u16) :: u32) = bf_get lo w r" for r :: u32
  by (intro bit_word_eqI) (auto simp: bit_bf_get bit_ucast_iff dest: bit_imp_le_length)

section \<open>Properties\<close>

text \<open>C2. The wire-side list of a PF vNIC is, for every control word, update
  word and switch state, the encoding of the documented sequence
  RX_WIRE, VEB_LOOKUP or MAC match, CHECKSUM, BPF, RSS, TX_HOST and, with the
  embedded switch, PUSH_PKT and TX_VLAN; the builder always returns and stays
  within the 16 words.\<close>

theorem build_nbi_sequence:
  assumes "NFD_VID2VNIC e vid = (NFD_VNIC_TYPE_PF, vnic)"
  shows "\<exists>acts' hw'. cfg_act_build_nbi e h jnk pcie vid veb_up control update acts hw = Some (acts', hw') \<and>
     view acts' = encode None (spec_nbi e h jnk pcie vid veb_up control hw) \<and>
     1 \<le> count acts' \<and> count acts' \<le> 16"
  using spec_words(1) [of e h jnk pcie vid veb_up control hw]
    spec_words_pos(1) [of e h jnk pcie vid veb_up control hw]
  by (simp add: build_nbi_mk [OF assms] view_mk)

lemmas spec_eval = spec_nbi_def spec_pf_def spec_vf_def spec_veb_pf_def spec_veb_vf_def Let_def when_list_def
  flag_def c_true_def cfg_env_ex_def net_ctrl_ex_def host_ex_def sriov_ex_def a_rx_wire_def a_rss_def a_tx_host_def
  a_rx_host_def a_checksum_def a_bpf_def a_dmac_match_def a_smac_match_def a_plain_def a_push_vlan_def
  a_tx_wire_def veb_mac_def a_veb_lookup_def

lemma pf_ex: "NFD_VID2VNIC cfg_env_ex 48 = (NFD_VNIC_TYPE_PF, 0)"
  and vf_ex: "NFD_VID2VNIC cfg_env_ex 5 = (NFD_VNIC_TYPE_VF, 5)"
  by (simp_all add: cfg_env_ex_def)

theorem build_nbi_sequence_witness:
  "(\<exists>acts' hw'. cfg_act_build_nbi cfg_env_ex host_ex 0 0 48 1 0x28000001 0 (mk [] (\<lambda>_. 9)) hw_ex = Some (acts', hw') \<and>
     view acts' = encode None (spec_nbi cfg_env_ex host_ex 0 0 48 1 0x28000001 hw_ex)) \<and>
   map aop (spec_nbi cfg_env_ex host_ex 0 0 48 1 0x28000001 hw_ex) =
     [INSTR_RX_WIRE, INSTR_VEB_LOOKUP, INSTR_CHECKSUM, INSTR_EBPF, INSTR_RSS, INSTR_TX_HOST,
      INSTR_PUSH_PKT, INSTR_TX_VLAN]"
  using build_nbi_sequence [OF pf_ex, of host_ex 0 0 1 "0x28000001" 0 "mk [] (\<lambda>_. 9)" hw_ex]
  by (auto simp: spec_eval)

text \<open>C22. The host-side list of a PF vNIC is the encoding of RX_HOST, inner
  CHECKSUM, VEB_LOOKUP, TX_WIRE and, with the switch, outer CHECKSUM, PUSH_PKT
  and TX_VLAN, each present exactly when the flags ask for it; the list has at
  most 8 of the 16 words.  (The comment at the head of the file has the lookup
  before the inner CHECKSUM.)\<close>

theorem build_pf_sequence:
  assumes "NFD_VID2VNIC e vid = (NFD_VNIC_TYPE_PF, vnic)"
  shows "\<exists>acts'. cfg_act_build_pf e h jnk pcie vid veb_up control acts = Some acts' \<and>
     view acts' = encode None (spec_pf e h jnk pcie vid veb_up control) \<and> 1 \<le> count acts' \<and> count acts' \<le> 8"
  using spec_words(2) [of e h jnk pcie vid veb_up control]
    spec_words_pos(2) [of e h jnk pcie vid veb_up control]
  by (simp add: build_pf_mk [OF assms] view_mk)

theorem build_pf_sequence_witness:
  "(\<exists>acts'. cfg_act_build_pf cfg_env_ex host_ex 0 0 48 1 0x1000021 (mk [] (\<lambda>_. 9)) = Some acts' \<and>
     view acts' = encode None (spec_pf cfg_env_ex host_ex 0 0 48 1 0x1000021)) \<and>
   map aop (spec_pf cfg_env_ex host_ex 0 0 48 1 0x1000021) =
     [INSTR_RX_HOST, INSTR_CHECKSUM, INSTR_VEB_LOOKUP, INSTR_TX_WIRE, INSTR_CHECKSUM, INSTR_PUSH_PKT, INSTR_TX_VLAN]"
  using build_pf_sequence [OF pf_ex, of host_ex 0 0 1 "0x1000021" "mk [] (\<lambda>_. 9)"]
  by (auto simp: spec_eval)

text \<open>C9. The host-side list of a VF is the encoding of RX_HOST, PUSH_VLAN when a
  VLAN is set, the source MAC match when spoof checking is on, VEB_LOOKUP, inner
  CHECKSUM, TX_WIRE, outer CHECKSUM, TX_HOST to the PF (not continuing, multicast),
  PUSH_PKT and TX_VLAN; it has at most 12 of the 16 words.  (The comment at the
  head of the file has TX_HOST continuing outside promiscuous mode, both checksums
  before TX_WIRE in promiscuous mode, and no source MAC match.)\<close>

theorem build_vf_sequence:
  assumes "NFD_VID2VNIC e vid = (NFD_VNIC_TYPE_VF, vnic)"
  shows "\<exists>acts'. cfg_act_build_vf e h jnk pcie vid pf_control vf_control hw acts = Some acts' \<and>
     view acts' = encode None (spec_vf e h jnk pcie vid pf_control vf_control hw) \<and>
     1 \<le> count acts' \<and> count acts' \<le> 12"
  using spec_words(3) [of e h jnk pcie vid pf_control vf_control hw]
    spec_words_pos(3) [of e h jnk pcie vid pf_control vf_control hw]
  by (simp add: build_vf_mk [OF assms] view_mk)

theorem build_vf_sequence_witness:
  "(\<exists>acts'. cfg_act_build_vf cfg_env_ex host_ex 0 0 5 1 0x21 hw_ex (mk [] (\<lambda>_. 9)) = Some acts' \<and>
     view acts' = encode None (spec_vf cfg_env_ex host_ex 0 0 5 1 0x21 hw_ex)) \<and>
   map aop (spec_vf cfg_env_ex host_ex 0 0 5 1 0x21 hw_ex) =
     [INSTR_RX_HOST, INSTR_PUSH_VLAN, INSTR_SRC_MAC_MATCH, INSTR_VEB_LOOKUP, INSTR_TX_WIRE, INSTR_CHECKSUM,
      INSTR_TX_HOST, INSTR_PUSH_PKT, INSTR_TX_VLAN]"
  using build_vf_sequence [OF vf_ex, of host_ex 0 0 1 "0x21" hw_ex "mk [] (\<lambda>_. 9)"]
  by (auto simp: spec_eval)

text \<open>The switch list of a VF is the encoding of CHECKSUM and TX_HOST to the
  VF, preceded by POP_VLAN when a VLAN is set, and in promiscuous mode wrapped
  by PUSH_PKT and POP_PKT and continued with CHECKSUM, BPF, RSS and TX_HOST to
  the PF; building it changes no table.\<close>

lemma build_veb_vf_sequence:
  assumes "NFD_VID2VNIC e vid = (NFD_VNIC_TYPE_VF, vnic)"
  shows "\<exists>acts'. cfg_act_build_veb_vf e h jnk pcie vid pf_control vf_control acts hw = Some (acts', hw) \<and>
     view acts' = encode None (spec_veb_vf e h jnk pcie vid pf_control vf_control hw) \<and> count acts' \<le> 10"
  using spec_words(5) [of e h jnk pcie vid pf_control vf_control hw]
  by (simp add: build_veb_vf_mk [OF assms] view_mk)

text \<open>The TX_HOST arguments the worker reads back are the requested PCIe
  island, queue, continue and multicast bits and the free-list buffer size in
  units of 256 bytes saturated at 63, whatever the union held before.\<close>

lemma tx_host_fields:
  "bf_get 6 2 (ucast (tx_host_args jnk pcie queue cont mc flbuf) :: u32) = take_bit 2 pcie \<and>
   bf_get 0 6 (ucast (tx_host_args jnk pcie queue cont mc flbuf) :: u32) = take_bit 6 queue \<and>
   bf_get 15 1 (ucast (tx_host_args jnk pcie queue cont mc flbuf) :: u32) = take_bit 1 cont \<and>
   bf_get 14 1 (ucast (tx_host_args jnk pcie queue cont mc flbuf) :: u32) = take_bit 1 mc \<and>
   bf_get 8 6 (ucast (tx_host_args jnk pcie queue cont mc flbuf) :: u32) = min 63 (drop_bit 8 flbuf)"
proof -
  have m: "take_bit 6 (min 63 x) = min 63 x" for x :: u32
  proof -
    have "unat (min 63 x) \<le> 63" by (simp add: min_def word_le_nat_alt)
    then show ?thesis by (intro take_bit_id) simp
  qed
  have i: "(if x > 63 then 63 else x) = min 63 x" for x :: u32 by (auto simp: min_def)
  show ?thesis unfolding tx_host_args_def Let_def i by (simp add: bf_get_args bf_law m)
qed

text \<open>The TX_WIRE arguments are not cleared before the fields are set: the
  queue, continue and multicast fields are as requested, but bits 11 to 13
  keep the indeterminate content of the union.\<close>

lemma tx_wire_reserved_bits_leak:
  "bf_get 0 11 (ucast (tx_wire_args jnk tmq cont mc) :: u32) = take_bit 11 tmq \<and>
   bf_get 15 1 (ucast (tx_wire_args jnk tmq cont mc) :: u32) = take_bit 1 cont \<and>
   bf_get 14 1 (ucast (tx_wire_args jnk tmq cont mc) :: u32) = take_bit 1 mc \<and>
   bf_get 11 3 (ucast (tx_wire_args jnk tmq cont mc) :: u32) = bf_get 11 3 jnk"
  unfolding tx_wire_args_def Let_def by (simp add: bf_get_args bf_law)

end
