(* ===== verification/VlanTables.thy ===== *)
theory VlanTables
  imports CfgHw
begin

unbundle bit_operations_syntax

text \<open>
  \<open>firmware/apps/nic/nic_tables.c\<close>: the table of the vNICs that are members of
  each VLAN.  An entry holds the member bits from bit 0 and, in bits 58 to 63,
  the smallest receive buffer of the members in units of 256 bytes.  The
  workers read it for multicast.  The table is the field
  \<open>nic_vlan_to_vnics_map_tbl\<close> of the configuration state; \<open>-1\<close> is the result on
  a VLAN number that is out of range.
\<close>

definition NIC_MAX_VLAN_ID :: nat where
  "NIC_MAX_VLAN_ID = 4095"

definition members_mask :: "cfg_env \<Rightarrow> u64" where
  "members_mask e = push_bit (NFD_MAX_VFS e) 1 - 1"

definition load_vlan_members :: "u32 \<Rightarrow> u16 \<Rightarrow> cfg_hw \<Rightarrow> int \<times> u64 option" where
  "load_vlan_members pcie vlan hw =
    (if unat vlan \<le> NIC_MAX_VLAN_ID then (0, Some (nic_vlan_to_vnics_map_tbl hw pcie (unat vlan))) else (-1, None))"

definition set_members :: "u32 \<Rightarrow> nat \<Rightarrow> u64 \<Rightarrow> cfg_hw \<Rightarrow> cfg_hw" where
  "set_members pcie vlan v hw = hw\<lparr>nic_vlan_to_vnics_map_tbl := (nic_vlan_to_vnics_map_tbl hw)
     (pcie := (nic_vlan_to_vnics_map_tbl hw pcie)(vlan := v))\<rparr>"

definition add_vlan_member :: "cfg_env \<Rightarrow> host_mem \<Rightarrow> u32 \<Rightarrow> u16 \<Rightarrow> u16 \<Rightarrow> cfg_hw \<Rightarrow> cfg_hw \<times> int" where
  "add_vlan_member e h pcie vlan vid hw =
    (if unat vlan > NIC_MAX_VLAN_ID then (hw, -1)
     else
     let members_r = nic_vlan_to_vnics_map_tbl hw pcie (unat vlan);
         rxb_r = bar_flbufsz (bar h pcie (ucast vid));
         new_rxb = ucast (drop_bit 8 rxb_r AND 0x3f);
         min_rxb = drop_bit 58 members_r;
         min_rxb = (if members_r AND members_mask e = 0 then new_rxb
                    else if min_rxb < new_rxb then min_rxb else new_rxb);
         members_w = ((members_r OR push_bit (unat vid) 1) AND members_mask e) OR push_bit 58 min_rxb
     in (set_members pcie (unat vlan) members_w hw, 0))"

text \<open>The inner loop of \<open>remove_vlan_member\<close>.  In
  \<open>(min_rxb < (rxb_r >> 8) & 0x3f)\<close> the comparison binds tighter than the mask,
  so the condition compares with the unmasked value.\<close>

definition min_rxb_step :: "host_mem \<Rightarrow> u32 \<Rightarrow> u64 \<Rightarrow> nat \<Rightarrow> u64 \<Rightarrow> u64" where
  "min_rxb_step h pcie members vid_idx min_rxb =
    (if c_true (members AND push_bit vid_idx 1)
     then let rxb_r = bar_flbufsz (bar h pcie (of_nat vid_idx))
          in if c_true (c_bool (min_rxb < ucast (drop_bit 8 rxb_r)) AND (0x3f :: u64)) then min_rxb
             else ucast (drop_bit 8 rxb_r AND 0x3f)
     else min_rxb)"

definition remove_from_vlan :: "cfg_env \<Rightarrow> host_mem \<Rightarrow> u32 \<Rightarrow> u16 \<Rightarrow> nat \<Rightarrow> cfg_hw \<Rightarrow> cfg_hw" where
  "remove_from_vlan e h pcie vid vlan hw =
    (let members_r = nic_vlan_to_vnics_map_tbl hw pcie vlan;
         members = members_r AND members_mask e;
         members = members AND NOT (push_bit (unat vid) 1);
         members_w = (if c_true members
           then let min_rxb = fold (min_rxb_step h pcie members) [0..<NFD_MAX_VFS e] (push_bit 6 1 - 1)
                in members OR push_bit 56 min_rxb
           else members)
     in set_members pcie vlan members_w hw)"

definition remove_vlan_member :: "cfg_env \<Rightarrow> host_mem \<Rightarrow> u32 \<Rightarrow> u16 \<Rightarrow> cfg_hw \<Rightarrow> cfg_hw \<times> int" where
  "remove_vlan_member e h pcie vid hw =
     (fold (remove_from_vlan e h pcie vid) [0..<NIC_MAX_VLAN_ID + 1] hw, 0)"

section \<open>Members and buffer size\<close>

definition is_member :: "cfg_hw \<Rightarrow> u32 \<Rightarrow> nat \<Rightarrow> nat \<Rightarrow> bool" where
  "is_member hw pcie vlan vid \<longleftrightarrow> bit (nic_vlan_to_vnics_map_tbl hw pcie vlan) vid"

text \<open>The field the data path and \<open>add_vlan_member\<close> read.\<close>

definition vlan_min_rxb :: "cfg_hw \<Rightarrow> u32 \<Rightarrow> nat \<Rightarrow> u64" where
  "vlan_min_rxb hw pcie vlan = drop_bit 58 (nic_vlan_to_vnics_map_tbl hw pcie vlan)"

lemma set_members_simps [simp]:
  "nic_vlan_to_vnics_map_tbl (set_members pcie vlan v hw) p vl =
     (if p = pcie \<and> vl = vlan then v else nic_vlan_to_vnics_map_tbl hw p vl)"
  by (simp add: set_members_def)

lemma bit_members_mask: "NFD_MAX_VFS e \<le> 56 \<Longrightarrow> bit (members_mask e) n \<longleftrightarrow> n < NFD_MAX_VFS e"
  by (simp add: members_mask_def mask_eq_exp_minus_1 [symmetric] bit_mask_iff possible_bit_def) linarith

lemma bit_pow2_64: "bit (2 ^ k :: u64) n \<longleftrightarrow> n = k \<and> k < 64"
  by (auto simp: bit_exp_iff possible_bit_def)

lemma rxb_field: "x AND 0x3f = take_bit 6 x" for x :: u32
  by (simp add: take_bit_eq_mask mask_eq_exp_minus_1)

lemma rxb_small: "unat (ucast (drop_bit 8 r AND 0x3f :: u32) :: u64) < 64"
proof -
  have "unat (take_bit 6 (drop_bit 8 r) :: u32) < 2 ^ 6"
    unfolding unsigned_take_bit_eq by (rule take_bit_nat_less_exp)
  then show ?thesis unfolding rxb_field by (simp add: unsigned_ucast_eq take_bit_nat_eq_self)
qed

lemma small_bits: "unat (x :: u64) < 64 \<Longrightarrow> bit x n \<Longrightarrow> n < 6"
proof -
  assume "unat x < 64" "bit x n"
  then have "take_bit 6 x = x" by (intro take_bit_id) simp
  then show "n < 6" using \<open>bit x n\<close> by (metis bit_take_bit_iff)
qed

lemma min_rxb_step_small:
  "unat m < 64 \<Longrightarrow> unat (min_rxb_step h pcie ms i m) < 64"
  using rxb_small by (simp add: min_rxb_step_def Let_def)

lemma min_rxb_fold_small:
  "unat m < 64 \<Longrightarrow> unat (fold (min_rxb_step h pcie ms) is m) < 64"
  by (induction "is" arbitrary: m) (simp_all add: min_rxb_step_small)

lemma remove_from_vlan_member:
  assumes "NFD_MAX_VFS e \<le> 56" "v < NFD_MAX_VFS e"
  shows "is_member (remove_from_vlan e h pcie vid vlan hw) p vl v \<longleftrightarrow>
     (if p = pcie \<and> vl = vlan then is_member hw p vl v \<and> v \<noteq> unat vid else is_member hw p vl v)"
proof -
  let ?m = "(nic_vlan_to_vnics_map_tbl hw pcie vlan AND members_mask e) AND NOT (push_bit (unat vid) 1)"
  have "bit ?m v \<longleftrightarrow> bit (nic_vlan_to_vnics_map_tbl hw pcie vlan) v \<and> v \<noteq> unat vid"
    using assms by (auto simp: bit_and_iff bit_not_iff bit_members_mask bit_pow2_64 possible_bit_def)
  moreover have "\<not> bit (push_bit 56 x) v" for x :: u64
    using assms by (simp add: bit_push_bit_iff)
  ultimately show ?thesis
    by (simp add: is_member_def remove_from_vlan_def Let_def bit_or_iff)
qed

lemma remove_fold_member:
  assumes "NFD_MAX_VFS e \<le> 56" "v < NFD_MAX_VFS e"
  shows "is_member (fold (remove_from_vlan e h pcie vid) vls hw) p vl v \<longleftrightarrow>
     (if p = pcie \<and> vl \<in> set vls then is_member hw p vl v \<and> v \<noteq> unat vid else is_member hw p vl v)"
  by (induction vls arbitrary: hw) (auto simp: remove_from_vlan_member [OF assms])

lemma remove_fold_entry:
  assumes "distinct vls" "vl \<in> set vls"
  shows "nic_vlan_to_vnics_map_tbl (fold (remove_from_vlan e h pcie vid) vls hw) pcie vl =
     nic_vlan_to_vnics_map_tbl (remove_from_vlan e h pcie vid vl hw) pcie vl"
proof -
  have other: "nic_vlan_to_vnics_map_tbl (remove_from_vlan e h pcie vid x hw) pcie vl =
      nic_vlan_to_vnics_map_tbl hw pcie vl" if "x \<noteq> vl" for x hw
    using that by (simp add: remove_from_vlan_def Let_def)
  have cong: "nic_vlan_to_vnics_map_tbl (remove_from_vlan e h pcie vid vl hw1) pcie vl =
      nic_vlan_to_vnics_map_tbl (remove_from_vlan e h pcie vid vl hw2) pcie vl"
    if "nic_vlan_to_vnics_map_tbl hw1 pcie vl = nic_vlan_to_vnics_map_tbl hw2 pcie vl" for hw1 hw2
    using that by (simp add: remove_from_vlan_def Let_def)
  have skip: "nic_vlan_to_vnics_map_tbl (fold (remove_from_vlan e h pcie vid) ws hw) pcie vl =
      nic_vlan_to_vnics_map_tbl hw pcie vl" if "vl \<notin> set ws" for ws hw
    using that by (induction ws arbitrary: hw) (auto simp: other)
  show ?thesis using assms
  proof (induction vls arbitrary: hw)
    case (Cons x vls)
    then show ?case
    proof (cases "x = vl")
      case True
      then show ?thesis using Cons.prems skip by simp
    next
      case False
      then show ?thesis using Cons.prems Cons.IH [of "remove_from_vlan e h pcie vid x hw"]
          cong [OF other [OF False]] by simp
    qed
  qed simp
qed

lemma add_vlan_member_effect:
  assumes "NFD_MAX_VFS e \<le> 56" "unat vid < NFD_MAX_VFS e" "unat vlan \<le> 4095" "v < NFD_MAX_VFS e"
    and "add_vlan_member e h pcie vlan vid hw = (hw', rc)"
  shows "rc = 0 \<and>
     (is_member hw' p vl v \<longleftrightarrow> is_member hw p vl v \<or> (p = pcie \<and> vl = unat vlan \<and> v = unat vid)) \<and>
     vlan_min_rxb hw' pcie (unat vlan) =
       (let new = ucast (drop_bit 8 (bar_flbufsz (bar h pcie (ucast vid))) AND 0x3f)
        in if nic_vlan_to_vnics_map_tbl hw pcie (unat vlan) AND members_mask e = 0 then new
           else min (vlan_min_rxb hw pcie (unat vlan)) new)"
proof -
  let ?old = "nic_vlan_to_vnics_map_tbl hw pcie (unat vlan)"
  let ?new = "ucast (drop_bit 8 (bar_flbufsz (bar h pcie (ucast vid))) AND 0x3f) :: u64"
  define m where "m = (if ?old AND members_mask e = 0 then ?new else if drop_bit 58 ?old < ?new then drop_bit 58 ?old else ?new)"
  have hw': "rc = 0" "hw' = set_members pcie (unat vlan)
      (((?old OR push_bit (unat vid) 1) AND members_mask e) OR push_bit 58 m) hw"
    using assms(3,5) by (auto simp: add_vlan_member_def NIC_MAX_VLAN_ID_def Let_def m_def)
  have m6: "unat m < 64" using rxb_small unfolding m_def
    by (auto simp: word_less_nat_alt intro: order.strict_trans)
  have "bit (((?old OR push_bit (unat vid) 1) AND members_mask e) OR push_bit 58 m) v \<longleftrightarrow> bit ?old v \<or> v = unat vid"
    using assms by (auto simp: bit_or_iff bit_and_iff bit_members_mask bit_pow2_64 bit_push_bit_iff)
  moreover have "drop_bit 58 (((?old OR push_bit (unat vid) 1) AND members_mask e) OR push_bit 58 m) = m"
    using assms(1) small_bits [OF m6]
    by (intro bit_word_eqI) (auto simp: bit_drop_bit_eq bit_or_iff bit_and_iff bit_members_mask bit_push_bit_iff)
  moreover have "m = (if ?old AND members_mask e = 0 then ?new else min (drop_bit 58 ?old) ?new)"
    by (auto simp: m_def min_def)
  ultimately show ?thesis
    by (auto simp: hw' is_member_def vlan_min_rxb_def Let_def)
qed

section \<open>Properties\<close>

text \<open>C34. \<open>add_vlan_member\<close> makes the vNIC a member of the VLAN, changes no other
  membership of any VLAN, and keeps in bits 58 to 63 the smaller of the old
  minimum and the new member's buffer size, or the new one when the VLAN had no
  member.\<close>

theorem add_vlan_member_spec:
  assumes "NFD_MAX_VFS e \<le> 56" "unat vid < NFD_MAX_VFS e" "unat vlan \<le> 4095" "v < NFD_MAX_VFS e"
    and "add_vlan_member e h pcie vlan vid hw = (hw', rc)"
  shows "rc = 0 \<and>
     (is_member hw' p vl v \<longleftrightarrow> is_member hw p vl v \<or> (p = pcie \<and> vl = unat vlan \<and> v = unat vid)) \<and>
     vlan_min_rxb hw' pcie (unat vlan) =
       (let new = ucast (drop_bit 8 (bar_flbufsz (bar h pcie (ucast vid))) AND 0x3f)
        in if nic_vlan_to_vnics_map_tbl hw pcie (unat vlan) AND members_mask e = 0 then new
           else min (vlan_min_rxb hw pcie (unat vlan)) new)"
  using add_vlan_member_effect [OF assms] .

theorem add_vlan_member_spec_witness:
  "is_member (fst (add_vlan_member cfg_env_ex host_ex 0 7 3 hw_ex)) 0 7 3 \<and>
   vlan_min_rxb (fst (add_vlan_member cfg_env_ex host_ex 0 7 3 hw_ex)) 0 7 = 8"
  using add_vlan_member_spec [of cfg_env_ex 3 7 3 host_ex 0 hw_ex _ _ 0 7, OF _ _ _ _ prod.collapse [symmetric]]
  by (simp add: cfg_env_ex_def host_ex_def bar_ex_def hw_ex_def)

text \<open>\<open>remove_vlan_member\<close> ends the vNIC's membership in every VLAN of its
  PCIe island and changes no other membership.\<close>

lemma remove_vlan_member_spec:
  assumes "NFD_MAX_VFS e \<le> 56" "v < NFD_MAX_VFS e" "vl \<le> 4095"
    and "remove_vlan_member e h pcie vid hw = (hw', rc)"
  shows "rc = 0 \<and> (is_member hw' p vl v \<longleftrightarrow> is_member hw p vl v \<and> \<not> (p = pcie \<and> v = unat vid))"
proof -
  have hw': "rc = 0" "hw' = fold (remove_from_vlan e h pcie vid) [0..<NIC_MAX_VLAN_ID + 1] hw"
    using assms(4) by (simp_all add: remove_vlan_member_def)
  have "vl \<in> set [0..<NIC_MAX_VLAN_ID + 1]" using assms(3) by (simp add: NIC_MAX_VLAN_ID_def)
  then show ?thesis
    unfolding hw' remove_fold_member [OF assms(1,2)] by simp
qed

text \<open>After a removal that leaves members in a VLAN, the buffer size field
  that the readers take from bits 58 to 63 is a quarter of the minimum the
  removal computed, because it is stored from bit 56.\<close>

lemma remove_vlan_member_rxb_misplaced:
  assumes "NFD_MAX_VFS e \<le> 56" "vl \<le> 4095"
    and "(nic_vlan_to_vnics_map_tbl hw pcie vl AND members_mask e) AND NOT (push_bit (unat vid) 1) \<noteq> 0"
  shows "vlan_min_rxb (fst (remove_vlan_member e h pcie vid hw)) pcie vl =
     drop_bit 2 (fold (min_rxb_step h pcie
       ((nic_vlan_to_vnics_map_tbl hw pcie vl AND members_mask e) AND NOT (push_bit (unat vid) 1)))
       [0..<NFD_MAX_VFS e] 63)"
proof -
  let ?m = "(nic_vlan_to_vnics_map_tbl hw pcie vl AND members_mask e) AND NOT (push_bit (unat vid) 1)"
  define r where "r = fold (min_rxb_step h pcie ?m) [0..<NFD_MAX_VFS e] 63"
  have r6: "unat r < 64" unfolding r_def by (rule min_rxb_fold_small) simp
  have low: "bit ?m n \<Longrightarrow> n < 56" for n
    using assms(1) by (auto simp: bit_and_iff bit_members_mask)
  have "vl \<in> set [0..<NIC_MAX_VLAN_ID + 1]" using assms(2) by (simp add: NIC_MAX_VLAN_ID_def)
  then have entry: "nic_vlan_to_vnics_map_tbl (fst (remove_vlan_member e h pcie vid hw)) pcie vl = ?m OR push_bit 56 r"
    using assms(3) remove_fold_entry [of "[0..<NIC_MAX_VLAN_ID + 1]" vl e h pcie vid hw]
    unfolding remove_vlan_member_def fst_conv
    by (simp add: remove_from_vlan_def Let_def c_true_def r_def del: upt_Suc)
  have "drop_bit 58 (m OR push_bit 56 r) = drop_bit 2 r" if "\<And>n. bit m n \<Longrightarrow> n < 56" for m :: u64
  proof (rule bit_word_eqI)
    fix n
    have "\<not> bit m (58 + n)" using that [of "58 + n"] by auto
    moreover have "bit r (2 + n) \<Longrightarrow> n < 4" using small_bits [OF r6, of "2 + n"] by simp
    ultimately show "bit (drop_bit 58 (m OR push_bit 56 r)) n = bit (drop_bit 2 r) n"
      unfolding bit_drop_bit_eq comp_def bit_or_iff bit_push_bit_iff by auto
  qed
  from this [OF low] have "drop_bit 58 (?m OR push_bit 56 r) = drop_bit 2 r" .
  then show ?thesis unfolding vlan_min_rxb_def entry by (simp only: r_def)
qed

definition hw_vlan_ex :: cfg_hw where
  "hw_vlan_ex = set_members 0 7 0x200000000000000C hw_ex"

lemma rxb_fold_ex: "fold (min_rxb_step host_ex 0 4) [0..<48] 63 = 8"
  by code_simp

end
