(* ===== verification/VebTable.thy ===== *)
theory VebTable
  imports ActSpec VlanTables PollLoop
begin

unbundle bit_operations_syntax

text \<open>
  \<open>app_mac_vlan_config_cmsg.c\<close> and \<open>cfg_act_write_veb\<close> of \<open>app_config_tables.c\<close>:
  entries of the MAC and VLAN lookup table of the embedded switch are changed
  by messages to the hash map micro-engine.  A message needs a CTM packet,
  whose allocation may fail, and a memory buffer, for which the code retries.
  The allocators and the addresses are fields of \<open>veb_env\<close>; the work queue is a
  list of messages, and \<open>veb_content\<close> is the table the messages describe, with
  the add and delete requests the receiver documents.

  \<open>cfg_act_write_veb\<close> adds a vNIC's entries, remembers the key and deletes the
  entries of the previous key.  Its local \<open>new_vlan_id\<close> is set only when an
  action list is given; \<open>jnk\<close> is its value otherwise.
\<close>

section \<open>Messages\<close>

definition CMSG_TYPE_MAP_ADD :: u32 where
  "CMSG_TYPE_MAP_ADD = 4"

definition CMSG_TYPE_MAP_DELETE :: u32 where
  "CMSG_TYPE_MAP_DELETE = 5"

definition CMESG_DISPATCH_OK :: u32 where
  "CMESG_DISPATCH_OK = 1"

definition CMESG_DISPATCH_FAIL :: u32 where
  "CMESG_DISPATCH_FAIL = 0xffffffff"

definition NIC_NO_VLAN_ID :: nat where
  "NIC_NO_VLAN_ID = 4095"

definition SRIOV_TID :: u32 where
  "SRIOV_TID = 255 - 1"

record veb_env =
  ctm_alloc :: "nat \<Rightarrow> u32"
  CTM_ALLOC_ERR :: u32
  blm_alloc :: "nat \<Rightarrow> u32 option"
  blm_buf_handle2ptr :: "u32 \<Rightarrow> u64"
  NFD_IN_BLM_REG_BLS :: u32
  ISLAND :: u32
  lmem0 :: "u32 list"

text \<open>\<open>struct nic_mac_vlan_cmsg\<close>, the action words and the queue descriptor.\<close>

record veb_msg =
  word0 :: u32
  tid :: u32
  cmsg_count :: u32
  cmsg_flags :: u32
  cmsg_key :: mac_vlan_key
  action_data :: "u32 list"
  workq_data :: "u32 list"

record veb_io =
  ctm_calls :: nat
  blm_calls :: nat
  map_cmsg_q :: "veb_msg list"

definition key_raw :: "mac_vlan_key \<Rightarrow> u32 list" where
  "key_raw k = [push_bit 20 (ucast (vlan_id k)) OR ucast (mac_addr_hi k), mac_addr_lo k]"

text \<open>\<open>goto retry\<close> until a buffer is allocated: the loop need not end.\<close>

partial_function (option) blm_wait :: "(nat \<Rightarrow> u32 option) \<Rightarrow> nat \<Rightarrow> (u32 \<times> nat) option" where
  "blm_wait alloc n = (case alloc n of Some h \<Rightarrow> Some (h, n + 1) | None \<Rightarrow> blm_wait alloc (n + 1))"

text \<open>A delete passes a null action list; the copy then reads local memory from
  address 0.\<close>

definition nic_mac_vlan_entry_op_cmsg ::
  "veb_env \<Rightarrow> mac_vlan_key \<Rightarrow> u32 list option \<Rightarrow> u32 \<Rightarrow> veb_io \<Rightarrow> (u32 \<times> veb_io) option" where
  "nic_mac_vlan_entry_op_cmsg ve key acts operation io =
    (let ctm_pnum = ctm_alloc ve (ctm_calls io);
         io = io\<lparr>ctm_calls := ctm_calls io + 1\<rparr>
     in if ctm_pnum = CTM_ALLOC_ERR ve then Some (CMESG_DISPATCH_FAIL, io)
        else case blm_wait (blm_alloc ve) (blm_calls io) of
          None \<Rightarrow> None
        | Some (emem_buf_h, n) \<Rightarrow>
            let emem_dst = blm_buf_handle2ptr ve emem_buf_h;
                msg = \<lparr>word0 = operation OR push_bit 8 1, tid = push_bit 24 SRIOV_TID, cmsg_count = 0, cmsg_flags = 0,
                  cmsg_key = key, action_data = (case acts of Some a \<Rightarrow> take 16 a | None \<Rightarrow> take 16 (lmem0 ve)),
                  workq_data = [push_bit 26 (ISLAND ve) OR push_bit 16 ctm_pnum,
                    ucast (drop_bit 11 emem_dst OR push_bit 29 (ucast (NFD_IN_BLM_REG_BLS ve))),
                    push_bit 16 64]\<rparr>
            in Some (CMESG_DISPATCH_OK, io\<lparr>blm_calls := n, map_cmsg_q := map_cmsg_q io @ [msg]\<rparr>))"

section \<open>Writing a vNIC's entries\<close>

datatype cfg_msg_err = NO_ERROR | MAC_VLAN_ADD_FAIL | MAC_VLAN_WRONG_VF | MAC_VLAN_DELETE_WARN

definition MAC64_FROM_VEB_KEY :: "mac_vlan_key \<Rightarrow> u64" where
  "MAC64_FROM_VEB_KEY key = push_bit 32 (ucast (mac_addr_hi key)) OR ucast (mac_addr_lo key)"

definition VEB_KEY_FROM_MAC64 :: "u64 \<Rightarrow> mac_vlan_key" where
  "VEB_KEY_FROM_MAC64 mac =
     \<lparr>vlan_id = 0, mac_addr_hi = ucast (drop_bit 32 mac), mac_addr_lo = ucast mac\<rparr>"

definition acts_words :: "action_list \<Rightarrow> u32 list" where
  "acts_words acts = map (instr acts) [0..<16]"

definition vlan_selected :: "nat \<Rightarrow> nat \<Rightarrow> bool" where
  "vlan_selected new_vlan_id vlan \<longleftrightarrow> new_vlan_id = NIC_NO_VLAN_ID \<or> vlan = new_vlan_id
     \<or> (new_vlan_id = 0 \<and> vlan = NIC_NO_VLAN_ID)"

text \<open>The add loop over the remaining VLANs; \<open>Inl\<close> is the early return.\<close>

fun veb_add_loop :: "veb_env \<Rightarrow> nat \<Rightarrow> nat list \<Rightarrow> mac_vlan_key \<Rightarrow> action_list \<Rightarrow> veb_io
    \<Rightarrow> ((cfg_msg_err + mac_vlan_key) \<times> veb_io) option" where
  "veb_add_loop ve new_vlan_id [] key acts io = Some (Inr key, io)"
| "veb_add_loop ve new_vlan_id (vlan # vlans) key acts io =
    (if vlan_selected new_vlan_id vlan
     then do {
       acts \<leftarrow> (if vlan = NIC_NO_VLAN_ID then cfg_act_remove_strip_vlan acts else Some acts);
       let key = key\<lparr>vlan_id := of_nat vlan\<rparr>;
       (res, io) \<leftarrow> nic_mac_vlan_entry_op_cmsg ve key (Some (acts_words acts)) CMSG_TYPE_MAP_ADD io;
       (if res = CMESG_DISPATCH_FAIL then Some (Inl MAC_VLAN_ADD_FAIL, io)
        else veb_add_loop ve new_vlan_id vlans key acts io) }
     else veb_add_loop ve new_vlan_id vlans key acts io)"

fun veb_del_loop :: "veb_env \<Rightarrow> nat \<Rightarrow> nat list \<Rightarrow> mac_vlan_key \<Rightarrow> mac_vlan_key \<Rightarrow> cfg_msg_err \<Rightarrow> veb_io
    \<Rightarrow> (cfg_msg_err \<times> veb_io) option" where
  "veb_del_loop ve new_vlan_id [] key stored_key err io = Some (err, io)"
| "veb_del_loop ve new_vlan_id (vlan # vlans) key stored_key err io =
    (if mac_addr_hi key \<noteq> mac_addr_hi stored_key \<or> mac_addr_lo key \<noteq> mac_addr_lo stored_key
        \<or> (new_vlan_id \<noteq> NIC_NO_VLAN_ID \<and> vlan \<noteq> new_vlan_id)
     then do {
       let del_key = stored_key\<lparr>vlan_id := of_nat vlan\<rparr>;
       (res, io) \<leftarrow> nic_mac_vlan_entry_op_cmsg ve del_key None CMSG_TYPE_MAP_DELETE io;
       veb_del_loop ve new_vlan_id vlans key stored_key
         (if res = CMESG_DISPATCH_FAIL then MAC_VLAN_DELETE_WARN else err) io }
     else veb_del_loop ve new_vlan_id vlans key stored_key err io)"

definition cfg_act_write_veb ::
  "veb_env \<Rightarrow> nat \<Rightarrow> u32 \<Rightarrow> mac_vlan_key \<Rightarrow> action_list option \<Rightarrow> cfg_hw \<Rightarrow> veb_io
     \<Rightarrow> (cfg_msg_err \<times> cfg_hw \<times> veb_io) option" where
  "cfg_act_write_veb ve jnk vid veb_key acts hw io =
    (let new_mac_addr = MAC64_FROM_VEB_KEY veb_key in
     if acts \<noteq> None \<and> (new_mac_addr = 0 \<or> c_true (drop_bit 40 new_mac_addr AND 1))
     then Some (MAC_VLAN_ADD_FAIL, hw, io)
     else
     let new_vlan_id = (case acts of Some _ \<Rightarrow> unat (vlan_id veb_key) | None \<Rightarrow> jnk) in do {
       (added, io) \<leftarrow> (case acts of
           Some a \<Rightarrow> veb_add_loop ve new_vlan_id [0..<NIC_NO_VLAN_ID + 1] veb_key a io
         | None \<Rightarrow> Some (Inr veb_key, io));
       (case added of
          Inl err \<Rightarrow> Some (err, hw, io)
        | Inr veb_key \<Rightarrow> do {
            let stored_key_rd = veb_stored_keys hw vid;
            let hw = hw\<lparr>veb_stored_keys := (veb_stored_keys hw)(vid := veb_key)\<rparr>;
            (err, io) \<leftarrow> veb_del_loop ve new_vlan_id [0..<NIC_NO_VLAN_ID + 1] veb_key stored_key_rd NO_ERROR io;
            Some (err, hw, io) }) })"

section \<open>The table the messages describe\<close>

type_synonym veb_map = "nat \<times> u16 \<times> u32 \<Rightarrow> u32 list option"

definition key_of :: "mac_vlan_key \<Rightarrow> nat \<times> u16 \<times> u32" where
  "key_of k = (unat (vlan_id k), mac_addr_hi k, mac_addr_lo k)"

definition veb_apply :: "veb_msg \<Rightarrow> veb_map \<Rightarrow> veb_map" where
  "veb_apply msg tbl =
    (if word0 msg AND 0xff = CMSG_TYPE_MAP_ADD then tbl(key_of (cmsg_key msg) \<mapsto> action_data msg)
     else if word0 msg AND 0xff = CMSG_TYPE_MAP_DELETE then tbl(key_of (cmsg_key msg) := None)
     else tbl)"

definition veb_content :: "veb_io \<Rightarrow> veb_map" where
  "veb_content io = fold veb_apply (map_cmsg_q io) Map.empty"

definition veb_ok :: "veb_env \<Rightarrow> bool" where
  "veb_ok ve \<longleftrightarrow> (\<forall>n. ctm_alloc ve n \<noteq> CTM_ALLOC_ERR ve) \<and> (\<forall>n. \<exists>k \<ge> n. blm_alloc ve k \<noteq> None)"

interpretation blm: poll_loop "blm_wait alloc" "\<lambda>n. alloc n = None" Suc "\<lambda>n. (the (alloc n), n + 1)" for alloc
  by unfold_locales (subst blm_wait.simps, simp split: option.splits)

lemma blm_wait_returns:
  "alloc (n + d) \<noteq> None \<Longrightarrow> \<exists>h m. blm_wait alloc n = Some (h, m)"
  using blm.first_idle [where alloc = alloc and k = d and s = n] by (auto simp: add.commute)

lemma entry_op_returns:
  assumes "veb_ok ve"
  shows "\<exists>io'. nic_mac_vlan_entry_op_cmsg ve key acts op io = Some (CMESG_DISPATCH_OK, io') \<and>
     (\<exists>msg. map_cmsg_q io' = map_cmsg_q io @ [msg] \<and> word0 msg = (op OR push_bit 8 1) \<and> cmsg_key msg = key \<and>
        action_data msg = (case acts of Some a \<Rightarrow> take 16 a | None \<Rightarrow> take 16 (lmem0 ve)))"
proof -
  obtain k where k: "k \<ge> blm_calls io" "blm_alloc ve k \<noteq> None"
    using assms unfolding veb_ok_def by blast
  then obtain h m where "blm_wait (blm_alloc ve) (blm_calls io) = Some (h, m)"
    using blm_wait_returns [of "blm_alloc ve" "blm_calls io" "k - blm_calls io"] by auto
  then show ?thesis using assms by (simp add: nic_mac_vlan_entry_op_cmsg_def Let_def veb_ok_def)
qed

lemma veb_content_snoc:
  "map_cmsg_q io' = map_cmsg_q io @ [msg] \<Longrightarrow> veb_content io' = veb_apply msg (veb_content io)"
  by (simp add: veb_content_def)

lemma entry_add:
  assumes "veb_ok ve"
  shows "\<exists>io'. nic_mac_vlan_entry_op_cmsg ve key (Some a) CMSG_TYPE_MAP_ADD io = Some (CMESG_DISPATCH_OK, io') \<and>
     veb_content io' = (veb_content io)(key_of key \<mapsto> take 16 a)"
proof -
  obtain io' msg where io': "nic_mac_vlan_entry_op_cmsg ve key (Some a) CMSG_TYPE_MAP_ADD io = Some (CMESG_DISPATCH_OK, io')"
    "map_cmsg_q io' = map_cmsg_q io @ [msg]" and msg: "word0 msg = (CMSG_TYPE_MAP_ADD OR push_bit 8 1)"
    "cmsg_key msg = key" "action_data msg = take 16 a"
    using entry_op_returns [OF assms, of key "Some a" CMSG_TYPE_MAP_ADD io] by auto
  have "veb_apply msg (veb_content io) = (veb_content io)(key_of key \<mapsto> take 16 a)"
    unfolding veb_apply_def msg by (simp add: CMSG_TYPE_MAP_ADD_def)
  then show ?thesis using io' veb_content_snoc [OF io'(2)] by auto
qed

lemma entry_delete:
  assumes "veb_ok ve"
  shows "\<exists>io'. nic_mac_vlan_entry_op_cmsg ve key None CMSG_TYPE_MAP_DELETE io = Some (CMESG_DISPATCH_OK, io') \<and>
     veb_content io' = (veb_content io)(key_of key := None)"
proof -
  obtain io' msg where io': "nic_mac_vlan_entry_op_cmsg ve key None CMSG_TYPE_MAP_DELETE io = Some (CMESG_DISPATCH_OK, io')"
    "map_cmsg_q io' = map_cmsg_q io @ [msg]" and msg: "word0 msg = (CMSG_TYPE_MAP_DELETE OR push_bit 8 1)"
    "cmsg_key msg = key"
    using entry_op_returns [OF assms, of key None CMSG_TYPE_MAP_DELETE io] by auto
  have "veb_apply msg (veb_content io) = (veb_content io)(key_of key := None)"
    unfolding veb_apply_def msg by (simp add: CMSG_TYPE_MAP_ADD_def CMSG_TYPE_MAP_DELETE_def)
  then show ?thesis using io' veb_content_snoc [OF io'(2)] by auto
qed

lemma dispatch_codes [simp]: "CMESG_DISPATCH_OK \<noteq> CMESG_DISPATCH_FAIL"
  by (simp add: CMESG_DISPATCH_OK_def CMESG_DISPATCH_FAIL_def)

definition mac_of :: "mac_vlan_key \<Rightarrow> u16 \<times> u32" where
  "mac_of k = (mac_addr_hi k, mac_addr_lo k)"

lemma unat_vlan: "v < 4096 \<Longrightarrow> unat (of_nat v :: 12 word) = v"
  by (simp add: unsigned_of_nat take_bit_nat_eq_self)

lemma key_of_upd: "v < 4096 \<Longrightarrow> key_of (k\<lparr>vlan_id := of_nat v\<rparr>) = (v, mac_of k)"
  by (simp add: key_of_def mac_of_def unat_vlan)

text \<open>The add loop over VLANs other than 4095 stores the list under every
  selected VLAN and continues with the rest.\<close>

lemma veb_add_loop_prefix:
  assumes "veb_ok ve" "\<forall>v\<in>set xs. v < 4095"
  shows "\<exists>key' io'. veb_add_loop ve nv (xs @ ys) key acts io = veb_add_loop ve nv ys key' acts io' \<and>
     mac_of key' = mac_of key \<and>
     veb_content io' = (\<lambda>(v, m). if m = mac_of key \<and> v \<in> set xs \<and> vlan_selected nv v
        then Some (acts_words acts) else veb_content io (v, m))"
  using assms(2)
proof (induction xs arbitrary: key io)
  case (Cons x xs)
  have t: "take 16 (acts_words acts) = acts_words acts" by (simp add: acts_words_def)
  show ?case
  proof (cases "vlan_selected nv x")
    case True
    let ?k = "key\<lparr>vlan_id := of_nat x\<rparr>"
    obtain io1 where io1: "nic_mac_vlan_entry_op_cmsg ve ?k (Some (acts_words acts)) CMSG_TYPE_MAP_ADD io =
        Some (CMESG_DISPATCH_OK, io1)" "veb_content io1 = (veb_content io)(key_of ?k \<mapsto> acts_words acts)"
      using entry_add [OF assms(1)] t by metis
    have m: "mac_of ?k = mac_of key" by (simp add: mac_of_def)
    have k: "key_of ?k = (x, mac_of key)" using Cons.prems by (intro key_of_upd) auto
    have ne: "x \<noteq> NIC_NO_VLAN_ID" using Cons.prems by (auto simp: NIC_NO_VLAN_ID_def)
    have step: "veb_add_loop ve nv ((x # xs) @ ys) key acts io = veb_add_loop ve nv (xs @ ys) ?k acts io1"
      using True ne io1(1) by simp
    from Cons.IH [of ?k io1] Cons.prems obtain key' io' where
      "veb_add_loop ve nv (xs @ ys) ?k acts io1 = veb_add_loop ve nv ys key' acts io'" "mac_of key' = mac_of key"
      "veb_content io' = (\<lambda>(v, mm). if mm = mac_of key \<and> v \<in> set xs \<and> vlan_selected nv v
        then Some (acts_words acts) else veb_content io1 (v, mm))"
      unfolding m by auto
    then show ?thesis unfolding step io1(2) k using True
      by (intro exI [of _ key'] exI [of _ io']) (auto simp: fun_eq_iff)
  next
    case False
    then show ?thesis using Cons.IH [of key io] Cons.prems by (fastforce simp: fun_eq_iff)
  qed
qed auto

lemma veb_del_loop_content:
  assumes "veb_ok ve" "\<forall>v\<in>set xs. v < 4096"
  shows "\<exists>io'. veb_del_loop ve nv xs key stored err io = Some (err, io') \<and>
     veb_content io' = (\<lambda>(v, m). if m = mac_of stored \<and> v \<in> set xs \<and>
          (mac_of key \<noteq> mac_of stored \<or> (nv \<noteq> NIC_NO_VLAN_ID \<and> v \<noteq> nv))
        then None else veb_content io (v, m))"
  using assms(2)
proof (induction xs arbitrary: io)
  case (Cons x xs)
  let ?c = "mac_addr_hi key \<noteq> mac_addr_hi stored \<or> mac_addr_lo key \<noteq> mac_addr_lo stored
        \<or> (nv \<noteq> NIC_NO_VLAN_ID \<and> x \<noteq> nv)"
  have c: "?c \<longleftrightarrow> mac_of key \<noteq> mac_of stored \<or> (nv \<noteq> NIC_NO_VLAN_ID \<and> x \<noteq> nv)"
    by (auto simp: mac_of_def)
  show ?case
  proof (cases ?c)
    case True
    let ?k = "stored\<lparr>vlan_id := of_nat x\<rparr>"
    obtain io1 where io1: "nic_mac_vlan_entry_op_cmsg ve ?k None CMSG_TYPE_MAP_DELETE io =
        Some (CMESG_DISPATCH_OK, io1)" "veb_content io1 = (veb_content io)(key_of ?k := None)"
      using entry_delete [OF assms(1)] by metis
    have k: "key_of ?k = (x, mac_of stored)" using Cons.prems by (intro key_of_upd) auto
    have step: "veb_del_loop ve nv (x # xs) key stored err io = veb_del_loop ve nv xs key stored err io1"
      using True io1(1) by simp
    from Cons.IH [of io1] Cons.prems obtain io' where
      "veb_del_loop ve nv xs key stored err io1 = Some (err, io')"
      "veb_content io' = (\<lambda>(v, m). if m = mac_of stored \<and> v \<in> set xs \<and>
          (mac_of key \<noteq> mac_of stored \<or> (nv \<noteq> NIC_NO_VLAN_ID \<and> v \<noteq> nv))
        then None else veb_content io1 (v, m))" by auto
    then show ?thesis unfolding step io1(2) k using True c
      by (intro exI [of _ io']) (auto simp: fun_eq_iff)
  next
    case False
    then show ?thesis using Cons.IH [of io] Cons.prems c by (fastforce simp: fun_eq_iff)
  qed
qed auto

definition unicast :: "mac_vlan_key \<Rightarrow> bool" where
  "unicast key \<longleftrightarrow> MAC64_FROM_VEB_KEY key \<noteq> 0 \<and> \<not> c_true (drop_bit 40 (MAC64_FROM_VEB_KEY key) AND 1)"

lemma vlans_split: "[0..<NIC_NO_VLAN_ID + 1] = [0..<4095] @ [4095]"
  unfolding NIC_NO_VLAN_ID_def by (simp only: upt_Suc_append Suc_eq_plus1 [symmetric] le0 zero_le)

text \<open>The content after adding the entries of one VLAN, before the deletions.\<close>

definition veb_added :: "nat \<Rightarrow> u16 \<times> u32 \<Rightarrow> u32 list \<Rightarrow> veb_map \<Rightarrow> veb_map" where
  "veb_added nv mac ws tbl = tbl((nv, mac) \<mapsto> ws)"

definition veb_purged :: "nat \<Rightarrow> u16 \<times> u32 \<Rightarrow> u16 \<times> u32 \<Rightarrow> veb_map \<Rightarrow> veb_map" where
  "veb_purged nv mac old tbl = (\<lambda>(v, m). if m = old \<and> v < 4096 \<and> (mac \<noteq> old \<or> (nv \<noteq> 4095 \<and> v \<noteq> nv))
     then None else tbl (v, m))"

lemma veb_del_all:
  assumes "veb_ok ve"
  shows "\<exists>io'. veb_del_loop ve nv [0..<NIC_NO_VLAN_ID + 1] key stored err io = Some (err, io') \<and>
     veb_content io' = veb_purged nv (mac_of key) (mac_of stored) (veb_content io)"
proof -
  have "\<forall>v\<in>set [0..<NIC_NO_VLAN_ID + 1]. v < 4096" by (auto simp: NIC_NO_VLAN_ID_def)
  from veb_del_loop_content [OF assms this, of nv key stored err io] show ?thesis
    by (auto simp: veb_purged_def NIC_NO_VLAN_ID_def fun_eq_iff simp del: upt_Suc upt_rec_numeral)
qed

lemma veb_add_single:
  assumes "veb_ok ve" "0 < nv" "nv < 4095"
  shows "\<exists>key' io'. veb_add_loop ve nv [0..<NIC_NO_VLAN_ID + 1] key acts io = Some (Inr key', io') \<and>
     mac_of key' = mac_of key \<and> veb_content io' = veb_added nv (mac_of key) (acts_words acts) (veb_content io)"
proof -
  have "\<forall>v\<in>set [0..<4095]. v < 4095" by simp
  from veb_add_loop_prefix [OF assms(1) this, of nv "[4095]" key acts io] obtain key' io' where
    loop: "veb_add_loop ve nv ([0..<4095] @ [4095]) key acts io = veb_add_loop ve nv [4095] key' acts io'"
    and k: "mac_of key' = mac_of key"
    and c: "veb_content io' = (\<lambda>(v, m). if m = mac_of key \<and> v \<in> set [0..<4095] \<and> vlan_selected nv v
        then Some (acts_words acts) else veb_content io (v, m))"
    by blast
  have "\<not> vlan_selected nv 4095" using assms(2,3) by (simp add: vlan_selected_def NIC_NO_VLAN_ID_def)
  then have "veb_add_loop ve nv [4095] key' acts io' = Some (Inr key', io')" by simp
  moreover have "veb_content io' = veb_added nv (mac_of key) (acts_words acts) (veb_content io)"
    using assms(2,3) unfolding c veb_added_def
    by (auto simp: fun_eq_iff vlan_selected_def NIC_NO_VLAN_ID_def simp del: upt_rec_numeral)
  ultimately show ?thesis unfolding vlans_split loop using k by blast
qed

lemma write_veb_single:
  assumes "veb_ok ve" "unicast key" "0 < unat (vlan_id key)" "unat (vlan_id key) < 4095"
  shows "\<exists>io' key'. cfg_act_write_veb ve jnk vid key (Some acts) hw io =
       Some (NO_ERROR, hw\<lparr>veb_stored_keys := (veb_stored_keys hw)(vid := key')\<rparr>, io') \<and>
     mac_of key' = mac_of key \<and>
     veb_content io' = veb_purged (unat (vlan_id key)) (mac_of key) (mac_of (veb_stored_keys hw vid))
       (veb_added (unat (vlan_id key)) (mac_of key) (acts_words acts) (veb_content io))"
proof -
  let ?nv = "unat (vlan_id key)"
  obtain key' io1 where 1: "veb_add_loop ve ?nv [0..<NIC_NO_VLAN_ID + 1] key acts io = Some (Inr key', io1)"
    "mac_of key' = mac_of key" "veb_content io1 = veb_added ?nv (mac_of key) (acts_words acts) (veb_content io)"
    using veb_add_single [OF assms(1,3,4)] by blast
  obtain io2 where 2: "veb_del_loop ve ?nv [0..<NIC_NO_VLAN_ID + 1] key' (veb_stored_keys hw vid) NO_ERROR io1 =
      Some (NO_ERROR, io2)"
    "veb_content io2 = veb_purged ?nv (mac_of key') (mac_of (veb_stored_keys hw vid)) (veb_content io1)"
    using veb_del_all [OF assms(1)] by blast
  have "cfg_act_write_veb ve jnk vid key (Some acts) hw io =
      Some (NO_ERROR, hw\<lparr>veb_stored_keys := (veb_stored_keys hw)(vid := key')\<rparr>, io2)"
    using assms(2) 1(1) 2(1) unfolding cfg_act_write_veb_def unicast_def Let_def
    by (simp del: upt_Suc upt_rec_numeral)
  then show ?thesis using 1 2(2) by auto
qed

lemma write_veb_none:
  assumes "veb_ok ve"
  shows "\<exists>io'. cfg_act_write_veb ve jnk vid key None hw io =
       Some (NO_ERROR, hw\<lparr>veb_stored_keys := (veb_stored_keys hw)(vid := key)\<rparr>, io') \<and>
     veb_content io' = veb_purged jnk (mac_of key) (mac_of (veb_stored_keys hw vid)) (veb_content io)"
proof -
  obtain io2 where 2: "veb_del_loop ve jnk [0..<NIC_NO_VLAN_ID + 1] key (veb_stored_keys hw vid) NO_ERROR io =
      Some (NO_ERROR, io2)"
    "veb_content io2 = veb_purged jnk (mac_of key) (mac_of (veb_stored_keys hw vid)) (veb_content io)"
    using veb_del_all [OF assms] by blast
  then show ?thesis
    by (simp add: cfg_act_write_veb_def Let_def del: upt_Suc upt_rec_numeral)
qed

text \<open>With no VLAN (4095) every VLAN is selected; the last one gets the list without
  the action that strips the VLAN.\<close>

lemma veb_add_every:
  assumes "veb_ok ve" "cfg_act_remove_strip_vlan acts = Some acts'"
  shows "\<exists>key' io'. veb_add_loop ve 4095 [0..<NIC_NO_VLAN_ID + 1] key acts io = Some (Inr key', io') \<and>
     mac_of key' = mac_of key \<and>
     veb_content io' = (\<lambda>(v, m). if m = mac_of key \<and> v < 4096 then Some (acts_words (if v = 4095 then acts' else acts))
       else veb_content io (v, m))"
proof -
  have "\<forall>v\<in>set [0..<4095]. v < 4095" by simp
  from veb_add_loop_prefix [OF assms(1) this, of 4095 "[4095]" key acts io] obtain key1 io1 where
    loop: "veb_add_loop ve 4095 ([0..<4095] @ [4095]) key acts io = veb_add_loop ve 4095 [4095] key1 acts io1"
    and k: "mac_of key1 = mac_of key"
    and c: "veb_content io1 = (\<lambda>(v, m). if m = mac_of key \<and> v \<in> set [0..<4095] \<and> vlan_selected 4095 v
        then Some (acts_words acts) else veb_content io (v, m))"
    by blast
  let ?k = "key1\<lparr>vlan_id := of_nat 4095\<rparr>"
  have t: "take 16 (acts_words acts') = acts_words acts'" by (simp add: acts_words_def)
  obtain io2 where io2: "nic_mac_vlan_entry_op_cmsg ve ?k (Some (acts_words acts')) CMSG_TYPE_MAP_ADD io1 =
      Some (CMESG_DISPATCH_OK, io2)" "veb_content io2 = (veb_content io1)(key_of ?k \<mapsto> acts_words acts')"
    using entry_add [OF assms(1)] t by metis
  have ko: "key_of ?k = (4095, mac_of key)" using key_of_upd [of 4095 key1] k by simp
  have "veb_add_loop ve 4095 [4095] key1 acts io1 = Some (Inr ?k, io2)"
    using assms(2) io2(1) by (simp add: vlan_selected_def NIC_NO_VLAN_ID_def)
  moreover have "mac_of ?k = mac_of key" using k by (simp add: mac_of_def)
  moreover have "veb_content io2 = (\<lambda>(v, m). if m = mac_of key \<and> v < 4096 then Some (acts_words (if v = 4095 then acts' else acts))
       else veb_content io (v, m))"
    unfolding io2(2) ko c by (auto simp: fun_eq_iff vlan_selected_def NIC_NO_VLAN_ID_def simp del: upt_rec_numeral)
  ultimately show ?thesis unfolding vlans_split loop by blast
qed

lemma write_veb_every:
  assumes "veb_ok ve" "unicast key" "unat (vlan_id key) = 4095" "cfg_act_remove_strip_vlan acts = Some acts'"
  shows "\<exists>io' key'. cfg_act_write_veb ve jnk vid key (Some acts) hw io =
       Some (NO_ERROR, hw\<lparr>veb_stored_keys := (veb_stored_keys hw)(vid := key')\<rparr>, io') \<and>
     mac_of key' = mac_of key \<and>
     (\<forall>v m. v < 4096 \<longrightarrow> veb_content io' (v, m) =
        (if m = mac_of key then Some (acts_words (if v = 4095 then acts' else acts))
         else if m = mac_of (veb_stored_keys hw vid) then None else veb_content io (v, m)))"
proof -
  obtain key' io1 where 1: "veb_add_loop ve 4095 [0..<NIC_NO_VLAN_ID + 1] key acts io = Some (Inr key', io1)"
    "mac_of key' = mac_of key"
    "veb_content io1 = (\<lambda>(v, m). if m = mac_of key \<and> v < 4096 then Some (acts_words (if v = 4095 then acts' else acts))
       else veb_content io (v, m))"
    using veb_add_every [OF assms(1,4)] by blast
  obtain io2 where 2: "veb_del_loop ve 4095 [0..<NIC_NO_VLAN_ID + 1] key' (veb_stored_keys hw vid) NO_ERROR io1 =
      Some (NO_ERROR, io2)"
    "veb_content io2 = veb_purged 4095 (mac_of key') (mac_of (veb_stored_keys hw vid)) (veb_content io1)"
    using veb_del_all [OF assms(1)] by blast
  have "cfg_act_write_veb ve jnk vid key (Some acts) hw io =
      Some (NO_ERROR, hw\<lparr>veb_stored_keys := (veb_stored_keys hw)(vid := key')\<rparr>, io2)"
    using assms(2) 1(1) 2(1) unfolding cfg_act_write_veb_def unicast_def Let_def assms(3)
    by (simp del: upt_Suc upt_rec_numeral)
  then show ?thesis using 1(2,3) 2(2) by (intro exI [of _ io2] exI [of _ key']) (simp add: veb_purged_def)
qed

lemma veb_add_zero:
  assumes "veb_ok ve" "1 \<le> count acts" "count acts \<le> 16"
  shows "\<exists>key' io' ws. veb_add_loop ve 0 [0..<NIC_NO_VLAN_ID + 1] key acts io = Some (Inr key', io') \<and>
     mac_of key' = mac_of key \<and>
     veb_content io' = (veb_added 0 (mac_of key) (acts_words acts) (veb_content io))((4095, mac_of key) \<mapsto> ws)"
proof -
  have "\<forall>v\<in>set [0..<4095]. v < 4095" by simp
  from veb_add_loop_prefix [OF assms(1) this, of 0 "[4095]" key acts io] obtain key1 io1 where
    loop: "veb_add_loop ve 0 ([0..<4095] @ [4095]) key acts io = veb_add_loop ve 0 [4095] key1 acts io1"
    and k: "mac_of key1 = mac_of key"
    and c: "veb_content io1 = (\<lambda>(v, m). if m = mac_of key \<and> v \<in> set [0..<4095] \<and> vlan_selected 0 v
        then Some (acts_words acts) else veb_content io (v, m))"
    by blast
  obtain acts' where acts': "cfg_act_remove_strip_vlan acts = Some acts'"
    using remove_strip_vlan_view [OF assms(2,3)] by blast
  let ?k = "key1\<lparr>vlan_id := of_nat 4095\<rparr>"
  obtain io2 where io2: "nic_mac_vlan_entry_op_cmsg ve ?k (Some (acts_words acts')) CMSG_TYPE_MAP_ADD io1 =
      Some (CMESG_DISPATCH_OK, io2)" "veb_content io2 = (veb_content io1)(key_of ?k \<mapsto> take 16 (acts_words acts'))"
    using entry_add [OF assms(1)] by metis
  have ko: "key_of ?k = (4095, mac_of key)" using key_of_upd [of 4095 key1] k by simp
  have "veb_add_loop ve 0 [4095] key1 acts io1 = Some (Inr ?k, io2)"
    using acts' io2(1) by (simp add: vlan_selected_def NIC_NO_VLAN_ID_def)
  moreover have "veb_content io1 = veb_added 0 (mac_of key) (acts_words acts) (veb_content io)"
    unfolding c veb_added_def
    by (auto simp: fun_eq_iff vlan_selected_def NIC_NO_VLAN_ID_def simp del: upt_rec_numeral)
  moreover have "mac_of ?k = mac_of key" using k by (simp add: mac_of_def)
  ultimately show ?thesis unfolding vlans_split loop using io2(2) ko by auto
qed

end
