(* ===== verification/ConfigOps.thy ===== *)
theory ConfigOps
  imports VebTable
begin

unbundle bit_operations_syntax

text \<open>
  The operations that the application master calls on a reconfiguration, at the
  end of \<open>app_config_tables.c\<close>: bringing a VF or a PF up and down.  They combine
  the buffer size cache, the builders, the switch entries, the VLAN table and
  the instruction table.  The state is the configuration state and the message
  queue; the first component of the result is the C return value.  \<open>acts0\<close> is the
  uninitialised local action list, \<open>jnk\<close> the content of uninitialised unions and
  \<open>jnkv\<close> that of the uninitialised \<open>new_vlan_id\<close>.
\<close>

type_synonym cfg_result = "(int \<times> cfg_hw \<times> veb_io) option"

definition MAC64_FROM_SRIOV_CFG :: "sriov_cfg \<Rightarrow> u64" where
  "MAC64_FROM_SRIOV_CFG c = push_bit 16 (ucast (sr_mac_hi c)) OR ucast (sr_mac_lo c)"

definition bar_mac64 :: "cfg_bar \<Rightarrow> u64" where
  "bar_mac64 b = push_bit 32 (ucast (bar_mac0 b)) OR ucast (bar_mac1 b)"

text \<open>Which MAC address a VF gets; \<open>None\<close> is the error return of a VF that is not
  trusted and asks for another address than the PF gave it.\<close>

definition vf_mac_choice :: "cfg_env \<Rightarrow> sriov_cfg \<Rightarrow> u64 \<Rightarrow> u32 \<Rightarrow> u64 option" where
  "vf_mac_choice e sc vf_mac_addr update =
    (let mac_addr = MAC64_FROM_SRIOV_CFG sc in
     if mac_addr = 0 then Some vf_mac_addr
     else if ctrl_trusted sc then Some vf_mac_addr
     else if vf_mac_addr \<noteq> mac_addr \<and> flag update (UPDATE_MACADDR (nc e) OR UPDATE_GEN (nc e)) then None
     else Some mac_addr)"

definition vf_vlan :: "sriov_cfg \<Rightarrow> u16" where
  "vf_vlan sc = (if sr_vlan_tag sc \<noteq> 0 then ucast (sr_vlan_id sc) else of_nat NIC_NO_VLAN_ID)"

definition cfg_act_vf_up ::
  "cfg_env \<Rightarrow> veb_env \<Rightarrow> host_mem \<Rightarrow> action_list \<Rightarrow> u32 \<Rightarrow> nat \<Rightarrow> u32 \<Rightarrow> u32 \<Rightarrow> u32 \<Rightarrow> u32 \<Rightarrow> u32
     \<Rightarrow> cfg_hw \<Rightarrow> veb_io \<Rightarrow> cfg_result" where
  "cfg_act_vf_up e ve h acts0 jnk jnkv pcie vid pf_control vf_control update hw io =
    (let hw = cfg_act_cache_fl_buf_sz e h pcie vid hw in do {
       (acts, hw) \<leftarrow> cfg_act_build_veb_vf e h jnk pcie vid pf_control vf_control acts0 hw;
       let sriov_cfg_data = vf_cfg h pcie (NFD_VID2VF e vid);
       let vlan = vf_vlan sriov_cfg_data;
       let vf_mac_addr = drop_bit 16 (bar_mac64 (bar h pcie vid));
       (case vf_mac_choice e sriov_cfg_data vf_mac_addr update of
          None \<Rightarrow> Some (1, hw, io)
        | Some mac_addr \<Rightarrow> do {
            let veb_key = (VEB_KEY_FROM_MAC64 mac_addr)\<lparr>vlan_id := ucast vlan\<rparr>;
            (err, hw, io) \<leftarrow> cfg_act_write_veb ve jnkv vid veb_key (Some acts) hw io;
            (if err \<noteq> NO_ERROR then Some (1, hw, io)
             else do {
               let hw = fst (add_vlan_member e h pcie vlan (ucast vid) hw);
               let hw = upd_ctm_vlan_members pcie hw;
               acts \<leftarrow> cfg_act_build_vf e h jnk pcie vid pf_control vf_control hw acts;
               hw \<leftarrow> cfg_act_write_host e pcie vid acts hw;
               Some (0, hw, io) }) }) })"

definition cfg_act_vf_down ::
  "cfg_env \<Rightarrow> veb_env \<Rightarrow> host_mem \<Rightarrow> action_list \<Rightarrow> nat \<Rightarrow> u32 \<Rightarrow> u32 \<Rightarrow> cfg_hw \<Rightarrow> veb_io \<Rightarrow> cfg_result" where
  "cfg_act_vf_down e ve h acts0 jnkv pcie vid hw io = do {
     acts \<leftarrow> cfg_act_build_pcie_down e h pcie vid acts0;
     hw \<leftarrow> cfg_act_write_host e pcie vid acts hw;
     let veb_key = VEB_KEY_FROM_MAC64 0;
     (err, hw, io) \<leftarrow> cfg_act_write_veb ve jnkv vid veb_key None hw io;
     (if err \<noteq> NO_ERROR then Some (1, hw, io)
      else let hw = fst (remove_vlan_member e h pcie (ucast vid) hw);
               hw = upd_ctm_vlan_members pcie hw
           in Some (0, hw, io)) }"

definition mac_veb_key :: "u64 \<Rightarrow> mac_vlan_key" where
  "mac_veb_key mac_dword = \<lparr>vlan_id = 0, mac_addr_hi = ucast (drop_bit 32 mac_dword), mac_addr_lo = ucast mac_dword\<rparr>"

definition set_nvnic_mac :: "u32 \<Rightarrow> u32 \<Rightarrow> u64 \<Rightarrow> cfg_hw \<Rightarrow> cfg_hw" where
  "set_nvnic_mac pcie vid mac hw =
     hw\<lparr>nvnic_macs := (nvnic_macs hw)(pcie := (nvnic_macs hw pcie)(vid := mac))\<rparr>"

definition cfg_act_pf_up ::
  "cfg_env \<Rightarrow> veb_env \<Rightarrow> host_mem \<Rightarrow> action_list \<Rightarrow> u32 \<Rightarrow> nat \<Rightarrow> u32 \<Rightarrow> u32 \<Rightarrow> u32 \<Rightarrow> u32 \<Rightarrow> u32
     \<Rightarrow> cfg_hw \<Rightarrow> veb_io \<Rightarrow> cfg_result" where
  "cfg_act_pf_up e ve h acts0 jnk jnkv pcie vid veb_up control update hw io =
    (let hw = cfg_act_cache_fl_buf_sz e h pcie vid hw in do {
       (acts, hw) \<leftarrow> cfg_act_build_nbi e h jnk pcie vid veb_up control update acts0 hw;
       let vnic = snd (NFD_VID2VNIC e vid);
       hw \<leftarrow> cfg_act_write_wire e vnic acts hw;
       acts \<leftarrow> cfg_act_build_pf e h jnk pcie vid veb_up control acts;
       hw \<leftarrow> cfg_act_write_host e pcie vid acts hw;
       let mac = drop_bit 16 (bar_mac64 (bar h pcie vid));
       let hw = set_nvnic_mac pcie vid mac hw;
       (if vnic = 0 then do {
          (acts, hw) \<leftarrow> cfg_act_build_veb_pf e h jnk pcie vid control update acts hw;
          let veb_key = (mac_veb_key mac)\<lparr>vlan_id := of_nat NIC_NO_VLAN_ID\<rparr>;
          (err, hw, io) \<leftarrow> cfg_act_write_veb ve jnkv vid veb_key (Some acts) hw io;
          Some (if err \<noteq> NO_ERROR then 1 else 0, hw, io) }
        else Some (0, hw, io)) })"

definition cfg_act_pf_down ::
  "cfg_env \<Rightarrow> veb_env \<Rightarrow> host_mem \<Rightarrow> action_list \<Rightarrow> nat \<Rightarrow> u32 \<Rightarrow> u32 \<Rightarrow> cfg_hw \<Rightarrow> veb_io \<Rightarrow> cfg_result" where
  "cfg_act_pf_down e ve h acts0 jnkv pcie vid hw io =
    (case NFD_VID2VNIC e vid of (ty, vnic) \<Rightarrow>
     if ty \<noteq> NFD_VNIC_TYPE_PF then Some (1, hw, io)
     else do {
       (acts, hw) \<leftarrow> cfg_act_build_nbi_down e h pcie vid acts0 hw;
       hw \<leftarrow> cfg_act_write_wire e vnic acts hw;
       acts \<leftarrow> cfg_act_build_pcie_down e h pcie vid acts;
       hw \<leftarrow> cfg_act_write_host e pcie vid acts hw;
       let mac = nvnic_macs hw pcie vid;
       let hw = set_nvnic_mac pcie vid 0 hw;
       (if vnic = 0 then do {
          let veb_key = mac_veb_key mac;
          (err, hw, io) \<leftarrow> cfg_act_write_veb ve jnkv vid veb_key None hw io;
          Some (if err \<noteq> NO_ERROR then 1 else 0, hw, io) }
        else Some (0, hw, io)) })"

section \<open>What the steps leave alone\<close>

lemma fold_keeps:
  assumes "\<And>x s. f (g x s) = f s"
  shows "f (fold g xs s) = f s"
  using assms by (induction xs arbitrary: s) simp_all

lemma write_queues_keeps:
  assumes "\<And>addr xs i hw. f (isl_write addr xs i hw) = f hw"
  shows "write_queues e qs acts hw = Some hw' \<Longrightarrow> f hw' = f hw"
proof (induction e qs acts hw rule: write_queues.induct)
  case (2 e q qs acts hw)
  then obtain hw1 where 1: "cfg_act_write_queue e q acts hw = Some hw1" "write_queues e qs acts hw1 = Some hw'"
    by (auto simp: bind_eq_Some)
  have "hw1 = fold (isl_write (q * 64) (map (instr acts) [0..<count acts])) (app_isl_ids e) hw"
    using 1(1) by (simp add: write_queue_fold)
  then have "f hw1 = f hw" using fold_keeps [of f, OF assms] by simp
  then show ?case using "2.IH" [OF 1] by simp
qed simp

lemma write_host_keeps:
  assumes "cfg_act_write_host e pcie vid acts hw = Some hw'"
  shows "fl_buf_sz_cache hw' = fl_buf_sz_cache hw"
    "nic_vlan_to_vnics_map_tbl hw' = nic_vlan_to_vnics_map_tbl hw"
    "veb_stored_keys hw' = veb_stored_keys hw" "nvnic_macs hw' = nvnic_macs hw"
  using write_queues_keeps [of fl_buf_sz_cache] write_queues_keeps [of nic_vlan_to_vnics_map_tbl]
    write_queues_keeps [of veb_stored_keys] write_queues_keeps [of nvnic_macs] assms
  unfolding cfg_act_write_host_def by (auto simp: isl_write_def)

lemma write_wire_keeps:
  assumes "cfg_act_write_wire e port acts hw = Some hw'"
  shows "veb_stored_keys hw' = veb_stored_keys hw" "nvnic_macs hw' = nvnic_macs hw"
proof -
  have w: "write_queues e [push_bit 8 1 OR port] acts hw = Some hw'"
    using assms by (simp add: cfg_act_write_wire_def)
  show "veb_stored_keys hw' = veb_stored_keys hw" "nvnic_macs hw' = nvnic_macs hw"
    by (rule write_queues_keeps [OF _ w], simp add: isl_write_def)+
qed

lemma upd_ctm_keeps [simp]:
  "nic_vlan_to_vnics_map_tbl (upd_ctm_vlan_members pcie hw) = nic_vlan_to_vnics_map_tbl hw"
  "fl_buf_sz_cache (upd_ctm_vlan_members pcie hw) = fl_buf_sz_cache hw"
  unfolding upd_ctm_vlan_members_def
  by (auto simp del: upt_rec_numeral intro!: fold_keeps [of nic_vlan_to_vnics_map_tbl] fold_keeps [of fl_buf_sz_cache])

lemma write_host_view:
  assumes "cfg_act_write_host e pcie vid acts hw = Some hw'"
    and "\<And>i. push_bit 6 pcie OR NFD_VID2QID e vid i < 2 ^ 26"
    and "island \<in> set (app_isl_ids e)" "k < NFD_VID_MAXQS e vid"
  shows "map (instr_at hw' island (push_bit 6 pcie OR NFD_VID2QID e vid k)) [0..<count acts] = view acts"
proof -
  let ?qs = "map (\<lambda>i. push_bit 6 pcie OR NFD_VID2QID e vid i) [0..<NFD_VID_MAXQS e vid]"
  have lt: "\<forall>q\<in>set ?qs. q < 2 ^ 26" using assms(2) by auto
  show ?thesis
    using write_queues_at [OF assms(1) [unfolded cfg_act_write_host_def] lt _ assms(3)] assms(4)
    by (simp add: view_def)
qed

lemma add_member_keeps: "fl_buf_sz_cache (fst (add_vlan_member e h pcie vlan vid hw)) = fl_buf_sz_cache hw"
  by (simp add: add_vlan_member_def set_members_def Let_def)

lemma write_host_returns:
  assumes "1 \<le> count acts" "count acts \<le> 16"
  obtains hw' where "cfg_act_write_host e pcie vid acts hw = Some hw'"
  using write_queues_Some [OF assms] unfolding cfg_act_write_host_def by blast

lemma spec_vf_cong:
  "fl_buf_sz_cache hw = fl_buf_sz_cache hw' \<Longrightarrow>
     spec_vf e h jnk pcie vid pfc vfc hw = spec_vf e h jnk pcie vid pfc vfc hw'"
  by (simp only: spec_vf_def a_tx_host_def)

section \<open>Properties\<close>


definition veb_env_ex :: veb_env where
  "veb_env_ex = \<lparr>ctm_alloc = (\<lambda>n. of_nat (n mod 256)), CTM_ALLOC_ERR = 0xffffffff,
     blm_alloc = (\<lambda>n. if even n then None else Some (of_nat n)), blm_buf_handle2ptr = (\<lambda>h. push_bit 11 (ucast h)),
     NFD_IN_BLM_REG_BLS = 0, ISLAND = 36, lmem0 = replicate 16 0\<rparr>"

definition veb_io_ex :: veb_io where
  "veb_io_ex = \<lparr>ctm_calls = 0, blm_calls = 0, map_cmsg_q = []\<rparr>"

lemma veb_ok_ex: "veb_ok veb_env_ex"
proof -
  have "(of_nat (n mod 256) :: u32) \<noteq> 0xffffffff" for n
  proof
    assume "(of_nat (n mod 256) :: u32) = 0xffffffff"
    then have "unat (of_nat (n mod 256) :: u32) = 4294967295" by simp
    moreover have "unat (of_nat (n mod 256) :: u32) = n mod 256"
      using mod_less_divisor [of 256 n] by (intro unat_of_nat_small) simp
    ultimately show False using mod_less_divisor [of 256 n] by simp
  qed
  moreover have "\<exists>k \<ge> n. odd k" for n :: nat by (rule exI [of _ "2 * n + 1"]) simp
  ultimately show ?thesis unfolding veb_ok_def veb_env_ex_def by auto
qed

definition key_ex :: mac_vlan_key where
  "key_ex = \<lparr>vlan_id = 5, mac_addr_hi = 0x0015, mac_addr_lo = 0xdeadbeef\<rparr>"

lemma unicast_ex: "unicast key_ex"
  by (simp add: unicast_def key_ex_def MAC64_FROM_VEB_KEY_def c_true_def)


text \<open>Writing the switch entries fails without any message or state change
  exactly as the code intends for the zero address and for multicast
  addresses.\<close>

lemma write_veb_rejects_bad_mac:
  assumes "\<not> unicast key"
  shows "cfg_act_write_veb ve jnk vid key (Some acts) hw io = Some (MAC_VLAN_ADD_FAIL, hw, io)"
  using assms by (auto simp: cfg_act_write_veb_def unicast_def Let_def)

text \<open>C38. A vNIC with VLAN 0 whose address did not change loses an entry that was
  just added: the call adds the address under VLAN 0 and under \<open>no VLAN\<close> (4095),
  and the deletion of the other VLANs then removes the second one.\<close>

theorem write_veb_vlan0_loses_entry:
  assumes "veb_ok ve" "unicast key" "vlan_id key = 0" "1 \<le> count acts" "count acts \<le> 16"
    and "mac_of (veb_stored_keys hw vid) = mac_of key"
  shows "\<exists>hw' io'. cfg_act_write_veb ve jnk vid key (Some acts) hw io = Some (NO_ERROR, hw', io') \<and>
     veb_content io' (0, mac_of key) = Some (acts_words acts) \<and> veb_content io' (4095, mac_of key) = None"
proof -
  obtain key' io1 ws where 1: "veb_add_loop ve 0 [0..<NIC_NO_VLAN_ID + 1] key acts io = Some (Inr key', io1)"
    "mac_of key' = mac_of key"
    "veb_content io1 = (veb_added 0 (mac_of key) (acts_words acts) (veb_content io))((4095, mac_of key) \<mapsto> ws)"
    using veb_add_zero [OF assms(1,4,5)] by blast
  obtain io2 where 2: "veb_del_loop ve 0 [0..<NIC_NO_VLAN_ID + 1] key' (veb_stored_keys hw vid) NO_ERROR io1 =
      Some (NO_ERROR, io2)"
    "veb_content io2 = veb_purged 0 (mac_of key') (mac_of (veb_stored_keys hw vid)) (veb_content io1)"
    using veb_del_all [OF assms(1)] by blast
  have "cfg_act_write_veb ve jnk vid key (Some acts) hw io =
      Some (NO_ERROR, hw\<lparr>veb_stored_keys := (veb_stored_keys hw)(vid := key')\<rparr>, io2)"
    using assms(2,3) 1(1) 2(1) unfolding cfg_act_write_veb_def unicast_def Let_def
    by (simp del: upt_Suc upt_rec_numeral)
  then show ?thesis using 1(2,3) 2(2) assms(6) by (auto simp: veb_purged_def veb_added_def)
qed

definition hw_stored_ex :: cfg_hw where
  "hw_stored_ex = hw_ex\<lparr>veb_stored_keys := (\<lambda>_. key_ex)\<rparr>"

theorem write_veb_vlan0_loses_entry_witness:
  "\<exists>hw' io'. cfg_act_write_veb veb_env_ex 0 3 (key_ex\<lparr>vlan_id := 0\<rparr>) (Some (mk [Act INSTR_DROP 0 []] (\<lambda>_. 7)))
       hw_stored_ex veb_io_ex = Some (NO_ERROR, hw', io') \<and> veb_content io' (4095, 0x0015, 0xdeadbeef) = None"
proof -
  have u: "unicast (key_ex\<lparr>vlan_id := 0\<rparr>)" using unicast_ex by (simp add: unicast_def MAC64_FROM_VEB_KEY_def)
  show ?thesis
    using write_veb_vlan0_loses_entry [OF veb_ok_ex u, of "mk [Act INSTR_DROP 0 []] (\<lambda>_. 7)" hw_stored_ex 3 0 veb_io_ex]
    by (auto simp: hw_stored_ex_def mac_of_def key_ex_def)
qed

text \<open>C33. A VF that is not trusted cannot move away from the MAC address its PF
  gave it: a request with another address on an address or general update
  returns 1, sends no switch message and changes nothing but the cached buffer
  size.\<close>

theorem vf_up_rejects_untrusted_mac:
  assumes "NFD_VID2VNIC e vid = (NFD_VNIC_TYPE_VF, vnic)" "\<not> ctrl_trusted (vf_cfg h pcie (NFD_VID2VF e vid))"
    and "MAC64_FROM_SRIOV_CFG (vf_cfg h pcie (NFD_VID2VF e vid)) \<noteq> 0"
    and "drop_bit 16 (bar_mac64 (bar h pcie vid)) \<noteq> MAC64_FROM_SRIOV_CFG (vf_cfg h pcie (NFD_VID2VF e vid))"
    and "flag update (UPDATE_MACADDR (nc e) OR UPDATE_GEN (nc e))"
  shows "cfg_act_vf_up e ve h acts0 jnk jnkv pcie vid pf_control vf_control update hw io =
     Some (1, cfg_act_cache_fl_buf_sz e h pcie vid hw, io)"
  using assms(2-5) by (simp add: cfg_act_vf_up_def build_veb_vf_mk [OF assms(1)] vf_mac_choice_def Let_def)

theorem vf_up_rejects_untrusted_mac_witness:
  "cfg_act_vf_up cfg_env_ex veb_env_ex host_ex (mk [] (\<lambda>_. 0)) 0 0 0 5 1 1 1 hw_ex veb_io_ex =
     Some (1, cfg_act_cache_fl_buf_sz cfg_env_ex host_ex 0 5 hw_ex, veb_io_ex)"
  by (rule vf_up_rejects_untrusted_mac [OF vf_ex])
    (simp_all add: host_ex_def sriov_ex_def bar_ex_def MAC64_FROM_SRIOV_CFG_def bar_mac64_def flag_def
      c_true_def cfg_env_ex_def net_ctrl_ex_def)

lemma unat_vf_vlan: "sr_vlan_tag sc \<noteq> 0 \<Longrightarrow> unat (vf_vlan sc) = unat (sr_vlan_id sc)"
  "sr_vlan_tag sc = 0 \<Longrightarrow> unat (vf_vlan sc) = 4095"
proof -
  have "unat (sr_vlan_id sc) < 2 ^ 12" using unsigned_less [of "sr_vlan_id sc", where ?'a = nat] by simp
  then show "sr_vlan_tag sc \<noteq> 0 \<Longrightarrow> unat (vf_vlan sc) = unat (sr_vlan_id sc)"
    "sr_vlan_tag sc = 0 \<Longrightarrow> unat (vf_vlan sc) = 4095"
    by (simp_all add: vf_vlan_def NIC_NO_VLAN_ID_def unsigned_ucast_eq take_bit_nat_eq_self)
qed

lemma vf_vlan_le: "unat (vf_vlan sc) \<le> 4095"
  using unat_vf_vlan unsigned_less [of "sr_vlan_id sc", where ?'a = nat] by (cases "sr_vlan_tag sc = 0") auto

text \<open>The part of bringing a VF up that follows a successful switch update.\<close>

lemma vf_up_tail:
  assumes "NFD_VID2VNIC e vid = (NFD_VNIC_TYPE_VF, vnic)"
    and "vf_mac_choice e (vf_cfg h pcie (NFD_VID2VF e vid)) (drop_bit 16 (bar_mac64 (bar h pcie vid))) update = Some mac"
    and "cfg_act_write_veb ve jnkv vid ((VEB_KEY_FROM_MAC64 mac)\<lparr>vlan_id := ucast (vf_vlan (vf_cfg h pcie (NFD_VID2VF e vid)))\<rparr>)
       (Some (mk (spec_veb_vf e h jnk pcie vid pf_control vf_control (cfg_act_cache_fl_buf_sz e h pcie vid hw))
          (reg_zero e (instr acts0) NIC_MAX_INSTR)))
       (cfg_act_cache_fl_buf_sz e h pcie vid hw) io = Some (NO_ERROR, hw2, io2)"
  shows "\<exists>j hw3 hw'. hw3 = upd_ctm_vlan_members pcie
       (fst (add_vlan_member e h pcie (vf_vlan (vf_cfg h pcie (NFD_VID2VF e vid))) (ucast vid) hw2)) \<and>
     cfg_act_write_host e pcie vid (mk (spec_vf e h jnk pcie vid pf_control vf_control hw3) j) hw3 = Some hw' \<and>
     cfg_act_vf_up e ve h acts0 jnk jnkv pcie vid pf_control vf_control update hw io = Some (0, hw', io2)"
proof -
  define hw3 where "hw3 = upd_ctm_vlan_members pcie
       (fst (add_vlan_member e h pcie (vf_vlan (vf_cfg h pcie (NFD_VID2VF e vid))) (ucast vid) hw2))"
  define j where "j = reg_zero e (instr (mk (spec_veb_vf e h jnk pcie vid pf_control vf_control
      (cfg_act_cache_fl_buf_sz e h pcie vid hw)) (reg_zero e (instr acts0) NIC_MAX_INSTR))) NIC_MAX_INSTR"
  obtain hw' where w: "cfg_act_write_host e pcie vid (mk (spec_vf e h jnk pcie vid pf_control vf_control hw3) j) hw3 = Some hw'"
    using write_host_returns [of "mk (spec_vf e h jnk pcie vid pf_control vf_control hw3) j" e pcie vid hw3]
      spec_words_pos(3) [of e h jnk pcie vid pf_control vf_control hw3]
      spec_words(3) [of e h jnk pcie vid pf_control vf_control hw3] by auto
  have "cfg_act_vf_up e ve h acts0 jnk jnkv pcie vid pf_control vf_control update hw io = Some (0, hw', io2)"
    using w unfolding hw3_def j_def
    by (simp add: cfg_act_vf_up_def build_veb_vf_mk [OF assms(1)] build_vf_mk [OF assms(1)] Let_def assms(2,3))
  then show ?thesis using w hw3_def by blast
qed

text \<open>C7. Bringing up a VF with a VLAN tag always succeeds when buffers can be
  allocated and the address rules give it a unicast address: then every queue
  of the VF in every worker island holds the encoded VF action sequence, the VF
  is a member of its VLAN, and the switch maps its address and VLAN to the
  encoded switch sequence.\<close>

theorem vf_up_installs:
  assumes "NFD_VID2VNIC e vid = (NFD_VNIC_TYPE_VF, vnic)" "veb_ok ve"
    and "sc = vf_cfg h pcie (NFD_VID2VF e vid)" "sr_vlan_tag sc \<noteq> 0" "0 < unat (sr_vlan_id sc)" "unat (sr_vlan_id sc) < 4095"
    and "vf_mac_choice e sc (drop_bit 16 (bar_mac64 (bar h pcie vid))) update = Some mac"
    and "unicast (VEB_KEY_FROM_MAC64 mac)"
    and "\<And>i. push_bit 6 pcie OR NFD_VID2QID e vid i < 2 ^ 26" "island \<in> set (app_isl_ids e)"
    and "k < NFD_VID_MAXQS e vid" "NFD_MAX_VFS e \<le> 56" "unat (ucast vid :: u16) < NFD_MAX_VFS e"
  shows "\<exists>hw' io' sw. cfg_act_vf_up e ve h acts0 jnk jnkv pcie vid pf_control vf_control update hw io = Some (0, hw', io') \<and>
     map (instr_at hw' island (push_bit 6 pcie OR NFD_VID2QID e vid k))
       [0..<words (spec_vf e h jnk pcie vid pf_control vf_control hw')] =
       encode None (spec_vf e h jnk pcie vid pf_control vf_control hw') \<and>
     is_member hw' pcie (unat (sr_vlan_id sc)) (unat (ucast vid :: u16)) \<and>
     veb_content io' (unat (sr_vlan_id sc), mac_of (VEB_KEY_FROM_MAC64 mac)) = Some sw \<and>
     take (words (spec_veb_vf e h jnk pcie vid pf_control vf_control (cfg_act_cache_fl_buf_sz e h pcie vid hw))) sw =
       encode None (spec_veb_vf e h jnk pcie vid pf_control vf_control (cfg_act_cache_fl_buf_sz e h pcie vid hw))"
proof -
  let ?hwc = "cfg_act_cache_fl_buf_sz e h pcie vid hw"
  let ?key = "(VEB_KEY_FROM_MAC64 mac)\<lparr>vlan_id := ucast (vf_vlan sc)\<rparr>"
  let ?va = "mk (spec_veb_vf e h jnk pcie vid pf_control vf_control ?hwc) (reg_zero e (instr acts0) NIC_MAX_INSTR)"
  have uv: "unat (vf_vlan sc) = unat (sr_vlan_id sc)" using unat_vf_vlan(1) [OF assms(4)] .
  have v: "unat (vlan_id ?key) = unat (sr_vlan_id sc)"
    using unsigned_less [of "sr_vlan_id sc", where ?'a = nat] uv
    by (simp add: unsigned_ucast_eq take_bit_nat_eq_self)
  have u: "unicast ?key" using assms(8) by (simp add: unicast_def MAC64_FROM_VEB_KEY_def)
  have m: "mac_of ?key = mac_of (VEB_KEY_FROM_MAC64 mac)" by (simp add: mac_of_def)
  have "0 < unat (vlan_id ?key)" "unat (vlan_id ?key) < 4095" using assms(5,6) v by simp_all
  from write_veb_single [OF assms(2) u this, of jnkv vid ?va ?hwc io] obtain hw2 io2 where
    wv: "cfg_act_write_veb ve jnkv vid ?key (Some ?va) ?hwc io = Some (NO_ERROR, hw2, io2)"
    and c: "veb_content io2 (unat (vlan_id ?key), mac_of ?key) = Some (acts_words ?va)"
    using assms(6) v by (auto simp: veb_purged_def veb_added_def)
  obtain j hw3 hw' where hw3: "hw3 = upd_ctm_vlan_members pcie (fst (add_vlan_member e h pcie (vf_vlan sc) (ucast vid) hw2))"
    and w: "cfg_act_write_host e pcie vid (mk (spec_vf e h jnk pcie vid pf_control vf_control hw3) j) hw3 = Some hw'"
    and r: "cfg_act_vf_up e ve h acts0 jnk jnkv pcie vid pf_control vf_control update hw io = Some (0, hw', io2)"
    using vf_up_tail [OF assms(1) assms(7) [unfolded assms(3)] wv [unfolded assms(3)]] unfolding assms(3) by blast
  have spec: "spec_vf e h jnk pcie vid pf_control vf_control hw3 = spec_vf e h jnk pcie vid pf_control vf_control hw'"
    using write_host_keeps(1) [OF w] by (intro spec_vf_cong) simp
  have "is_member (fst (add_vlan_member e h pcie (vf_vlan sc) (ucast vid) hw2)) pcie (unat (vf_vlan sc)) (unat (ucast vid :: u16))"
    using add_vlan_member_effect [OF assms(12,13) vf_vlan_le [of sc] assms(13) prod.collapse [symmetric], of h pcie hw2 pcie] by simp
  then have mem: "is_member hw' pcie (unat (sr_vlan_id sc)) (unat (ucast vid :: u16))"
    using write_host_keeps(2) [OF w] uv by (simp add: is_member_def hw3)
  have "take (words (spec_veb_vf e h jnk pcie vid pf_control vf_control ?hwc)) (acts_words ?va) = view ?va"
    using spec_words(5) [of e h jnk pcie vid pf_control vf_control ?hwc]
    by (simp add: acts_words_def view_def take_map take_upt del: upt_rec_numeral)
  then show ?thesis
    using r mem write_host_view [OF w assms(9-11)] c
    unfolding count_mk view_mk spec v m by blast
qed

definition host_trust_ex :: host_mem where
  "host_trust_ex = \<lparr>bar = (\<lambda>_ _. bar_ex), vf_cfg = (\<lambda>_ _. sriov_ex\<lparr>ctrl_trusted := True\<rparr>)\<rparr>"

theorem vf_up_installs_witness:
  "\<exists>hw' io'. cfg_act_vf_up cfg_env_ex veb_env_ex host_trust_ex (mk [] (\<lambda>_. 0)) 0 0 0 5 1 1 1 hw_ex veb_io_ex = Some (0, hw', io') \<and>
     is_member hw' 0 5 5 \<and> instr_at hw' 0x200 5 0 = hd (encode None (spec_vf cfg_env_ex host_trust_ex 0 0 5 1 1 hw'))"
proof -
  let ?mac = "drop_bit 16 (bar_mac64 bar_ex)"
  have c: "vf_mac_choice cfg_env_ex (vf_cfg host_trust_ex 0 (NFD_VID2VF cfg_env_ex 5))
      (drop_bit 16 (bar_mac64 (bar host_trust_ex 0 5))) 1 = Some ?mac"
    by (simp add: vf_mac_choice_def host_trust_ex_def Let_def)
  have u: "unicast (VEB_KEY_FROM_MAC64 ?mac)"
    by (simp add: unicast_def VEB_KEY_FROM_MAC64_def MAC64_FROM_VEB_KEY_def c_true_def bar_mac64_def bar_ex_def)
  have "\<exists>hw' io' sw. cfg_act_vf_up cfg_env_ex veb_env_ex host_trust_ex (mk [] (\<lambda>_. 0)) 0 0 0 5 1 1 1 hw_ex veb_io_ex = Some (0, hw', io') \<and>
     map (instr_at hw' 0x200 (push_bit 6 0 OR NFD_VID2QID cfg_env_ex 5 0))
       [0..<words (spec_vf cfg_env_ex host_trust_ex 0 0 5 1 1 hw')] =
       encode None (spec_vf cfg_env_ex host_trust_ex 0 0 5 1 1 hw') \<and>
     is_member hw' 0 (unat (sr_vlan_id (vf_cfg host_trust_ex 0 (NFD_VID2VF cfg_env_ex 5)))) (unat (ucast (5 :: u32) :: u16)) \<and>
     veb_content io' (unat (sr_vlan_id (vf_cfg host_trust_ex 0 (NFD_VID2VF cfg_env_ex 5))), mac_of (VEB_KEY_FROM_MAC64 ?mac)) = Some sw \<and>
     take (words (spec_veb_vf cfg_env_ex host_trust_ex 0 0 5 1 1 (cfg_act_cache_fl_buf_sz cfg_env_ex host_trust_ex 0 5 hw_ex))) sw =
       encode None (spec_veb_vf cfg_env_ex host_trust_ex 0 0 5 1 1 (cfg_act_cache_fl_buf_sz cfg_env_ex host_trust_ex 0 5 hw_ex))"
    by (rule vf_up_installs [OF vf_ex veb_ok_ex refl _ _ _ c u qid_ex])
      (simp_all add: host_trust_ex_def sriov_ex_def cfg_env_ex_def)
  then obtain hw' io' where r: "cfg_act_vf_up cfg_env_ex veb_env_ex host_trust_ex (mk [] (\<lambda>_. 0)) 0 0 0 5 1 1 1 hw_ex veb_io_ex = Some (0, hw', io')"
    and e: "map (instr_at hw' 0x200 5) [0..<words (spec_vf cfg_env_ex host_trust_ex 0 0 5 1 1 hw')] =
       encode None (spec_vf cfg_env_ex host_trust_ex 0 0 5 1 1 hw')" and mem: "is_member hw' 0 5 5"
    by (auto simp: host_trust_ex_def sriov_ex_def cfg_env_ex_def)
  have "instr_at hw' 0x200 5 0 = hd (encode None (spec_vf cfg_env_ex host_trust_ex 0 0 5 1 1 hw'))"
    using spec_words_pos(3) [of cfg_env_ex host_trust_ex 0 0 5 1 1 hw'] unfolding e [symmetric] by (simp add: upt_conv_Cons)
  then show ?thesis using r mem by blast
qed

text \<open>Taking the first PF vNIC down does not reliably remove its switch
  entries: the key passed to the deletion has the stored address, so what is
  deleted is decided by the uninitialised VLAN variable alone: nothing when it
  is 4095, otherwise every VLAN but the one it happens to hold.\<close>

lemma pf_down_depends_on_uninitialised:
  assumes "NFD_VID2VNIC e vid = (NFD_VNIC_TYPE_PF, 0)" "veb_ok ve"
    and "mac_of (veb_stored_keys hw vid) = mac_of (mac_veb_key (nvnic_macs hw pcie vid))"
  shows "\<exists>hw' io'. cfg_act_pf_down e ve h acts0 jnkv pcie vid hw io = Some (0, hw', io') \<and>
     (\<forall>v m. veb_content io' (v, m) =
        (if m = mac_of (veb_stored_keys hw vid) \<and> v < 4096 \<and> jnkv \<noteq> 4095 \<and> v \<noteq> jnkv then None
         else veb_content io (v, m)))"
proof -
  let ?j = "reg_zero e (instr acts0) NIC_MAX_INSTR"
  obtain hw1 where w1: "cfg_act_write_wire e 0 (mk (spec_down_wire e h pcie vid) ?j) hw = Some hw1"
    using spec_words_pos(5) [of e h pcie vid]
    by (auto simp: cfg_act_write_wire_def cfg_act_write_queue_def NIC_MAX_INSTR_def spec_down_wire_def)
  let ?j2 = "reg_zero e (instr (mk (spec_down_wire e h pcie vid) ?j)) NIC_MAX_INSTR"
  obtain hw2 where w2: "cfg_act_write_host e pcie vid (mk (spec_down_host e h pcie vid) ?j2) hw1 = Some hw2"
    using write_host_returns [of "mk (spec_down_host e h pcie vid) ?j2" e pcie vid hw1]
    by (auto simp: spec_down_host_def)
  have keep: "nvnic_macs hw2 = nvnic_macs hw" "veb_stored_keys hw2 = veb_stored_keys hw"
    using write_host_keeps(3,4) [OF w2] write_wire_keeps [OF w1] by simp_all
  let ?key = "mac_veb_key (nvnic_macs hw pcie vid)"
  obtain io' where io': "cfg_act_write_veb ve jnkv vid ?key None (set_nvnic_mac pcie vid 0 hw2) io = Some (NO_ERROR,
      (set_nvnic_mac pcie vid 0 hw2)\<lparr>veb_stored_keys := (veb_stored_keys (set_nvnic_mac pcie vid 0 hw2))(vid := ?key)\<rparr>, io')"
    "veb_content io' = veb_purged jnkv (mac_of ?key) (mac_of (veb_stored_keys (set_nvnic_mac pcie vid 0 hw2) vid)) (veb_content io)"
    using write_veb_none [OF assms(2)] by blast
  have st: "veb_stored_keys (set_nvnic_mac pcie vid 0 hw2) = veb_stored_keys hw"
    by (simp add: set_nvnic_mac_def keep)
  show ?thesis
    using io' assms(3)
    by (auto simp: cfg_act_pf_down_def assms(1) build_down_mk w1 w2 keep Let_def st veb_purged_def)
qed

end
