(* ===== verification/AppPrivate.thy ===== *)
theory AppPrivate
  imports BitStore
begin

unbundle bit_operations_syntax

text \<open>
  \<open>firmware/apps/nic/app_private.c\<close>: the tables private to the application
  master.  Per PCIe island and vNIC one control word and three bit arrays
  (virtual switch state, link state, pending interrupts), and per port and
  island the list of VFs that follow the port's link.  The bit arrays are
  packed in 32-bit words; the macros \<open>LS_READ\<close>, \<open>LS_SET\<close> and \<open>LS_CLEAR\<close> address
  bit \<open>vnic & 31\<close> of word \<open>vnic >> 5\<close>.  The locale \<open>bit_store\<close> is the contract
  the link-state code relies on; it is interpreted on the packed words.
  The mutex of the MAC registers is a step relation over the contexts of the
  micro-engine, which only lose control at \<open>ctx_swap\<close>.
\<close>

section \<open>Packed bit arrays\<close>

type_synonym ls_array = "nat \<Rightarrow> u32"

definition LS_ARRAY_LEN :: "nat \<Rightarrow> nat" where
  "LS_ARRAY_LEN NVNICS = drop_bit 5 (NVNICS + 31)"

definition LS_IDX :: "u32 \<Rightarrow> nat" where
  "LS_IDX vnic = unat (drop_bit 5 vnic)"

definition LS_SHF :: "u32 \<Rightarrow> nat" where
  "LS_SHF vnic = unat (vnic AND 0x1f)"

definition LS_MASK :: "u32 \<Rightarrow> u32" where
  "LS_MASK vnic = push_bit (LS_SHF vnic) 1"

definition LS_READ :: "ls_array \<Rightarrow> u32 \<Rightarrow> u32" where
  "LS_READ state vnic = drop_bit (LS_SHF vnic) (state (LS_IDX vnic)) AND 1"

definition LS_CLEAR :: "ls_array \<Rightarrow> u32 \<Rightarrow> ls_array" where
  "LS_CLEAR state vnic =
     state(LS_IDX vnic := state (LS_IDX vnic) AND NOT (LS_MASK vnic))"

definition LS_SET :: "ls_array \<Rightarrow> u32 \<Rightarrow> ls_array" where
  "LS_SET state vnic = state(LS_IDX vnic := state (LS_IDX vnic) OR LS_MASK vnic)"

text \<open>The body shared by \<open>set_vs_current\<close>, \<open>set_ls_current\<close> and \<open>set_vf_lsc\<close>.\<close>

definition ls_store :: "ls_array \<Rightarrow> u32 \<Rightarrow> u32 \<Rightarrow> ls_array" where
  "ls_store state vid ls =
    (let cleared = LS_CLEAR state vid in
     cleared(LS_IDX vid := cleared (LS_IDX vid) OR push_bit (LS_SHF vid) ls))"

section \<open>The shared tables\<close>

record app_private =
  nic_control_word :: "nat \<Rightarrow> u32 \<Rightarrow> u32"
  vs_current  :: "nat \<Rightarrow> ls_array"
  ls_current  :: "nat \<Rightarrow> ls_array"
  pending     :: "nat \<Rightarrow> ls_array"
  vf_lsc_list :: "u32 \<Rightarrow> nat \<Rightarrow> ls_array"

definition get_nic_control_word :: "app_private \<Rightarrow> nat \<Rightarrow> u32 \<Rightarrow> u32" where
  "get_nic_control_word s pcie vid = nic_control_word s pcie vid"

definition set_nic_control_word :: "nat \<Rightarrow> u32 \<Rightarrow> u32 \<Rightarrow> app_private \<Rightarrow> app_private" where
  "set_nic_control_word pcie vid control s =
     s\<lparr>nic_control_word := (nic_control_word s)
         (pcie := (nic_control_word s pcie)(vid := control))\<rparr>"

definition get_vs_current :: "app_private \<Rightarrow> nat \<Rightarrow> u32 \<Rightarrow> u32" where
  "get_vs_current s pcie vid = LS_READ (vs_current s pcie) vid"

definition set_vs_current :: "nat \<Rightarrow> u32 \<Rightarrow> u32 \<Rightarrow> app_private \<Rightarrow> app_private" where
  "set_vs_current pcie vid ls s =
     s\<lparr>vs_current := (vs_current s)(pcie := ls_store (vs_current s pcie) vid ls)\<rparr>"

definition get_ls_current :: "app_private \<Rightarrow> nat \<Rightarrow> u32 \<Rightarrow> u32" where
  "get_ls_current s pcie vid = LS_READ (ls_current s pcie) vid"

definition set_ls_current :: "nat \<Rightarrow> u32 \<Rightarrow> u32 \<Rightarrow> app_private \<Rightarrow> app_private" where
  "set_ls_current pcie vid ls s =
     s\<lparr>ls_current := (ls_current s)(pcie := ls_store (ls_current s pcie) vid ls)\<rparr>"

definition get_vf_lsc :: "app_private \<Rightarrow> u32 \<Rightarrow> nat \<Rightarrow> u32 \<Rightarrow> u32" where
  "get_vf_lsc s port pcie vid = LS_READ (vf_lsc_list s port pcie) vid"

definition set_vf_lsc :: "u32 \<Rightarrow> nat \<Rightarrow> u32 \<Rightarrow> u32 \<Rightarrow> app_private \<Rightarrow> app_private" where
  "set_vf_lsc port pcie vid ls s =
     s\<lparr>vf_lsc_list := (vf_lsc_list s)
         (port := (vf_lsc_list s port)(pcie := ls_store (vf_lsc_list s port pcie) vid ls))\<rparr>"

section \<open>The packed words meet the contract\<close>

lemma LS_READ_bit: "LS_READ state v = c_bool (bit (state (LS_IDX v)) (LS_SHF v))"
  by (simp add: LS_READ_def c_bool_def and_one_eq mod2_eq_if bit_iff_odd_drop_bit)

lemma LS_READ_true [simp]: "c_true (LS_READ state v) = bit (state (LS_IDX v)) (LS_SHF v)"
  by (simp add: LS_READ_bit)

lemma LS_READ_pk: "c_true (LS_READ state v) \<longleftrightarrow> pk_bit state v"
  by (simp add: pk_bit_def LS_IDX_def LS_SHF_def)

lemma LS_SET_pk: "LS_SET state v = pk_set state v"
  by (simp add: LS_SET_def pk_set_def LS_IDX_def LS_SHF_def LS_MASK_def)

lemma LS_CLEAR_pk: "LS_CLEAR state v = pk_clear state v"
  by (simp add: LS_CLEAR_def pk_clear_def LS_IDX_def LS_SHF_def LS_MASK_def)

lemma LS_READ_range: "LS_READ state v = 0 \<or> LS_READ state v = 1"
  by (simp add: LS_READ_bit c_bool_def)

lemma LS_READ_eq_1: "LS_READ state v = 1 \<longleftrightarrow> c_true (LS_READ state v)"
  using LS_READ_range [of state v] by (auto simp: c_true_def)

interpretation ls: bit_store "\<lambda>s v. c_true (LS_READ s v)" LS_SET LS_CLEAR
proof unfold_locales
  fix s k k'
  show "c_true (LS_READ (LS_SET s k) k') \<longleftrightarrow> k' = k \<or> c_true (LS_READ s k')"
    using pk.rd_st [of s k k'] by (simp only: LS_READ_pk LS_SET_pk)
  show "c_true (LS_READ (LS_CLEAR s k) k') \<longleftrightarrow> k' \<noteq> k \<and> c_true (LS_READ s k')"
    using pk.rd_cl [of s k k'] by (simp only: LS_READ_pk LS_CLEAR_pk)
qed

lemma ls_store_eq_put:
  assumes "ls \<le> 1"
  shows "ls_store state vid ls = ls.put state vid (ls = 1)"
proof -
  have ls: "ls = 0 \<or> ls = 1" using assms by unat_arith
  have "(state (LS_IDX vid) AND NOT (LS_MASK vid)) OR LS_MASK vid
      = state (LS_IDX vid) OR LS_MASK vid"
    by (rule bit_word_eqI) (auto simp: bit_or_iff bit_and_iff bit_not_iff)
  with ls show ?thesis
    by (auto simp: ls_store_def ls.put_def LS_CLEAR_def LS_SET_def LS_MASK_def Let_def)
qed

lemma LS_READ_store:
  assumes "ls \<le> 1"
  shows "LS_READ (ls_store state vid ls) v = (if v = vid then ls else LS_READ state v)"
proof -
  have "c_true (LS_READ (ls_store state vid ls) v) =
      (if v = vid then ls = 1 else c_true (LS_READ state v))"
    by (simp only: ls_store_eq_put [OF assms] ls.rd_put)
  moreover have "ls = 0 \<or> ls = 1" using assms by unat_arith
  moreover have "LS_READ x v = (if c_true (LS_READ x v) then 1 else 0)" for x
    using LS_READ_range [of x v] by (auto simp: c_true_def)
  ultimately show ?thesis by (smt (verit))
qed

lemma LS_IDX_bound:
  assumes "unat vnic < NVNICS"
  shows "LS_IDX vnic < LS_ARRAY_LEN NVNICS"
proof -
  have "LS_IDX vnic = unat vnic div 32"
    by (simp add: LS_IDX_def drop_bit_eq_div unat_div)
  moreover have "LS_ARRAY_LEN NVNICS = (NVNICS + 31) div 32"
    by (simp add: LS_ARRAY_LEN_def drop_bit_eq_div)
  ultimately show ?thesis using assms by simp
qed

section \<open>The mutex of the MAC registers\<close>

text \<open>
  \<open>LOCAL_MUTEX_LOCK\<close> spins on \<open>while (_mutex) ctx_swap()\<close> and then writes 1;
  no context switch happens between the last test and the write, because the
  contexts of a micro-engine are scheduled co-operatively.  One step of the
  relation is what one context does between two switches.
\<close>

datatype mutex_pc = Outside | Spinning | Inside

record mutex_state =
  mtx :: "32 word"
  pcs :: "nat \<Rightarrow> mutex_pc"

definition mutex_try :: "nat \<Rightarrow> mutex_state \<Rightarrow> mutex_state" where
  "mutex_try t s =
    (if c_true (mtx s) then s\<lparr>pcs := (pcs s)(t := Spinning)\<rparr>
     else s\<lparr>mtx := 1, pcs := (pcs s)(t := Inside)\<rparr>)"

definition mutex_release :: "nat \<Rightarrow> mutex_state \<Rightarrow> mutex_state" where
  "mutex_release t s = s\<lparr>mtx := 0, pcs := (pcs s)(t := Outside)\<rparr>"

inductive mutex_step :: "mutex_state \<Rightarrow> mutex_state \<Rightarrow> bool" where
  lock: "pcs s t \<noteq> Inside \<Longrightarrow> mutex_step s (mutex_try t s)"
| unlock: "pcs s t = Inside \<Longrightarrow> mutex_step s (mutex_release t s)"

inductive mutex_reach :: "mutex_state \<Rightarrow> bool" where
  init: "mutex_reach \<lparr>mtx = 0, pcs = (\<lambda>_. Outside)\<rparr>"
| step: "mutex_reach s \<Longrightarrow> mutex_step s s' \<Longrightarrow> mutex_reach s'"

definition mutex_free :: "mutex_state \<Rightarrow> bool" where
  "mutex_free s \<longleftrightarrow> mtx s = 0 \<and> (\<forall>t. pcs s t \<noteq> Inside)"

definition mutex_held :: "nat \<Rightarrow> mutex_state \<Rightarrow> bool" where
  "mutex_held t s \<longleftrightarrow> mtx s = 1 \<and> (\<forall>u. pcs s u = Inside \<longleftrightarrow> u = t)"

lemma mutex_step_free:
  "mutex_step s s' \<Longrightarrow> mutex_free s \<Longrightarrow> \<exists>t. mutex_held t s'"
  by (erule mutex_step.cases)
    (auto simp: mutex_free_def mutex_held_def mutex_try_def mutex_release_def)

lemma mutex_step_held:
  assumes "mutex_step s s'" "mutex_held t s"
  shows "mutex_held t s' \<or> mutex_free s'"
  using assms(1)
proof cases
  case (lock u)
  then show ?thesis using assms(2) by (auto simp: mutex_held_def mutex_try_def c_true_def)
next
  case (unlock u)
  then show ?thesis using assms(2) by (auto simp: mutex_held_def mutex_free_def mutex_release_def)
qed

lemma mutex_invariant: "mutex_reach s \<Longrightarrow> mutex_free s \<or> (\<exists>t. mutex_held t s)"
proof (induction rule: mutex_reach.induct)
  case init
  then show ?case by (simp add: mutex_free_def)
next
  case (step s s')
  then show ?case using mutex_step_free mutex_step_held by blast
qed

section \<open>Properties\<close>

text \<open>The packed link-state arrays behave as one independent bit per PCIe
  island, port and vNIC: after a setter with a state of 0 or 1, the getter of
  the same array returns the stored value for the written vNIC and the previous
  value for every other one.\<close>

lemma link_bits_read_after_write:
  assumes "ls \<le> 1"
  shows "get_ls_current (set_ls_current pcie vid ls s) pcie' vid' =
      (if pcie' = pcie \<and> vid' = vid then ls else get_ls_current s pcie' vid')
    \<and> get_vs_current (set_vs_current pcie vid ls s) pcie' vid' =
      (if pcie' = pcie \<and> vid' = vid then ls else get_vs_current s pcie' vid')
    \<and> get_vf_lsc (set_vf_lsc port pcie vid ls s) port' pcie' vid' =
      (if port' = port \<and> pcie' = pcie \<and> vid' = vid then ls else get_vf_lsc s port' pcie' vid')"
  using LS_READ_store [OF assms]
  by (simp add: get_ls_current_def set_ls_current_def get_vs_current_def set_vs_current_def
      get_vf_lsc_def set_vf_lsc_def)

definition app_private_ex :: app_private where
  "app_private_ex = \<lparr>nic_control_word = (\<lambda>_ _. 0), vs_current = (\<lambda>_ _. 0), ls_current = (\<lambda>_ _. 0),
     pending = (\<lambda>_ _. 0), vf_lsc_list = (\<lambda>_ _ _. 0)\<rparr>"

end
