(* ===== verification/DevIo.thy ===== *)
theory DevIo
  imports PollLoop
begin

unbundle bit_operations_syntax

text \<open>
  The hardware around the micro-engine as the code sees it.  Every register
  access, command, signal and delay is an event; a device is given by what a
  read returns after a history of events (newest first), so a register may
  change by itself while the code polls it.  The device is a parameter of the
  model; \<open>reads_quiet\<close> and \<open>reg_stored\<close> express what the code relies
  on.  A failed \<open>assert\<close> or a loop that never ends is \<open>None\<close>.
\<close>

datatype dev_event =
    XpbRead u32
  | XpbWrite u32 u32
  | SyncMeCmd u32 u32 u32
  | RemoteCsrWrite u32 u32 u32 u32
  | CsrRead u32
  | CsrWrite u32 u32
  | NnWrite u32 u32
  | InterthreadSignal u32
  | PcieBarCfg u32 u32
  | PcieRead u32 u32
  | TmqStatus nat nat
  | NbiRead nat u32 nat
  | NbiWrite nat u32 "u32 list"
  | MuRead u32 u32 nat
  | MuWrite u32 u32 "u32 list"
  | ClsRead u32
  | ClsWrite u32 "u32 list"
  | ReflectWrite u32 u32 u32 "u32 list"
  | NfdOutPushCnt nat u32
  | NfdInPushCnt nat u32
  | MsixInit nat
  | CfgMsgInit nat
  | Sleep nat

type_synonym dev_hist = "dev_event list"

record device =
  xpb_dev :: "dev_hist \<Rightarrow> u32 \<Rightarrow> u32"
  csr_dev :: "dev_hist \<Rightarrow> u32 \<Rightarrow> u32"
  pcie_dev :: "dev_hist \<Rightarrow> u32 \<Rightarrow> u32 \<Rightarrow> u32 \<times> u32"
  tmq_dev :: "dev_hist \<Rightarrow> nat \<Rightarrow> nat \<Rightarrow> u32"

definition xpb_read :: "device \<Rightarrow> u32 \<Rightarrow> dev_hist \<Rightarrow> u32 \<times> dev_hist" where
  "xpb_read d a hs = (xpb_dev d hs a, XpbRead a # hs)"

definition xpb_write :: "u32 \<Rightarrow> u32 \<Rightarrow> dev_hist \<Rightarrow> dev_hist" where
  "xpb_write a v hs = XpbWrite a v # hs"

definition csr_read :: "device \<Rightarrow> u32 \<Rightarrow> dev_hist \<Rightarrow> u32 \<times> dev_hist" where
  "csr_read d a hs = (csr_dev d hs a, CsrRead a # hs)"

section \<open>What a device may be assumed to do\<close>

text \<open>The writes to one XPB register, newest first.\<close>

fun xpb_writes :: "u32 \<Rightarrow> dev_hist \<Rightarrow> u32 list" where
  "xpb_writes a [] = []"
| "xpb_writes a (XpbWrite a' v # hs) = (if a' = a then v # xpb_writes a hs else xpb_writes a hs)"
| "xpb_writes a (_ # hs) = xpb_writes a hs"

text \<open>Reading registers has no side effect on what XPB reads return.\<close>

definition reads_quiet :: "device \<Rightarrow> bool" where
  "reads_quiet d \<longleftrightarrow> (\<forall>a b hs. xpb_dev d (XpbRead a # hs) b = xpb_dev d hs b)"

text \<open>A configuration register holds what was last written to it.\<close>

definition reg_stored :: "device \<Rightarrow> (u32 \<Rightarrow> u32) \<Rightarrow> u32 \<Rightarrow> bool" where
  "reg_stored d init a \<longleftrightarrow>
     (\<forall>hs. xpb_dev d hs a = (case xpb_writes a hs of [] \<Rightarrow> init a | v # _ \<Rightarrow> v))"

lemma xpb_writes_append: "xpb_writes a (hs @ hs') = xpb_writes a hs @ xpb_writes a hs'"
  by (induction a hs rule: xpb_writes.induct) simp_all

lemma reg_stored_write:
  "reg_stored d init a \<Longrightarrow> xpb_dev d (XpbWrite a v # hs) a = v"
  by (simp add: reg_stored_def)

lemma reg_stored_skip:
  "reg_stored d init a \<Longrightarrow> xpb_writes a evs = [] \<Longrightarrow> xpb_dev d (evs @ hs) a = xpb_dev d hs a"
  by (simp add: reg_stored_def xpb_writes_append)

end
