(* ===== verification/CsrSync.thy ===== *)
theory CsrSync
  imports NicPrelude
begin

unbundle bit_operations_syntax

text \<open>
  \<open>deps/nfp-bsp-boardconfig/nfp6000/nfp_mac_csr_synch.h\<close>: the interface of the
  engine that serialises the accesses to the configuration registers of the MAC.
  Commands are words on a ring of its island; the \<open>ARB_*\<close> macros place the
  fields of a command, the \<open>ARB_*_off\<close> macros are what the engine takes it apart
  with.
\<close>

definition ARB_FW_STATUS_AWAKE :: u32 where "ARB_FW_STATUS_AWAKE = 0x25"

definition ARB_FW_KICKSTART :: u32 where "ARB_FW_KICKSTART = ARB_FW_STATUS_AWAKE"

definition ARB_CLS_RING_NUM :: u32 where "ARB_CLS_RING_NUM = 4"

definition ARB_ME_ISLAND :: u32 where "ARB_ME_ISLAND = 1"

definition ARB_ME_ID :: u32 where "ARB_ME_ID = 3"

definition ARB_CLS_BASE_ADDR_Hi32 :: u32 where "ARB_CLS_BASE_ADDR_Hi32 = 0x04000000"

definition ARB_CODE_ETH_CMD_CFG_RECACHE :: u32 where "ARB_CODE_ETH_CMD_CFG_RECACHE = 1"

definition ARB_CODE_ETH_CMD_CFG_ENABLE_RX :: u32 where "ARB_CODE_ETH_CMD_CFG_ENABLE_RX = 2"

definition ARB_CODE_ETH_CMD_CFG_DISABLE_RX :: u32 where "ARB_CODE_ETH_CMD_CFG_DISABLE_RX = 4"

definition ARB_CODE_ETH_CMD_CFG_ENABLE_FLUSH :: u32 where "ARB_CODE_ETH_CMD_CFG_ENABLE_FLUSH = 6"

definition ARB_CODE_ETH_CMD_CFG_DISABLE_FLUSH :: u32 where "ARB_CODE_ETH_CMD_CFG_DISABLE_FLUSH = 7"

definition ARB_CODE_MAX :: u32 where "ARB_CODE_MAX = ARB_CODE_ETH_CMD_CFG_DISABLE_FLUSH"

definition ARB_CMD :: "u32 \<Rightarrow> u32" where "ARB_CMD x = push_bit 0 (x AND 0xff)"

definition ARB_CMD_off :: "u32 \<Rightarrow> u32" where "ARB_CMD_off x = drop_bit 0 x AND 0xff"

definition ARB_PORT :: "u32 \<Rightarrow> u32" where "ARB_PORT x = push_bit 8 (x AND 0x3f)"

definition ARB_PORT_off :: "u32 \<Rightarrow> u32" where "ARB_PORT_off x = drop_bit 8 x AND 0x3f"

definition ARB_NBI :: "u32 \<Rightarrow> u32" where "ARB_NBI x = push_bit 15 (x AND 1)"

definition ARB_NBI_off :: "u32 \<Rightarrow> u32" where "ARB_NBI_off x = drop_bit 15 x AND 1"

definition ARB_CORE :: "u32 \<Rightarrow> u32" where "ARB_CORE x = push_bit 14 (x AND 1)"

definition ARB_CORE_off :: "u32 \<Rightarrow> u32" where "ARB_CORE_off x = drop_bit 14 x AND 1"

definition ARB_RECACHE :: "u32 \<Rightarrow> u32" where "ARB_RECACHE x = push_bit 16 (x AND 1)"

definition ARB_RECACHE_off :: "u32 \<Rightarrow> u32" where "ARB_RECACHE_off x = drop_bit 16 x AND 1"

definition ARB_SOURCE :: "u32 \<Rightarrow> u32" where "ARB_SOURCE x = push_bit 24 (x AND 0xff)"

definition ARB_SOURCE_off :: "u32 \<Rightarrow> u32" where "ARB_SOURCE_off x = drop_bit 24 x AND 0xff"

definition ARB_FW_KICKSTART_MBOX :: nat where "ARB_FW_KICKSTART_MBOX = 0"

definition ARB_FW_DEBUG_MBOX :: nat where "ARB_FW_DEBUG_MBOX = 2"

definition ARB_FW_QUIESCE_MBOX :: nat where "ARB_FW_QUIESCE_MBOX = 3"

definition ARB_RESUME :: u32 where "ARB_RESUME = 0xf5"

lemmas arb_place = ARB_CMD_def ARB_PORT_def ARB_NBI_def ARB_CORE_def ARB_RECACHE_def ARB_SOURCE_def

lemmas arb_take = ARB_CMD_off_def ARB_PORT_off_def ARB_NBI_off_def ARB_CORE_off_def ARB_RECACHE_off_def ARB_SOURCE_off_def

section \<open>Commands\<close>

text \<open>A command built from its fields.\<close>

definition arb_word :: "u32 \<Rightarrow> u32 \<Rightarrow> u32 \<Rightarrow> u32 \<Rightarrow> u32 \<Rightarrow> u32 \<Rightarrow> u32" where
  "arb_word src rec isl_no core port cmd =
     ARB_SOURCE src OR ARB_RECACHE rec OR ARB_NBI isl_no OR ARB_CORE core OR ARB_PORT port OR ARB_CMD cmd"

text \<open>The fields of a command do not overlap: the engine reads what was placed,
  cut to the width of the field.\<close>

lemma arb_fields:
  "ARB_SOURCE_off (arb_word src rec n core port cmd) = src AND 0xff"
  "ARB_RECACHE_off (arb_word src rec n core port cmd) = rec AND 1"
  "ARB_NBI_off (arb_word src rec n core port cmd) = n AND 1"
  "ARB_CORE_off (arb_word src rec n core port cmd) = core AND 1"
  "ARB_PORT_off (arb_word src rec n core port cmd) = port AND 0x3f"
  "ARB_CMD_off (arb_word src rec n core port cmd) = cmd AND 0xff"
proof -
  have m: "x AND 0xff = take_bit 8 x" "x AND 0x3f = take_bit 6 x" "x AND 1 = take_bit 1 x" for x :: u32
    by (simp_all add: take_bit_eq_mask mask_eq_exp_minus_1)
  have sh: "bit (push_bit k (take_bit w x)) i \<longleftrightarrow> k \<le> i \<and> i < 32 \<and> i - k < w \<and> bit x (i - k)" for k w i and x :: u32
    by (auto simp: bit_push_bit_iff bit_take_bit_iff)
  have one: "k \<le> i \<and> i < 32 \<and> i - k < 1 \<and> bit x (i - k) \<longleftrightarrow> i = k \<and> bit x 0" if "k < 32" for k i and x :: u32
    using that by (cases "i = k") auto
  have b: "bit (arb_word src rec n core port cmd) i \<longleftrightarrow>
      (24 \<le> i \<and> i < 32 \<and> i - 24 < 8 \<and> bit src (i - 24)) \<or> (i = 16 \<and> bit rec 0) \<or> (i = 15 \<and> bit n 0) \<or>
      (i = 14 \<and> bit core 0) \<or> (8 \<le> i \<and> i < 32 \<and> i - 8 < 6 \<and> bit port (i - 8)) \<or>
      (0 \<le> i \<and> i < 32 \<and> i - 0 < 8 \<and> bit cmd (i - 0))" for i
    unfolding arb_word_def arb_place m bit_or_iff sh by (simp only: one disj_assoc rel_simps)
  have e: "take_bit w (drop_bit k x) = take_bit w y" if "\<And>i. i < w \<Longrightarrow> bit x (k + i) = bit y i" for w k and x y :: u32
    using that by (auto intro!: bit_word_eqI simp: bit_take_bit_iff bit_drop_bit_eq)
  show "ARB_SOURCE_off (arb_word src rec n core port cmd) = src AND 0xff"
    unfolding arb_take m by (rule e) (auto simp: b)
  show "ARB_RECACHE_off (arb_word src rec n core port cmd) = rec AND 1"
    unfolding arb_take m by (rule e) (auto simp: b)
  show "ARB_NBI_off (arb_word src rec n core port cmd) = n AND 1"
    unfolding arb_take m by (rule e) (auto simp: b)
  show "ARB_CORE_off (arb_word src rec n core port cmd) = core AND 1"
    unfolding arb_take m by (rule e) (auto simp: b)
  show "ARB_PORT_off (arb_word src rec n core port cmd) = port AND 0x3f"
    unfolding arb_take m by (rule e) (auto simp: b)
  show "ARB_CMD_off (arb_word src rec n core port cmd) = cmd AND 0xff"
    unfolding arb_take m by (rule e) (auto simp: b)
qed

end
