(* ===== verification/LinkCtrl.thy ===== *)
theory LinkCtrl
  imports DevIo Platform CsrSync
begin

unbundle bit_operations_syntax

text \<open>
  \<open>firmware/lib/link_state\<close>: reading the Ethernet link state (\<open>link_state.c\<close>) and
  enabling and disabling MAC receive, transmit flush and the traffic manager
  queues (\<open>link_ctrl.c\<close>).  The register map of the chip (\<open>nfp_mac.h\<close>,
  \<open>nfp_nbi_tm.h\<close>) and of the micro-engine is given by the fields of \<open>link_env\<close>,
  with the board as \<open>lplat\<close>; the commands of the CSR synchronisation engine are
  those of \<open>CsrSync\<close>.  Every operation returns \<open>None\<close> when an \<open>assert\<close> of its
  parameters fails.
\<close>

record link_env =
  dv :: device
  NFP_MAC_XPB_OFF :: "nat \<Rightarrow> u32"
  NFP_MAC_ETH :: "nat \<Rightarrow> u32"
  NFP_MAC_ETH_SEG_CMD_CONFIG :: "nat \<Rightarrow> u32"
  CMD_CONFIG_RX_ENABLE :: u32
  CMD_CONFIG_TX_FLUSH :: u32
  NFP_MAC_CSR :: u32
  NFP_MAC_CSR_EQ_INH :: u32
  NFP_MAC_CSR_EQ_INH_DONE :: u32
  NFP_NBI_TM_XPB_OFF :: "nat \<Rightarrow> u32"
  NFP_NBI_TM_QUEUE_REG :: u32
  NFP_NBI_TM_QUEUE_CONFIG :: "nat \<Rightarrow> u32"
  QUEUE_CONFIG_QUEUEENABLE :: u32
  NFP_MAC_ETH_SEG_STS :: "nat \<Rightarrow> u32"
  SEG_STS_PHY_LOS :: u32
  SEG_STS_RX_REMOTE_FAULT :: u32
  SEG_STS_RX_LOCAL_FAULT :: u32
  NFP_MAC_ETH_SEG_SGMII_PCS_STS :: "nat \<Rightarrow> u32"
  SGMII_PCS_STS_LINK_STS :: u32
  NFP_MAC_ETH_CHAN_PCS_SEG :: "nat \<Rightarrow> u32"
  NFP_MAC_ETH_CHAN_PCS_STS1 :: u32
  PCS_STS1_RCV_LINK_STS :: u32
  local_csr_mailbox :: "nat \<Rightarrow> u32"
  lplat :: platform

section \<open>Configuring the link\<close>

definition MAX_ETH_PORTS_PER_MAC_CORE :: nat where
  "MAX_ETH_PORTS_PER_MAC_CORE = 12"

definition MAX_MAC_CORES_PER_MAC_ISL :: nat where
  "MAX_MAC_CORES_PER_MAC_ISL = 2"

definition MAX_MAC_ISLANDS_PER_NFP :: nat where
  "MAX_MAC_ISLANDS_PER_NFP = 2"

definition MAX_NBI_ISLANDS_PER_NFP :: nat where
  "MAX_NBI_ISLANDS_PER_NFP = 2"

definition MAX_TM_QUEUES_PER_NBI_ISL :: nat where
  "MAX_TM_QUEUES_PER_NBI_ISL = 1024"

definition MAC_CORE_PORT_TO_MAC_PORT :: "nat \<Rightarrow> nat \<Rightarrow> nat" where
  "MAC_CORE_PORT_TO_MAC_PORT core core_port = core * MAX_ETH_PORTS_PER_MAC_CORE + core_port"

definition MAC_CONF_ADDR :: "link_env \<Rightarrow> nat \<Rightarrow> nat \<Rightarrow> nat \<Rightarrow> u32" where
  "MAC_CONF_ADDR le mac_isl core core_port =
     NFP_MAC_XPB_OFF le mac_isl OR NFP_MAC_ETH le core OR NFP_MAC_ETH_SEG_CMD_CONFIG le core_port"

definition MAC_EQ_INH_ADDR :: "link_env \<Rightarrow> nat \<Rightarrow> u32" where
  "MAC_EQ_INH_ADDR le mac_isl = NFP_MAC_XPB_OFF le mac_isl OR NFP_MAC_CSR le OR NFP_MAC_CSR_EQ_INH le"

definition MAC_EQ_INH_DONE_ADDR :: "link_env \<Rightarrow> nat \<Rightarrow> u32" where
  "MAC_EQ_INH_DONE_ADDR le mac_isl = NFP_MAC_XPB_OFF le mac_isl OR NFP_MAC_CSR le OR NFP_MAC_CSR_EQ_INH_DONE le"

definition NBI_TM_Q_CFG_ADDR :: "link_env \<Rightarrow> nat \<Rightarrow> nat \<Rightarrow> u32" where
  "NBI_TM_Q_CFG_ADDR le mac_isl q =
     NFP_NBI_TM_XPB_OFF le mac_isl OR NFP_NBI_TM_QUEUE_REG le OR NFP_NBI_TM_QUEUE_CONFIG le q"

definition LINK_CTRL_SYNC_CMD_ID :: u32 where
  "LINK_CTRL_SYNC_CMD_ID = 1"

definition LINK_CTRL_SYNC_CMD :: "nat \<Rightarrow> nat \<Rightarrow> nat \<Rightarrow> u32 \<Rightarrow> u32 \<Rightarrow> u32" where
  "LINK_CTRL_SYNC_CMD mac_isl core core_port cmd_code recache =
     push_bit 24 LINK_CTRL_SYNC_CMD_ID OR push_bit 16 (recache AND 1) OR push_bit 15 (of_nat mac_isl AND 1) OR
     push_bit 14 (of_nat core AND 1) OR push_bit 8 (of_nat core_port AND 0x3f) OR push_bit 0 (cmd_code AND 0xff)"

definition mailbox_addr :: "link_env \<Rightarrow> nat \<Rightarrow> u32" where
  "mailbox_addr le mbox_num = (if mbox_num < 4 then local_csr_mailbox le mbox_num else 0xffffffff)"

definition issue_sync_me_cmd :: "nat \<Rightarrow> nat \<Rightarrow> nat \<Rightarrow> u32 \<Rightarrow> u32 \<Rightarrow> dev_hist \<Rightarrow> dev_hist" where
  "issue_sync_me_cmd mac_isl core core_port cmd_code force_recache hs =
     SyncMeCmd ARB_CLS_BASE_ADDR_Hi32 (push_bit 2 ARB_CLS_RING_NUM)
       (LINK_CTRL_SYNC_CMD mac_isl core core_port cmd_code force_recache) # hs"

text \<open>The three asserts that open every MAC operation.\<close>

definition mac_args_ok :: "nat \<Rightarrow> nat \<Rightarrow> nat \<Rightarrow> bool" where
  "mac_args_ok mac_isl core core_port \<longleftrightarrow> mac_isl < MAX_MAC_ISLANDS_PER_NFP \<and>
     core < MAX_MAC_CORES_PER_MAC_ISL \<and> core_port < MAX_ETH_PORTS_PER_MAC_CORE"

definition mac_csr_sync_recache :: "link_env \<Rightarrow> nat \<Rightarrow> nat \<Rightarrow> nat \<Rightarrow> dev_hist \<Rightarrow> dev_hist option" where
  "mac_csr_sync_recache le mac_isl core core_port hs =
    (if mac_args_ok mac_isl core core_port
     then Some (issue_sync_me_cmd mac_isl core core_port ARB_CODE_ETH_CMD_CFG_RECACHE 0 hs) else None)"

definition mac_csr_sync_start :: "link_env \<Rightarrow> u32 \<Rightarrow> dev_hist \<Rightarrow> dev_hist" where
  "mac_csr_sync_start le disable_gpio_poll hs =
    (let w = (\<lambda>mbox v hs. RemoteCsrWrite ARB_ME_ISLAND ARB_ME_ID (mailbox_addr le mbox) v # hs);
         hs = w ARB_FW_DEBUG_MBOX disable_gpio_poll hs;
         hs = w ARB_FW_KICKSTART_MBOX ARB_FW_KICKSTART hs
     in w ARB_FW_QUIESCE_MBOX ARB_RESUME hs)"

definition mac_eth_check_rx_enable ::
  "link_env \<Rightarrow> nat \<Rightarrow> nat \<Rightarrow> nat \<Rightarrow> dev_hist \<Rightarrow> (bool \<times> dev_hist) option" where
  "mac_eth_check_rx_enable le mac_isl core core_port hs =
    (if mac_args_ok mac_isl core core_port
     then let (mac_conf, hs) = xpb_read (dv le) (MAC_CONF_ADDR le mac_isl core core_port) hs
          in Some (c_true (mac_conf AND CMD_CONFIG_RX_ENABLE le), hs)
     else None)"

text \<open>The polling loop on the inhibit-done register; it has no bound.\<close>

partial_function (option) inhibit_poll ::
  "device \<Rightarrow> u32 \<Rightarrow> u32 \<Rightarrow> dev_hist \<Rightarrow> dev_hist option" where
  "inhibit_poll d addr mac_port_mask hs =
    (if xpb_dev d hs addr AND mac_port_mask \<noteq> mac_port_mask
     then inhibit_poll d addr mac_port_mask (XpbRead addr # hs)
     else Some (XpbRead addr # hs))"

declare inhibit_poll.simps [code]

text \<open>The verification loop \<open>for (i = 0; i < 10; ++i)\<close> with \<open>n\<close> rounds left; the
  result says whether it was left by \<open>break\<close>, which is \<open>i < 10\<close>.\<close>

fun rx_disabled_wait :: "link_env \<Rightarrow> nat \<Rightarrow> nat \<Rightarrow> nat \<Rightarrow> nat \<Rightarrow> dev_hist \<Rightarrow> (bool \<times> dev_hist) option" where
  "rx_disabled_wait le mac_isl core core_port 0 hs = Some (False, hs)"
| "rx_disabled_wait le mac_isl core core_port (Suc n) hs = do {
     (en, hs) \<leftarrow> mac_eth_check_rx_enable le mac_isl core core_port hs;
     if \<not> en then Some (True, hs)
     else rx_disabled_wait le mac_isl core core_port n (Sleep (10 * NS_PLATFORM_TCLK (lplat le) * 1000) # hs) }"

definition port_lane_mask :: "nat \<Rightarrow> nat \<Rightarrow> nat \<Rightarrow> u32" where
  "port_lane_mask core core_port num_lanes =
     push_bit (MAC_CORE_PORT_TO_MAC_PORT core core_port) (push_bit num_lanes 1 - 1)"

definition mac_eth_disable_rx ::
  "link_env \<Rightarrow> nat \<Rightarrow> nat \<Rightarrow> nat \<Rightarrow> nat \<Rightarrow> dev_hist \<Rightarrow> (bool \<times> dev_hist) option" where
  "mac_eth_disable_rx le mac_isl core core_port num_lanes hs =
    (if mac_args_ok mac_isl core core_port \<and> 0 < core_port + num_lanes \<and>
        core_port + num_lanes - 1 < MAX_ETH_PORTS_PER_MAC_CORE then do {
       let addr = MAC_EQ_INH_ADDR le mac_isl;
       let mac_port_mask = port_lane_mask core core_port num_lanes;
       let (mac_inhibit, hs) = xpb_read (dv le) addr hs;
       let mac_inhibit = mac_inhibit OR mac_port_mask;
       let hs = xpb_write addr mac_inhibit hs;
       hs \<leftarrow> inhibit_poll (dv le) (MAC_EQ_INH_DONE_ADDR le mac_isl) mac_port_mask hs;
       let hs = issue_sync_me_cmd mac_isl core core_port ARB_CODE_ETH_CMD_CFG_DISABLE_RX 0 hs;
       (ok, hs) \<leftarrow> rx_disabled_wait le mac_isl core core_port 10 hs;
       let mac_inhibit = mac_inhibit AND NOT mac_port_mask;
       let hs = xpb_write addr mac_inhibit hs;
       Some (ok, hs) }
     else None)"

definition mac_eth_enable_rx :: "link_env \<Rightarrow> nat \<Rightarrow> nat \<Rightarrow> nat \<Rightarrow> dev_hist \<Rightarrow> dev_hist option" where
  "mac_eth_enable_rx le mac_isl core core_port hs =
    (if mac_args_ok mac_isl core core_port
     then Some (issue_sync_me_cmd mac_isl core core_port ARB_CODE_ETH_CMD_CFG_ENABLE_RX 0 hs) else None)"

definition mac_eth_check_tx_flush_enable ::
  "link_env \<Rightarrow> nat \<Rightarrow> nat \<Rightarrow> nat \<Rightarrow> dev_hist \<Rightarrow> (bool \<times> dev_hist) option" where
  "mac_eth_check_tx_flush_enable le mac_isl core core_port hs =
    (if mac_args_ok mac_isl core core_port
     then let (mac_conf, hs) = xpb_read (dv le) (MAC_CONF_ADDR le mac_isl core core_port) hs
          in Some (c_true (mac_conf AND CMD_CONFIG_TX_FLUSH le), hs)
     else None)"

definition mac_eth_disable_tx_flush :: "link_env \<Rightarrow> nat \<Rightarrow> nat \<Rightarrow> nat \<Rightarrow> dev_hist \<Rightarrow> dev_hist option" where
  "mac_eth_disable_tx_flush le mac_isl core core_port hs =
    (if mac_args_ok mac_isl core core_port
     then Some (issue_sync_me_cmd mac_isl core core_port ARB_CODE_ETH_CMD_CFG_DISABLE_FLUSH 0 hs) else None)"

definition mac_eth_enable_tx_flush :: "link_env \<Rightarrow> nat \<Rightarrow> nat \<Rightarrow> nat \<Rightarrow> dev_hist \<Rightarrow> dev_hist option" where
  "mac_eth_enable_tx_flush le mac_isl core core_port hs =
    (if mac_args_ok mac_isl core core_port
     then Some (issue_sync_me_cmd mac_isl core core_port ARB_CODE_ETH_CMD_CFG_ENABLE_FLUSH 0 hs) else None)"

definition nbi_tm_disable_queue :: "link_env \<Rightarrow> nat \<Rightarrow> nat \<Rightarrow> dev_hist \<Rightarrow> dev_hist option" where
  "nbi_tm_disable_queue le nbi_isl tm_q hs =
    (if nbi_isl < MAX_NBI_ISLANDS_PER_NFP \<and> tm_q < MAX_TM_QUEUES_PER_NBI_ISL
     then let addr = NBI_TM_Q_CFG_ADDR le nbi_isl tm_q;
              (cfg, hs) = xpb_read (dv le) addr hs;
              cfg = cfg AND NOT (QUEUE_CONFIG_QUEUEENABLE le)
          in Some (xpb_write addr cfg hs)
     else None)"

definition nbi_tm_enable_queue :: "link_env \<Rightarrow> nat \<Rightarrow> nat \<Rightarrow> dev_hist \<Rightarrow> dev_hist option" where
  "nbi_tm_enable_queue le nbi_isl tm_q hs =
    (if nbi_isl < MAX_NBI_ISLANDS_PER_NFP \<and> tm_q < MAX_TM_QUEUES_PER_NBI_ISL
     then let addr = NBI_TM_Q_CFG_ADDR le nbi_isl tm_q;
              (cfg, hs) = xpb_read (dv le) addr hs;
              cfg = cfg OR QUEUE_CONFIG_QUEUEENABLE le
          in Some (xpb_write addr cfg hs)
     else None)"

section \<open>Reading the link state\<close>

definition MAX_ETH_PORTS_PER_MAC_ISL :: nat where
  "MAX_ETH_PORTS_PER_MAC_ISL = MAX_ETH_PORTS_PER_MAC_CORE * MAX_MAC_CORES_PER_MAC_ISL"

definition ETH_PORT_TO_MAC_CORE :: "nat \<Rightarrow> nat" where
  "ETH_PORT_TO_MAC_CORE p = (if p < MAX_ETH_PORTS_PER_MAC_CORE then 0 else 1)"

definition ETH_PORT_TO_MAC_CORE_PORT :: "nat \<Rightarrow> nat" where
  "ETH_PORT_TO_MAC_CORE_PORT p = p mod MAX_ETH_PORTS_PER_MAC_CORE"

datatype link_state = LINK_DOWN | LINK_UP

definition mac_eth_port_link_state ::
  "link_env \<Rightarrow> nat \<Rightarrow> nat \<Rightarrow> bool \<Rightarrow> dev_hist \<Rightarrow> (link_state \<times> dev_hist) option" where
  "mac_eth_port_link_state le mac_isl eth_port is_1ge hs =
    (if mac_isl < MAX_MAC_ISLANDS_PER_NFP \<and> eth_port < MAX_ETH_PORTS_PER_MAC_ISL then
       let core = ETH_PORT_TO_MAC_CORE eth_port;
           core_port = ETH_PORT_TO_MAC_CORE_PORT eth_port;
           (v, hs) = xpb_read (dv le)
             (NFP_MAC_XPB_OFF le mac_isl OR NFP_MAC_ETH le core OR NFP_MAC_ETH_SEG_STS le core_port) hs;
           eth_status = v AND (SEG_STS_PHY_LOS le OR SEG_STS_RX_REMOTE_FAULT le OR SEG_STS_RX_LOCAL_FAULT le);
           (pcs_status, hs) =
             (if is_1ge
              then let (w, hs) = xpb_read (dv le)
                     (NFP_MAC_XPB_OFF le mac_isl OR NFP_MAC_ETH le core OR NFP_MAC_ETH_SEG_SGMII_PCS_STS le core_port) hs
                   in (w AND SGMII_PCS_STS_LINK_STS le, hs)
              else let (w, hs) = xpb_read (dv le)
                     (NFP_MAC_XPB_OFF le mac_isl OR NFP_MAC_ETH le core OR NFP_MAC_ETH_CHAN_PCS_SEG le core_port
                      OR NFP_MAC_ETH_CHAN_PCS_STS1 le) hs
                   in (w AND PCS_STS1_RCV_LINK_STS le, hs))
       in Some (if \<not> c_true eth_status \<and> c_true pcs_status then LINK_UP else LINK_DOWN, hs)
     else None)"

text \<open>The loop over the links of an island.\<close>

fun island_links :: "link_env \<Rightarrow> nat \<Rightarrow> u32 \<Rightarrow> u32 \<Rightarrow> nat list \<Rightarrow> u32 \<Rightarrow> dev_hist \<Rightarrow> (u32 \<times> dev_hist) option" where
  "island_links le mac_isl port_mask ge_mask [] acc hs = Some (acc, hs)"
| "island_links le mac_isl port_mask ge_mask (link # links) acc hs =
    (if c_true (port_mask AND push_bit link 1) then do {
       let is_1ge = drop_bit link ge_mask AND 1;
       (st, hs) \<leftarrow> mac_eth_port_link_state le mac_isl link (c_true is_1ge) hs;
       island_links le mac_isl port_mask ge_mask links (if st = LINK_UP then acc OR push_bit link 1 else acc) hs }
     else island_links le mac_isl port_mask ge_mask links acc hs)"

definition mac_eth_island_link_state ::
  "link_env \<Rightarrow> nat \<Rightarrow> u32 \<Rightarrow> u32 \<Rightarrow> dev_hist \<Rightarrow> (u32 \<times> dev_hist) option" where
  "mac_eth_island_link_state le mac_isl port_mask ge_mask hs =
    (if mac_isl < MAX_MAC_ISLANDS_PER_NFP
     then island_links le mac_isl port_mask ge_mask [0..<MAX_ETH_PORTS_PER_MAC_ISL] 0 hs else None)"

fun all_links :: "link_env \<Rightarrow> (nat \<Rightarrow> u32) \<Rightarrow> (nat \<Rightarrow> u32) \<Rightarrow> nat list \<Rightarrow> (nat \<Rightarrow> u32) \<Rightarrow> dev_hist
    \<Rightarrow> ((nat \<Rightarrow> u32) \<times> dev_hist) option" where
  "all_links le ports ge [] out hs = Some (out, hs)"
| "all_links le ports ge (mac_isl # mac_isls) out hs = do {
     (v, hs) \<leftarrow> mac_eth_island_link_state le mac_isl (ports mac_isl) (ge mac_isl) hs;
     all_links le ports ge mac_isls (out(mac_isl := v)) hs }"

definition mac_eth_all_link_state ::
  "link_env \<Rightarrow> (nat \<Rightarrow> u32) \<Rightarrow> (nat \<Rightarrow> u32) \<Rightarrow> (nat \<Rightarrow> u32) \<Rightarrow> nat \<Rightarrow> dev_hist \<Rightarrow> ((nat \<Rightarrow> u32) \<times> dev_hist) option" where
  "mac_eth_all_link_state le ports link_state_mask ge num_mac_islands hs =
    (if num_mac_islands \<le> MAX_MAC_ISLANDS_PER_NFP
     then all_links le ports ge [0..<num_mac_islands] link_state_mask hs else None)"

section \<open>The synchronisation command word\<close>

text \<open>The word has the layout of the interface header, so the engine recovers the
  arguments of the call.\<close>

lemma sync_cmd_word:
  "LINK_CTRL_SYNC_CMD mac_isl core core_port code recache =
     arb_word LINK_CTRL_SYNC_CMD_ID recache (of_nat mac_isl) (of_nat core) (of_nat core_port) code"
  by (simp add: LINK_CTRL_SYNC_CMD_def arb_word_def arb_place LINK_CTRL_SYNC_CMD_ID_def)

text \<open>The command that an engine reads off a word: code, MAC island, core and port.\<close>

definition arb_decode :: "u32 \<Rightarrow> u32 \<times> u32 \<times> u32 \<times> u32" where
  "arb_decode c = (ARB_CMD_off c, ARB_NBI_off c, ARB_CORE_off c, ARB_PORT_off c)"

lemma sync_cmd_decode:
  assumes "mac_args_ok mac_isl core core_port" "code \<le> ARB_CODE_MAX"
  shows "arb_decode (LINK_CTRL_SYNC_CMD mac_isl core core_port code recache) =
     (code, of_nat mac_isl, of_nat core, of_nat core_port)"
proof -
  have id: "(of_nat k :: u32) AND mask w = of_nat k" if "k < 2 ^ w" "k < 256" for k w
    using that by (simp add: take_bit_eq_mask [symmetric] take_bit_id unat_of_nat take_bit_nat_eq_self)
  have "unat code \<le> 7" using assms(2) by (simp add: ARB_CODE_MAX_def ARB_CODE_ETH_CMD_CFG_DISABLE_FLUSH_def word_le_nat_alt)
  then have c: "code AND 0xff = code"
    using id [of "unat code" 8] by (simp add: mask_eq_exp_minus_1)
  have "core_port < 12" "core < 2" "mac_isl < 2"
    using assms(1) by (simp_all add: mac_args_ok_def MAX_ETH_PORTS_PER_MAC_CORE_def MAX_MAC_CORES_PER_MAC_ISL_def MAX_MAC_ISLANDS_PER_NFP_def)
  then have "(of_nat core_port :: u32) AND 0x3f = of_nat core_port" "(of_nat core :: u32) AND 1 = of_nat core"
    "(of_nat mac_isl :: u32) AND 1 = of_nat mac_isl"
    using id [of core_port 6] id [of core 1] id [of mac_isl 1] by (simp_all add: mask_eq_exp_minus_1)
  then show ?thesis unfolding arb_decode_def sync_cmd_word arb_fields c by simp
qed

section \<open>Polling loops\<close>

interpretation inh: poll_loop "inhibit_poll d a m" "\<lambda>hs. xpb_dev d hs a AND m \<noteq> m" "\<lambda>hs. XpbRead a # hs" "\<lambda>hs. XpbRead a # hs" for d a m
  by unfold_locales (rule inhibit_poll.simps)

lemma funpow_Cons: "((#) x ^^ k) xs = replicate k x @ xs"
  by (induction k) simp_all

lemma inhibit_poll_done:
  assumes "xpb_dev d (replicate k (XpbRead a) @ hs) a AND m = m"
  shows "\<exists>j \<le> k. inhibit_poll d a m hs = Some (replicate (Suc j) (XpbRead a) @ hs) \<and>
     xpb_dev d (replicate j (XpbRead a) @ hs) a AND m = m"
  using inh.first_idle [where d = d and a = a and m = m and k = k and s = hs] assms by (auto simp: funpow_Cons)

text \<open>What the verification loop sees.\<close>

definition rx_on :: "link_env \<Rightarrow> nat \<Rightarrow> nat \<Rightarrow> nat \<Rightarrow> dev_hist \<Rightarrow> bool" where
  "rx_on le mac_isl core core_port hs \<longleftrightarrow>
     c_true (xpb_dev (dv le) hs (MAC_CONF_ADDR le mac_isl core core_port) AND CMD_CONFIG_RX_ENABLE le)"

lemma rx_disabled_wait_result:
  assumes "mac_args_ok mac_isl core core_port"
  shows "\<exists>ok evs. rx_disabled_wait le mac_isl core core_port n hs = Some (ok, evs @ hs) \<and>
     set evs \<subseteq> {XpbRead (MAC_CONF_ADDR le mac_isl core core_port), Sleep (10 * NS_PLATFORM_TCLK (lplat le) * 1000)} \<and>
     length evs \<le> 2 * n \<and>
     (ok \<longrightarrow> (\<exists>evs'. evs = XpbRead (MAC_CONF_ADDR le mac_isl core core_port) # evs' \<and>
        \<not> rx_on le mac_isl core core_port (evs' @ hs))) \<and>
     (\<not> ok \<longrightarrow> length (filter (\<lambda>ev. ev = XpbRead (MAC_CONF_ADDR le mac_isl core core_port)) evs) = n)"
proof (induction n arbitrary: hs)
  case (Suc n)
  let ?a = "MAC_CONF_ADDR le mac_isl core core_port" and ?s = "Sleep (10 * NS_PLATFORM_TCLK (lplat le) * 1000)"
  have c: "mac_eth_check_rx_enable le mac_isl core core_port hs = Some (rx_on le mac_isl core core_port hs, XpbRead ?a # hs)"
    using assms by (simp add: mac_eth_check_rx_enable_def xpb_read_def rx_on_def)
  show ?case
  proof (cases "rx_on le mac_isl core core_port hs")
    case False
    then show ?thesis using c by (intro exI [of _ True] exI [of _ "[XpbRead ?a]"]) simp
  next
    case True
    from Suc.IH [of "?s # XpbRead ?a # hs"] obtain ok evs where
      r: "rx_disabled_wait le mac_isl core core_port n (?s # XpbRead ?a # hs) = Some (ok, evs @ ?s # XpbRead ?a # hs)"
      and w: "set evs \<subseteq> {XpbRead ?a, ?s}" "length evs \<le> 2 * n"
      and t: "ok \<longrightarrow> (\<exists>evs'. evs = XpbRead ?a # evs' \<and> \<not> rx_on le mac_isl core core_port (evs' @ ?s # XpbRead ?a # hs))"
      and f: "\<not> ok \<longrightarrow> length (filter (\<lambda>ev. ev = XpbRead ?a) evs) = n" by blast
    show ?thesis
      by (rule exI [of _ ok], rule exI [of _ "evs @ [?s, XpbRead ?a]"])
        (use c True r w t f in auto)
  qed
qed auto

section \<open>Link state masks\<close>

text \<open>The condition a link has to meet to be up, on the registers of a quiet device.\<close>

definition link_up :: "link_env \<Rightarrow> nat \<Rightarrow> nat \<Rightarrow> bool \<Rightarrow> dev_hist \<Rightarrow> bool" where
  "link_up le mac_isl eth_port is_1ge hs \<longleftrightarrow>
    (let base = NFP_MAC_XPB_OFF le mac_isl OR NFP_MAC_ETH le (ETH_PORT_TO_MAC_CORE eth_port);
         p = ETH_PORT_TO_MAC_CORE_PORT eth_port
     in xpb_dev (dv le) hs (base OR NFP_MAC_ETH_SEG_STS le p) AND
          (SEG_STS_PHY_LOS le OR SEG_STS_RX_REMOTE_FAULT le OR SEG_STS_RX_LOCAL_FAULT le) = 0 \<and>
        (if is_1ge then xpb_dev (dv le) hs (base OR NFP_MAC_ETH_SEG_SGMII_PCS_STS le p) AND SGMII_PCS_STS_LINK_STS le \<noteq> 0
         else xpb_dev (dv le) hs (base OR NFP_MAC_ETH_CHAN_PCS_SEG le p OR NFP_MAC_ETH_CHAN_PCS_STS1 le)
           AND PCS_STS1_RCV_LINK_STS le \<noteq> 0))"

lemma quiet_reads:
  "reads_quiet d \<Longrightarrow> xpb_dev d (map XpbRead as @ hs) b = xpb_dev d hs b"
  by (induction as) (simp_all add: reads_quiet_def)

lemma port_link_state_up:
  assumes "reads_quiet (dv le)" "mac_isl < 2" "eth_port < 24"
  shows "\<exists>a b. mac_eth_port_link_state le mac_isl eth_port ge hs =
     Some (if link_up le mac_isl eth_port ge hs then LINK_UP else LINK_DOWN, map XpbRead [a, b] @ hs)"
  using assms quiet_reads [OF assms(1), of "[_]" hs]
  by (auto simp: mac_eth_port_link_state_def link_up_def xpb_read_def c_true_def Let_def or.assoc
      MAX_MAC_ISLANDS_PER_NFP_def MAX_ETH_PORTS_PER_MAC_ISL_def MAX_ETH_PORTS_PER_MAC_CORE_def
      MAX_MAC_CORES_PER_MAC_ISL_def)

lemma link_up_quiet:
  "reads_quiet (dv le) \<Longrightarrow> link_up le mac_isl p ge (map XpbRead as @ hs) = link_up le mac_isl p ge hs"
  by (simp add: link_up_def quiet_reads)

lemma island_links_result:
  assumes "reads_quiet (dv le)" "mac_isl < 2"
  shows "\<forall>l \<in> set ls. l < 24 \<Longrightarrow> \<exists>as v. island_links le mac_isl ports ge ls acc hs = Some (v, map XpbRead as @ hs) \<and>
     (\<forall>n. bit v n \<longleftrightarrow> bit acc n \<or> n \<in> set ls \<and> bit ports n \<and> link_up le mac_isl n (bit ge n) hs)"
proof (induction ls arbitrary: acc hs)
  case (Cons l ls)
  have pp: "c_true (ports AND 2 ^ l) = bit ports l"
    using c_true_and_pow2 [of ports l] by simp
  have ge: "c_true (drop_bit l ge AND 1) = bit ge l"
    by (simp add: c_true_def and_one_eq mod2_eq_if bit_iff_odd_drop_bit)
  show ?case
  proof (cases "bit ports l")
    case False
    then show ?thesis using Cons.IH [of acc hs] Cons.prems by (auto simp: pp)
  next
    case True
    obtain a b where st: "mac_eth_port_link_state le mac_isl l (bit ge l) hs =
        Some (if link_up le mac_isl l (bit ge l) hs then LINK_UP else LINK_DOWN, map XpbRead [a, b] @ hs)"
      using port_link_state_up [OF assms, of l "bit ge l" hs] Cons.prems by auto
    define acc' where "acc' = (if link_up le mac_isl l (bit ge l) hs then acc OR push_bit l 1 else acc)"
    obtain as v where r: "island_links le mac_isl ports ge ls acc' (map XpbRead [a, b] @ hs) = Some (v, map XpbRead as @ map XpbRead [a, b] @ hs)"
      and v: "\<forall>n. bit v n \<longleftrightarrow> bit acc' n \<or> n \<in> set ls \<and> bit ports n \<and> link_up le mac_isl n (bit ge n) (map XpbRead [a, b] @ hs)"
      using Cons.IH [of acc' "map XpbRead [a, b] @ hs"] Cons.prems by auto
    have "bit acc' n \<longleftrightarrow> bit acc n \<or> n = l \<and> link_up le mac_isl l (bit ge l) hs" for n
      using Cons.prems by (auto simp: acc'_def bit_or_iff bit_exp_iff possible_bit_def)
    moreover have "island_links le mac_isl ports ge (l # ls) acc hs = Some (v, map XpbRead (as @ [a, b]) @ hs)"
      using True st r by (cases "link_up le mac_isl l (bit ge l) hs") (simp_all add: pp ge acc'_def)
    ultimately show ?thesis using v True unfolding link_up_quiet [OF assms(1)]
      by (intro exI [of _ "as @ [a, b]"] exI [of _ v]) (auto simp del: island_links.simps map_append)
  qed
qed auto

section \<open>Traffic manager queues\<close>

lemma tm_enable_queue_eq:
  assumes "nbi < 2" "q < 1024"
  shows "nbi_tm_enable_queue le nbi q hs = Some (XpbWrite (NBI_TM_Q_CFG_ADDR le nbi q)
      (xpb_dev (dv le) hs (NBI_TM_Q_CFG_ADDR le nbi q) OR QUEUE_CONFIG_QUEUEENABLE le) #
      XpbRead (NBI_TM_Q_CFG_ADDR le nbi q) # hs)"
    "nbi_tm_disable_queue le nbi q hs = Some (XpbWrite (NBI_TM_Q_CFG_ADDR le nbi q)
      (xpb_dev (dv le) hs (NBI_TM_Q_CFG_ADDR le nbi q) AND NOT (QUEUE_CONFIG_QUEUEENABLE le)) #
      XpbRead (NBI_TM_Q_CFG_ADDR le nbi q) # hs)"
  using assms by (simp_all add: nbi_tm_enable_queue_def nbi_tm_disable_queue_def xpb_read_def xpb_write_def
      Let_def MAX_NBI_ISLANDS_PER_NFP_def MAX_TM_QUEUES_PER_NBI_ISL_def)

section \<open>Properties\<close>

text \<open>The MAC eventually confirms an inhibit that was written.\<close>

definition inhibit_acked :: "link_env \<Rightarrow> nat \<Rightarrow> u32 \<Rightarrow> bool" where
  "inhibit_acked le mac_isl m \<longleftrightarrow> (\<forall>v hs. v AND m = m \<longrightarrow>
     (\<exists>k. xpb_dev (dv le) (replicate k (XpbRead (MAC_EQ_INH_DONE_ADDR le mac_isl)) @
        XpbWrite (MAC_EQ_INH_ADDR le mac_isl) v # hs) (MAC_EQ_INH_DONE_ADDR le mac_isl) AND m = m))"

text \<open>The event of a command without recache.\<close>

definition sync_event :: "nat \<Rightarrow> nat \<Rightarrow> nat \<Rightarrow> u32 \<Rightarrow> dev_event" where
  "sync_event mac_isl core core_port code =
     SyncMeCmd ARB_CLS_BASE_ADDR_Hi32 (push_bit 2 ARB_CLS_RING_NUM) (LINK_CTRL_SYNC_CMD mac_isl core core_port code 0)"

lemma issue_sync_me_cmd_eq: "issue_sync_me_cmd mac_isl core core_port code 0 hs = sync_event mac_isl core core_port code # hs"
  by (simp add: issue_sync_me_cmd_def sync_event_def)

lemma disable_rx_run:
  assumes "mac_args_ok mac_isl core core_port" "0 < lanes" "core_port + lanes \<le> 12"
    and "inhibit_acked le mac_isl (port_lane_mask core core_port lanes)"
    and "conf = MAC_CONF_ADDR le mac_isl core core_port" "inh = MAC_EQ_INH_ADDR le mac_isl"
    and "m = port_lane_mask core core_port lanes" "old = xpb_dev (dv le) hs inh"
  shows "\<exists>ok checks k inhibited.
     inhibited = replicate k (XpbRead (MAC_EQ_INH_DONE_ADDR le mac_isl)) @ XpbWrite inh (old OR m) # XpbRead inh # hs \<and>
     mac_eth_disable_rx le mac_isl core core_port lanes hs = Some (ok,
       XpbWrite inh (old AND NOT m) # checks @
       sync_event mac_isl core core_port ARB_CODE_ETH_CMD_CFG_DISABLE_RX #
       XpbRead (MAC_EQ_INH_DONE_ADDR le mac_isl) # inhibited) \<and>
     xpb_dev (dv le) inhibited (MAC_EQ_INH_DONE_ADDR le mac_isl) AND m = m \<and>
     set checks \<subseteq> {XpbRead conf, Sleep (10 * NS_PLATFORM_TCLK (lplat le) * 1000)} \<and> length checks \<le> 20 \<and>
     (if ok then hd checks = XpbRead conf \<and> \<not> rx_on le mac_isl core core_port (tl checks @
          sync_event mac_isl core core_port ARB_CODE_ETH_CMD_CFG_DISABLE_RX #
          XpbRead (MAC_EQ_INH_DONE_ADDR le mac_isl) # inhibited)
      else length (filter (\<lambda>ev. ev = XpbRead conf) checks) = 10)"
proof -
  let ?done = "MAC_EQ_INH_DONE_ADDR le mac_isl"
  let ?hs1 = "XpbWrite inh (old OR m) # XpbRead inh # hs"
  have g: "mac_args_ok mac_isl core core_port \<and> 0 < core_port + lanes \<and> core_port + lanes - 1 < MAX_ETH_PORTS_PER_MAC_CORE"
    using assms(1-3) by (simp add: MAX_ETH_PORTS_PER_MAC_CORE_def)
  have "(old OR m) AND m = m" by (rule bit_word_eqI) (auto simp: bit_simps)
  with assms(4) obtain j where j: "xpb_dev (dv le) (replicate j (XpbRead ?done) @ ?hs1) ?done AND m = m"
    unfolding inhibit_acked_def assms(6,7) by blast
  from inhibit_poll_done [OF this] obtain k where
    p: "inhibit_poll (dv le) ?done m ?hs1 = Some (replicate (Suc k) (XpbRead ?done) @ ?hs1)"
    and k: "xpb_dev (dv le) (replicate k (XpbRead ?done) @ ?hs1) ?done AND m = m" by blast
  let ?hs2 = "sync_event mac_isl core core_port ARB_CODE_ETH_CMD_CFG_DISABLE_RX #
      replicate (Suc k) (XpbRead ?done) @ ?hs1"
  obtain ok checks where w: "rx_disabled_wait le mac_isl core core_port 10 ?hs2 = Some (ok, checks @ ?hs2)"
    and c: "set checks \<subseteq> {XpbRead conf, Sleep (10 * NS_PLATFORM_TCLK (lplat le) * 1000)}" "length checks \<le> 2 * 10"
     "ok \<longrightarrow> (\<exists>evs'. checks = XpbRead conf # evs' \<and> \<not> rx_on le mac_isl core core_port (evs' @ ?hs2))"
     "\<not> ok \<longrightarrow> length (filter (\<lambda>ev. ev = XpbRead conf) checks) = 10"
    using rx_disabled_wait_result [OF assms(1), of le 10 ?hs2] unfolding assms(5) by blast
  have wb: "(old OR m) AND NOT m = old AND NOT m" by (rule bit_word_eqI) (auto simp: bit_simps)
  have r: "mac_eth_disable_rx le mac_isl core core_port lanes hs =
      Some (ok, XpbWrite inh (old AND NOT m) # checks @ ?hs2)"
    unfolding mac_eth_disable_rx_def if_P [OF g] xpb_read_def xpb_write_def issue_sync_me_cmd_eq Let_def
      prod.case assms(6) [symmetric] assms(7) [symmetric] assms(8) [symmetric] p Option.bind.bind_lunit w wb ..
  show ?thesis
    by (rule exI [of _ ok], rule exI [of _ checks], rule exI [of _ k], rule exI, rule conjI, rule refl)
      (use r k c in auto)
qed

text \<open>C13. Disabling reception on a port always returns when the MAC acknowledges
  the enqueue inhibit, and follows the protocol: the inhibit bits of exactly the
  port's lanes are set, the disable command is sent only after the MAC reported
  all of them, then the RX enable is checked at most ten times, and at the end
  the inhibit bits of the lanes are cleared and those of all other lanes are
  written back as they were.  The result is true only if the last check found
  reception off, and false only after ten checks.\<close>

theorem disable_rx_protocol:
  assumes "mac_args_ok mac_isl core core_port" "0 < lanes" "core_port + lanes \<le> 12"
    and "inhibit_acked le mac_isl (port_lane_mask core core_port lanes)"
    and "conf = MAC_CONF_ADDR le mac_isl core core_port" "inh = MAC_EQ_INH_ADDR le mac_isl"
    and "m = port_lane_mask core core_port lanes" "old = xpb_dev (dv le) hs inh"
  shows "\<exists>ok checks k inhibited.
     inhibited = replicate k (XpbRead (MAC_EQ_INH_DONE_ADDR le mac_isl)) @ XpbWrite inh (old OR m) # XpbRead inh # hs \<and>
     mac_eth_disable_rx le mac_isl core core_port lanes hs = Some (ok,
       XpbWrite inh (old AND NOT m) # checks @
       sync_event mac_isl core core_port ARB_CODE_ETH_CMD_CFG_DISABLE_RX #
       XpbRead (MAC_EQ_INH_DONE_ADDR le mac_isl) # inhibited) \<and>
     xpb_dev (dv le) inhibited (MAC_EQ_INH_DONE_ADDR le mac_isl) AND m = m \<and>
     set checks \<subseteq> {XpbRead conf, Sleep (10 * NS_PLATFORM_TCLK (lplat le) * 1000)} \<and> length checks \<le> 20 \<and>
     (if ok then hd checks = XpbRead conf \<and> \<not> rx_on le mac_isl core core_port (tl checks @
          sync_event mac_isl core core_port ARB_CODE_ETH_CMD_CFG_DISABLE_RX #
          XpbRead (MAC_EQ_INH_DONE_ADDR le mac_isl) # inhibited)
      else length (filter (\<lambda>ev. ev = XpbRead conf) checks) = 10)"
  using assms by (rule disable_rx_run)

text \<open>The link state of an island is the mask of the requested ports that are
  up: no loss of signal, no local or remote fault, and the PCS reports the link,
  from the SGMII register for 1G ports and from the channel register
  otherwise.  Bits above the 24 links are 0.\<close>

lemma island_link_state_mask:
  assumes "reads_quiet (dv le)" "mac_isl < 2"
  shows "\<exists>v hs'. mac_eth_island_link_state le mac_isl ports ge hs = Some (v, hs') \<and>
     (\<forall>n. bit v n \<longleftrightarrow> n < 24 \<and> bit ports n \<and> link_up le mac_isl n (bit ge n) hs)"
proof -
  have s24: "set [0..<24] = {..<24 :: nat}" by auto
  show ?thesis
    using island_links_result [OF assms, of "[0..<24]" ports ge 0 hs] unfolding s24
    by (auto simp: mac_eth_island_link_state_def assms(2) MAX_MAC_ISLANDS_PER_NFP_def MAX_ETH_PORTS_PER_MAC_ISL_def
        MAX_ETH_PORTS_PER_MAC_CORE_def MAX_MAC_CORES_PER_MAC_ISL_def simp del: upt_rec_numeral)
qed

section \<open>A concrete device\<close>

text \<open>A register file in which the inhibit-done register follows the inhibit
  register and the RX enable follows the last command.\<close>

fun last_cmd :: "dev_hist \<Rightarrow> u32" where
  "last_cmd [] = 0"
| "last_cmd (SyncMeCmd _ _ c # hs) = c AND 0xff"
| "last_cmd (_ # hs) = last_cmd hs"

definition link_dev_ex :: device where
  "link_dev_ex = \<lparr>
     xpb_dev = (\<lambda>hs a.
       if a = 0x30004 then (case xpb_writes 0x30000 hs of [] \<Rightarrow> 0 | v # _ \<Rightarrow> v)
       else if a = 0x20000 then (if last_cmd hs = 2 then 1 else 0)
       else (case xpb_writes a hs of [] \<Rightarrow> 0x4 | v # _ \<Rightarrow> v)),
     csr_dev = (\<lambda>_ _. 0x1000), pcie_dev = (\<lambda>_ _ _. (0, 0)), tmq_dev = (\<lambda>_ _ _. 0)\<rparr>"

definition link_env_ex :: link_env where
  "link_env_ex = \<lparr>dv = link_dev_ex,
     NFP_MAC_XPB_OFF = (\<lambda>i. push_bit 24 (of_nat i)), NFP_MAC_ETH = (\<lambda>c. 0x20000),
     NFP_MAC_ETH_SEG_CMD_CONFIG = (\<lambda>p. push_bit 4 (of_nat p)), CMD_CONFIG_RX_ENABLE = 1, CMD_CONFIG_TX_FLUSH = 2,
     NFP_MAC_CSR = 0x30000, NFP_MAC_CSR_EQ_INH = 0, NFP_MAC_CSR_EQ_INH_DONE = 4,
     NFP_NBI_TM_XPB_OFF = (\<lambda>i. 0), NFP_NBI_TM_QUEUE_REG = 0, NFP_NBI_TM_QUEUE_CONFIG = (\<lambda>q. 0x48000 + 4 * of_nat q),
     QUEUE_CONFIG_QUEUEENABLE = 1, NFP_MAC_ETH_SEG_STS = (\<lambda>p. 0x1000), SEG_STS_PHY_LOS = 1,
     SEG_STS_RX_REMOTE_FAULT = 2, SEG_STS_RX_LOCAL_FAULT = 8, NFP_MAC_ETH_SEG_SGMII_PCS_STS = (\<lambda>p. 0x2000),
     SGMII_PCS_STS_LINK_STS = 4, NFP_MAC_ETH_CHAN_PCS_SEG = (\<lambda>p. 0x4000), NFP_MAC_ETH_CHAN_PCS_STS1 = 0x100,
     PCS_STS1_RCV_LINK_STS = 4, local_csr_mailbox = (\<lambda>n. of_nat n), lplat = CARBON\<rparr>"

lemma reads_quiet_ex: "reads_quiet (dv link_env_ex)"
  by (simp add: reads_quiet_def link_env_ex_def link_dev_ex_def)

lemma inhibit_acked_ex: "inhibit_acked link_env_ex 0 m"
  by (auto simp: inhibit_acked_def link_env_ex_def link_dev_ex_def MAC_EQ_INH_DONE_ADDR_def MAC_EQ_INH_ADDR_def
      intro!: exI [of _ 0])

theorem disable_rx_protocol_witness:
  "\<exists>ok hs'. mac_eth_disable_rx link_env_ex 0 0 4 4 [] = Some (ok, XpbWrite 0x30000 (4 AND NOT 0xf0) # hs')"
  using disable_rx_protocol [OF _ _ _ inhibit_acked_ex refl refl refl refl, of 0 4 4 "[]"]
  by (auto simp: mac_args_ok_def MAX_ETH_PORTS_PER_MAC_CORE_def MAX_MAC_CORES_PER_MAC_ISL_def MAX_MAC_ISLANDS_PER_NFP_def
      MAC_EQ_INH_ADDR_def port_lane_mask_def MAC_CORE_PORT_TO_MAC_PORT_def link_env_ex_def link_dev_ex_def)

end
