(* ===== verification/NicLocal.thy ===== *)
theory NicLocal
  imports DevIo CfgEnv
begin

unbundle bit_operations_syntax

text \<open>
  \<open>firmware/lib/nic_basic/_c/nic_internal.c\<close>: the per-engine cache of the vNIC
  configuration (\<open>nic_local_reconfig\<close>), loading a BPF program into the code
  store of the worker engines (\<open>update_bpf_prog\<close>) and the epoch counter
  (\<open>nic_local_epoch\<close>).  The code drives other engines through cluster target
  commands, here events of \<open>DevIo\<close>: \<open>CsrWrite\<close> and \<open>CsrRead\<close> carry the cluster
  target address of a register of an engine.  The two loops that wait for the
  worker threads are unbounded in the code, so they are partial functions;
  \<open>None\<close> also stands for \<open>halt()\<close>.
\<close>

section \<open>The local state\<close>

definition swapw64 :: "u64 \<Rightarrow> u64" where
  "swapw64 val = push_bit 32 val + drop_bit 32 val"

record nic_local_state =
  nl_control :: "u32 \<Rightarrow> u32"
  tx_ring_en :: "u32 \<Rightarrow> u64"
  rx_ring_en :: "u32 \<Rightarrow> u64"
  nl_mtu :: "u32 \<Rightarrow> u32"
  nl_mac :: "u32 \<Rightarrow> u32 \<times> u32"
  rss_ctrl :: "u32 \<Rightarrow> u32"
  rss_key :: "u32 \<Rightarrow> u8 list"
  rss_tbl :: "u32 \<Rightarrow> u8 list"
  vxlan_ports :: "u16 list"

text \<open>The fields of the configuration BAR, as the reads of the code return them;
  \<open>nb_rss_tbl\<close> is what the two swapping reads return.\<close>

record nic_bar =
  nb_ctrl :: u32
  nb_update :: u32
  nb_mtu :: u32
  nb_mac :: "u32 \<times> u32"
  nb_txrs_enable :: u64
  nb_rxrs_enable :: u64
  nb_rss_ctrl :: u32
  nb_rss_key :: "u8 list"
  nb_rss_tbl :: "u8 list"
  nb_vxlan_ports :: "u16 list"

definition nic_local_reconfig ::
  "net_ctrl \<Rightarrow> ctl_flags \<Rightarrow> u32 \<Rightarrow> u32 \<Rightarrow> nic_bar \<Rightarrow> nic_local_state \<Rightarrow> (u32 \<times> nic_local_state) option" where
  "nic_local_reconfig n nf pci vnic b nic =
    (if pci \<noteq> 0 then None
     else
       let newctrl = nb_ctrl b; update = nb_update b;
           enable_changed = c_bool (flag update (UPDATE_GEN n) \<and> flag (nl_control nic vnic XOR newctrl) (CTRL_ENABLE n))
       in if flag update (UPDATE_GEN n) \<and> \<not> flag newctrl (CTRL_ENABLE n)
          then Some (enable_changed, nic\<lparr>nl_control := (nl_control nic)(vnic := 0), rss_ctrl := (rss_ctrl nic)(vnic := 0)\<rparr>)
          else
            let nic = (if flag update (UPDATE_GEN n)
                  then nic\<lparr>nl_mtu := (nl_mtu nic)(vnic := nb_mtu b), nl_mac := (nl_mac nic)(vnic := nb_mac b),
                         nl_control := (nl_control nic)(vnic := newctrl)\<rparr> else nic);
                nic = (if flag update (UPDATE_RING nf)
                  then nic\<lparr>tx_ring_en := (tx_ring_en nic)(vnic := swapw64 (nb_txrs_enable b)),
                         rx_ring_en := (rx_ring_en nic)(vnic := swapw64 (nb_rxrs_enable b))\<rparr> else nic);
                nic = (if flag update (UPDATE_MACADDR n)
                  then nic\<lparr>nl_mac := (nl_mac nic)(vnic := nb_mac b)\<rparr> else nic);
                nic = (if flag update (UPDATE_RSS n) \<and> flag (nl_control nic vnic) (CTRL_RSS nf)
                  then nic\<lparr>rss_key := (rss_key nic)(vnic := nb_rss_key b), rss_tbl := (rss_tbl nic)(vnic := nb_rss_tbl b),
                         rss_ctrl := (rss_ctrl nic)(vnic := nb_rss_ctrl b)\<rparr> else nic);
                nic = (if flag update (UPDATE_VXLAN nf) \<and> flag (nl_control nic vnic) (CTRL_VXLAN n)
                  then nic\<lparr>vxlan_ports := nb_vxlan_ports b\<rparr> else nic)
            in Some (enable_changed, nic))"

definition nic_local_cfg_bpf_is_enabled :: "net_ctrl \<Rightarrow> nic_local_state \<Rightarrow> bool" where
  "nic_local_cfg_bpf_is_enabled n nic = flag (nl_control nic 0) (CTRL_BPF n)"

text \<open>The hand-shake with the application master: the signal is tested and taken;
  the acknowledgement is the library's \<open>synch_cnt_dram_ack\<close> on the shared counter
  (\<open>ack\<close>).  Without the debug journal \<open>nic_local_init\<close> has no effect.\<close>

record nic_reconfig_info =
  ri_pci :: u16
  ri_vnic :: u16

definition nic_local_init :: "nic_local_state \<Rightarrow> nic_local_state" where
  "nic_local_init nic = nic"

definition nic_local_cfg_changed :: "bool \<Rightarrow> bool \<times> bool" where
  "nic_local_cfg_changed cfg_bar_change_sig = (cfg_bar_change_sig, False)"

definition nic_local_reconfig_done :: "(u32 \<Rightarrow> u32) \<Rightarrow> u32 \<Rightarrow> u32" where
  "nic_local_reconfig_done ack nic_cfg_synch = ack nic_cfg_synch"

section \<open>Registers and signals of other engines\<close>

definition ct_nn_addr :: "u32 \<Rightarrow> u32 \<Rightarrow> u32 \<Rightarrow> u32" where
  "ct_nn_addr me_isl me nn_idx = push_bit 24 me_isl OR push_bit 17 me OR push_bit 9 1 OR push_bit 2 nn_idx"

definition ct_csr_addr :: "u32 \<Rightarrow> u32 \<Rightarrow> u32 \<Rightarrow> u32" where
  "ct_csr_addr me_isl me csr = push_bit 24 me_isl OR push_bit 16 1 OR push_bit 10 me OR csr"

definition ct_write_nn :: "u32 \<Rightarrow> u32 \<Rightarrow> u32 \<Rightarrow> u32 \<Rightarrow> dev_hist \<Rightarrow> dev_hist" where
  "ct_write_nn me_isl me nn_idx val hs = NnWrite (ct_nn_addr me_isl me nn_idx) val # hs"

definition ct_read_csr :: "device \<Rightarrow> u32 \<Rightarrow> u32 \<Rightarrow> u32 \<Rightarrow> dev_hist \<Rightarrow> u32 \<times> dev_hist" where
  "ct_read_csr d me_isl me csr hs = csr_read d (ct_csr_addr me_isl me csr) hs"

definition ct_write_csr :: "u32 \<Rightarrow> u32 \<Rightarrow> u32 \<Rightarrow> u32 \<Rightarrow> dev_hist \<Rightarrow> dev_hist" where
  "ct_write_csr me_isl me csr val hs = CsrWrite (ct_csr_addr me_isl me csr) val # hs"

definition ct_signal :: "u32 \<Rightarrow> u32 \<Rightarrow> u32 \<Rightarrow> nat \<Rightarrow> dev_hist \<Rightarrow> dev_hist" where
  "ct_signal me_isl me cx sig hs =
     InterthreadSignal (push_bit 24 me_isl OR push_bit 9 me OR push_bit 6 cx OR push_bit 2 (of_nat sig)) # hs"

definition PKT_IO_SIG_EPOCH :: nat where "PKT_IO_SIG_EPOCH = 8"
definition PKT_IO_SIG_RESUME :: nat where "PKT_IO_SIG_RESUME = 12"
definition PKT_IO_SIG_QUIESCE_NBI :: nat where "PKT_IO_SIG_QUIESCE_NBI = 13"
definition PKT_IO_SIG_QUIESCE_NFD :: nat where "PKT_IO_SIG_QUIESCE_NFD = 14"

definition ME_CSR_USTORE_ADDR :: u32 where "ME_CSR_USTORE_ADDR = 0x00"
definition ME_CSR_USTORE_DATA_LO :: u32 where "ME_CSR_USTORE_DATA_LO = 0x04"
definition ME_CSR_USTORE_DATA_HI :: u32 where "ME_CSR_USTORE_DATA_HI = 0x08"
definition ME_CSR_CTX_ENABLES :: u32 where "ME_CSR_CTX_ENABLES = 0x18"
definition ME_CSR_CTX_PTR :: u32 where "ME_CSR_CTX_PTR = 0x20"
definition ME_CSR_IND_CTX_SGL_EVT :: u32 where "ME_CSR_IND_CTX_SGL_EVT = 0x48"
definition ME_CSR_IND_CTX_WKP_EVT :: u32 where "ME_CSR_IND_CTX_WKP_EVT = 0x50"

definition dp_ctxs :: "u32 list" where
  "dp_ctxs = [0, 2, 4, 6]"

section \<open>Loading a BPF program\<close>

definition signal_quiesce :: "u32 \<Rightarrow> u32 \<Rightarrow> dev_hist \<Rightarrow> dev_hist" where
  "signal_quiesce me_isl me hs = fold (\<lambda>cx hs.
     ct_signal me_isl me cx PKT_IO_SIG_QUIESCE_NFD (ct_signal me_isl me cx PKT_IO_SIG_QUIESCE_NBI hs)) dp_ctxs hs"

fun wkp_scan :: "device \<Rightarrow> u32 \<Rightarrow> u32 \<Rightarrow> u32 list \<Rightarrow> u32 \<Rightarrow> dev_hist \<Rightarrow> u32 \<times> dev_hist" where
  "wkp_scan d me_isl me [] ctx_enables hs = (ctx_enables, hs)"
| "wkp_scan d me_isl me (cx # cxs) ctx_enables hs =
    (let hs = ct_write_csr me_isl me ME_CSR_CTX_PTR cx hs;
         (wkp_mask, hs) = ct_read_csr d me_isl me ME_CSR_IND_CTX_WKP_EVT hs
     in wkp_scan d me_isl me cxs
          (if \<not> c_true (wkp_mask AND (push_bit PKT_IO_SIG_EPOCH 1 OR push_bit PKT_IO_SIG_RESUME 1))
           then ctx_enables OR push_bit (8 + unat cx) 1 else ctx_enables) hs)"

text \<open>One round of the loop that forces the threads to quiesce: the contexts are
  disabled and those that do not wait for an epoch or a resume are collected.\<close>

definition quiesce_round :: "device \<Rightarrow> u32 \<Rightarrow> u32 \<Rightarrow> dev_hist \<Rightarrow> u32 \<times> dev_hist" where
  "quiesce_round d me_isl me hs =
    (let (ctx_enables, hs) = ct_read_csr d me_isl me ME_CSR_CTX_ENABLES hs;
         ctx_enables = ctx_enables AND 0xffff00ff;
         hs = ct_write_csr me_isl me ME_CSR_CTX_ENABLES ctx_enables hs;
         hs = Sleep 250 # hs
     in wkp_scan d me_isl me dp_ctxs ctx_enables hs)"

definition quiesce_retry :: "device \<Rightarrow> u32 \<Rightarrow> u32 \<Rightarrow> dev_hist \<Rightarrow> dev_hist" where
  "quiesce_retry d me_isl me hs =
     Sleep 1000 # ct_write_csr me_isl me ME_CSR_CTX_ENABLES (fst (quiesce_round d me_isl me hs)) (snd (quiesce_round d me_isl me hs))"

partial_function (option) quiesce :: "device \<Rightarrow> u32 \<Rightarrow> u32 \<Rightarrow> dev_hist \<Rightarrow> dev_hist option" where
  "quiesce d me_isl me hs =
    (if c_true (fst (quiesce_round d me_isl me hs) AND 0xff00)
     then quiesce d me_isl me (quiesce_retry d me_isl me hs)
     else Some (snd (quiesce_round d me_isl me hs)))"

declare quiesce.simps [code]

text \<open>The loop \<open>while (words--)\<close>: \<open>addr_lo\<close> counts 8-byte units.\<close>

fun bpf_copy :: "device \<Rightarrow> u32 \<Rightarrow> u32 \<Rightarrow> nat \<Rightarrow> u32 \<Rightarrow> u32 \<Rightarrow> dev_hist \<Rightarrow> dev_hist" where
  "bpf_copy d me_isl me 0 addr_hi addr_lo hs = hs"
| "bpf_copy d me_isl me (Suc words) addr_hi addr_lo hs =
    (let (data0, data1) = pcie_dev d hs addr_hi (push_bit 3 addr_lo);
         hs = PcieRead addr_hi (push_bit 3 addr_lo) # hs;
         addr_lo = addr_lo + 1;
         addr_hi = addr_hi + drop_bit 29 addr_lo;
         hs = ct_write_csr me_isl me ME_CSR_USTORE_DATA_LO data0 hs;
         hs = ct_write_csr me_isl me ME_CSR_USTORE_DATA_HI data1 hs
     in bpf_copy d me_isl me words addr_hi addr_lo hs)"

type_synonym bpf_cfg = "u32 \<times> u32 \<times> u32"

definition bpf_load :: "device \<Rightarrow> bpf_cfg \<Rightarrow> u32 \<Rightarrow> u32 \<Rightarrow> u32 \<Rightarrow> dev_hist \<Rightarrow> dev_hist" where
  "bpf_load d cfg vnic me_isl me hs =
    (let (cfg0, addr_lo, addr_hi) = cfg;
         words = unat (drop_bit 16 cfg0);
         hs = PcieBarCfg addr_hi addr_lo # hs;
         addr_lo = drop_bit 3 addr_lo;
         hs = ct_write_csr me_isl me ME_CSR_USTORE_ADDR (0x80000000 + NFD_BPF_START_OFF + vnic * NFD_BPF_MAX_LEN) hs;
         hs = bpf_copy d me_isl me words addr_hi addr_lo hs;
         hs = ct_write_csr me_isl me ME_CSR_USTORE_ADDR 0 hs
     in hs)"

definition bpf_restart :: "device \<Rightarrow> u32 \<Rightarrow> u32 \<Rightarrow> dev_hist \<Rightarrow> dev_hist" where
  "bpf_restart d me_isl me hs =
    (let hs = Sleep 500 # hs;
         (ctx_enables, hs) = ct_read_csr d me_isl me ME_CSR_CTX_ENABLES hs;
         hs = ct_write_csr me_isl me ME_CSR_CTX_ENABLES (ctx_enables OR 0x5500) hs;
         hs = Sleep 500 # hs
     in fold (\<lambda>cx hs. ct_signal me_isl me cx PKT_IO_SIG_RESUME hs) dp_ctxs hs)"

fun update_bpf_mes :: "device \<Rightarrow> bpf_cfg \<Rightarrow> u32 \<Rightarrow> u32 list \<Rightarrow> dev_hist \<Rightarrow> dev_hist option" where
  "update_bpf_mes d cfg vnic [] hs = Some hs"
| "update_bpf_mes d cfg vnic (me_id # mes) hs = do {
     let me_isl = drop_bit 4 me_id;
     let me = me_id AND 0xf;
     let hs = Sleep 10000 # signal_quiesce me_isl me hs;
     hs \<leftarrow> quiesce d me_isl me hs;
     let hs = bpf_load d cfg vnic me_isl me hs;
     let hs = bpf_restart d me_isl me hs;
     update_bpf_mes d cfg vnic mes hs }"

text \<open>\<open>bar_bpf vid\<close> is what the read of the program size and address in the BAR of
  \<open>vid\<close> returns.\<close>

definition update_bpf_prog :: "device \<Rightarrow> u32 list \<Rightarrow> bpf_cfg \<Rightarrow> u32 \<Rightarrow> dev_hist \<Rightarrow> dev_hist option" where
  "update_bpf_prog d dp_mes_ids cfg vnic hs = update_bpf_mes d cfg vnic dp_mes_ids hs"

definition nic_local_bpf_reconfig ::
  "device \<Rightarrow> u32 list \<Rightarrow> (u32 \<Rightarrow> bpf_cfg) \<Rightarrow> u32 \<Rightarrow> u32 \<Rightarrow> dev_hist \<Rightarrow> dev_hist option" where
  "nic_local_bpf_reconfig d dp_mes_ids bar_bpf vid vnic hs = update_bpf_prog d dp_mes_ids (bar_bpf vid) vnic hs"

section \<open>The epoch\<close>

definition EPOCH_NN_IDX :: u32 where "EPOCH_NN_IDX = 127"

fun sgl_scan :: "device \<Rightarrow> u32 \<Rightarrow> u32 \<Rightarrow> u32 list \<Rightarrow> u32 \<Rightarrow> dev_hist \<Rightarrow> u32 \<times> dev_hist" where
  "sgl_scan d me_isl me [] sig_mask hs = (sig_mask, hs)"
| "sgl_scan d me_isl me (cx # cxs) sig_mask hs =
    (let hs = ct_write_csr me_isl me ME_CSR_CTX_PTR cx hs;
         (v, hs) = ct_read_csr d me_isl me ME_CSR_IND_CTX_SGL_EVT hs
     in sgl_scan d me_isl me cxs (sig_mask OR v) hs)"

definition epoch_round :: "device \<Rightarrow> u32 \<Rightarrow> u32 \<Rightarrow> dev_hist \<Rightarrow> u32 \<times> dev_hist" where
  "epoch_round d me_isl me hs = sgl_scan d me_isl me dp_ctxs 0 (Sleep 250 # hs)"

partial_function (option) epoch_wait :: "device \<Rightarrow> u32 \<Rightarrow> u32 \<Rightarrow> dev_hist \<Rightarrow> dev_hist option" where
  "epoch_wait d me_isl me hs =
    (if c_true (fst (epoch_round d me_isl me hs) AND push_bit PKT_IO_SIG_EPOCH 1)
     then epoch_wait d me_isl me (snd (epoch_round d me_isl me hs))
     else Some (snd (epoch_round d me_isl me hs)))"

declare epoch_wait.simps [code]

fun epoch_mes :: "device \<Rightarrow> u32 \<Rightarrow> u32 list \<Rightarrow> dev_hist \<Rightarrow> dev_hist option" where
  "epoch_mes d epoch [] hs = Some hs"
| "epoch_mes d epoch (me_id # mes) hs = do {
     let me_isl = drop_bit 4 me_id;
     let me = me_id AND 0xf;
     let hs = fold (\<lambda>cx hs. ct_signal me_isl me cx PKT_IO_SIG_EPOCH hs) dp_ctxs hs;
     hs \<leftarrow> epoch_wait d me_isl me hs;
     epoch_mes d epoch mes (ct_write_nn me_isl me EPOCH_NN_IDX epoch hs) }"

definition nic_local_epoch :: "device \<Rightarrow> u32 list \<Rightarrow> u32 \<Rightarrow> dev_hist \<Rightarrow> (u32 \<times> dev_hist) option" where
  "nic_local_epoch d dp_mes_ids epoch hs =
    (let epoch = epoch + 1 in do { hs \<leftarrow> epoch_mes d epoch dp_mes_ids hs; Some (epoch, hs) })"

section \<open>Reloading the local state\<close>

text \<open>A request for PCIe island 0 always returns.  It changes the cached state of its
  vNIC only, and with a one-bit enable flag it reports a change exactly when the
  enable flag of the cached control word has changed.\<close>

definition same_at :: "u32 \<Rightarrow> nic_local_state \<Rightarrow> nic_local_state \<Rightarrow> bool" where
  "same_at v a b \<longleftrightarrow> nl_control a v = nl_control b v \<and> tx_ring_en a v = tx_ring_en b v \<and> rx_ring_en a v = rx_ring_en b v \<and>
     nl_mtu a v = nl_mtu b v \<and> nl_mac a v = nl_mac b v \<and> rss_ctrl a v = rss_ctrl b v \<and> rss_key a v = rss_key b v \<and>
     rss_tbl a v = rss_tbl b v"

lemma same_at_step: "same_at v nic a \<Longrightarrow> (c \<Longrightarrow> same_at v a b) \<Longrightarrow> same_at v nic (if c then b else a)"
  by (simp add: same_at_def)

lemma nic_local_reconfig_local:
  assumes "nic_local_reconfig n nf pci vnic b nic = Some (ch, nic')" "v \<noteq> vnic"
  shows "same_at v nic nic'"
proof -
  have upd: "same_at v a (a\<lparr>nl_control := (nl_control a)(vnic := x), rss_ctrl := (rss_ctrl a)(vnic := y)\<rparr>)"
    "same_at v a (a\<lparr>nl_mtu := (nl_mtu a)(vnic := mt), nl_mac := (nl_mac a)(vnic := mc), nl_control := (nl_control a)(vnic := x)\<rparr>)"
    "same_at v a (a\<lparr>tx_ring_en := (tx_ring_en a)(vnic := t), rx_ring_en := (rx_ring_en a)(vnic := r)\<rparr>)"
    "same_at v a (a\<lparr>nl_mac := (nl_mac a)(vnic := mc)\<rparr>)"
    "same_at v a (a\<lparr>rss_key := (rss_key a)(vnic := k), rss_tbl := (rss_tbl a)(vnic := l), rss_ctrl := (rss_ctrl a)(vnic := y)\<rparr>)"
    "same_at v a (a\<lparr>vxlan_ports := p\<rparr>)" for a x y mt mc t r k l p
    using assms(2) by (simp_all add: same_at_def)
  have refl: "same_at v nic nic" by (simp add: same_at_def)
  show ?thesis
  proof (cases "flag (nb_update b) (UPDATE_GEN n) \<and> \<not> flag (nb_ctrl b) (CTRL_ENABLE n)")
    case True
    then show ?thesis using assms(1) upd(1) by (auto simp: nic_local_reconfig_def Let_def split: if_splits)
  next
    case False
    have "snd (the (nic_local_reconfig n nf pci vnic b nic)) = nic'" "pci = 0"
      using assms(1) by (auto simp: nic_local_reconfig_def split: if_splits)
    moreover have "same_at v nic (snd (the (nic_local_reconfig n nf 0 vnic b nic)))"
      unfolding nic_local_reconfig_def Let_def if_not_P [OF False] simp_thms if_False option.sel snd_conv
      by (intro same_at_step upd refl)
    ultimately show ?thesis by simp
  qed
qed

lemma nic_local_reconfig_enable:
  assumes "CTRL_ENABLE n = push_bit k 1" "k < 32"
  shows "\<exists>ch nic'. nic_local_reconfig n nf 0 vnic b nic = Some (ch, nic') \<and>
     (c_true ch \<longleftrightarrow> flag (nl_control nic vnic) (CTRL_ENABLE n) \<noteq> flag (nl_control nic' vnic) (CTRL_ENABLE n))"
proof -
  have f: "flag x (CTRL_ENABLE n) \<longleftrightarrow> bit x k" for x unfolding flag_def assms by (rule c_true_and_pow2)
  then show ?thesis by (simp add: nic_local_reconfig_def Let_def bit_xor_iff)
qed

section \<open>Quiescing an engine\<close>

definition ctx_waits :: "device \<Rightarrow> u32 \<Rightarrow> u32 \<Rightarrow> u32 \<Rightarrow> dev_hist \<Rightarrow> bool" where
  "ctx_waits d me_isl me cx hs \<longleftrightarrow>
     c_true (csr_dev d (CsrWrite (ct_csr_addr me_isl me ME_CSR_CTX_PTR) cx # hs) (ct_csr_addr me_isl me ME_CSR_IND_CTX_WKP_EVT)
       AND (push_bit PKT_IO_SIG_EPOCH 1 OR push_bit PKT_IO_SIG_RESUME 1))"

text \<open>The contexts of an engine are disabled and each of its data path contexts
  has since been seen waiting for an epoch or a resume.\<close>

definition engine_quiet :: "device \<Rightarrow> u32 \<Rightarrow> u32 \<Rightarrow> dev_hist \<Rightarrow> bool" where
  "engine_quiet d me_isl me hs \<longleftrightarrow> (\<exists>evs en h0.
     hs = evs @ CsrWrite (ct_csr_addr me_isl me ME_CSR_CTX_ENABLES) en # h0 \<and> en AND 0xff00 = 0 \<and>
     (\<forall>v. CsrWrite (ct_csr_addr me_isl me ME_CSR_CTX_ENABLES) v \<notin> set evs) \<and>
     (\<forall>cx \<in> set dp_ctxs. \<exists>a b. evs = a @ b \<and>
        ctx_waits d me_isl me cx (b @ CsrWrite (ct_csr_addr me_isl me ME_CSR_CTX_ENABLES) en # h0)))"

lemma ct_csr_addr_csr:
  "ct_csr_addr i m c = ct_csr_addr i m c' \<longleftrightarrow> c = c'" if "c < 0x400" "c' < 0x400"
proof -
  have low: "take_bit 10 (ct_csr_addr i m x) = x" if "x < 0x400" for x
  proof -
    have "take_bit 10 x = x" using that by (intro take_bit_id) (simp add: word_less_nat_alt)
    moreover have "take_bit 10 (ct_csr_addr i m x) = take_bit 10 x"
      unfolding ct_csr_addr_def by (rule bit_word_eqI) (auto simp: bit_take_bit_iff bit_or_iff bit_push_bit_iff)
    ultimately show ?thesis by simp
  qed
  show ?thesis using low [OF that(1)] low [OF that(2)] by metis
qed

lemma csr_distinct [simp]:
  "ct_csr_addr i m ME_CSR_CTX_PTR \<noteq> ct_csr_addr i m ME_CSR_CTX_ENABLES"
  "ct_csr_addr i m ME_CSR_CTX_ENABLES \<noteq> ct_csr_addr i m ME_CSR_CTX_PTR"
  by (subst ct_csr_addr_csr; simp add: ME_CSR_CTX_PTR_def ME_CSR_CTX_ENABLES_def)+

text \<open>What a scan adds to the history, and what it finds.\<close>

definition scan_ok :: "device \<Rightarrow> u32 \<Rightarrow> u32 \<Rightarrow> u32 list \<Rightarrow> dev_hist \<Rightarrow> u32 \<Rightarrow> u32 \<Rightarrow> dev_hist \<Rightarrow> bool" where
  "scan_ok d i m cxs hs en en' evs \<longleftrightarrow>
     (\<forall>ev \<in> set evs. (\<exists>cx. ev = CsrWrite (ct_csr_addr i m ME_CSR_CTX_PTR) cx) \<or> (\<exists>a. ev = CsrRead a)) \<and>
     (\<forall>n. bit en n \<longrightarrow> bit en' n) \<and>
     (\<forall>cx \<in> set cxs. unat cx < 8 \<longrightarrow> bit en' (8 + unat cx) \<or> (\<exists>a b. evs = a @ b \<and> ctx_waits d i m cx (b @ hs)))"

lemma scan_ok_Cons:
  assumes "scan_ok d i m cxs (r # w # hs) en1 en' evs" "r = CsrRead x" "w = CsrWrite (ct_csr_addr i m ME_CSR_CTX_PTR) cx"
    and "en1 = (if ctx_waits d i m cx hs then en else en OR push_bit (8 + unat cx) 1)"
  shows "scan_ok d i m (cx # cxs) hs en en' (evs @ [r, w])"
  unfolding scan_ok_def
proof (intro conjI ballI impI)
  fix cx' assume c: "cx' \<in> set (cx # cxs)" "unat cx' < 8"
  show "bit en' (8 + unat cx') \<or> (\<exists>a b. evs @ [r, w] = a @ b \<and> ctx_waits d i m cx' (b @ hs))"
  proof (cases "cx' = cx")
    case True
    have "bit en' (8 + unat cx) \<or> ctx_waits d i m cx hs"
    proof (cases "ctx_waits d i m cx hs")
      case False
      then have "bit en1 (8 + unat cx)"
        using assms(4) True c(2) by (simp add: bit_or_iff bit_exp_iff possible_bit_def)
      then show ?thesis using assms(1) by (simp add: scan_ok_def)
    qed simp
    then show ?thesis using True by (metis append_Nil append_Nil2)
  next
    case False
    then have "bit en' (8 + unat cx') \<or> (\<exists>a b. evs = a @ b \<and> ctx_waits d i m cx' (b @ r # w # hs))"
      using assms(1) c by (auto simp: scan_ok_def)
    moreover have "evs @ [r, w] = a @ (b @ [r, w]) \<and> ctx_waits d i m cx' ((b @ [r, w]) @ hs)"
      if "evs = a @ b" "ctx_waits d i m cx' (b @ r # w # hs)" for a b using that by simp
    ultimately show ?thesis by blast
  qed
qed (use assms in \<open>auto simp: scan_ok_def bit_or_iff split: if_splits\<close>)

lemma wkp_scan_result: "\<exists>en' evs. wkp_scan d i m cxs en hs = (en', evs @ hs) \<and> scan_ok d i m cxs hs en en' evs"
proof (induction cxs arbitrary: en hs)
  case Nil
  show ?case by (simp add: scan_ok_def)
next
  case (Cons cx cxs)
  let ?w = "CsrWrite (ct_csr_addr i m ME_CSR_CTX_PTR) cx" and ?r = "CsrRead (ct_csr_addr i m ME_CSR_IND_CTX_WKP_EVT)"
  define en1 where "en1 = (if ctx_waits d i m cx hs then en else en OR push_bit (8 + unat cx) 1)"
  obtain en' evs where 1: "wkp_scan d i m cxs en1 (?r # ?w # hs) = (en', evs @ ?r # ?w # hs)"
    "scan_ok d i m cxs (?r # ?w # hs) en1 en' evs" using Cons.IH [of en1 "?r # ?w # hs"] by blast
  have "wkp_scan d i m (cx # cxs) en hs = wkp_scan d i m cxs en1 (?r # ?w # hs)"
    by (simp only: wkp_scan.simps ct_write_csr_def ct_read_csr_def csr_read_def en1_def ctx_waits_def Let_def prod.case if_not_P
        if_distrib [of "\<lambda>x. wkp_scan d i m cxs x _"] not_not cong: if_cong) simp
  then show ?case using 1(1) scan_ok_Cons [OF 1(2) refl refl en1_def] by auto
qed

lemma quiesce_round_quiet:
  assumes "\<not> c_true (fst (quiesce_round d i m hs) AND 0xff00)"
  shows "engine_quiet d i m (snd (quiesce_round d i m hs))"
proof -
  define en where "en = csr_dev d hs (ct_csr_addr i m ME_CSR_CTX_ENABLES) AND 0xffff00ff"
  let ?h = "CsrWrite (ct_csr_addr i m ME_CSR_CTX_ENABLES) en # CsrRead (ct_csr_addr i m ME_CSR_CTX_ENABLES) # hs"
  obtain en' evs where 1: "wkp_scan d i m dp_ctxs en (Sleep 250 # ?h) = (en', evs @ Sleep 250 # ?h)"
    "scan_ok d i m dp_ctxs (Sleep 250 # ?h) en en' evs" using wkp_scan_result by blast
  have q: "quiesce_round d i m hs = (en', evs @ Sleep 250 # ?h)"
    using 1(1) by (simp add: quiesce_round_def ct_read_csr_def csr_read_def ct_write_csr_def en_def)
  have z: "en' AND 0xff00 = 0" using assms q by (simp add: c_true_def)
  have m: "(0xff00 :: u32) = push_bit 8 (mask 8)" by (simp add: mask_eq_exp_minus_1)
  have off: "\<not> bit en' (8 + k)" if "k < 8" for k
  proof
    assume "bit en' (8 + k)"
    then have "bit (en' AND 0xff00) (8 + k)"
      using that unfolding m bit_and_iff bit_push_bit_iff bit_mask_iff by (simp add: possible_bit_def)
    then show False using z by simp
  qed
  have cx8: "unat cx < 8" if "cx \<in> set dp_ctxs" for cx using that by (auto simp: dp_ctxs_def)
  have waits: "\<exists>a b. evs @ [Sleep 250] = a @ b \<and> ctx_waits d i m cx (b @ ?h)" if cx: "cx \<in> set dp_ctxs" for cx
  proof -
    obtain a b where "evs = a @ b" "ctx_waits d i m cx (b @ Sleep 250 # ?h)"
      using 1(2) cx cx8 [OF cx] off [OF cx8 [OF cx]] unfolding scan_ok_def by blast
    then have "evs @ [Sleep 250] = a @ (b @ [Sleep 250]) \<and> ctx_waits d i m cx ((b @ [Sleep 250]) @ ?h)" by simp
    then show ?thesis by blast
  qed
  have e0: "en AND 0xff00 = 0" unfolding en_def by (simp add: and.assoc)
  have no: "CsrWrite (ct_csr_addr i m ME_CSR_CTX_ENABLES) v \<notin> set (evs @ [Sleep 250])" for v
    using 1(2) by (auto simp: scan_ok_def)
  show ?thesis unfolding engine_quiet_def q snd_conv
    by (rule exI [of _ "evs @ [Sleep 250]"], rule exI [of _ en], rule exI [of _ "CsrRead (ct_csr_addr i m ME_CSR_CTX_ENABLES) # hs"])
      (use e0 no waits in auto)
qed

text \<open>The worker threads eventually quiesce.\<close>

definition quiesces :: "device \<Rightarrow> u32 \<Rightarrow> u32 \<Rightarrow> bool" where
  "quiesces d i m \<longleftrightarrow> (\<forall>hs. \<exists>n. \<not> c_true (fst (quiesce_round d i m ((quiesce_retry d i m ^^ n) hs)) AND 0xff00))"

section \<open>The code store writes of an engine\<close>

text \<open>The writes to the code store registers of engine \<open>me\<close> of island \<open>me_isl\<close>, in
  the order they were made, found by the fields of the cluster target address.\<close>

definition ustore_ev :: "u32 \<Rightarrow> u32 \<Rightarrow> dev_event \<Rightarrow> (u32 \<times> u32) list" where
  "ustore_ev me_isl me ev = (case ev of
     CsrWrite a v \<Rightarrow> if bf_get 24 8 a = me_isl \<and> bf_get 10 6 a = me \<and> bf_get 0 10 a \<le> ME_CSR_USTORE_DATA_HI
       then [(bf_get 0 10 a, v)] else []
   | _ \<Rightarrow> [])"

definition ustore_writes :: "u32 \<Rightarrow> u32 \<Rightarrow> dev_hist \<Rightarrow> (u32 \<times> u32) list" where
  "ustore_writes me_isl me hs = concat (map (ustore_ev me_isl me) (rev hs))"

definition no_ustore :: "dev_hist \<Rightarrow> bool" where
  "no_ustore evs \<longleftrightarrow> (\<forall>ev \<in> set evs. \<forall>i m. ustore_ev i m ev = [])"

lemma ustore_writes_append: "ustore_writes i m (a @ b) = ustore_writes i m b @ ustore_writes i m a"
  by (simp add: ustore_writes_def)

lemma ustore_writes_Cons: "ustore_writes i m (ev # b) = ustore_writes i m b @ ustore_ev i m ev"
  by (simp add: ustore_writes_def)

lemma ustore_writes_none: "no_ustore evs \<Longrightarrow> ustore_writes i m evs = []"
  by (auto simp: no_ustore_def ustore_writes_def)

lemma no_ustore_append [simp]: "no_ustore (a @ b) \<longleftrightarrow> no_ustore a \<and> no_ustore b"
  by (auto simp: no_ustore_def)

lemma no_ustore_Nil [simp]: "no_ustore []"
  by (simp add: no_ustore_def)

lemma no_ustore_Cons [simp]: "no_ustore (a # b) \<longleftrightarrow> (\<forall>i m. ustore_ev i m a = []) \<and> no_ustore b"
  by (auto simp: no_ustore_def)

lemma ct_csr_addr_fields:
  assumes "unat i < 256" "unat m < 64" "unat c < 1024"
  shows "bf_get 24 8 (ct_csr_addr i m c) = i" "bf_get 10 6 (ct_csr_addr i m c) = m" "bf_get 0 10 (ct_csr_addr i m c) = c"
proof -
  have id: "take_bit 8 i = i" "take_bit 6 m = m" "take_bit 10 c = c"
    using assms by (auto intro: take_bit_id)
  have hi: "\<not> bit m n" if "6 \<le> n" for n using id(2) that by (metis bit_take_bit_iff linorder_not_less)
  have hc: "\<not> bit c n" if "10 \<le> n" for n using id(3) that by (metis bit_take_bit_iff linorder_not_less)
  have b: "bit (ct_csr_addr i m c) n \<longleftrightarrow> n < 32 \<and> ((24 \<le> n \<and> bit i (n - 24)) \<or> n = 16 \<or> (10 \<le> n \<and> bit m (n - 10)) \<or> bit c n)" for n
    unfolding ct_csr_addr_def bit_or_iff bit_push_bit_iff bit_1_iff by (auto dest: bit_imp_le_length)
  show "bf_get 24 8 (ct_csr_addr i m c) = i"
    by (subst (2) id(1) [symmetric], rule bit_word_eqI) (auto simp: bit_bf_get b bit_take_bit_iff hi hc)
  show "bf_get 10 6 (ct_csr_addr i m c) = m"
    by (subst (2) id(2) [symmetric], rule bit_word_eqI) (auto simp: bit_bf_get b bit_take_bit_iff hi hc)
  show "bf_get 0 10 (ct_csr_addr i m c) = c"
    by (subst (2) id(3) [symmetric], rule bit_word_eqI) (auto simp: bit_bf_get b bit_take_bit_iff hi hc)
qed

lemma ustore_ev_write:
  assumes "unat i' < 256" "unat m' < 64" "unat c < 1024"
  shows "ustore_ev i m (CsrWrite (ct_csr_addr i' m' c) v) =
     (if i = i' \<and> m = m' \<and> c \<le> ME_CSR_USTORE_DATA_HI then [(c, v)] else [])"
  by (auto simp: ustore_ev_def ct_csr_addr_fields [OF assms])

text \<open>Only the register number matters for not being a code store write.\<close>

lemma bf_csr: "unat c < 1024 \<Longrightarrow> bf_get 0 10 (ct_csr_addr i m c) = c"
proof -
  assume "unat c < 1024"
  then have "take_bit 10 c = c" by (intro take_bit_id) simp
  moreover have "bf_get 0 10 (ct_csr_addr i m c) = take_bit 10 c"
    unfolding ct_csr_addr_def
    by (rule bit_word_eqI, unfold bit_bf_get bit_take_bit_iff bit_or_iff bit_push_bit_iff bit_1_iff) auto
  ultimately show ?thesis by simp
qed

lemma no_ustore_ctl [simp]:
  "ustore_ev k l (CsrWrite (ct_csr_addr i m ME_CSR_CTX_PTR) v) = []"
  "ustore_ev k l (CsrWrite (ct_csr_addr i m ME_CSR_CTX_ENABLES) v) = []"
  "ustore_ev k l (CsrRead a) = []" "ustore_ev k l (Sleep n) = []" "ustore_ev k l (InterthreadSignal x) = []"
  "ustore_ev k l (PcieRead a b) = []" "ustore_ev k l (PcieBarCfg a b) = []"
  by (auto simp: ustore_ev_def bf_csr ME_CSR_CTX_PTR_def ME_CSR_CTX_ENABLES_def ME_CSR_USTORE_DATA_HI_def)

lemma scan_ok_no_ustore: "scan_ok d i m cxs hs en en' evs \<Longrightarrow> no_ustore evs"
  unfolding scan_ok_def no_ustore_def by fastforce

lemma quiesce_round_evs: "\<exists>evs. snd (quiesce_round d i m hs) = evs @ hs \<and> no_ustore evs"
proof -
  define en where "en = csr_dev d hs (ct_csr_addr i m ME_CSR_CTX_ENABLES) AND 0xffff00ff"
  let ?p = "[Sleep 250, CsrWrite (ct_csr_addr i m ME_CSR_CTX_ENABLES) en, CsrRead (ct_csr_addr i m ME_CSR_CTX_ENABLES)]"
  obtain en' evs where 1: "wkp_scan d i m dp_ctxs en (?p @ hs) = (en', evs @ ?p @ hs)"
    "scan_ok d i m dp_ctxs (?p @ hs) en en' evs" using wkp_scan_result by blast
  have "quiesce_round d i m hs = (en', (evs @ ?p) @ hs)"
    using 1(1) by (simp add: quiesce_round_def ct_read_csr_def csr_read_def ct_write_csr_def en_def)
  moreover have "no_ustore (evs @ ?p)" using scan_ok_no_ustore [OF 1(2)] by simp
  ultimately show ?thesis by (metis snd_conv)
qed

interpretation qui: poll_loop "quiesce d i m" "\<lambda>hs. c_true (fst (quiesce_round d i m hs) AND 0xff00)"
    "quiesce_retry d i m" "\<lambda>hs. snd (quiesce_round d i m hs)" for d i m
  by unfold_locales (rule quiesce.simps)

lemma quiesce_retry_evs: "\<exists>evs. quiesce_retry d i m hs = evs @ hs \<and> no_ustore evs"
proof -
  let ?r = "[Sleep 1000, CsrWrite (ct_csr_addr i m ME_CSR_CTX_ENABLES) (fst (quiesce_round d i m hs))]"
  obtain evs where "snd (quiesce_round d i m hs) = evs @ hs" "no_ustore evs" using quiesce_round_evs by blast
  then have "quiesce_retry d i m hs = (?r @ evs) @ hs \<and> no_ustore (?r @ evs)"
    by (simp add: quiesce_retry_def ct_write_csr_def)
  then show ?thesis by blast
qed

lemma quiesce_returns:
  assumes "quiesces d i m"
  shows "\<exists>evs. quiesce d i m hs = Some (evs @ hs) \<and> no_ustore evs \<and> engine_quiet d i m (evs @ hs)"
proof -
  obtain n where n: "\<not> c_true (fst (quiesce_round d i m ((quiesce_retry d i m ^^ n) hs)) AND 0xff00)"
    using assms quiesces_def by blast
  let ?P = "\<lambda>h. \<exists>evs. h = evs @ hs \<and> no_ustore evs"
  have "?P (quiesce_retry d i m t)" if "?P t" for t
    using that quiesce_retry_evs [of d i m t] by (metis append.assoc no_ustore_append)
  then obtain t where t: "quiesce d i m hs = Some (snd (quiesce_round d i m t))" "?P t"
    "\<not> c_true (fst (quiesce_round d i m t) AND 0xff00)"
    using qui.ends_with [where P = ?P, OF n] by auto
  then show ?thesis using quiesce_round_quiet [of d i m t] quiesce_round_evs [of d i m t] by auto
qed

section \<open>The program words\<close>

text \<open>The writes that store a program of \<open>n\<close> words.\<close>

definition prog_seq :: "(nat \<Rightarrow> u32 \<times> u32) \<Rightarrow> nat \<Rightarrow> (u32 \<times> u32) list" where
  "prog_seq prog n = concat (map (\<lambda>k. [(ME_CSR_USTORE_DATA_LO, fst (prog k)), (ME_CSR_USTORE_DATA_HI, snd (prog k))]) [0..<n])"

lemma prog_seq_Suc:
  "prog_seq prog (Suc n) = [(ME_CSR_USTORE_DATA_LO, fst (prog 0)), (ME_CSR_USTORE_DATA_HI, snd (prog 0))] @ prog_seq (prog \<circ> Suc) n"
  unfolding prog_seq_def by (subst upt_conv_Cons, simp) (simp add: map_Suc_upt [symmetric] comp_def del: upt_Suc)

lemmas ustore_regs = ME_CSR_USTORE_ADDR_def ME_CSR_USTORE_DATA_LO_def ME_CSR_USTORE_DATA_HI_def

lemma bpf_copy_writes:
  assumes "unat i < 256" "unat m < 64" "unat lo + n \<le> 2 ^ 29"
    and "\<And>hs k. k < n \<Longrightarrow> pcie_dev d hs hi (push_bit 3 (lo + of_nat k)) = prog k"
  shows "\<exists>evs. bpf_copy d i m n hi lo hs = evs @ hs \<and>
     (\<forall>i' m'. ustore_writes i' m' evs = (if i' = i \<and> m' = m then prog_seq prog n else []))"
  using assms(3,4)
proof (induction n arbitrary: lo hs prog)
  case 0
  then show ?case by (simp add: prog_seq_def ustore_writes_def)
next
  case (Suc n)
  let ?e = "[CsrWrite (ct_csr_addr i m ME_CSR_USTORE_DATA_HI) (snd (prog 0)),
     CsrWrite (ct_csr_addr i m ME_CSR_USTORE_DATA_LO) (fst (prog 0)), PcieRead hi (push_bit 3 lo)]"
  have lo1: "unat (lo + 1) = unat lo + 1" using Suc.prems(1) by (simp add: unat_add_lem [THEN iffD1])
  have carry: "n = 0 \<or> drop_bit 29 (lo + 1) = 0"
  proof (cases n)
    case (Suc k)
    then have "unat (lo + 1) < 2 ^ 29" using Suc.prems(1) lo1 by simp
    then have "unat (drop_bit 29 (lo + 1)) = 0" by (simp add: drop_bit_eq_div unat_div)
    then show ?thesis by (simp add: unat_eq_0)
  qed simp
  have step: "bpf_copy d i m (Suc n) hi lo hs = bpf_copy d i m n hi (lo + 1) (?e @ hs)"
    using Suc.prems(2) [of 0 hs] carry by (cases n) (auto simp: ct_write_csr_def split: prod.split)
  have "\<exists>evs. bpf_copy d i m n hi (lo + 1) (?e @ hs) = evs @ ?e @ hs \<and>
     (\<forall>i' m'. ustore_writes i' m' evs = (if i' = i \<and> m' = m then prog_seq (prog \<circ> Suc) n else []))"
  proof (rule Suc.IH)
    show "unat (lo + 1) + n \<le> 2 ^ 29" using lo1 Suc.prems(1) by simp
    show "pcie_dev d hs hi (push_bit 3 (lo + 1 + of_nat k)) = (prog \<circ> Suc) k" if "k < n" for hs k
      using Suc.prems(2) [of "Suc k" hs] that by (simp add: add.assoc)
  qed
  then obtain evs where e: "bpf_copy d i m n hi (lo + 1) (?e @ hs) = evs @ ?e @ hs"
    "\<And>i' m'. ustore_writes i' m' evs = (if i' = i \<and> m' = m then prog_seq (prog \<circ> Suc) n else [])" by blast
  have "ustore_writes i' m' ?e = (if i' = i \<and> m' = m
      then [(ME_CSR_USTORE_DATA_LO, fst (prog 0)), (ME_CSR_USTORE_DATA_HI, snd (prog 0))] else [])" for i' m'
    by (simp add: ustore_writes_def ustore_ev_write [OF assms(1,2)] ustore_regs)
  then have "ustore_writes i' m' (evs @ ?e) = (if i' = i \<and> m' = m then prog_seq prog (Suc n) else [])" for i' m'
    unfolding ustore_writes_append e(2) prog_seq_Suc by simp
  then show ?case using e(1) step by (intro exI [of _ "evs @ ?e"]) simp
qed

lemma bpf_load_writes:
  assumes "unat i < 256" "unat m < 64" "unat (drop_bit 3 lo) + unat (drop_bit 16 w0) \<le> 2 ^ 29"
    and "\<And>hs k. k < unat (drop_bit 16 w0) \<Longrightarrow> pcie_dev d hs hi (push_bit 3 (drop_bit 3 lo + of_nat k)) = prog k"
  shows "\<exists>evs. bpf_load d (w0, lo, hi) vnic i m hs = evs @ hs \<and>
     (\<forall>i' m'. ustore_writes i' m' evs = (if i' = i \<and> m' = m
        then (ME_CSR_USTORE_ADDR, 0x80000000 + NFD_BPF_START_OFF + vnic * NFD_BPF_MAX_LEN) #
          prog_seq prog (unat (drop_bit 16 w0)) @ [(ME_CSR_USTORE_ADDR, 0)] else []))"
proof -
  let ?a = "ct_csr_addr i m ME_CSR_USTORE_ADDR" and ?v = "0x80000000 + NFD_BPF_START_OFF + vnic * NFD_BPF_MAX_LEN"
  let ?h = "[CsrWrite ?a ?v, PcieBarCfg hi lo]"
  obtain evs where e: "bpf_copy d i m (unat (drop_bit 16 w0)) hi (drop_bit 3 lo) (?h @ hs) = evs @ ?h @ hs"
    "\<And>i' m'. ustore_writes i' m' evs = (if i' = i \<and> m' = m then prog_seq prog (unat (drop_bit 16 w0)) else [])"
    using bpf_copy_writes [OF assms] by blast
  have a: "ustore_ev i' m' (CsrWrite ?a v) = (if i' = i \<and> m' = m then [(ME_CSR_USTORE_ADDR, v)] else [])" for i' m' v
    by (simp add: ustore_ev_write [OF assms(1,2)] ustore_regs)
  have "bpf_load d (w0, lo, hi) vnic i m hs = (CsrWrite ?a 0 # evs @ ?h) @ hs"
    using e(1) by (simp add: bpf_load_def ct_write_csr_def Let_def del: bpf_copy.simps)
  moreover have "ustore_writes i' m' (CsrWrite ?a 0 # evs @ ?h) = (if i' = i \<and> m' = m
      then (ME_CSR_USTORE_ADDR, ?v) # prog_seq prog (unat (drop_bit 16 w0)) @ [(ME_CSR_USTORE_ADDR, 0)] else [])" for i' m'
    by (simp add: ustore_writes_Cons ustore_writes_append e(2) a) (simp add: ustore_writes_def a)
  ultimately show ?thesis by (intro exI [of _ "CsrWrite ?a 0 # evs @ ?h"] conjI allI)
qed

lemma fold_signals: "\<exists>evs. fold (\<lambda>cx hs. ct_signal i m cx sg hs) cxs hs = evs @ hs \<and> no_ustore evs"
proof (induction cxs arbitrary: hs)
  case (Cons cx cxs)
  obtain evs where "fold (\<lambda>cx hs. ct_signal i m cx sg hs) cxs (ct_signal i m cx sg hs) = evs @ ct_signal i m cx sg hs" "no_ustore evs"
    using Cons.IH by blast
  then show ?case by (intro exI [of _ "evs @ ct_signal i m cx sg []"]) (simp add: ct_signal_def)
qed simp

lemma bpf_restart_evs: "\<exists>evs. bpf_restart d i m hs = evs @ hs \<and> no_ustore evs"
proof -
  let ?en = "csr_dev d (Sleep 500 # hs) (ct_csr_addr i m ME_CSR_CTX_ENABLES) OR 0x5500"
  let ?p = "[Sleep 500, CsrWrite (ct_csr_addr i m ME_CSR_CTX_ENABLES) ?en, CsrRead (ct_csr_addr i m ME_CSR_CTX_ENABLES), Sleep 500]"
  obtain evs where "fold (\<lambda>cx hs. ct_signal i m cx PKT_IO_SIG_RESUME hs) dp_ctxs (?p @ hs) = evs @ ?p @ hs" "no_ustore evs"
    using fold_signals by blast
  then show ?thesis
    by (intro exI [of _ "evs @ ?p"]) (simp add: bpf_restart_def ct_read_csr_def csr_read_def ct_write_csr_def Let_def)
qed

lemma signal_quiesce_evs: "\<exists>evs. signal_quiesce i m hs = evs @ hs \<and> no_ustore evs"
  by (rule exI [of _ "signal_quiesce i m []"]) (simp add: signal_quiesce_def dp_ctxs_def ct_signal_def)

section \<open>Loading on all engines\<close>

definition me_isl_of :: "u32 \<Rightarrow> u32" where "me_isl_of me_id = drop_bit 4 me_id"
definition me_num_of :: "u32 \<Rightarrow> u32" where "me_num_of me_id = me_id AND 0xf"

lemma me_parts:
  assumes "me_id < 0x400"
  shows "unat (me_isl_of me_id) < 256" "unat (me_num_of me_id) < 64"
    "me_id = push_bit 4 (me_isl_of me_id) OR me_num_of me_id"
proof -
  have "unat (me_isl_of me_id) = unat me_id div 16" by (simp add: me_isl_of_def drop_bit_eq_div unat_div)
  then show "unat (me_isl_of me_id) < 256" using assms by (simp add: word_less_nat_alt)
  have n: "me_num_of me_id = take_bit 4 me_id" by (simp add: me_num_of_def take_bit_eq_mask mask_eq_exp_minus_1)
  have "unat (take_bit 4 me_id) < 2 ^ 4" unfolding unsigned_take_bit_eq by (rule take_bit_nat_less_exp)
  then show "unat (me_num_of me_id) < 64" by (simp add: n)
  show "me_id = push_bit 4 (me_isl_of me_id) OR me_num_of me_id"
    unfolding n me_isl_of_def by (rule word_shift_split [symmetric])
qed

lemma me_inj: "me_id < 0x400 \<Longrightarrow> me_id' < 0x400 \<Longrightarrow>
    me_isl_of me_id = me_isl_of me_id' \<and> me_num_of me_id = me_num_of me_id' \<longleftrightarrow> me_id = me_id'"
  using me_parts(3) by metis

text \<open>The program of the configured size at the configured host address does not
  cross a 4 GB boundary and reads as \<open>prog\<close>.\<close>

definition host_prog :: "device \<Rightarrow> bpf_cfg \<Rightarrow> (nat \<Rightarrow> u32 \<times> u32) \<Rightarrow> bool" where
  "host_prog d cfg prog \<longleftrightarrow> (case cfg of (w0, lo, hi) \<Rightarrow>
     unat (drop_bit 3 lo) + unat (drop_bit 16 w0) \<le> 2 ^ 29 \<and>
     (\<forall>hs. \<forall>k < unat (drop_bit 16 w0). pcie_dev d hs hi (push_bit 3 (drop_bit 3 lo + of_nat k)) = prog k))"

definition load_seq :: "bpf_cfg \<Rightarrow> u32 \<Rightarrow> (nat \<Rightarrow> u32 \<times> u32) \<Rightarrow> (u32 \<times> u32) list" where
  "load_seq cfg vnic prog = (ME_CSR_USTORE_ADDR, 0x80000000 + NFD_BPF_START_OFF + vnic * NFD_BPF_MAX_LEN) #
     prog_seq prog (unat (drop_bit 16 (fst cfg))) @ [(ME_CSR_USTORE_ADDR, 0)]"

lemma update_one:
  assumes "quiesces d (me_isl_of x) (me_num_of x)" "x < 0x400" "host_prog d cfg prog"
  shows "\<exists>evs. update_bpf_mes d cfg vnic (x # mes) hs = update_bpf_mes d cfg vnic mes (evs @ hs) \<and>
     (\<forall>i' m'. ustore_writes i' m' evs = (if i' = me_isl_of x \<and> m' = me_num_of x then load_seq cfg vnic prog else [])) \<and>
     (\<exists>hq c. evs @ hs = c @ bpf_load d cfg vnic (me_isl_of x) (me_num_of x) hq \<and> engine_quiet d (me_isl_of x) (me_num_of x) hq)"
proof -
  let ?i = "me_isl_of x" and ?m = "me_num_of x"
  obtain w0 lo hi where cfg: "cfg = (w0, lo, hi)" by (cases cfg) auto
  obtain s where s: "signal_quiesce ?i ?m hs = s @ hs" "no_ustore s" using signal_quiesce_evs by blast
  obtain q where q: "quiesce d ?i ?m (Sleep 10000 # s @ hs) = Some (q @ Sleep 10000 # s @ hs)" "no_ustore q"
    "engine_quiet d ?i ?m (q @ Sleep 10000 # s @ hs)" using quiesce_returns [OF assms(1)] by blast
  let ?hq = "q @ Sleep 10000 # s @ hs"
  obtain l where l: "bpf_load d cfg vnic ?i ?m ?hq = l @ ?hq"
    "\<And>i' m'. ustore_writes i' m' l = (if i' = ?i \<and> m' = ?m then load_seq cfg vnic prog else [])"
    using bpf_load_writes [OF me_parts(1,2) [OF assms(2)], of lo w0 d hi prog vnic ?hq] assms(3)
    by (auto simp: cfg host_prog_def load_seq_def)
  obtain r where r: "bpf_restart d ?i ?m (l @ ?hq) = r @ l @ ?hq" "no_ustore r" using bpf_restart_evs by blast
  let ?evs = "r @ l @ q @ Sleep 10000 # s"
  have "update_bpf_mes d cfg vnic (x # mes) hs = update_bpf_mes d cfg vnic mes (?evs @ hs)"
    using s(1) q(1) l(1) r(1) by (simp add: Let_def me_isl_of_def me_num_of_def)
  moreover have "ustore_writes i' m' ?evs = (if i' = ?i \<and> m' = ?m then load_seq cfg vnic prog else [])" for i' m'
  proof -
    have "ustore_writes i' m' (q @ Sleep 10000 # s) = []" using q(2) s(2) by (intro ustore_writes_none) simp
    then show ?thesis using ustore_writes_none [OF r(2)] l(2) by (simp add: ustore_writes_append [of _ _ r] ustore_writes_append [of _ _ l])
  qed
  moreover have "?evs @ hs = r @ bpf_load d cfg vnic ?i ?m ?hq" using l(1) by simp
  ultimately show ?thesis using q(3) by blast
qed

lemma update_mes:
  assumes "\<forall>x \<in> set mes. quiesces d (me_isl_of x) (me_num_of x)" "\<forall>x \<in> set mes. x < 0x400" "distinct mes"
    and "host_prog d cfg prog"
  shows "\<exists>evs. update_bpf_mes d cfg vnic mes hs = Some (evs @ hs) \<and>
     (\<forall>x < 0x400. ustore_writes (me_isl_of x) (me_num_of x) evs = (if x \<in> set mes then load_seq cfg vnic prog else [])) \<and>
     (\<forall>x \<in> set mes. \<exists>hq c. evs @ hs = c @ bpf_load d cfg vnic (me_isl_of x) (me_num_of x) hq \<and>
        engine_quiet d (me_isl_of x) (me_num_of x) hq)"
  using assms(1-3)
proof (induction mes arbitrary: hs)
  case Nil
  then show ?case by (simp add: ustore_writes_def)
next
  case (Cons x mes)
  obtain e1 where 1: "update_bpf_mes d cfg vnic (x # mes) hs = update_bpf_mes d cfg vnic mes (e1 @ hs)"
    "\<And>i' m'. ustore_writes i' m' e1 = (if i' = me_isl_of x \<and> m' = me_num_of x then load_seq cfg vnic prog else [])"
    "\<exists>hq c. e1 @ hs = c @ bpf_load d cfg vnic (me_isl_of x) (me_num_of x) hq \<and> engine_quiet d (me_isl_of x) (me_num_of x) hq"
    using update_one [of d x cfg prog vnic mes hs] Cons.prems assms(4) by auto
  obtain e2 where 2: "update_bpf_mes d cfg vnic mes (e1 @ hs) = Some (e2 @ e1 @ hs)"
    "\<And>y. y < 0x400 \<Longrightarrow> ustore_writes (me_isl_of y) (me_num_of y) e2 = (if y \<in> set mes then load_seq cfg vnic prog else [])"
    "\<And>y. y \<in> set mes \<Longrightarrow> \<exists>hq c. e2 @ e1 @ hs = c @ bpf_load d cfg vnic (me_isl_of y) (me_num_of y) hq \<and>
        engine_quiet d (me_isl_of y) (me_num_of y) hq"
    using Cons.IH [of "e1 @ hs"] Cons.prems by auto
  have "ustore_writes (me_isl_of y) (me_num_of y) (e2 @ e1) = (if y \<in> set (x # mes) then load_seq cfg vnic prog else [])"
    if "y < 0x400" for y
    unfolding ustore_writes_append 1(2) 2(2) [OF that] using me_inj [OF that, of x] Cons.prems by auto
  moreover have "\<exists>hq c. (e2 @ e1) @ hs = c @ bpf_load d cfg vnic (me_isl_of y) (me_num_of y) hq \<and>
      engine_quiet d (me_isl_of y) (me_num_of y) hq" if "y \<in> set (x # mes)" for y
    using that 1(3) 2(3) [of y] by (metis append_assoc set_ConsD)
  ultimately show ?case using 1(1) 2(1) by (intro exI [of _ "e2 @ e1"]) (simp add: append_assoc)
qed

section \<open>Crossing a 4 GB boundary\<close>

fun pcie_reads :: "dev_hist \<Rightarrow> (u32 \<times> u32) list" where
  "pcie_reads [] = []"
| "pcie_reads (PcieRead hi lo # hs) = pcie_reads hs @ [(hi, lo)]"
| "pcie_reads (_ # hs) = pcie_reads hs"

lemma bpf_copy_after_wrap:
  assumes "k + n < 2 ^ 16"
  shows "pcie_reads (bpf_copy d i m n hi (0x20000000 + of_nat k) hs) =
     pcie_reads hs @ map (\<lambda>j. (hi + of_nat j, of_nat (8 * (k + j)))) [0..<n]"
  using assms
proof (induction n arbitrary: k hi hs)
  case (Suc n)
  have a: "push_bit 3 (0x20000000 + of_nat k :: u32) = of_nat (8 * k)"
  proof -
    have "(0x100000000 :: u32) = 0" by code_simp
    then show ?thesis by (simp add: push_bit_eq_mult distrib_right mult.commute)
  qed
  have u: "unat (0x20000000 + of_nat k + 1 :: u32) = 0x20000000 + k + 1"
    using Suc.prems by (simp add: unat_word_ariths unat_of_nat take_bit_nat_eq_self)
  have "unat (drop_bit 29 (0x20000000 + of_nat k + 1 :: u32)) = 1"
    unfolding drop_bit_eq_div unat_div u using Suc.prems by (simp add: unat_pow2)
  then have c: "drop_bit 29 (0x20000000 + of_nat k + 1 :: u32) = 1" by (simp add: word_unat_eq_iff)
  have n1: "0x20000000 + of_nat k + 1 = (0x20000000 + of_nat (Suc k) :: u32)" by simp
  have "pcie_reads (bpf_copy d i m (Suc n) hi (0x20000000 + of_nat k) hs) =
      (pcie_reads hs @ [(hi, of_nat (8 * k))]) @ map (\<lambda>j. (hi + 1 + of_nat j, of_nat (8 * (Suc k + j)))) [0..<n]"
    unfolding bpf_copy.simps a n1 Let_def ct_write_csr_def c [unfolded n1]
    by (cases "pcie_dev d hs hi (of_nat (8 * k))", simp only: prod.case, subst Suc.IH) (use Suc.prems in simp_all)
  also have "map (\<lambda>j. (hi + 1 + of_nat j, of_nat (8 * (Suc k + j)) :: u32)) [0..<n] =
      map (\<lambda>j. (hi + of_nat j, of_nat (8 * (k + j)))) [Suc 0..<Suc n]"
    unfolding map_Suc_upt [symmetric] by (simp add: comp_def add.assoc del: upt_Suc)
  finally show ?case by (simp add: upt_conv_Cons [of 0 "Suc n"] del: upt_Suc bpf_copy.simps)
qed simp

section \<open>Properties\<close>

text \<open>C12. Loading a BPF program always completes when the worker threads quiesce
  and the program does not cross a 4 GB boundary of host memory: every listed
  engine, and no other, gets the start address of the vNIC's program area, then
  the program words in order, then the return to normal mode; and every
  engine is quiet when its code store is first written: its contexts are
  disabled and each has been seen waiting for an epoch or a resume signal
  since.\<close>

theorem bpf_prog_loaded:
  assumes "\<forall>x \<in> set dp_mes_ids. quiesces d (me_isl_of x) (me_num_of x)" "\<forall>x \<in> set dp_mes_ids. x < 0x400"
    and "distinct dp_mes_ids" "host_prog d (bar_bpf vid) prog"
  shows "\<exists>evs. nic_local_bpf_reconfig d dp_mes_ids bar_bpf vid vnic hs = Some (evs @ hs) \<and>
     (\<forall>x < 0x400. ustore_writes (me_isl_of x) (me_num_of x) evs =
        (if x \<in> set dp_mes_ids then load_seq (bar_bpf vid) vnic prog else [])) \<and>
     (\<forall>x \<in> set dp_mes_ids. \<exists>hq c.
        evs @ hs = c @ bpf_load d (bar_bpf vid) vnic (me_isl_of x) (me_num_of x) hq \<and>
        engine_quiet d (me_isl_of x) (me_num_of x) hq)"
  unfolding nic_local_bpf_reconfig_def update_bpf_prog_def by (rule update_mes [OF assms])

text \<open>A device whose threads wait for a resume and whose host memory holds the
  two words of a program.\<close>

definition bpf_dev_ex :: device where
  "bpf_dev_ex = \<lparr>xpb_dev = (\<lambda>_ _. 0), csr_dev = (\<lambda>hs a. 0x1000), pcie_dev = (\<lambda>hs hi lo. (lo, hi)), tmq_dev = (\<lambda>_ _ _. 0)\<rparr>"

lemma wkp_scan_ready:
  assumes "\<And>hs a. csr_dev d hs a = 0x1000"
  shows "fst (wkp_scan d i m cxs en hs) = en"
proof (induction cxs arbitrary: en hs)
  case (Cons cx cxs)
  have "c_true (0x1000 AND (push_bit PKT_IO_SIG_EPOCH 1 OR push_bit PKT_IO_SIG_RESUME 1) :: u32)"
    by (simp add: PKT_IO_SIG_EPOCH_def PKT_IO_SIG_RESUME_def c_true_def)
  then show ?case using Cons.IH
    by (simp add: ct_read_csr_def csr_read_def assms Let_def del: c_true_or)
qed simp

lemma quiesces_ready:
  assumes "\<And>hs a. csr_dev d hs a = 0x1000"
  shows "quiesces d i m"
proof -
  have "fst (quiesce_round d i m hs) = 0" for hs
    by (simp add: quiesce_round_def ct_read_csr_def csr_read_def Let_def wkp_scan_ready [OF assms] assms)
  then show ?thesis by (simp add: quiesces_def)
qed

lemma quiesces_ex: "quiesces bpf_dev_ex i m"
  by (rule quiesces_ready) (simp add: bpf_dev_ex_def)

theorem bpf_prog_loaded_witness:
  "\<exists>evs. nic_local_bpf_reconfig bpf_dev_ex [0x204, 0x205] (\<lambda>_. (0x20000, 0x1000, 7)) 3 1 [] = Some evs \<and>
     ustore_writes 0x20 5 evs = load_seq (0x20000, 0x1000, 7) 1 (\<lambda>k. (0x1000 + 8 * of_nat k, 7))"
proof -
  let ?cfg = "(0x20000, 0x1000, 7) :: bpf_cfg" and ?prog = "\<lambda>k. (0x1000 + 8 * of_nat k, 7) :: u32 \<times> u32"
  let ?mes = "[0x204, 0x205] :: u32 list"
  have p: "host_prog bpf_dev_ex ?cfg ?prog"
    by (simp add: host_prog_def bpf_dev_ex_def push_bit_eq_mult)
  have m: "me_isl_of 0x205 = 0x20" "me_num_of 0x205 = 5" by (simp_all add: me_isl_of_def me_num_of_def)
  have h: "\<forall>x \<in> set ?mes. quiesces bpf_dev_ex (me_isl_of x) (me_num_of x)" "\<forall>x \<in> set ?mes. x < 0x400" "distinct ?mes"
    using quiesces_ex by simp_all
  obtain evs where r: "nic_local_bpf_reconfig bpf_dev_ex ?mes (\<lambda>_. ?cfg) 3 1 [] = Some (evs @ [])"
    and u: "\<forall>x < 0x400. ustore_writes (me_isl_of x) (me_num_of x) evs = (if x \<in> set ?mes then load_seq ?cfg 1 ?prog else [])"
    using bpf_prog_loaded [where d = bpf_dev_ex and dp_mes_ids = ?mes and bar_bpf = "\<lambda>_. ?cfg" and prog = ?prog
        and vid = 3 and vnic = 1 and hs = "[]", OF h p] by blast
  then show ?thesis using spec [OF u, of "0x205"] unfolding m by auto
qed

text \<open>C39. A program whose last word below a 4 GB boundary is its first one is read
  from wrong addresses from its third word on: the high part of the address is
  advanced once per word instead of once at the boundary, because the carry bit
  is not removed from the low part.\<close>

theorem bpf_copy_crosses_4g:
  assumes "n < 2 ^ 15"
  shows "pcie_reads (bpf_copy d i m (Suc n) hi (drop_bit 3 0xfffffff8) []) =
     (hi, 0xfffffff8) # map (\<lambda>j. (hi + 1 + of_nat j, of_nat (8 * j))) [0..<n]"
proof -
  have a: "push_bit 3 (drop_bit 3 0xfffffff8 :: u32) = 0xfffffff8" "drop_bit 3 0xfffffff8 + 1 = (0x20000000 + of_nat 0 :: u32)"
    "drop_bit 29 (0x20000000 + of_nat 0 :: u32) = 1" by simp_all
  show ?thesis
    unfolding bpf_copy.simps a Let_def ct_write_csr_def
    by (cases "pcie_dev d [] hi 0xfffffff8", simp only: prod.case, subst bpf_copy_after_wrap) (use assms in simp_all)
qed

theorem bpf_copy_crosses_4g_witness:
  "pcie_reads (bpf_copy bpf_dev_ex 0x20 4 3 7 (drop_bit 3 0xfffffff8) []) = [(7, 0xfffffff8), (8, 0), (9, 8)]"
  using bpf_copy_crosses_4g [of 2 bpf_dev_ex "0x20" 4 7] by (simp add: upt_rec del: bpf_copy.simps)

end
