(* ===== verification/ControlLib.thy ===== *)
theory ControlLib
  imports ConfigOps AppPrivate LinkCtrl NicLocal
begin

unbundle bit_operations_syntax

text \<open>
  \<open>firmware/apps/nic/app_control_lib.c\<close>: how the application master handles the
  reconfiguration of a control, PF or VF vNIC, and the body of
  \<open>cfg_changes_loop\<close> of \<open>app_master_main.c\<close>.  The state \<open>app_state\<close> joins the
  private tables, the worker tables, the switch messages, the memory shared
  with the host and the history of the hardware.  The NFD library calls and
  the driver interface are parameters in \<open>ctl_env\<close>.  A handler runs as one
  step; \<open>None\<close> stands for a failed assert, a spin on a held mutex or a loop that
  never ends.  \<open>junk\<close> supplies the content of the uninitialised locals of the
  calls, numbered in call order.
\<close>

section \<open>Parameters and state\<close>

record sriov_mb =
  mb_vf :: u32
  mb_update_flags :: u32

record ctl_env =
  ce :: cfg_env
  vev :: veb_env
  lev :: link_env
  cf :: ctl_flags
  NS_PLATFORM_TYPE :: nat
  NFD_MAX_CTRL :: nat
  NFD_CFG_CTRL_CAP :: u32
  CFG_STS_LINK :: u32
  NFD_VF_CFG_MB_CAP_MAC :: u32
  NFD_VF_CFG_MAC_SZ :: nat
  sriov_raw64 :: "sriov_cfg \<Rightarrow> u64"
  LINK_STATE_AUTO :: "2 word"
  LINK_STATE_ENABLE :: "2 word"
  LINK_STATE_DISABLE :: "2 word"
  dp_mes_ids :: "u32 list"
  NFD_PCIE_EMEM :: "nat \<Rightarrow> bool"

record app_state =
  priv :: app_private
  chw :: cfg_hw
  vio :: veb_io
  host :: host_mem
  hist :: dev_hist
  mac_reg_lock :: u32
  bar_ctrl :: "u32 \<Rightarrow> u32 \<Rightarrow> u32 \<times> u32"
  bar_sts :: "u32 \<Rightarrow> u32 \<Rightarrow> u32"
  bar_bpf :: "u32 \<Rightarrow> bpf_cfg"
  vf_mb :: "u32 \<Rightarrow> sriov_mb"
  vf_mb_ret :: "u32 \<Rightarrow> u32"

record cfg_msg =
  msg_error :: u32
  msg_valid :: u32
  msg_vid :: u32

record junk =
  j_acts :: action_list
  j_word :: u32
  j_vlan :: nat

type_synonym ctl_result = "(int \<times> cfg_msg \<times> app_state) option"

text \<open>The board, and its port numbers as the macros take them.\<close>

abbreviation board :: "ctl_env \<Rightarrow> platform" where
  "board e \<equiv> plat (ce e)"

definition NVNICS :: "ctl_env \<Rightarrow> nat" where
  "NVNICS e = NS_PLATFORM_NUM_PORTS (board e) + NFD_MAX_VFS (ce e) + NFD_MAX_CTRL e"

section \<open>Capabilities, \<open>nfd_user_cfg.h\<close>\<close>

definition NFD_CFG_VF_CAP :: "net_ctrl \<Rightarrow> ctl_flags \<Rightarrow> u32" where
  "NFD_CFG_VF_CAP n c = CTRL_ENABLE n OR CTRL_PROMISC n OR CTRL_RXCSUM n OR CTRL_TXCSUM n OR
     CTRL_MSIXAUTO c OR CTRL_CSUM_COMPLETE n OR CTRL_GATHER c OR CTRL_LSO c OR CTRL_IRQMOD c OR CTRL_VXLAN n"

definition NFD_CFG_VF_LEGAL_UPD :: "net_ctrl \<Rightarrow> ctl_flags \<Rightarrow> u32" where
  "NFD_CFG_VF_LEGAL_UPD n c = UPDATE_GEN n OR UPDATE_RING c OR UPDATE_MSIX c OR UPDATE_RESET c OR
     UPDATE_IRQMOD c OR UPDATE_MACADDR n OR UPDATE_VXLAN c"

definition NS_PLATFORM_CADMIUM_DDR_1x50 :: nat where
  "NS_PLATFORM_CADMIUM_DDR_1x50 = 19"

definition NFD_CFG_PF_CAP :: "nat \<Rightarrow> net_ctrl \<Rightarrow> ctl_flags \<Rightarrow> u32" where
  "NFD_CFG_PF_CAP ty n c =
    (let rest = CTRL_RXCSUM n OR CTRL_TXCSUM n OR CTRL_RSS c OR CTRL_RSS2 c OR CTRL_MSIXAUTO c OR
           CTRL_CSUM_COMPLETE n OR CTRL_GATHER c OR CTRL_LSO c OR CTRL_IRQMOD c OR CTRL_BPF n OR
           CTRL_LIVE_ADDR c OR CTRL_VXLAN n OR CTRL_NVGRE n
     in if ty = NS_PLATFORM_CADMIUM_DDR_1x50 then CTRL_ENABLE n OR rest else CTRL_ENABLE n OR CTRL_PROMISC n OR rest)"

definition NFD_CFG_PF_LEGAL_UPD :: "net_ctrl \<Rightarrow> ctl_flags \<Rightarrow> u32" where
  "NFD_CFG_PF_LEGAL_UPD n c = UPDATE_GEN n OR UPDATE_RING c OR UPDATE_RSS n OR UPDATE_MSIX c OR UPDATE_RESET c OR
     UPDATE_IRQMOD c OR UPDATE_VXLAN c OR UPDATE_BPF n OR UPDATE_MACADDR n OR UPDATE_VF n"

section \<open>Ports\<close>

definition ctl_word :: "app_state \<Rightarrow> u32 \<Rightarrow> u32 \<Rightarrow> u32" where
  "ctl_word s pcie vid = nic_control_word (priv s) (unat pcie) vid"

definition put_ctl_word :: "u32 \<Rightarrow> u32 \<Rightarrow> u32 \<Rightarrow> app_state \<Rightarrow> app_state" where
  "put_ctl_word pcie vid control s = s\<lparr>priv := set_nic_control_word (unat pcie) vid control (priv s)\<rparr>"

definition nic_control_check_up :: "ctl_env \<Rightarrow> app_private \<Rightarrow> u32 \<Rightarrow> u32" where
  "nic_control_check_up e p vid =
     fold (\<lambda>pcie up_test. up_test OR nic_control_word p pcie vid) [0..<NFD_MAX_ISL (ce e)] 0 AND CTRL_ENABLE (nc (ce e))"

definition port_speed_to_link_rate :: "nat \<Rightarrow> u32" where
  "port_speed_to_link_rate speed =
    (if speed = 1 then 2 else if speed = 10 then 3 else if speed = 25 then 4 else if speed = 40 then 5
     else if speed = 50 then 6 else if speed = 100 then 7 else 0)"

fun disable_port_tx_datapath :: "link_env \<Rightarrow> nat \<Rightarrow> nat list \<Rightarrow> dev_hist \<Rightarrow> dev_hist option" where
  "disable_port_tx_datapath le nbi [] hs = Some hs"
| "disable_port_tx_datapath le nbi (q # qs) hs = do {
     hs \<leftarrow> nbi_tm_disable_queue le nbi q hs;
     disable_port_tx_datapath le nbi qs hs }"

fun enable_port_tx_datapath :: "link_env \<Rightarrow> nat \<Rightarrow> nat list \<Rightarrow> dev_hist \<Rightarrow> dev_hist option" where
  "enable_port_tx_datapath le nbi [] hs = Some hs"
| "enable_port_tx_datapath le nbi (q # qs) hs = do {
     hs \<leftarrow> nbi_tm_enable_queue le nbi q hs;
     enable_port_tx_datapath le nbi qs hs }"

text \<open>\<open>for (q_num = start_q; q_num <= end_q; ++q_num)\<close>\<close>

definition port_queues :: "platform \<Rightarrow> nat \<Rightarrow> nat list" where
  "port_queues p port = [NS_PLATFORM_NBI_TM_QID_LO p port..<Suc (NS_PLATFORM_NBI_TM_QID_HI p port)]"

text \<open>The rounds of \<open>for (i = 0; i < 10; ++i)\<close>.\<close>

fun process_pf_reconfig_wait_link_up :: "link_env \<Rightarrow> platform \<Rightarrow> nat \<Rightarrow> nat \<Rightarrow> dev_hist \<Rightarrow> dev_hist option" where
  "process_pf_reconfig_wait_link_up le p port 0 hs = Some hs"
| "process_pf_reconfig_wait_link_up le p port (Suc n) hs = do {
     (rx_enabled, hs) \<leftarrow> mac_eth_check_rx_enable le (NS_PLATFORM_MAC p port) (NS_PLATFORM_MAC_CORE p port)
       (NS_PLATFORM_MAC_CORE_SERDES_LO p port) hs;
     (link_up, hs) \<leftarrow> mac_eth_port_link_state le (NS_PLATFORM_MAC p port) (NS_PLATFORM_MAC_SERDES_LO p port)
       (\<not> NS_PLATFORM_PORT_SPEED p port > 1) hs;
     let hs = Sleep (200 * NS_PLATFORM_TCLK p * 1000) # hs;
     if rx_enabled \<and> link_up = LINK_UP then Some hs
     else process_pf_reconfig_wait_link_up le p port n hs }"

text \<open>One pass over the queues of a port, up to the first that is not empty.\<close>

fun tmq_scan :: "device \<Rightarrow> nat \<Rightarrow> nat list \<Rightarrow> dev_hist \<Rightarrow> bool \<times> dev_hist" where
  "tmq_scan d nbi [] hs = (False, hs)"
| "tmq_scan d nbi (q # qs) hs =
    (if c_true (tmq_dev d hs nbi q) then (True, TmqStatus nbi q # hs)
     else tmq_scan d nbi qs (TmqStatus nbi q # hs))"

definition TMQ_DRAIN_RETRIES :: nat where
  "TMQ_DRAIN_RETRIES = 15"

fun tmq_drain_loop :: "device \<Rightarrow> platform \<Rightarrow> nat \<Rightarrow> nat \<Rightarrow> dev_hist \<Rightarrow> dev_hist" where
  "tmq_drain_loop d p port 0 hs = hs"
| "tmq_drain_loop d p port (Suc n) hs =
    (let (occupied, hs) = tmq_scan d (NS_PLATFORM_MAC p port) (port_queues p port) hs;
         hs = Sleep (NS_PLATFORM_TCLK p * 1000) # hs
     in if occupied then tmq_drain_loop d p port n hs else hs)"

definition process_pf_reconfig_tmq_drain :: "device \<Rightarrow> platform \<Rightarrow> nat \<Rightarrow> dev_hist \<Rightarrow> dev_hist" where
  "process_pf_reconfig_tmq_drain d p port hs = tmq_drain_loop d p port TMQ_DRAIN_RETRIES hs"

section \<open>MAC operations under the mutex\<close>

definition LOCAL_MUTEX_LOCK :: "app_state \<Rightarrow> app_state option" where
  "LOCAL_MUTEX_LOCK s = (if c_true (mac_reg_lock s) then None else Some (s\<lparr>mac_reg_lock := 1\<rparr>))"

definition LOCAL_MUTEX_UNLOCK :: "app_state \<Rightarrow> app_state" where
  "LOCAL_MUTEX_UNLOCK s = s\<lparr>mac_reg_lock := 0\<rparr>"

definition mac_port_enable_rx :: "ctl_env \<Rightarrow> nat \<Rightarrow> app_state \<Rightarrow> app_state option" where
  "mac_port_enable_rx e port s = do {
     s \<leftarrow> LOCAL_MUTEX_LOCK s;
     hs \<leftarrow> mac_eth_enable_rx (lev e) (NS_PLATFORM_MAC (board e) port) (NS_PLATFORM_MAC_CORE (board e) port)
       (NS_PLATFORM_MAC_CORE_SERDES_LO (board e) port) (hist s);
     Some (LOCAL_MUTEX_UNLOCK (s\<lparr>hist := hs\<rparr>)) }"

definition mac_port_disable_rx :: "ctl_env \<Rightarrow> nat \<Rightarrow> app_state \<Rightarrow> (bool \<times> app_state) option" where
  "mac_port_disable_rx e port s = do {
     s \<leftarrow> LOCAL_MUTEX_LOCK s;
     (result, hs) \<leftarrow> mac_eth_disable_rx (lev e) (NS_PLATFORM_MAC (board e) port) (NS_PLATFORM_MAC_CORE (board e) port)
       (NS_PLATFORM_MAC_CORE_SERDES_LO (board e) port) (nat (NS_PLATFORM_MAC_NUM_SERDES (board e) port)) (hist s);
     Some (result, LOCAL_MUTEX_UNLOCK (s\<lparr>hist := hs\<rparr>)) }"

definition mac_port_enable_tx :: "ctl_env \<Rightarrow> nat \<Rightarrow> app_state \<Rightarrow> app_state option" where
  "mac_port_enable_tx e port s = do {
     s \<leftarrow> LOCAL_MUTEX_LOCK s;
     hs \<leftarrow> enable_port_tx_datapath (lev e) (NS_PLATFORM_MAC (board e) port) (port_queues (board e) port) (hist s);
     Some (LOCAL_MUTEX_UNLOCK (s\<lparr>hist := hs\<rparr>)) }"

definition mac_port_disable_tx :: "ctl_env \<Rightarrow> nat \<Rightarrow> app_state \<Rightarrow> app_state option" where
  "mac_port_disable_tx e port s = do {
     s \<leftarrow> LOCAL_MUTEX_LOCK s;
     hs \<leftarrow> disable_port_tx_datapath (lev e) (NS_PLATFORM_MAC (board e) port) (port_queues (board e) port) (hist s);
     Some (LOCAL_MUTEX_UNLOCK (s\<lparr>hist := hs\<rparr>)) }"

definition mac_port_enable_tx_flush :: "ctl_env \<Rightarrow> nat \<Rightarrow> nat \<Rightarrow> nat \<Rightarrow> app_state \<Rightarrow> app_state option" where
  "mac_port_enable_tx_flush e mac mac_core mac_core_port s = do {
     s \<leftarrow> LOCAL_MUTEX_LOCK s;
     hs \<leftarrow> mac_eth_enable_tx_flush (lev e) mac mac_core mac_core_port (hist s);
     Some (LOCAL_MUTEX_UNLOCK (s\<lparr>hist := hs\<rparr>)) }"

definition mac_port_disable_tx_flush :: "ctl_env \<Rightarrow> nat \<Rightarrow> nat \<Rightarrow> nat \<Rightarrow> app_state \<Rightarrow> app_state option" where
  "mac_port_disable_tx_flush e mac mac_core mac_core_port s = do {
     s \<leftarrow> LOCAL_MUTEX_LOCK s;
     hs \<leftarrow> mac_eth_disable_tx_flush (lev e) mac mac_core mac_core_port (hist s);
     Some (LOCAL_MUTEX_UNLOCK (s\<lparr>hist := hs\<rparr>)) }"

section \<open>Link state of the VFs\<close>

text \<open>\<open>LS_SET\<close> and \<open>LS_CLEAR\<close> on one island of an array of arrays.\<close>

definition ls_upd :: "bool \<Rightarrow> nat \<Rightarrow> u32 \<Rightarrow> (nat \<Rightarrow> ls_array) \<Rightarrow> (nat \<Rightarrow> ls_array)" where
  "ls_upd b pcie vid a = a(pcie := (if b then LS_SET else LS_CLEAR) (a pcie) vid)"

text \<open>The status words: rate and link bit, or rate unknown and no link.\<close>

definition sts_up :: "platform \<Rightarrow> nat \<Rightarrow> u32" where
  "sts_up p port = push_bit 1 (port_speed_to_link_rate (NS_PLATFORM_PORT_SPEED p port)) OR 1"

definition sts_down :: u32 where
  "sts_down = push_bit 1 1"

definition put_sts :: "u32 \<Rightarrow> u32 \<Rightarrow> u32 \<Rightarrow> app_state \<Rightarrow> app_state" where
  "put_sts pcie vid v s = s\<lparr>bar_sts := (bar_sts s)(pcie := (bar_sts s pcie)(vid := v))\<rparr>"

definition update_vf_lsc_list :: "ctl_env \<Rightarrow> u32 \<Rightarrow> u32 \<Rightarrow> u32 \<Rightarrow> u32 \<Rightarrow> 2 word \<Rightarrow> app_state \<Rightarrow> app_state" where
  "update_vf_lsc_list e pcie port vf_vid control mode s =
    (let en = CTRL_ENABLE (nc (ce e)); pi = unat pcie; p = priv s;
         pf_link_state = LS_READ (ls_current p pi) (NFD_PF2VID (ce e) port);
         p = p\<lparr>vs_current := ls_upd (flag control en) pi vf_vid (vs_current p)\<rparr>;
         p = p\<lparr>vf_lsc_list := (vf_lsc_list p)(port := ls_upd (mode = LINK_STATE_AUTO e) pi vf_vid (vf_lsc_list p port))\<rparr>;
         p = fold (\<lambda>i p. if of_nat i \<noteq> port
               then p\<lparr>vf_lsc_list := (vf_lsc_list p)(of_nat i := ls_upd False pi vf_vid (vf_lsc_list p (of_nat i)))\<rparr>
               else p) [0..<NS_PLATFORM_NUM_PORTS (board e)] p;
         up = (mode = LINK_STATE_ENABLE e \<or> c_true pf_link_state);
         p = p\<lparr>ls_current := ls_upd up pi vf_vid (ls_current p)\<rparr>;
         s = put_sts pcie vf_vid (if up then sts_up (board e) (unat port) else sts_down) s;
         p = (if flag (fst (bar_ctrl s pcie vf_vid)) en then p\<lparr>pending := ls_upd True pi vf_vid (pending p)\<rparr> else p)
     in s\<lparr>priv := p\<rparr>)"

section \<open>Reconfiguration\<close>

text \<open>The write of \<open>n\<close> bytes at the start of the MAC address field of a BAR.\<close>

definition put_mac_bytes :: "nat \<Rightarrow> u64 \<Rightarrow> cfg_bar \<Rightarrow> cfg_bar" where
  "put_mac_bytes n w b =
    (let v = (w AND NOT (mask (64 - 8 * n))) OR (bar_mac64 b AND mask (64 - 8 * n))
     in b\<lparr>bar_mac0 := ucast (drop_bit 32 v), bar_mac1 := ucast v\<rparr>)"

definition handle_sriov_update :: "ctl_env \<Rightarrow> u32 \<Rightarrow> app_state \<Rightarrow> app_state" where
  "handle_sriov_update e pcie s =
    (let mb = vf_mb s pcie; h = host s; vf = mb_vf mb;
         h = (if flag (mb_update_flags mb) (NFD_VF_CFG_MB_CAP_MAC e)
              then h\<lparr>bar := (bar h)(pcie := (bar h pcie)(vf :=
                     put_mac_bytes (NFD_VF_CFG_MAC_SZ e) (sriov_raw64 e (vf_cfg h pcie vf)) (bar h pcie vf)))\<rparr>
              else h)
     in s\<lparr>host := h, vf_mb_ret := (vf_mb_ret s)(pcie := 0)\<rparr>)"

definition msg_fail :: "cfg_msg \<Rightarrow> app_state \<Rightarrow> ctl_result" where
  "msg_fail m s = Some (1, m\<lparr>msg_error := 1\<rparr>, s)"

definition process_ctrl_reconfig :: "ctl_env \<Rightarrow> junk \<Rightarrow> u32 \<Rightarrow> u32 \<Rightarrow> u32 \<Rightarrow> cfg_msg \<Rightarrow> app_state \<Rightarrow> ctl_result" where
  "process_ctrl_reconfig e j pcie control vid m s =
    (if c_true (control AND NOT (NFD_CFG_CTRL_CAP e)) then msg_fail m s
     else do {
       acts \<leftarrow> cfg_act_build_ctrl (ce e) (host s) pcie vid (j_acts j);
       hw \<leftarrow> cfg_act_write_host (ce e) pcie vid acts (chw s);
       let s = s\<lparr>chw := hw\<rparr>;
       let link_state = (if msg_error m = 0 \<and> flag control (CTRL_ENABLE (nc (ce e))) then CFG_STS_LINK e else 0);
       let s = put_sts pcie (msg_vid m) link_state s;
       Some (0, m, put_ctl_word pcie vid control s) })"

fun pf_vfs_up :: "ctl_env \<Rightarrow> (nat \<Rightarrow> junk) \<Rightarrow> u32 \<Rightarrow> u32 \<Rightarrow> nat list \<Rightarrow> u32 \<Rightarrow> app_state \<Rightarrow> (bool \<times> u32 \<times> app_state) option" where
  "pf_vfs_up e jk pcie control [] veb_up s = Some (False, veb_up, s)"
| "pf_vfs_up e jk pcie control (i # is) veb_up s =
    (let vid = NFD_VF2VID (ce e) (of_nat i) in
     if flag (ctl_word s pcie vid) (CTRL_ENABLE (nc (ce e))) then do {
       (r, hw, io) \<leftarrow> cfg_act_vf_up (ce e) (vev e) (host s) (j_acts (jk i)) (j_word (jk i)) (j_vlan (jk i)) pcie vid
          control (ctl_word s pcie vid) 0 (chw s) (vio s);
       let s = s\<lparr>chw := hw, vio := io\<rparr>;
       if r \<noteq> 0 then Some (True, veb_up, s) else pf_vfs_up e jk pcie control is 1 s }
     else pf_vfs_up e jk pcie control is veb_up s)"

fun pf_vfs_down :: "ctl_env \<Rightarrow> (nat \<Rightarrow> junk) \<Rightarrow> u32 \<Rightarrow> nat list \<Rightarrow> app_state \<Rightarrow> (bool \<times> app_state) option" where
  "pf_vfs_down e jk pcie [] s = Some (False, s)"
| "pf_vfs_down e jk pcie (i # is) s = do {
     (r, hw, io) \<leftarrow> cfg_act_vf_down (ce e) (vev e) (host s) (j_acts (jk i)) (j_vlan (jk i)) pcie (NFD_VF2VID (ce e) (of_nat i))
       (chw s) (vio s);
     let s = s\<lparr>chw := hw, vio := io\<rparr>;
     if r \<noteq> 0 then Some (True, s) else pf_vfs_down e jk pcie is s }"

text \<open>The part of \<open>process_pf_reconfig\<close> that follows a change of the enable flag.
  The result says whether it failed.\<close>

definition pf_enabled :: "ctl_env \<Rightarrow> u32 \<Rightarrow> app_state \<Rightarrow> (bool \<times> app_state) option" where
  "pf_enabled e port s = do {
     let hs = Sleep (50 * NS_PLATFORM_TCLK (board e) * 1000) # hist s;
     hs \<leftarrow> process_pf_reconfig_wait_link_up (lev e) (board e) (unat port) 10 hs;
     Some (False, s\<lparr>hist := hs\<rparr>) }"

definition pf_disabled :: "ctl_env \<Rightarrow> (nat \<Rightarrow> junk) \<Rightarrow> u32 \<Rightarrow> u32 \<Rightarrow> u32 \<Rightarrow> app_state \<Rightarrow> (bool \<times> app_state) option" where
  "pf_disabled e jk pcie vid port s = do {
     (ok, s) \<leftarrow> (if \<not> c_true (nic_control_check_up e (priv s) vid) then mac_port_disable_rx e (unat port) s else Some (True, s));
     if \<not> ok then Some (True, s)
     else do {
       let s = s\<lparr>hist := Sleep (10 * NS_PLATFORM_TCLK (board e) * 1000) # hist s\<rparr>;
       let j = jk (NFD_MAX_VFS (ce e));
       (_, hw, io) \<leftarrow> cfg_act_pf_down (ce e) (vev e) (host s) (j_acts j) (j_vlan j) pcie vid (chw s) (vio s);
       (failed, s) \<leftarrow> pf_vfs_down e jk pcie [0..<NFD_MAX_VFS (ce e)] (s\<lparr>chw := hw, vio := io\<rparr>);
       if failed then Some (True, s)
       else Some (False, s\<lparr>hist := process_pf_reconfig_tmq_drain (dv (lev e)) (board e) (unat port) (hist s)\<rparr>) } }"

definition pf_bring_up :: "ctl_env \<Rightarrow> (nat \<Rightarrow> junk) \<Rightarrow> u32 \<Rightarrow> u32 \<Rightarrow> u32 \<Rightarrow> u32 \<Rightarrow> app_state \<Rightarrow> (bool \<times> app_state) option" where
  "pf_bring_up e jk pcie control update vid s = do {
     (failed, veb_up, s) \<leftarrow> pf_vfs_up e jk pcie control [0..<NFD_MAX_VFS (ce e)] 0 s;
     if failed then Some (True, s)
     else do {
       let j = jk (NFD_MAX_VFS (ce e));
       (r, hw, io) \<leftarrow> cfg_act_pf_up (ce e) (vev e) (host s) (j_acts j) (j_word j) (j_vlan j) pcie vid veb_up control update
         (chw s) (vio s);
       Some (r \<noteq> 0, s\<lparr>chw := hw, vio := io\<rparr>) } }"

definition process_pf_reconfig ::
  "ctl_env \<Rightarrow> (nat \<Rightarrow> junk) \<Rightarrow> u32 \<Rightarrow> u32 \<Rightarrow> u32 \<Rightarrow> u32 \<Rightarrow> u32 \<Rightarrow> cfg_msg \<Rightarrow> app_state \<Rightarrow> ctl_result" where
  "process_pf_reconfig e jk pcie control update vid vnic m s =
    (let port = vnic; n = nc (ce e); en = CTRL_ENABLE n in
     if c_true (control AND NOT (NFD_CFG_PF_CAP (NS_PLATFORM_TYPE e) n (cf e))) then msg_fail m s
     else if c_true (update AND NOT (NFD_CFG_PF_LEGAL_UPD n (cf e))) then msg_fail m s
     else do {
       hs \<leftarrow> (if flag update (UPDATE_BPF n)
         then nic_local_bpf_reconfig (dv (lev e)) (dp_mes_ids e) (bar_bpf s) vid vnic (hist s) else Some (hist s));
       let s = s\<lparr>hist := hs\<rparr>;
       let s = (if flag update (UPDATE_VF n) then handle_sriov_update e pcie s else s);
       (failed, s) \<leftarrow> (if flag control en then pf_bring_up e jk pcie control update vid s else Some (False, s));
       if failed then msg_fail m s
       else do {
         let prev = ctl_word s pcie vid;
         let s = put_ctl_word pcie vid control s;
         (failed, s) \<leftarrow> (if flag (prev XOR control) en
            then (if flag control en then pf_enabled e port s else pf_disabled e jk pcie vid port s)
            else Some (False, s));
         if failed then msg_fail m s else Some (0, m, s) } })"

definition process_vf_reconfig ::
  "ctl_env \<Rightarrow> (nat \<Rightarrow> junk) \<Rightarrow> u32 \<Rightarrow> u32 \<Rightarrow> u32 \<Rightarrow> u32 \<Rightarrow> cfg_msg \<Rightarrow> app_state \<Rightarrow> ctl_result" where
  "process_vf_reconfig e jk pcie control update vid m s =
    (let n = nc (ce e); en = CTRL_ENABLE n; pf = NFD_PF2VID (ce e) 0 in
     if c_true (control AND NOT (NFD_CFG_VF_CAP n (cf e))) then msg_fail m s
     else if c_true (update AND NOT (NFD_CFG_VF_LEGAL_UPD n (cf e))) then msg_fail m s
     else
       let s = put_ctl_word pcie vid control s;
           sc = vf_cfg (host s) pcie (NFD_VID2VF (ce e) vid)
       in do {
         (failed, veb_up, ls_mode, s) \<leftarrow>
          (if flag control en then
             if \<not> flag (ctl_word s pcie pf) en then Some (True, 1, ctrl_link_state sc, s)
             else do {
               (r, hw, io) \<leftarrow> cfg_act_vf_up (ce e) (vev e) (host s) (j_acts (jk 0)) (j_word (jk 0)) (j_vlan (jk 0)) pcie vid
                 (ctl_word s pcie pf) control update (chw s) (vio s);
               Some (r \<noteq> 0, 1 :: u32, ctrl_link_state sc, s\<lparr>chw := hw, vio := io\<rparr>) }
           else if flag update (UPDATE_MACADDR n) \<and> MAC64_FROM_SRIOV_CFG sc \<noteq> 0 \<and> \<not> ctrl_trusted sc
             then Some (True, 0, LINK_STATE_DISABLE e, s)
           else do {
             (r, hw, io) \<leftarrow> cfg_act_vf_down (ce e) (vev e) (host s) (j_acts (jk 0)) (j_vlan (jk 0)) pcie vid (chw s) (vio s);
             let s = s\<lparr>chw := hw, vio := io\<rparr>;
             let veb_up = c_bool (\<exists>vf \<in> set [0..<NFD_MAX_VFS (ce e)]. flag (ctl_word s pcie (NFD_VF2VID (ce e) (of_nat vf))) en);
             Some (r \<noteq> 0, veb_up, LINK_STATE_DISABLE e, s) });
         if failed then msg_fail m s
         else do {
           (r, hw, io) \<leftarrow> cfg_act_pf_up (ce e) (vev e) (host s) (j_acts (jk 1)) (j_word (jk 1)) (j_vlan (jk 1)) pcie pf veb_up
             (ctl_word s pcie pf) 0 (chw s) (vio s);
           let s = s\<lparr>chw := hw, vio := io\<rparr>;
           if r \<noteq> 0 then msg_fail m s
           else Some (0, m, update_vf_lsc_list e pcie 0 vid control ls_mode s) } })"

section \<open>The configuration loop\<close>

text \<open>\<open>chk\<close> stands for \<open>nfd_cfg_master_chk_cfg_msg\<close>: the message of an island, if it
  has one.  The first component of the result is the C return value.\<close>

definition next_nfd_cfg_msg :: "ctl_env \<Rightarrow> (nat \<Rightarrow> cfg_msg option) \<Rightarrow> nat \<Rightarrow> cfg_msg \<Rightarrow> int \<times> nat \<times> cfg_msg \<times> nat" where
  "next_nfd_cfg_msg e chk cfg_msg_pcie m =
    (let m = m\<lparr>msg_error := 0, msg_valid := 0\<rparr>;
         cfg_msg_pcie = (if cfg_msg_pcie \<le> 3 then cfg_msg_pcie else 0);
         m = (if NFD_PCIE_EMEM e cfg_msg_pcie
              then (case chk cfg_msg_pcie of None \<Rightarrow> m | Some m' \<Rightarrow> m') else m);
         ret = (if c_true (msg_valid m) \<and> \<not> c_true (msg_error m) then 0 else 1)
     in (ret, cfg_msg_pcie, m, cfg_msg_pcie + 1))"

text \<open>One iteration of \<open>cfg_changes_loop\<close>; the last component is the completed
  message, which \<open>nfd_cfg_app_complete_cfg_msg\<close> returns to the host.\<close>

definition cfg_changes_step ::
  "ctl_env \<Rightarrow> (nat \<Rightarrow> junk) \<Rightarrow> (nat \<Rightarrow> cfg_msg option) \<Rightarrow> nat \<Rightarrow> cfg_msg \<Rightarrow> app_state
     \<Rightarrow> (nat \<times> cfg_msg \<times> app_state \<times> (nat \<times> cfg_msg) option) option" where
  "cfg_changes_step e jk chk cfg_msg_pcie m s =
    (let (ret, pcie, m, cur) = next_nfd_cfg_msg e chk cfg_msg_pcie m in
     if ret \<noteq> 0 then Some (cur, m, s, None)
     else
       let vid = msg_vid m; pc = of_nat pcie; (control, update) = bar_ctrl s pc vid; (ty, vnic) = NFD_VID2VNIC (ce e) vid
       in do {
         (r, m, s) \<leftarrow> (case ty of
            NFD_VNIC_TYPE_CTRL \<Rightarrow> process_ctrl_reconfig e (jk 0) pc control vid m s
          | NFD_VNIC_TYPE_PF \<Rightarrow> process_pf_reconfig e jk pc control update vid vnic m s
          | NFD_VNIC_TYPE_VF \<Rightarrow> process_vf_reconfig e jk pc control update vid m s);
         let m = m\<lparr>msg_valid := 0\<rparr>;
         Some (cur, m, s, Some (pcie, m)) })"

end
