(* ===== verification/ControlSpec.thy ===== *)
theory ControlSpec
  imports ControlLib
begin

unbundle bit_operations_syntax

text \<open>
  Properties of the reconfiguration handlers of \<open>ControlLib\<close>: what an illegal
  request does, which queues a port operation touches, the link policy of a VF,
  and the action lists after a VF was reconfigured.
\<close>

section \<open>Operations that return\<close>

lemma veb_add_total:
  assumes "veb_ok ve" "1 \<le> count acts" "count acts \<le> 16"
  shows "\<exists>key' io'. veb_add_loop ve nv [0..<NIC_NO_VLAN_ID + 1] key acts io = Some (Inr key', io')"
proof -
  have "\<forall>v\<in>set [0..<4095]. v < 4095" by simp
  from veb_add_loop_prefix [OF assms(1) this, of nv "[4095]" key acts io] obtain key1 io1 where
    loop: "veb_add_loop ve nv ([0..<4095] @ [4095]) key acts io = veb_add_loop ve nv [4095] key1 acts io1" by blast
  obtain acts' where acts': "cfg_act_remove_strip_vlan acts = Some acts'"
    using remove_strip_vlan_view [OF assms(2,3)] by blast
  obtain io2 where io2: "nic_mac_vlan_entry_op_cmsg ve (key1\<lparr>vlan_id := of_nat 4095\<rparr>) (Some (acts_words acts')) CMSG_TYPE_MAP_ADD io1 =
      Some (CMESG_DISPATCH_OK, io2)" using entry_add [OF assms(1)] by metis
  show ?thesis unfolding vlans_split loop
    using acts' io2 by (cases "vlan_selected nv 4095") (simp_all add: NIC_NO_VLAN_ID_def)
qed

lemma write_veb_total:
  assumes "veb_ok ve" "1 \<le> count acts" "count acts \<le> 16"
  shows "\<exists>err hw' io'. cfg_act_write_veb ve jnk vid key (Some acts) hw io = Some (err, hw', io') \<and>
     (err = NO_ERROR \<longleftrightarrow> unicast key) \<and> cls_instr hw' = cls_instr hw \<and> fl_buf_sz_cache hw' = fl_buf_sz_cache hw"
proof (cases "unicast key")
  case False
  then show ?thesis by (auto simp: cfg_act_write_veb_def unicast_def Let_def)
next
  case True
  let ?nv = "unat (vlan_id key)"
  obtain key' io1 where 1: "veb_add_loop ve ?nv [0..<NIC_NO_VLAN_ID + 1] key acts io = Some (Inr key', io1)"
    using veb_add_total [OF assms] by blast
  obtain io2 where 2: "veb_del_loop ve ?nv [0..<NIC_NO_VLAN_ID + 1] key' (veb_stored_keys hw vid) NO_ERROR io1 = Some (NO_ERROR, io2)"
    using veb_del_all [OF assms(1)] by blast
  have "cfg_act_write_veb ve jnk vid key (Some acts) hw io =
      Some (NO_ERROR, hw\<lparr>veb_stored_keys := (veb_stored_keys hw)(vid := key')\<rparr>, io2)"
    using True 1 2 unfolding cfg_act_write_veb_def unicast_def Let_def by (simp del: upt_Suc upt_rec_numeral)
  then show ?thesis using True by simp
qed

lemma unicast_vlan [simp]: "unicast (key\<lparr>vlan_id := v\<rparr>) = unicast key"
  by (simp add: unicast_def MAC64_FROM_VEB_KEY_def)

lemma rss_update_instr [simp]: "cls_instr (rss_update e h pcie vid hw) = cls_instr hw"
proof -
  have "cls_instr (fold (\<lambda>i hw. hw\<lparr>cls_rss := (cls_rss hw)(isl_addr_hi i :=
         cls_write s xs (cls_rss hw (isl_addr_hi i)))\<rparr>) is hw) = cls_instr hw" for s xs "is"
    by (induction "is" arbitrary: hw) auto
  then show ?thesis by (simp add: rss_update_def upd_rss_table_def wr_rss_tbl_def)
qed

lemma instr_at_cong: "cls_instr hw = cls_instr hw' \<Longrightarrow> instr_at hw = instr_at hw'"
  by (simp add: instr_at_def fun_eq_iff)

lemma spec_nbi_cong:
  "fl_buf_sz_cache hw = fl_buf_sz_cache hw' \<Longrightarrow>
     spec_nbi e h jnk pcie vid veb_up control hw = spec_nbi e h jnk pcie vid veb_up control hw'"
  by (simp only: spec_nbi_def a_tx_host_def)

text \<open>Where the wire list of a PF is, apart from the slots of its host queues.\<close>

definition wire_slot :: "u32 \<Rightarrow> u32" where
  "wire_slot port = push_bit 8 1 OR port"

definition slots_ok :: "cfg_env \<Rightarrow> u32 \<Rightarrow> u32 \<Rightarrow> bool" where
  "slots_ok e pcie vid \<longleftrightarrow> wire_slot (snd (NFD_VID2VNIC e vid)) < 2 ^ 26 \<and>
     (\<forall>i < NFD_VID_MAXQS e vid. push_bit 6 pcie OR NFD_VID2QID e vid i < 2 ^ 26 \<and>
        push_bit 6 pcie OR NFD_VID2QID e vid i \<noteq> wire_slot (snd (NFD_VID2VNIC e vid)))"

definition holds_list :: "cfg_env \<Rightarrow> cfg_hw \<Rightarrow> u32 \<Rightarrow> action list \<Rightarrow> bool" where
  "holds_list e hw q as \<longleftrightarrow> (\<forall>island \<in> set (app_isl_ids e). map (instr_at hw island q) [0..<words as] = encode None as)"

lemma holds_list_cong: "cls_instr hw = cls_instr hw' \<Longrightarrow> holds_list e hw q as = holds_list e hw' q as"
  using instr_at_cong [of hw hw'] by (simp add: holds_list_def)

lemma write_wire_holds:
  assumes "cfg_act_write_queue e q (mk as j) hw = Some hw'"
  shows "holds_list e hw' q as"
  unfolding holds_list_def
proof
  fix island assume i: "island \<in> set (app_isl_ids e)"
  have "map (instr_at hw' island q) [0..<words as] = view (mk as j)"
    unfolding view_def count_mk using write_queue_at [OF assms i] by simp
  then show "map (instr_at hw' island q) [0..<words as] = encode None as" by (simp add: view_mk)
qed

lemma write_host_holds:
  assumes "cfg_act_write_host e pcie vid acts hw = Some hw'" "slots_ok e pcie vid"
    and "holds_list e hw (wire_slot (snd (NFD_VID2VNIC e vid))) as" "words as \<le> 16"
  shows "holds_list e hw' (wire_slot (snd (NFD_VID2VNIC e vid))) as"
proof -
  let ?q = "wire_slot (snd (NFD_VID2VNIC e vid))"
  let ?qs = "map (\<lambda>i. push_bit 6 pcie OR NFD_VID2QID e vid i) [0..<NFD_VID_MAXQS e vid]"
  have lt: "\<forall>q\<in>set ?qs. q < 2 ^ 26" "?q \<notin> set ?qs" "?q < 2 ^ 26"
    using assms(2) by (auto simp: slots_ok_def)
  have "instr_at hw' island ?q i = instr_at hw island ?q i" if "i < words as" for i island
    using write_queues_other [OF assms(1) [unfolded cfg_act_write_host_def] lt(1,3,2)] that assms(4) by simp
  then have "map (instr_at hw' island ?q) [0..<words as] = map (instr_at hw island ?q) [0..<words as]" for island by simp
  then show ?thesis using assms(3) by (simp only: holds_list_def)
qed

lemma spec_veb_pf_words: "1 \<le> words (spec_veb_pf e h jnk pcie vid control hw)"
  by (simp add: spec_veb_pf_def Let_def)

text \<open>The part of bringing up a PF that comes before its switch entries: \<open>hw3\<close> is
  the state in which they are written, and what is left does not disturb the
  wire-side list.\<close>

lemma pf_up_lists:
  assumes "NFD_VID2VNIC e vid = (NFD_VNIC_TYPE_PF, vnic)" "slots_ok e pcie vid" "mac = drop_bit 16 (bar_mac64 (bar h pcie vid))"
  shows "\<exists>hw3 pf. (\<forall>ve jnkv io. cfg_act_pf_up e ve h acts0 jnk jnkv pcie vid veb_up control update hw io =
     (if vnic = 0 then do {
          (acts, hw) \<leftarrow> cfg_act_build_veb_pf e h jnk pcie vid control update pf hw3;
          (err, hw, io) \<leftarrow> cfg_act_write_veb ve jnkv vid ((mac_veb_key mac)\<lparr>vlan_id := of_nat NIC_NO_VLAN_ID\<rparr>) (Some acts) hw io;
          Some (if err \<noteq> NO_ERROR then 1 else 0, hw, io) }
        else Some (0, hw3, io))) \<and>
     (\<forall>hw'. cls_instr hw' = cls_instr hw3 \<longrightarrow> fl_buf_sz_cache hw' = fl_buf_sz_cache hw3 \<longrightarrow>
        holds_list e hw' (wire_slot vnic) (spec_nbi e h jnk pcie vid veb_up control hw'))"
proof -
  let ?hwc = "cfg_act_cache_fl_buf_sz e h pcie vid hw"
  let ?sp = "spec_nbi e h jnk pcie vid veb_up control ?hwc"
  let ?j = "reg_zero e (instr acts0) NIC_MAX_INSTR"
  let ?n = "nbi_hw e h pcie vid control update ?hwc"
  have wd: "1 \<le> words ?sp" "words ?sp \<le> 16"
    using spec_words_pos(1) [of e h jnk pcie vid veb_up control ?hwc] spec_words(1) [of e h jnk pcie vid veb_up control ?hwc] by auto
  obtain hw1 where w1: "cfg_act_write_wire e vnic (mk ?sp ?j) ?n = Some hw1"
    using wd by (auto simp: cfg_act_write_wire_def cfg_act_write_queue_def NIC_MAX_INSTR_def)
  have h1: "holds_list e hw1 (wire_slot vnic) ?sp"
    using write_wire_holds [OF w1 [unfolded cfg_act_write_wire_def]] by (simp add: wire_slot_def)
  have c1: "fl_buf_sz_cache hw1 = fl_buf_sz_cache ?hwc"
    using write_queues_keeps [of fl_buf_sz_cache e "[push_bit 8 1 OR vnic]" "mk ?sp ?j" ?n hw1] w1
    by (simp add: cfg_act_write_wire_def isl_write_def)
  let ?pf = "mk (spec_pf e h jnk pcie vid veb_up control) (reg_zero e (instr (mk ?sp ?j)) NIC_MAX_INSTR)"
  obtain hw2 where w2: "cfg_act_write_host e pcie vid ?pf hw1 = Some hw2"
    using write_host_returns [of ?pf e pcie vid hw1] spec_words_pos(2) [of e h jnk pcie vid veb_up control]
      spec_words(2) [of e h jnk pcie vid veb_up control] by auto
  have h2: "holds_list e hw2 (wire_slot vnic) ?sp"
    using write_host_holds [OF w2 assms(2), of ?sp] h1 wd(2) by (simp add: assms(1))
  have c2: "fl_buf_sz_cache hw2 = fl_buf_sz_cache ?hwc" using write_host_keeps(1) [OF w2] c1 by simp
  let ?hw3 = "set_nvnic_mac pcie vid mac hw2"
  have k3: "cls_instr ?hw3 = cls_instr hw2" "fl_buf_sz_cache ?hw3 = fl_buf_sz_cache hw2" by (simp_all add: set_nvnic_mac_def)
  show ?thesis
  proof (rule exI [of _ ?hw3], rule exI [of _ ?pf], intro conjI allI impI)
    show "holds_list e hw' (wire_slot vnic) (spec_nbi e h jnk pcie vid veb_up control hw')"
      if "cls_instr hw' = cls_instr ?hw3" "fl_buf_sz_cache hw' = fl_buf_sz_cache ?hw3" for hw'
      using h2 holds_list_cong [of hw' hw2] that k3 spec_nbi_cong [of hw' ?hwc] c2 by simp
  qed (unfold cfg_act_pf_up_def build_nbi_mk [OF assms(1)] build_pf_mk [OF assms(1)] assms(1) Let_def,
      simp add: w1 w2 set_nvnic_mac_def assms(3))
qed

lemma pf_up_total:
  assumes "NFD_VID2VNIC e vid = (NFD_VNIC_TYPE_PF, vnic)" "veb_ok ve" "slots_ok e pcie vid"
  shows "\<exists>r hw' io'. cfg_act_pf_up e ve h acts0 jnk jnkv pcie vid veb_up control update hw io = Some (r, hw', io') \<and>
     r = (if vnic = 0 \<and> \<not> unicast (mac_veb_key (drop_bit 16 (bar_mac64 (bar h pcie vid)))) then 1 else 0) \<and>
     holds_list e hw' (wire_slot vnic) (spec_nbi e h jnk pcie vid veb_up control hw')"
proof -
  let ?mac = "drop_bit 16 (bar_mac64 (bar h pcie vid))"
  obtain hw3 pf where run: "cfg_act_pf_up e ve h acts0 jnk jnkv pcie vid veb_up control update hw io =
     (if vnic = 0 then do {
          (acts, hw) \<leftarrow> cfg_act_build_veb_pf e h jnk pcie vid control update pf hw3;
          (err, hw, io) \<leftarrow> cfg_act_write_veb ve jnkv vid ((mac_veb_key ?mac)\<lparr>vlan_id := of_nat NIC_NO_VLAN_ID\<rparr>) (Some acts) hw io;
          Some (if err \<noteq> NO_ERROR then 1 else 0, hw, io) }
        else Some (0, hw3, io))"
    and fin: "\<And>hw'. cls_instr hw' = cls_instr hw3 \<Longrightarrow> fl_buf_sz_cache hw' = fl_buf_sz_cache hw3 \<Longrightarrow>
        holds_list e hw' (wire_slot vnic) (spec_nbi e h jnk pcie vid veb_up control hw')"
    using pf_up_lists [OF assms(1,3) refl, of h acts0 jnk veb_up control update hw] by blast
  show ?thesis
  proof (cases "vnic = 0")
    case False
    then show ?thesis using run fin [of hw3] by auto
  next
    case True
    let ?va = "mk (spec_veb_pf e h jnk pcie vid control hw3) (reg_zero e (instr pf) NIC_MAX_INSTR)"
    obtain hw4 where b: "cfg_act_build_veb_pf e h jnk pcie vid control update pf hw3 = Some (?va, hw4)"
      and k4: "cls_instr hw4 = cls_instr hw3" "fl_buf_sz_cache hw4 = fl_buf_sz_cache hw3"
      using build_veb_pf_mk [OF assms(1), of h jnk pcie control update pf hw3] by auto
    obtain err hw' io' where v: "cfg_act_write_veb ve jnkv vid ((mac_veb_key ?mac)\<lparr>vlan_id := of_nat NIC_NO_VLAN_ID\<rparr>) (Some ?va) hw4 io =
        Some (err, hw', io')" "err = NO_ERROR \<longleftrightarrow> unicast (mac_veb_key ?mac)"
      "cls_instr hw' = cls_instr hw4" "fl_buf_sz_cache hw' = fl_buf_sz_cache hw4"
      using write_veb_total [OF assms(2), of ?va] spec_veb_pf_words [of e h jnk pcie vid control hw3]
        spec_words(4) [of e h jnk pcie vid control hw3] by fastforce
    have "cfg_act_pf_up e ve h acts0 jnk jnkv pcie vid veb_up control update hw io =
        Some (if err \<noteq> NO_ERROR then 1 else 0, hw', io')" using run True b v(1) by simp
    then show ?thesis using fin [of hw'] v(2-4) k4 True by auto
  qed
qed

lemma spec_veb_vf_words: "1 \<le> words (spec_veb_vf e h jnk pcie vid pf_control vf_control hw)"
  by (simp add: spec_veb_vf_def Let_def)

lemma vf_up_total:
  assumes "NFD_VID2VNIC e vid = (NFD_VNIC_TYPE_VF, vnic)" "veb_ok ve"
  shows "\<exists>r hw' io'. cfg_act_vf_up e ve h acts0 jnk jnkv pcie vid pf_control vf_control update hw io = Some (r, hw', io') \<and> (r = 0 \<or> r = 1)"
proof -
  let ?hwc = "cfg_act_cache_fl_buf_sz e h pcie vid hw"
  let ?sc = "vf_cfg h pcie (NFD_VID2VF e vid)"
  let ?va = "mk (spec_veb_vf e h jnk pcie vid pf_control vf_control ?hwc) (reg_zero e (instr acts0) NIC_MAX_INSTR)"
  show ?thesis
  proof (cases "vf_mac_choice e ?sc (drop_bit 16 (bar_mac64 (bar h pcie vid))) update")
    case None
    then show ?thesis by (simp add: cfg_act_vf_up_def build_veb_vf_mk [OF assms(1)] Let_def)
  next
    case (Some mac)
    let ?key = "(VEB_KEY_FROM_MAC64 mac)\<lparr>vlan_id := ucast (vf_vlan ?sc)\<rparr>"
    obtain err hw2 io2 where v: "cfg_act_write_veb ve jnkv vid ?key (Some ?va) ?hwc io = Some (err, hw2, io2)"
      using write_veb_total [OF assms(2), of ?va] spec_veb_vf_words [of e h jnk pcie vid pf_control vf_control ?hwc]
        spec_words(5) [of e h jnk pcie vid pf_control vf_control ?hwc] by fastforce
    show ?thesis
    proof (cases "err = NO_ERROR")
      case True
      then show ?thesis using vf_up_tail [OF assms(1) Some v [unfolded True]] by blast
    next
      case False
      then show ?thesis using v Some by (simp add: cfg_act_vf_up_def build_veb_vf_mk [OF assms(1)] Let_def)
    qed
  qed
qed

lemma vf_down_total:
  assumes "veb_ok ve"
  shows "\<exists>hw' io'. cfg_act_vf_down e ve h acts0 jnkv pcie vid hw io = Some (0, hw', io')"
proof -
  let ?a = "mk (spec_down_host e h pcie vid) (reg_zero e (instr acts0) NIC_MAX_INSTR)"
  obtain hw1 where w: "cfg_act_write_host e pcie vid ?a hw = Some hw1"
    using write_host_returns [of ?a e pcie vid hw] spec_words_pos(4) [of e h pcie vid] by (auto simp: spec_down_host_def)
  show ?thesis using write_veb_none [OF assms, of jnkv vid "VEB_KEY_FROM_MAC64 0" hw1 io] w
    by (auto simp: cfg_act_vf_down_def build_down_mk Let_def)
qed

section \<open>Frame of the VF handler\<close>

lemma ctl_word_put [simp]:
  "ctl_word (put_ctl_word pcie vid c s) pcie' vid' = (if pcie' = pcie \<and> vid' = vid then c else ctl_word s pcie' vid')"
  using word_unat_eq_iff [of pcie' pcie] by (simp add: ctl_word_def put_ctl_word_def set_nic_control_word_def)

lemma put_ctl_frame [simp]:
  "host (put_ctl_word pcie vid c s) = host s" "chw (put_ctl_word pcie vid c s) = chw s" "vio (put_ctl_word pcie vid c s) = vio s"
  by (simp_all add: put_ctl_word_def)

lemma ctl_word_upd [simp]: "ctl_word (s\<lparr>chw := hw, vio := io\<rparr>) = ctl_word s"
  by (simp add: ctl_word_def fun_eq_iff)

lemma lsc_list_frame [simp]:
  "chw (update_vf_lsc_list e pcie port vid control mode s) = chw s"
  "host (update_vf_lsc_list e pcie port vid control mode s) = host s"
  by (simp_all add: update_vf_lsc_list_def put_sts_def Let_def)

lemma lsc_fold_word:
  "nic_control_word (fold (\<lambda>i p. if c i then p\<lparr>vf_lsc_list := f i p\<rparr> else p) is p) = nic_control_word p"
  by (induction "is" arbitrary: p) auto

lemma lsc_list_word [simp]: "ctl_word (update_vf_lsc_list e pcie port vid control mode s) = ctl_word s"
  by (simp add: update_vf_lsc_list_def put_sts_def Let_def ctl_word_def lsc_fold_word fun_eq_iff)

text \<open>Whether the switch is needed after a VF was set to \<open>control\<close>: it is being
  enabled, or some VF has its enable flag set.\<close>

definition veb_needed :: "ctl_env \<Rightarrow> u32 \<Rightarrow> u32 \<Rightarrow> app_state \<Rightarrow> bool" where
  "veb_needed e pcie control s \<longleftrightarrow> flag control (CTRL_ENABLE (nc (ce e))) \<or>
     (\<exists>vf < NFD_MAX_VFS (ce e). flag (ctl_word s pcie (NFD_VF2VID (ce e) (of_nat vf))) (CTRL_ENABLE (nc (ce e))))"

definition legal_vf :: "ctl_env \<Rightarrow> u32 \<Rightarrow> u32 \<Rightarrow> bool" where
  "legal_vf e control update \<longleftrightarrow> control AND NOT (NFD_CFG_VF_CAP (nc (ce e)) (cf e)) = 0 \<and>
     update AND NOT (NFD_CFG_VF_LEGAL_UPD (nc (ce e)) (cf e)) = 0"

text \<open>The second half of the handler: the PF lists are rebuilt and the link state
  of the VF is updated.\<close>

definition vf_finish :: "ctl_env \<Rightarrow> (nat \<Rightarrow> junk) \<Rightarrow> u32 \<Rightarrow> u32 \<Rightarrow> u32 \<Rightarrow> cfg_msg \<Rightarrow> u32 \<Rightarrow> 2 word \<Rightarrow> app_state \<Rightarrow> ctl_result" where
  "vf_finish e jk pcie control vid m veb_up ls_mode s =
    (let pf = NFD_PF2VID (ce e) 0 in do {
       (r, hw, io) \<leftarrow> cfg_act_pf_up (ce e) (vev e) (host s) (j_acts (jk 1)) (j_word (jk 1)) (j_vlan (jk 1)) pcie pf veb_up
         (ctl_word s pcie pf) 0 (chw s) (vio s);
       let s = s\<lparr>chw := hw, vio := io\<rparr>;
       if r \<noteq> 0 then msg_fail m s
       else Some (0, m, update_vf_lsc_list e pcie 0 vid control ls_mode s) })"

definition pf_mac_ok :: "ctl_env \<Rightarrow> u32 \<Rightarrow> app_state \<Rightarrow> bool" where
  "pf_mac_ok e pcie s \<longleftrightarrow> unicast (mac_veb_key (drop_bit 16 (bar_mac64 (bar (host s) pcie (NFD_PF2VID (ce e) 0)))))"

lemma vf_finish_result:
  assumes "NFD_VID2VNIC (ce e) (NFD_PF2VID (ce e) 0) = (NFD_VNIC_TYPE_PF, vnic)" "veb_ok (vev e)"
    and "slots_ok (ce e) pcie (NFD_PF2VID (ce e) 0)"
  shows "\<exists>r m' s'. vf_finish e jk pcie control vid m veb_up ls_mode s = Some (r, m', s') \<and>
     (r = 0 \<or> r = 1 \<and> msg_error m' = 1) \<and> ctl_word s' = ctl_word s \<and>
     (pf_mac_ok e pcie s \<longrightarrow> r = 0) \<and>
     (r = 0 \<longrightarrow> holds_list (ce e) (chw s') (wire_slot vnic)
        (spec_nbi (ce e) (host s') (j_word (jk 1)) pcie (NFD_PF2VID (ce e) 0) veb_up (ctl_word s' pcie (NFD_PF2VID (ce e) 0)) (chw s')))"
proof -
  let ?pf = "NFD_PF2VID (ce e) 0"
  obtain r hw' io' where p: "cfg_act_pf_up (ce e) (vev e) (host s) (j_acts (jk 1)) (j_word (jk 1)) (j_vlan (jk 1)) pcie ?pf veb_up
       (ctl_word s pcie ?pf) 0 (chw s) (vio s) = Some (r, hw', io')"
    "r = (if vnic = 0 \<and> \<not> pf_mac_ok e pcie s then 1 else 0)"
    "holds_list (ce e) hw' (wire_slot vnic) (spec_nbi (ce e) (host s) (j_word (jk 1)) pcie ?pf veb_up (ctl_word s pcie ?pf) hw')"
    using pf_up_total [OF assms] unfolding pf_mac_ok_def by blast
  show ?thesis
  proof (cases "r = 0")
    case True
    then show ?thesis using p(1,3) by (simp add: vf_finish_def Let_def)
  next
    case False
    then show ?thesis using p(1,2) by (auto simp: vf_finish_def Let_def msg_fail_def split: if_splits)
  qed
qed

text \<open>The first half, up to the choice of the link mode.\<close>

definition vf_first :: "ctl_env \<Rightarrow> (nat \<Rightarrow> junk) \<Rightarrow> u32 \<Rightarrow> u32 \<Rightarrow> u32 \<Rightarrow> u32 \<Rightarrow> app_state \<Rightarrow> (bool \<times> u32 \<times> 2 word \<times> app_state) option" where
  "vf_first e jk pcie control update vid s =
    (let n = nc (ce e); en = CTRL_ENABLE n; pf = NFD_PF2VID (ce e) 0; sc = vf_cfg (host s) pcie (NFD_VID2VF (ce e) vid) in
     if flag control en then
       if \<not> flag (ctl_word s pcie pf) en then Some (True, 1, ctrl_link_state sc, s)
       else do {
         (r, hw, io) \<leftarrow> cfg_act_vf_up (ce e) (vev e) (host s) (j_acts (jk 0)) (j_word (jk 0)) (j_vlan (jk 0)) pcie vid
           (ctl_word s pcie pf) control update (chw s) (vio s);
         Some (r \<noteq> 0, 1 :: u32, ctrl_link_state sc, s\<lparr>chw := hw, vio := io\<rparr>) }
     else if flag update (UPDATE_MACADDR n) \<and> MAC64_FROM_SRIOV_CFG sc \<noteq> 0 \<and> \<not> ctrl_trusted sc
       then Some (True, 0, LINK_STATE_DISABLE e, s)
     else do {
       (r, hw, io) \<leftarrow> cfg_act_vf_down (ce e) (vev e) (host s) (j_acts (jk 0)) (j_vlan (jk 0)) pcie vid (chw s) (vio s);
       let s = s\<lparr>chw := hw, vio := io\<rparr>;
       let veb_up = c_bool (\<exists>vf \<in> set [0..<NFD_MAX_VFS (ce e)]. flag (ctl_word s pcie (NFD_VF2VID (ce e) (of_nat vf))) en);
       Some (r \<noteq> 0, veb_up, LINK_STATE_DISABLE e, s) })"

lemma process_vf_split:
  assumes "legal_vf e control update"
  shows "process_vf_reconfig e jk pcie control update vid m s = do {
     (failed, veb_up, ls_mode, s) \<leftarrow> vf_first e jk pcie control update vid (put_ctl_word pcie vid control s);
     if failed then msg_fail m s else vf_finish e jk pcie control vid m veb_up ls_mode s }"
  using assms unfolding process_vf_reconfig_def vf_first_def vf_finish_def legal_vf_def c_true_def Let_def by simp

lemma vf_first_result:
  assumes "NFD_VID2VNIC (ce e) vid = (NFD_VNIC_TYPE_VF, vnic)" "veb_ok (vev e)"
  shows "\<exists>failed ls_mode veb_up s'. vf_first e jk pcie control update vid s = Some (failed, veb_up, ls_mode, s') \<and>
     ctl_word s' = ctl_word s \<and> host s' = host s \<and> (\<not> failed \<longrightarrow> veb_up = c_bool (veb_needed e pcie control s)) \<and>
     (\<not> flag control (CTRL_ENABLE (nc (ce e))) \<and> \<not> flag update (UPDATE_MACADDR (nc (ce e))) \<longrightarrow> \<not> failed)"
proof (cases "flag control (CTRL_ENABLE (nc (ce e)))")
  case True
  obtain r hw io where u: "cfg_act_vf_up (ce e) (vev e) (host s) (j_acts (jk 0)) (j_word (jk 0)) (j_vlan (jk 0)) pcie vid
      (ctl_word s pcie (NFD_PF2VID (ce e) 0)) control update (chw s) (vio s) = Some (r, hw, io)"
    using vf_up_total [OF assms] by blast
  show ?thesis
    by (cases "flag (ctl_word s pcie (NFD_PF2VID (ce e) 0)) (CTRL_ENABLE (nc (ce e)))")
      (use True u in \<open>auto simp: vf_first_def veb_needed_def Let_def c_bool_def\<close>)
next
  case False
  obtain hw io where d: "cfg_act_vf_down (ce e) (vev e) (host s) (j_acts (jk 0)) (j_vlan (jk 0)) pcie vid (chw s) (vio s) =
      Some (0, hw, io)" using vf_down_total [OF assms(2)] by blast
  have ex: "(\<exists>vf \<in> set [0..<n]. P vf) \<longleftrightarrow> (\<exists>vf < n. P vf)" for P and n :: nat by auto
  show ?thesis
  proof (cases "flag update (UPDATE_MACADDR (nc (ce e))) \<and>
      MAC64_FROM_SRIOV_CFG (vf_cfg (host s) pcie (NFD_VID2VF (ce e) vid)) \<noteq> 0 \<and> \<not> ctrl_trusted (vf_cfg (host s) pcie (NFD_VID2VF (ce e) vid))")
    case True
    then show ?thesis using False by (auto simp: vf_first_def Let_def)
  next
    case nt: False
    show ?thesis
      using False d unfolding vf_first_def Let_def veb_needed_def if_not_P [OF False] if_not_P [OF nt] ex by auto
  qed
qed

section \<open>Properties\<close>

text \<open>A PF or VF request with a control bit outside the capabilities or an
  update bit that is not legal fails with the error flag set and changes
  nothing at all.\<close>

lemma reconfig_rejects_illegal:
  "(c_true (control AND NOT (NFD_CFG_PF_CAP (NS_PLATFORM_TYPE e) (nc (ce e)) (cf e))) \<or>
     c_true (update AND NOT (NFD_CFG_PF_LEGAL_UPD (nc (ce e)) (cf e))) \<longrightarrow>
     process_pf_reconfig e jk pcie control update vid vnic m s = Some (1, m\<lparr>msg_error := 1\<rparr>, s)) \<and>
   (c_true (control AND NOT (NFD_CFG_VF_CAP (nc (ce e)) (cf e))) \<or>
     c_true (update AND NOT (NFD_CFG_VF_LEGAL_UPD (nc (ce e)) (cf e))) \<longrightarrow>
     process_vf_reconfig e jk pcie control update vid m s = Some (1, m\<lparr>msg_error := 1\<rparr>, s))"
  by (auto simp: process_pf_reconfig_def process_vf_reconfig_def msg_fail_def Let_def)

text \<open>C3. A legal request of a VF always returns, either failing with the error
  flag set, or with 0.  In the second case the wire-side list of the first PF in
  every worker island is the encoded wire sequence for the PF's current control
  word, with the switch lookup exactly when the VF is being enabled or some VF
  is enabled.  Disabling a VF without an address update succeeds when the PF's
  address is valid, whatever the state of the PF: the list is rebuilt also when
  the PF itself is down, where \<open>cfg_act_pf_down\<close> had installed a dropping list.\<close>

theorem vf_reconfig_pf_lists:
  assumes "NFD_VID2VNIC (ce e) vid = (NFD_VNIC_TYPE_VF, vf)" "veb_ok (vev e)" "legal_vf e control update"
    and "NFD_VID2VNIC (ce e) (NFD_PF2VID (ce e) 0) = (NFD_VNIC_TYPE_PF, vnic)"
    and "slots_ok (ce e) pcie (NFD_PF2VID (ce e) 0)"
  shows "\<exists>r m' s'. process_vf_reconfig e jk pcie control update vid m s = Some (r, m', s') \<and> ctl_word s' pcie vid = control \<and>
     (r = 1 \<and> msg_error m' = 1 \<or>
      r = 0 \<and> holds_list (ce e) (chw s') (wire_slot vnic)
        (spec_nbi (ce e) (host s') (j_word (jk 1)) pcie (NFD_PF2VID (ce e) 0) (c_bool (veb_needed e pcie control s'))
           (ctl_word s' pcie (NFD_PF2VID (ce e) 0)) (chw s'))) \<and>
     (\<not> flag control (CTRL_ENABLE (nc (ce e))) \<and> \<not> flag update (UPDATE_MACADDR (nc (ce e))) \<and> pf_mac_ok e pcie s \<longrightarrow> r = 0)"
proof -
  let ?s1 = "put_ctl_word pcie vid control s"
  obtain failed ls_mode veb_up s2 where 1: "vf_first e jk pcie control update vid ?s1 = Some (failed, veb_up, ls_mode, s2)"
    "ctl_word s2 = ctl_word ?s1" "host s2 = host ?s1" "\<not> failed \<longrightarrow> veb_up = c_bool (veb_needed e pcie control ?s1)"
    "\<not> flag control (CTRL_ENABLE (nc (ce e))) \<and> \<not> flag update (UPDATE_MACADDR (nc (ce e))) \<longrightarrow> \<not> failed"
    using vf_first_result [OF assms(1,2)] by blast
  have w: "ctl_word s2 pcie vid = control" using 1(2) by simp
  have mac: "pf_mac_ok e pcie s2 = pf_mac_ok e pcie s" using 1(3) by (simp add: pf_mac_ok_def)
  show ?thesis
  proof (cases failed)
    case True
    then show ?thesis using 1(1,5) w by (auto simp: process_vf_split [OF assms(3)] msg_fail_def)
  next
    case False
    obtain r m' s' where f: "vf_finish e jk pcie control vid m veb_up ls_mode s2 = Some (r, m', s')" "r = 0 \<or> r = 1 \<and> msg_error m' = 1"
      "ctl_word s' = ctl_word s2" "pf_mac_ok e pcie s2 \<longrightarrow> r = 0"
      "r = 0 \<longrightarrow> holds_list (ce e) (chw s') (wire_slot vnic)
        (spec_nbi (ce e) (host s') (j_word (jk 1)) pcie (NFD_PF2VID (ce e) 0) veb_up (ctl_word s' pcie (NFD_PF2VID (ce e) 0)) (chw s'))"
      using vf_finish_result [OF assms(4,2,5)] by blast
    have v: "veb_needed e pcie control ?s1 = veb_needed e pcie control s'"
      using f(3) 1(2) by (simp add: veb_needed_def)
    have "process_vf_reconfig e jk pcie control update vid m s = Some (r, m', s')"
      using False 1(1) f(1) by (simp add: process_vf_split [OF assms(3)])
    then show ?thesis using False 1(4) f w mac v by (intro exI [of _ r] exI [of _ m'] exI [of _ s']) auto
  qed
qed

section \<open>Ports and link policy\<close>

lemma reg_after_rmw:
  assumes "reg_stored d init b"
  shows "xpb_dev d (XpbWrite a v # XpbRead a # hs) b = (if b = a then v else xpb_dev d hs b)"
  using assms by (simp add: reg_stored_def)

lemma tx_datapath_result:
  assumes "nbi < 2" "\<And>q. q < 1024 \<Longrightarrow> reg_stored (dv le) init (NBI_TM_Q_CFG_ADDR le nbi q)"
    and "inj_on (NBI_TM_Q_CFG_ADDR le nbi) {..<1024}"
  shows "distinct qs \<Longrightarrow> \<forall>q \<in> set qs. q < 1024 \<Longrightarrow> \<exists>hs'. enable_port_tx_datapath le nbi qs hs = Some hs' \<and>
     (\<forall>q < 1024. xpb_dev (dv le) hs' (NBI_TM_Q_CFG_ADDR le nbi q) =
        (if q \<in> set qs then xpb_dev (dv le) hs (NBI_TM_Q_CFG_ADDR le nbi q) OR QUEUE_CONFIG_QUEUEENABLE le
         else xpb_dev (dv le) hs (NBI_TM_Q_CFG_ADDR le nbi q)))"
    "distinct qs \<Longrightarrow> \<forall>q \<in> set qs. q < 1024 \<Longrightarrow> \<exists>hs'. disable_port_tx_datapath le nbi qs hs = Some hs' \<and>
     (\<forall>q < 1024. xpb_dev (dv le) hs' (NBI_TM_Q_CFG_ADDR le nbi q) =
        (if q \<in> set qs then xpb_dev (dv le) hs (NBI_TM_Q_CFG_ADDR le nbi q) AND NOT (QUEUE_CONFIG_QUEUEENABLE le)
         else xpb_dev (dv le) hs (NBI_TM_Q_CFG_ADDR le nbi q)))"
proof (induction qs arbitrary: hs)
  case Nil
  { case 1 show ?case by simp next case 2 show ?case by simp }
next
  case (Cons q qs)
  let ?a = "NBI_TM_Q_CFG_ADDR le nbi"
  have same: "?a q' = ?a q \<longleftrightarrow> q' = q" if "q' < 1024" "q < 1024" for q' q
    using inj_on_eq_iff [OF assms(3)] that by simp
  note rmw = reg_after_rmw [OF assms(2)]
  {
    case 1
    let ?h = "XpbWrite (?a q) (xpb_dev (dv le) hs (?a q) OR QUEUE_CONFIG_QUEUEENABLE le) # XpbRead (?a q) # hs"
    obtain hs' where "enable_port_tx_datapath le nbi qs ?h = Some hs'"
      "\<forall>q < 1024. xpb_dev (dv le) hs' (?a q) = (if q \<in> set qs then xpb_dev (dv le) ?h (?a q) OR QUEUE_CONFIG_QUEUEENABLE le
         else xpb_dev (dv le) ?h (?a q))" using Cons.IH(1) [of ?h] 1 by auto
    then show ?case using 1 same by (auto simp: tm_enable_queue_eq(1) [OF assms(1)] rmw)
  next
    case 2
    let ?h = "XpbWrite (?a q) (xpb_dev (dv le) hs (?a q) AND NOT (QUEUE_CONFIG_QUEUEENABLE le)) # XpbRead (?a q) # hs"
    obtain hs' where "disable_port_tx_datapath le nbi qs ?h = Some hs'"
      "\<forall>q < 1024. xpb_dev (dv le) hs' (?a q) = (if q \<in> set qs then xpb_dev (dv le) ?h (?a q) AND NOT (QUEUE_CONFIG_QUEUEENABLE le)
         else xpb_dev (dv le) ?h (?a q))" using Cons.IH(2) [of ?h] 2 by auto
    then show ?case using 2 same by (auto simp: tm_enable_queue_eq(2) [OF assms(1)] rmw)
  }
qed

lemma port_queue_facts:
  assumes "platform_of ty = Some p" "port < NS_PLATFORM_NUM_PORTS p"
  shows "distinct (port_queues p port)" "\<forall>q \<in> set (port_queues p port). q < 1024" "NS_PLATFORM_MAC p port = 0"
  using port_ok [OF assms] unfolding port_ok_def
  by (auto simp: port_queues_def NS_PLATFORM_NBI_TM_QID_HI_def push_bit_eq_mult)

text \<open>C30. On every board, enabling transmission on a port sets the enable bit of
  exactly the traffic manager queues of the port and disabling clears it; all
  other bits and the queues of other ports are unchanged, no assertion fails,
  and the MAC mutex is free again.\<close>

theorem port_tx_queues:
  assumes "platform_of ty = Some (board e)" "port < NS_PLATFORM_NUM_PORTS (board e)" "mac_reg_lock s = 0"
    and "\<And>q. q < 1024 \<Longrightarrow> reg_stored (dv (lev e)) init (NBI_TM_Q_CFG_ADDR (lev e) 0 q)"
    and "inj_on (NBI_TM_Q_CFG_ADDR (lev e) 0) {..<1024}"
  shows "\<exists>h1 h2. mac_port_enable_tx e port s = Some (s\<lparr>hist := h1\<rparr>) \<and> mac_port_disable_tx e port s = Some (s\<lparr>hist := h2\<rparr>) \<and>
     (\<forall>q < 1024. let old = xpb_dev (dv (lev e)) (hist s) (NBI_TM_Q_CFG_ADDR (lev e) 0 q);
          mine = (NS_PLATFORM_NBI_TM_QID_LO (board e) port \<le> q \<and> q \<le> NS_PLATFORM_NBI_TM_QID_HI (board e) port) in
        xpb_dev (dv (lev e)) h1 (NBI_TM_Q_CFG_ADDR (lev e) 0 q) = (if mine then old OR QUEUE_CONFIG_QUEUEENABLE (lev e) else old) \<and>
        xpb_dev (dv (lev e)) h2 (NBI_TM_Q_CFG_ADDR (lev e) 0 q) = (if mine then old AND NOT (QUEUE_CONFIG_QUEUEENABLE (lev e)) else old))"
proof -
  note pq = port_queue_facts [OF assms(1,2)]
  have z: "(0 :: nat) < 2" by simp
  obtain h1 where h1: "enable_port_tx_datapath (lev e) 0 (port_queues (board e) port) (hist s) = Some h1"
    "\<forall>q < 1024. xpb_dev (dv (lev e)) h1 (NBI_TM_Q_CFG_ADDR (lev e) 0 q) =
        (if q \<in> set (port_queues (board e) port) then xpb_dev (dv (lev e)) (hist s) (NBI_TM_Q_CFG_ADDR (lev e) 0 q) OR QUEUE_CONFIG_QUEUEENABLE (lev e)
         else xpb_dev (dv (lev e)) (hist s) (NBI_TM_Q_CFG_ADDR (lev e) 0 q))"
    using tx_datapath_result(1) [OF z assms(4,5) pq(1,2)] by blast
  obtain h2 where h2: "disable_port_tx_datapath (lev e) 0 (port_queues (board e) port) (hist s) = Some h2"
    "\<forall>q < 1024. xpb_dev (dv (lev e)) h2 (NBI_TM_Q_CFG_ADDR (lev e) 0 q) =
        (if q \<in> set (port_queues (board e) port) then xpb_dev (dv (lev e)) (hist s) (NBI_TM_Q_CFG_ADDR (lev e) 0 q) AND NOT (QUEUE_CONFIG_QUEUEENABLE (lev e))
         else xpb_dev (dv (lev e)) (hist s) (NBI_TM_Q_CFG_ADDR (lev e) 0 q))"
    using tx_datapath_result(2) [OF z assms(4,5) pq(1,2)] by blast
  have mine: "q \<in> set (port_queues (board e) port) \<longleftrightarrow>
      NS_PLATFORM_NBI_TM_QID_LO (board e) port \<le> q \<and> q \<le> NS_PLATFORM_NBI_TM_QID_HI (board e) port" for q
    by (auto simp: port_queues_def)
  have lk: "s\<lparr>mac_reg_lock := 1, hist := h, mac_reg_lock := 0\<rparr> = s\<lparr>hist := h\<rparr>" for h using assms(3) by simp
  have "mac_port_enable_tx e port s = Some (s\<lparr>hist := h1\<rparr>)" "mac_port_disable_tx e port s = Some (s\<lparr>hist := h2\<rparr>)"
    using h1(1) h2(1) pq(3) lk assms(3)
    by (simp_all add: mac_port_enable_tx_def mac_port_disable_tx_def LOCAL_MUTEX_LOCK_def LOCAL_MUTEX_UNLOCK_def c_true_def)
  then show ?thesis using h1(2) h2(2) unfolding mine Let_def by blast
qed

definition ls_bit :: "(nat \<Rightarrow> ls_array) \<Rightarrow> nat \<Rightarrow> u32 \<Rightarrow> bool" where
  "ls_bit a pcie v \<longleftrightarrow> c_true (LS_READ (a pcie) v)"

lemma ls_bit_upd: "ls_bit (ls_upd b pcie vid a) pcie' v = (if pcie' = pcie \<and> v = vid then b else ls_bit a pcie' v)"
  using ls.rd_st [of "a pcie" vid v] ls.rd_cl [of "a pcie" vid v]
  by (auto simp: ls_bit_def ls_upd_def simp del: LS_READ_true)

lemma lsc_clear_others:
  "ls_bit (vf_lsc_list (fold (\<lambda>i p. if of_nat i \<noteq> port
      then p\<lparr>vf_lsc_list := (vf_lsc_list p)(of_nat i := ls_upd False pcie vf (vf_lsc_list p (of_nat i)))\<rparr> else p) is p) q) pcie' v \<longleftrightarrow>
   ls_bit (vf_lsc_list p q) pcie' v \<and> \<not> (q \<noteq> port \<and> q \<in> of_nat ` set is \<and> pcie' = pcie \<and> v = vf)"
  by (induction "is" arbitrary: p) (auto simp: ls_bit_upd)

lemma lsc_fold_keeps:
  assumes "\<And>p x. f (p\<lparr>vf_lsc_list := x\<rparr>) = f p"
  shows "f (fold (\<lambda>i p. if c i then p\<lparr>vf_lsc_list := g i p\<rparr> else p) is p) = f p"
  using assms by (induction "is" arbitrary: p) auto

lemma port_range: "q \<in> of_nat ` {0..<n} \<longleftrightarrow> unat q < n" for q :: u32
proof
  assume "q \<in> of_nat ` {0..<n}"
  then obtain i where "q = of_nat i" "i < n" by auto
  then show "unat q < n" using unat_of_nat [of i, where ?'a = 32] by (simp add: take_bit_eq_mod less_le_trans order.strict_trans1 [OF mod_less_eq_dividend])
qed (auto intro!: image_eqI [of _ _ "unat q"])

text \<open>C31. Updating the link state of a VF with a mode: the VF's link is up exactly
  when the mode is ENABLE or the PF's link is up, so a mode of DISABLE does not
  take the link down while the PF has link; the status word reports the port
  speed or \<open>unknown\<close> accordingly; the VF's own state follows its control word; the
  VF follows the given port exactly in mode AUTO and follows no other port of the
  board; an interrupt becomes pending when the VF's BAR is enabled.  Nothing else
  changes: every bit of every other VF and island in the five tables, every other
  status word, the control words and the rest of the state are as before.\<close>

theorem vf_link_policy:
  assumes "s' = update_vf_lsc_list e pcie port vf control mode s"
    and "up = (mode = LINK_STATE_ENABLE e \<or> ls_bit (ls_current (priv s)) (unat pcie) (NFD_PF2VID (ce e) port))"
  shows "(\<forall>i v. ls_bit (ls_current (priv s')) i v = (if i = unat pcie \<and> v = vf then up else ls_bit (ls_current (priv s)) i v)) \<and>
     (\<forall>i v. ls_bit (vs_current (priv s')) i v = (if i = unat pcie \<and> v = vf then flag control (CTRL_ENABLE (nc (ce e)))
        else ls_bit (vs_current (priv s)) i v)) \<and>
     (\<forall>q i v. ls_bit (vf_lsc_list (priv s') q) i v =
        (if i = unat pcie \<and> v = vf \<and> (q = port \<or> unat q < NS_PLATFORM_NUM_PORTS (board e)) then q = port \<and> mode = LINK_STATE_AUTO e
         else ls_bit (vf_lsc_list (priv s) q) i v)) \<and>
     (\<forall>i v. ls_bit (pending (priv s')) i v =
        (if i = unat pcie \<and> v = vf \<and> flag (fst (bar_ctrl s pcie vf)) (CTRL_ENABLE (nc (ce e))) then True else ls_bit (pending (priv s)) i v)) \<and>
     bar_sts s' = (bar_sts s)(pcie := (bar_sts s pcie)(vf := if up then sts_up (board e) (unat port) else sts_down)) \<and>
     nic_control_word (priv s') = nic_control_word (priv s) \<and> s' = s\<lparr>priv := priv s', bar_sts := bar_sts s'\<rparr>"
proof -
  note keeps = lsc_fold_keeps [of ls_current] lsc_fold_keeps [of vs_current] lsc_fold_keeps [of pending] lsc_fold_keeps [of nic_control_word]
  have up: "up \<longleftrightarrow> mode = LINK_STATE_ENABLE e \<or> c_true (LS_READ (ls_current (priv s) (unat pcie)) (NFD_PF2VID (ce e) port))"
    using assms(2) by (simp add: ls_bit_def del: LS_READ_true)
  show ?thesis
    unfolding assms(1) update_vf_lsc_list_def Let_def up [symmetric]
    by (intro conjI allI; simp add: put_sts_def ls_bit_upd keeps lsc_clear_others port_range del: LS_READ_true)
qed

section \<open>Witnesses\<close>

definition ctl_env_ex :: ctl_env where
  "ctl_env_ex = \<lparr>ce = cfg_env_ex, vev = veb_env_ex, lev = link_env_ex, cf = ctl_flags_ex, NS_PLATFORM_TYPE = 10,
     NFD_MAX_CTRL = 1, NFD_CFG_CTRL_CAP = 1, CFG_STS_LINK = 1, NFD_VF_CFG_MB_CAP_MAC = 1, NFD_VF_CFG_MAC_SZ = 6,
     sriov_raw64 = (\<lambda>c. push_bit 32 (ucast (sr_mac_hi c)) OR push_bit 16 (ucast (sr_mac_lo c))),
     LINK_STATE_AUTO = 0, LINK_STATE_ENABLE = 1, LINK_STATE_DISABLE = 2, dp_mes_ids = [0x204, 0x205],
     NFD_PCIE_EMEM = (\<lambda>n. n = 0)\<rparr>"

definition app_state_ex :: app_state where
  "app_state_ex = \<lparr>priv = app_private_ex, chw = hw_ex, vio = veb_io_ex, host = host_ex, hist = [], mac_reg_lock = 0,
     bar_ctrl = (\<lambda>_ _. (1, 1)), bar_sts = (\<lambda>_ _. 0), bar_bpf = (\<lambda>_. (0, 0, 0)), vf_mb = (\<lambda>_. \<lparr>mb_vf = 0, mb_update_flags = 0\<rparr>),
     vf_mb_ret = (\<lambda>_. 0)\<rparr>"

definition cfg_msg_ex :: cfg_msg where
  "cfg_msg_ex = \<lparr>msg_error = 0, msg_valid = 1, msg_vid = 5\<rparr>"

definition junk_ex :: "nat \<Rightarrow> junk" where
  "junk_ex n = \<lparr>j_acts = mk [] (\<lambda>_. 0), j_word = 0, j_vlan = 0\<rparr>"

lemma slots_ok_ex: "slots_ok cfg_env_ex 0 48"
proof -
  have "i = 0 \<or> i = 1 \<or> i = 2 \<or> i = 3" if "i < 4" for i :: nat using that by linarith
  then show ?thesis by (fastforce simp: slots_ok_def wire_slot_def cfg_env_ex_def)
qed

text \<open>The first PF is down (its control word is 0), and its MAC address is valid:
  taking VF 5 down installs the wire list of a PF that is up.\<close>

theorem vf_reconfig_pf_lists_witness:
  "ctl_word app_state_ex 0 48 = 0 \<and>
   (\<exists>m' s'. process_vf_reconfig ctl_env_ex junk_ex 0 0 1 5 cfg_msg_ex app_state_ex = Some (0, m', s') \<and>
     holds_list cfg_env_ex (chw s') (wire_slot 0)
        (spec_nbi cfg_env_ex (host s') 0 0 48 (c_bool (veb_needed ctl_env_ex 0 0 s')) (ctl_word s' 0 48) (chw s')))"
proof -
  have e: "ce ctl_env_ex = cfg_env_ex" "vev ctl_env_ex = veb_env_ex" "NFD_PF2VID cfg_env_ex 0 = 48" "j_word (junk_ex 1) = 0"
    by (simp_all add: ctl_env_ex_def cfg_env_ex_def junk_ex_def)
  have l: "legal_vf ctl_env_ex 0 1"
    by (simp add: legal_vf_def ctl_env_ex_def cfg_env_ex_def net_ctrl_ex_def ctl_flags_ex_def NFD_CFG_VF_LEGAL_UPD_def)
  have u: "\<not> flag 0 (CTRL_ENABLE (nc cfg_env_ex))" "\<not> flag 1 (UPDATE_MACADDR (nc cfg_env_ex))"
    by (simp_all add: flag_def cfg_env_ex_def net_ctrl_ex_def c_true_def)
  have m: "pf_mac_ok ctl_env_ex 0 app_state_ex"
    by (simp add: pf_mac_ok_def app_state_ex_def host_ex_def bar_ex_def unicast_def mac_veb_key_def MAC64_FROM_VEB_KEY_def
        bar_mac64_def c_true_def)
  show ?thesis
    using vf_reconfig_pf_lists [of ctl_env_ex 5 5 0 1 0 0 junk_ex cfg_msg_ex app_state_ex, unfolded e, OF vf_ex veb_ok_ex l pf_ex slots_ok_ex] u m
    by (auto simp: ctl_word_def app_state_ex_def app_private_ex_def)
qed

lemma tm_addr_ex: "q < 1024 \<Longrightarrow> unat (NBI_TM_Q_CFG_ADDR link_env_ex 0 q) = 0x48000 + 4 * q"
  by (simp add: NBI_TM_Q_CFG_ADDR_def link_env_ex_def unat_word_ariths unat_of_nat take_bit_nat_eq_self)

lemma tm_reg_ex: "q < 1024 \<Longrightarrow> reg_stored (dv link_env_ex) (\<lambda>_. 4) (NBI_TM_Q_CFG_ADDR link_env_ex 0 q)"
proof -
  assume q: "q < 1024"
  let ?a = "NBI_TM_Q_CFG_ADDR link_env_ex 0 q"
  have "?a \<noteq> 0x30004" "?a \<noteq> 0x20000" using tm_addr_ex [OF q] by auto
  then show ?thesis by (simp add: reg_stored_def link_env_ex_def [THEN arg_cong [where f = dv]] link_dev_ex_def)
qed

theorem port_tx_queues_witness:
  "\<exists>h1. mac_port_enable_tx ctl_env_ex 1 app_state_ex = Some (app_state_ex\<lparr>hist := h1\<rparr>) \<and>
     xpb_dev (dv link_env_ex) h1 (NBI_TM_Q_CFG_ADDR link_env_ex 0 (NS_PLATFORM_NBI_TM_QID_LO CARBON 1)) = 5"
proof -
  have e: "board ctl_env_ex = CARBON" "lev ctl_env_ex = link_env_ex" "mac_reg_lock app_state_ex = 0" "hist app_state_ex = []"
    "QUEUE_CONFIG_QUEUEENABLE link_env_ex = 1"
    by (simp_all add: ctl_env_ex_def cfg_env_ex_def app_state_ex_def link_env_ex_def)
  have p: "platform_of 10 = Some (board ctl_env_ex)" "1 < NS_PLATFORM_NUM_PORTS (board ctl_env_ex)"
    unfolding e by (simp_all add: platform_of_def NS_PLATFORM_NUM_PORTS_def CARBON_def)
  have inj: "inj_on (NBI_TM_Q_CFG_ADDR (lev ctl_env_ex) 0) {..<1024}"
    unfolding e by (rule inj_onI) (use tm_addr_ex in \<open>metis add_left_cancel lessThan_iff mult_left_cancel numeral_eq_iff zero_neq_numeral\<close>)
  let ?q = "NS_PLATFORM_NBI_TM_QID_LO CARBON 1"
  have q: "?q < 1024" "?q \<le> NS_PLATFORM_NBI_TM_QID_HI CARBON 1"
    by (simp_all add: NS_PLATFORM_NBI_TM_QID_LO_def NS_PLATFORM_NBI_TM_QID_HI_def CARBON_def)
  have old: "xpb_dev (dv link_env_ex) [] (NBI_TM_Q_CFG_ADDR link_env_ex 0 ?q) = 4"
    using tm_reg_ex [OF q(1)] by (simp add: reg_stored_def)
  have st: "reg_stored (dv (lev ctl_env_ex)) (\<lambda>_. 4) (NBI_TM_Q_CFG_ADDR (lev ctl_env_ex) 0 q)" if "q < 1024" for q
    unfolding e using tm_reg_ex [OF that] .
  show ?thesis
    using port_tx_queues [OF p e(3) st inj] q old unfolding e Let_def by fastforce
qed

definition app_link_ex :: app_state where
  "app_link_ex = app_state_ex\<lparr>priv := app_private_ex\<lparr>ls_current := ls_upd True 0 48 (\<lambda>_ _. 0)\<rparr>\<rparr>"

theorem vf_link_policy_witness:
  "ls_bit (ls_current (priv (update_vf_lsc_list ctl_env_ex 0 0 5 0 (LINK_STATE_DISABLE ctl_env_ex) app_link_ex))) 0 5 \<and>
   \<not> ls_bit (vf_lsc_list (priv (update_vf_lsc_list ctl_env_ex 0 0 5 0 (LINK_STATE_DISABLE ctl_env_ex) app_link_ex)) 0) 0 5"
proof -
  have pf: "NFD_PF2VID (ce ctl_env_ex) 0 = 48" "LINK_STATE_DISABLE ctl_env_ex = 2" "LINK_STATE_AUTO ctl_env_ex = 0"
    "NS_PLATFORM_NUM_PORTS (board ctl_env_ex) = 2"
    by (simp_all add: ctl_env_ex_def cfg_env_ex_def NS_PLATFORM_NUM_PORTS_def CARBON_def)
  have on: "ls_bit (ls_current (priv app_link_ex)) 0 48" by (simp add: app_link_ex_def ls_bit_upd)
  show ?thesis
    using vf_link_policy [where e = ctl_env_ex and pcie = 0 and port = 0 and vf = 5 and control = 0
        and mode = "LINK_STATE_DISABLE ctl_env_ex" and s = app_link_ex, OF refl refl] pf on by simp
qed

end
