(* ===== verification/Lsc.thy ===== *)
theory Lsc
  imports ControlSpec
begin

unbundle bit_operations_syntax

text \<open>
  The link state context of \<open>firmware/apps/nic/app_master_main.c\<close>: checking the
  MAC link of every port, reporting it in the BARs of the PF and of the VFs
  that follow it, and sending or deferring the MSI-X interrupts; and the start
  of the application master.  \<open>lsc_state\<close> adds to the state of \<open>ControlLib\<close> the
  interrupt registers of the BARs.  The MSI-X library is a parameter: \<open>msix_send\<close>
  gives the result of the \<open>n\<close>-th send.
\<close>

record lsc_env =
  ctl :: ctl_env
  NFP_NET_CFG_ICR_LSC :: u32
  msix_send :: "nat \<Rightarrow> u32 \<Rightarrow> u32 \<Rightarrow> u32 \<Rightarrow> u32"

record lsc_state =
  app :: app_state
  bar_lsc :: "u32 \<Rightarrow> u32 \<Rightarrow> u32"
  bar_icr :: "u32 \<Rightarrow> u32 \<Rightarrow> u32 \<Rightarrow> u32"
  msix_log :: "(u32 \<times> u32 \<times> u32) list"

section \<open>Interrupts\<close>

definition put_icr_byte :: "u32 \<Rightarrow> u32 \<Rightarrow> u32 \<Rightarrow> u32 \<Rightarrow> lsc_state \<Rightarrow> lsc_state" where
  "put_icr_byte pcie vid entry v st =
    (let old = bar_icr st pcie vid entry in
     st\<lparr>bar_icr := (bar_icr st)(pcie := (bar_icr st pcie)(vid := (bar_icr st pcie vid)(entry :=
        (old AND NOT 0xff) OR (v AND 0xff))))\<rparr>)"

definition lsc_send :: "lsc_env \<Rightarrow> u32 \<Rightarrow> u32 \<Rightarrow> lsc_state \<Rightarrow> u32 \<times> lsc_state" where
  "lsc_send le pcie vid st =
    (let entry = bar_lsc st pcie vid AND 0xff in
     if entry = 0xff then (0, st)
     else
       let automask = ctl_word (app st) pcie vid AND CTRL_MSIXAUTO (cf (ctl le)) in
       if \<not> c_true automask \<and> c_true (bar_icr st pcie vid entry AND 0xff) then (1, st)
       else
         let st = (if \<not> c_true automask then put_icr_byte pcie vid entry (NFP_NET_CFG_ICR_LSC le) st else st);
             ret = msix_send le (length (msix_log st)) pcie entry automask
         in (ret, st\<lparr>msix_log := msix_log st @ [(pcie, entry, automask)]\<rparr>))"

text \<open>Changing one bit array of the private tables, and sending with the outcome
  recorded in the pending bit.\<close>

definition put_pending :: "bool \<Rightarrow> u32 \<Rightarrow> u32 \<Rightarrow> lsc_state \<Rightarrow> lsc_state" where
  "put_pending b pcie vid st = st\<lparr>app := (app st)\<lparr>priv := (priv (app st))\<lparr>pending :=
     ls_upd b (unat pcie) vid (pending (priv (app st)))\<rparr>\<rparr>\<rparr>"

definition put_ls :: "bool \<Rightarrow> u32 \<Rightarrow> u32 \<Rightarrow> lsc_state \<Rightarrow> lsc_state" where
  "put_ls b pcie vid st = st\<lparr>app := (app st)\<lparr>priv := (priv (app st))\<lparr>ls_current :=
     ls_upd b (unat pcie) vid (ls_current (priv (app st)))\<rparr>\<rparr>\<rparr>"

definition put_vs :: "bool \<Rightarrow> u32 \<Rightarrow> u32 \<Rightarrow> lsc_state \<Rightarrow> lsc_state" where
  "put_vs b pcie vid st = st\<lparr>app := (app st)\<lparr>priv := (priv (app st))\<lparr>vs_current :=
     ls_upd b (unat pcie) vid (vs_current (priv (app st)))\<rparr>\<rparr>\<rparr>"

definition send_or_pend :: "lsc_env \<Rightarrow> u32 \<Rightarrow> u32 \<Rightarrow> lsc_state \<Rightarrow> lsc_state" where
  "send_or_pend le pcie vid st =
    (let (ret, st) = lsc_send le pcie vid st in put_pending (c_true ret) pcie vid st)"

section \<open>Checking the link\<close>

definition lsc_check_vf_one :: "lsc_env \<Rightarrow> u32 \<Rightarrow> nat \<Rightarrow> link_state \<Rightarrow> u32 \<Rightarrow> lsc_state \<Rightarrow> lsc_state" where
  "lsc_check_vf_one le pcie port lst vf_vid st =
    (if fst (NFD_VID2VNIC (ce (ctl le)) vf_vid) = NFD_VNIC_TYPE_VF \<and>
        c_true (LS_READ (vf_lsc_list (priv (app st)) (of_nat port) (unat pcie)) vf_vid)
     then
       let st = put_ls (lst = LINK_UP) pcie vf_vid st;
           st = st\<lparr>app := put_sts pcie vf_vid (if lst = LINK_UP then sts_up (board (ctl le)) port else sts_down) (app st)\<rparr>
       in send_or_pend le pcie vf_vid st
     else st)"

definition lsc_check_vf :: "lsc_env \<Rightarrow> u32 \<Rightarrow> nat \<Rightarrow> link_state \<Rightarrow> lsc_state \<Rightarrow> lsc_state" where
  "lsc_check_vf le pcie port lst st =
     fold (\<lambda>v st. lsc_check_vf_one le pcie port lst (of_nat v) st) [0..<NVNICS (ctl le)] st"

text \<open>Enabling the receive and transmit path of a port, in both places where the
  code does it.\<close>

definition port_path_on :: "ctl_env \<Rightarrow> nat \<Rightarrow> app_state \<Rightarrow> app_state option" where
  "port_path_on e port s = do {
     s \<leftarrow> mac_port_enable_rx e port s;
     s \<leftarrow> mac_port_enable_tx e port s;
     mac_port_disable_tx_flush e (NS_PLATFORM_MAC (board e) port) (NS_PLATFORM_MAC_CORE (board e) port)
       (NS_PLATFORM_MAC_CORE_SERDES_LO (board e) port) s }"

text \<open>The first part of \<open>lsc_check\<close>: the link according to the MAC and the vNICs,
  the bits that record them and the reaction of the port.  The result is
  \<open>changed\<close>, the link state to report and \<open>vs\<close>.\<close>

definition lsc_observe :: "lsc_env \<Rightarrow> u32 \<Rightarrow> nat \<Rightarrow> lsc_state \<Rightarrow> (bool \<times> link_state \<times> u32 \<times> lsc_state) option" where
  "lsc_observe le pcie port st =
    (let e = ctl le; p = board e; pf_vid = NFD_PF2VID (ce e) (of_nat port) in do {
       (lst, hs) \<leftarrow> mac_eth_port_link_state (lev e) (NS_PLATFORM_MAC p port) (NS_PLATFORM_MAC_SERDES_LO p port)
         (\<not> NS_PLATFORM_PORT_SPEED p port > 1) (hist (app st));
       let st = st\<lparr>app := (app st)\<lparr>hist := hs\<rparr>\<rparr>;
       let ls_changed = (c_bool (lst = LINK_UP) \<noteq> LS_READ (ls_current (priv (app st)) (unat pcie)) pf_vid);
       let st = (if ls_changed then put_ls (lst = LINK_UP) pcie pf_vid st else st);
       let vs = nic_control_check_up e (priv (app st)) pf_vid;
       let vs_changed = (vs \<noteq> LS_READ (vs_current (priv (app st)) (unat pcie)) pf_vid);
       let lst = (if vs_changed \<and> \<not> c_true vs then LINK_DOWN else lst);
       let st = (if vs_changed then put_vs (c_true vs) pcie pf_vid st else st);
       Some (ls_changed \<or> vs_changed, lst, vs, st) })"

definition lsc_react :: "lsc_env \<Rightarrow> nat \<Rightarrow> bool \<Rightarrow> link_state \<Rightarrow> u32 \<Rightarrow> app_state \<Rightarrow> app_state option" where
  "lsc_react le port changed lst vs s =
    (let e = ctl le; p = board e in
     if \<not> changed then Some s
     else if lst = LINK_DOWN
       then mac_port_enable_tx_flush e (NS_PLATFORM_MAC p port) (NS_PLATFORM_MAC_CORE p port) (NS_PLATFORM_MAC_CORE_SERDES_LO p port) s
     else if c_true vs then port_path_on e port s
     else Some s)"

text \<open>The status word, with the forced enable when reception is found off.\<close>

definition lsc_report :: "lsc_env \<Rightarrow> u32 \<Rightarrow> nat \<Rightarrow> link_state \<Rightarrow> u32 \<Rightarrow> app_state \<Rightarrow> app_state option" where
  "lsc_report le pcie port lst vs s =
    (let e = ctl le; p = board e; pf_vid = NFD_PF2VID (ce e) (of_nat port) in
     if lst = LINK_UP \<and> flag (ctl_word s pcie pf_vid) (CTRL_ENABLE (nc (ce e))) then do {
       s \<leftarrow> (if c_true vs then do {
           (on, hs) \<leftarrow> mac_eth_check_rx_enable (lev e) (NS_PLATFORM_MAC p port) (NS_PLATFORM_MAC_CORE p port)
             (NS_PLATFORM_MAC_CORE_SERDES_LO p port) (hist s);
           let s = s\<lparr>hist := hs\<rparr>;
           if on then Some s else port_path_on e port s }
         else Some s);
       Some (put_sts pcie pf_vid (sts_up p port) s) }
     else Some (put_sts pcie pf_vid sts_down s))"

definition lsc_check :: "lsc_env \<Rightarrow> u32 \<Rightarrow> nat \<Rightarrow> lsc_state \<Rightarrow> lsc_state option" where
  "lsc_check le pcie port st =
    (let e = ctl le; pf_vid = NFD_PF2VID (ce e) (of_nat port) in do {
       (changed, lst, vs, st) \<leftarrow> lsc_observe le pcie port st;
       s \<leftarrow> lsc_react le port changed lst vs (app st);
       s \<leftarrow> lsc_report le pcie port lst vs s;
       let st = st\<lparr>app := s\<rparr>;
       Some (if (changed \<or> c_true (LS_READ (pending (priv s) (unat pcie)) pf_vid)) \<and>
                flag (ctl_word s pcie pf_vid) (CTRL_ENABLE (nc (ce e)))
             then let st = send_or_pend le pcie pf_vid st
                  in if changed then lsc_check_vf le pcie port lst st else st
             else st) })"

fun check_ports :: "lsc_env \<Rightarrow> u32 \<Rightarrow> nat list \<Rightarrow> lsc_state \<Rightarrow> lsc_state option" where
  "check_ports le pcie [] st = Some st"
| "check_ports le pcie (port # ports) st = do { st \<leftarrow> lsc_check le pcie port st; check_ports le pcie ports st }"

definition lsc_check_ports :: "lsc_env \<Rightarrow> u32 \<Rightarrow> lsc_state \<Rightarrow> lsc_state option" where
  "lsc_check_ports le pcie st = check_ports le pcie [0..<NS_PLATFORM_NUM_PORTS (board (ctl le))] st"

definition pending_one :: "lsc_env \<Rightarrow> u32 \<Rightarrow> u32 \<Rightarrow> lsc_state \<Rightarrow> lsc_state" where
  "pending_one le pcie vid st =
    (if flag (ctl_word (app st) pcie vid) (CTRL_ENABLE (nc (ce (ctl le))))
     then if c_true (LS_READ (pending (priv (app st)) (unat pcie)) vid) then send_or_pend le pcie vid st else st
     else put_pending False pcie vid st)"

definition handle_pending_interrupts :: "lsc_env \<Rightarrow> u32 \<Rightarrow> lsc_state \<Rightarrow> lsc_state" where
  "handle_pending_interrupts le pcie st =
     fold (\<lambda>v st. pending_one le pcie (of_nat v) st) [0..<NVNICS (ctl le)] st"

text \<open>The islands that are compiled in.\<close>

definition islands :: "lsc_env \<Rightarrow> nat list" where
  "islands le = filter (NFD_PCIE_EMEM (ctl le)) [0, 1, 2, 3]"

fun check_islands :: "lsc_env \<Rightarrow> nat list \<Rightarrow> lsc_state \<Rightarrow> lsc_state option" where
  "check_islands le [] st = Some st"
| "check_islands le (i # is) st = do { st \<leftarrow> lsc_check_ports le (of_nat i) st; check_islands le is st }"

definition LSC_POLL_PERIOD :: nat where
  "LSC_POLL_PERIOD = 10000"

text \<open>One round of the endless loop of \<open>lsc_loop\<close>.\<close>

definition lsc_loop_step :: "lsc_env \<Rightarrow> nat \<times> lsc_state \<Rightarrow> (nat \<times> lsc_state) option" where
  "lsc_loop_step le cs =
    (let (lsc_count, st) = cs;
         st = st\<lparr>app := (app st)\<lparr>hist := Sleep LSC_POLL_PERIOD # hist (app st)\<rparr>\<rparr>;
         lsc_count = lsc_count + 1;
         st = fold (\<lambda>i st. handle_pending_interrupts le (of_nat i) st) (islands le) st
     in if lsc_count > 19 then do { st \<leftarrow> check_islands le (islands le) st; Some (0, st) }
        else Some (lsc_count, st))"

section \<open>Start\<close>

fun disable_ports :: "ctl_env \<Rightarrow> nat list \<Rightarrow> app_state \<Rightarrow> app_state option" where
  "disable_ports e [] s = Some s"
| "disable_ports e (port # ports) s = do { (_, s) \<leftarrow> mac_port_disable_rx e port s; disable_ports e ports s }"

definition mac_rx_disable :: "ctl_env \<Rightarrow> app_state \<Rightarrow> app_state option" where
  "mac_rx_disable e s = do {
     s \<leftarrow> disable_ports e [0..<NS_PLATFORM_NUM_PORTS (board e)] s;
     Some (s\<lparr>hist := Sleep (NS_PLATFORM_TCLK (board e) * 1000000 div 20) # hist s\<rparr>) }"

text \<open>\<open>nic_local_init\<close> does nothing without the debug journal.\<close>

definition init_nic :: "ctl_env \<Rightarrow> u32 list \<Rightarrow> app_state \<Rightarrow> app_state" where
  "init_nic e pad s = s\<lparr>chw := upd_slicc_hash_table (ce e) pad (init_nn_tables (ce e) (chw s))\<rparr>"

section \<open>What the steps change\<close>

lemma lsc_send_app [simp]: "app (snd (lsc_send le pcie vid st)) = app st"
  by (simp add: lsc_send_def put_icr_byte_def Let_def)

lemma send_or_pend_app:
  "app (send_or_pend le pcie vid st) = (app st)\<lparr>priv := (priv (app st))\<lparr>pending :=
     ls_upd (c_true (fst (lsc_send le pcie vid st))) (unat pcie) vid (pending (priv (app st)))\<rparr>\<rparr>"
  by (simp add: send_or_pend_def put_pending_def split: prod.split) (metis lsc_send_app snd_conv)

text \<open>The part of the state that reports the link of a vNIC.\<close>

definition report_of :: "u32 \<Rightarrow> u32 \<Rightarrow> lsc_state \<Rightarrow> bool \<times> bool \<times> u32 \<times> u32 \<times> (u32 \<Rightarrow> u32 \<Rightarrow> u32)" where
  "report_of pcie vid st = (ls_bit (ls_current (priv (app st))) (unat pcie) vid, ls_bit (vs_current (priv (app st))) (unat pcie) vid,
     bar_sts (app st) pcie vid, mac_reg_lock (app st), ctl_word (app st))"

lemma report_send [simp]: "report_of pcie v (send_or_pend le pcie vid st) = report_of pcie v st"
  by (simp add: report_of_def send_or_pend_app ctl_word_def fun_eq_iff)

lemma report_check_vf_one:
  "fst (NFD_VID2VNIC (ce (ctl le)) v) \<noteq> NFD_VNIC_TYPE_VF \<Longrightarrow>
     report_of pcie v (lsc_check_vf_one le pcie port lst w st) = report_of pcie v st"
  by (auto simp: lsc_check_vf_one_def Let_def)
    (auto simp: report_of_def put_ls_def put_sts_def ls_bit_upd ctl_word_def [abs_def])

lemma report_check_vf:
  assumes "fst (NFD_VID2VNIC (ce (ctl le)) v) \<noteq> NFD_VNIC_TYPE_VF"
  shows "report_of pcie v (lsc_check_vf le pcie port lst st) = report_of pcie v st"
proof -
  have "report_of pcie v (fold (\<lambda>w st. lsc_check_vf_one le pcie port lst (of_nat w) st) ws st) = report_of pcie v st" for ws
    by (induction ws arbitrary: st) (simp_all add: report_check_vf_one [OF assms])
  then show ?thesis by (simp add: lsc_check_vf_def)
qed

section \<open>The port operations return on every board\<close>

lemma tx_datapath_total:
  assumes "nbi < 2" "\<forall>q \<in> set qs. q < 1024"
  shows "\<exists>hs'. enable_port_tx_datapath le nbi qs hs = Some hs'"
  using assms(2) by (induction qs arbitrary: hs) (simp_all add: tm_enable_queue_eq(1) [OF assms(1)])

lemma mac_args_port:
  assumes "platform_of ty = Some p" "port < NS_PLATFORM_NUM_PORTS p"
  shows "mac_args_ok (NS_PLATFORM_MAC p port) (NS_PLATFORM_MAC_CORE p port) (NS_PLATFORM_MAC_CORE_SERDES_LO p port)"
    "NS_PLATFORM_MAC p port < MAX_MAC_ISLANDS_PER_NFP" "NS_PLATFORM_MAC_SERDES_LO p port < MAX_ETH_PORTS_PER_MAC_ISL"
  using port_ok [OF assms] unfolding port_ok_def
  by (auto simp: mac_args_ok_def MAX_MAC_ISLANDS_PER_NFP_def MAX_MAC_CORES_PER_MAC_ISL_def MAX_ETH_PORTS_PER_MAC_CORE_def
      MAX_ETH_PORTS_PER_MAC_ISL_def NS_PLATFORM_MAC_SERDES_LO_def)

lemma lock_frame: "mac_reg_lock s = 0 \<Longrightarrow> s\<lparr>mac_reg_lock := 1, hist := h, mac_reg_lock := 0\<rparr> = s\<lparr>hist := h\<rparr>" for s :: app_state
  by simp

lemma port_path_on_total:
  assumes "platform_of ty = Some (board e)" "port < NS_PLATFORM_NUM_PORTS (board e)" "mac_reg_lock s = 0"
  shows "\<exists>h. port_path_on e port s = Some (s\<lparr>hist := h\<rparr>)"
proof -
  note a = mac_args_port [OF assms(1,2)] and q = port_queue_facts [OF assms(1,2)]
  have rx: "mac_port_enable_rx e port s = Some (s\<lparr>hist := issue_sync_me_cmd (NS_PLATFORM_MAC (board e) port) (NS_PLATFORM_MAC_CORE (board e) port)
      (NS_PLATFORM_MAC_CORE_SERDES_LO (board e) port) ARB_CODE_ETH_CMD_CFG_ENABLE_RX 0 (hist s)\<rparr>)" (is "_ = Some (s\<lparr>hist := ?h1\<rparr>)")
    using a(1) lock_frame [OF assms(3)] assms(3)
    by (simp add: mac_port_enable_rx_def mac_eth_enable_rx_def LOCAL_MUTEX_LOCK_def LOCAL_MUTEX_UNLOCK_def c_true_def)
  obtain h2 where "enable_port_tx_datapath (lev e) 0 (port_queues (board e) port) ?h1 = Some h2"
    using tx_datapath_total [of 0, OF _ q(2)] by auto
  then have tx: "mac_port_enable_tx e port (s\<lparr>hist := ?h1\<rparr>) = Some (s\<lparr>hist := h2\<rparr>)"
    using q(3) assms(3) by (simp add: mac_port_enable_tx_def LOCAL_MUTEX_LOCK_def LOCAL_MUTEX_UNLOCK_def c_true_def)
  have fl: "\<exists>h. mac_port_disable_tx_flush e (NS_PLATFORM_MAC (board e) port) (NS_PLATFORM_MAC_CORE (board e) port)
      (NS_PLATFORM_MAC_CORE_SERDES_LO (board e) port) (s\<lparr>hist := h2\<rparr>) = Some (s\<lparr>hist := h\<rparr>)"
    using a(1) assms(3)
    by (cases s) (auto simp: mac_port_disable_tx_flush_def mac_eth_disable_tx_flush_def LOCAL_MUTEX_LOCK_def LOCAL_MUTEX_UNLOCK_def c_true_def)
  show ?thesis using rx tx fl by (simp add: port_path_on_def)
qed

lemma lsc_react_total:
  assumes "platform_of ty = Some (board (ctl le))" "port < NS_PLATFORM_NUM_PORTS (board (ctl le))" "mac_reg_lock s = 0"
  shows "\<exists>h. lsc_react le port changed lst vs s = Some (s\<lparr>hist := h\<rparr>)"
proof -
  note a = mac_args_port [OF assms(1,2)]
  have fl: "\<exists>h. mac_port_enable_tx_flush (ctl le) (NS_PLATFORM_MAC (board (ctl le)) port) (NS_PLATFORM_MAC_CORE (board (ctl le)) port)
      (NS_PLATFORM_MAC_CORE_SERDES_LO (board (ctl le)) port) s = Some (s\<lparr>hist := h\<rparr>)"
    using a(1) assms(3)
    by (cases s) (auto simp: mac_port_enable_tx_flush_def mac_eth_enable_tx_flush_def LOCAL_MUTEX_LOCK_def LOCAL_MUTEX_UNLOCK_def c_true_def)
  have same: "\<exists>h. Some s = Some (s\<lparr>hist := h\<rparr>)" by (rule exI [of _ "hist s"]) simp
  show ?thesis unfolding lsc_react_def Let_def using fl same port_path_on_total [OF assms] by presburger
qed

lemma lsc_report_total:
  assumes "platform_of ty = Some (board (ctl le))" "port < NS_PLATFORM_NUM_PORTS (board (ctl le))" "mac_reg_lock s = 0"
  shows "\<exists>h. lsc_report le pcie port lst vs s = Some (put_sts pcie (NFD_PF2VID (ce (ctl le)) (of_nat port))
     (if lst = LINK_UP \<and> flag (ctl_word s pcie (NFD_PF2VID (ce (ctl le)) (of_nat port))) (CTRL_ENABLE (nc (ce (ctl le))))
      then sts_up (board (ctl le)) port else sts_down) (s\<lparr>hist := h\<rparr>))"
proof -
  note a = mac_args_port [OF assms(1,2)]
  have on: "\<exists>h. port_path_on (ctl le) port (s\<lparr>hist := h0\<rparr>) = Some (s\<lparr>hist := h\<rparr>)" for h0
    using port_path_on_total [OF assms(1,2), of "s\<lparr>hist := h0\<rparr>"] assms(3) by simp
  show ?thesis
  proof (cases "lst = LINK_UP \<and> flag (ctl_word s pcie (NFD_PF2VID (ce (ctl le)) (of_nat port))) (CTRL_ENABLE (nc (ce (ctl le))))")
    case False
    then show ?thesis unfolding lsc_report_def Let_def by (intro exI [of _ "hist s"]) auto
  next
    case up: True
    show ?thesis
    proof (cases "c_true vs")
      case False
      then show ?thesis unfolding lsc_report_def Let_def using up by (intro exI [of _ "hist s"]) simp
    next
      case True
      obtain b h0 where c: "mac_eth_check_rx_enable (lev (ctl le)) (NS_PLATFORM_MAC (board (ctl le)) port) (NS_PLATFORM_MAC_CORE (board (ctl le)) port)
          (NS_PLATFORM_MAC_CORE_SERDES_LO (board (ctl le)) port) (hist s) = Some (b, h0)"
        using a(1) by (simp add: mac_eth_check_rx_enable_def xpb_read_def)
      show ?thesis unfolding lsc_report_def Let_def using up True c on [of h0] by (cases b) auto
    qed
  qed
qed

section \<open>The check of a port\<close>

lemma fold_or_bit:
  "bit (fold (\<lambda>i w. w OR f i) xs (w0 :: u32)) n \<longleftrightarrow> bit w0 n \<or> (\<exists>i \<in> set xs. bit (f i) n)"
  by (induction xs arbitrary: w0) (auto simp: bit_or_iff)

lemma check_up_enabled:
  assumes "flag (ctl_word s pcie v) (CTRL_ENABLE (nc (ce e)))" "unat pcie < NFD_MAX_ISL (ce e)"
  shows "c_true (nic_control_check_up e (priv s) v)"
  using assms unfolding flag_def c_true_bit nic_control_check_up_def bit_and_iff fold_or_bit ctl_word_def by fastforce

lemma lsc_observe_result:
  assumes "mac_eth_port_link_state (lev (ctl le)) (NS_PLATFORM_MAC (board (ctl le)) port) (NS_PLATFORM_MAC_SERDES_LO (board (ctl le)) port)
      (\<not> NS_PLATFORM_PORT_SPEED (board (ctl le)) port > 1) (hist (app st)) = Some (lst, hs)"
    and "pf = NFD_PF2VID (ce (ctl le)) (of_nat port)" "vs = nic_control_check_up (ctl le) (priv (app st)) pf"
  shows "\<exists>changed st'. lsc_observe le pcie port st =
       Some (changed, if c_true vs then lst else if ls_bit (vs_current (priv (app st))) (unat pcie) pf then LINK_DOWN else lst, vs, st') \<and>
     report_of pcie pf st' = (lst = LINK_UP, c_true vs, bar_sts (app st) pcie pf, mac_reg_lock (app st), ctl_word (app st))"
proof -
  have rd: "LS_READ a v = (if c_true (LS_READ a v) then 1 else 0)" for a v
    using LS_READ_range [of a v] by (auto simp: c_true_def)
  let ?p = "priv (app st)"
  have lsr: "c_bool (lst = LINK_UP) = LS_READ (ls_current ?p (unat pcie)) pf \<longleftrightarrow> (lst = LINK_UP) = ls_bit (ls_current ?p) (unat pcie) pf"
    by (subst rd) (auto simp: ls_bit_def c_bool_def simp del: LS_READ_true)
  have cu: "nic_control_check_up (ctl le) (?p\<lparr>ls_current := x\<rparr>) pf = vs" for x
    using assms(3) by (simp add: nic_control_check_up_def)
  have vsd: "\<not> c_true vs \<Longrightarrow> vs = LS_READ (vs_current ?p (unat pcie)) pf \<longleftrightarrow> \<not> ls_bit (vs_current ?p) (unat pcie) pf"
    by (subst rd) (auto simp: ls_bit_def c_true_def)
  have vsu: "vs = LS_READ (vs_current ?p (unat pcie)) pf \<Longrightarrow> c_true vs = ls_bit (vs_current ?p) (unat pcie) pf"
    by (simp add: ls_bit_def del: LS_READ_true)
  show ?thesis
    unfolding lsc_observe_def Let_def assms(1) assms(2) [symmetric] report_of_def
    using lsr cu vsd vsu assms(3)
    by (auto simp: put_ls_def put_vs_def ls_bit_upd ctl_word_def [abs_def] simp del: LS_READ_true)
qed

lemma lsc_check_result:
  assumes "platform_of ty = Some (board (ctl le))" "port < NS_PLATFORM_NUM_PORTS (board (ctl le))" "mac_reg_lock (app st) = 0"
    and "mac_eth_port_link_state (lev (ctl le)) (NS_PLATFORM_MAC (board (ctl le)) port) (NS_PLATFORM_MAC_SERDES_LO (board (ctl le)) port)
      (\<not> NS_PLATFORM_PORT_SPEED (board (ctl le)) port > 1) (hist (app st)) = Some (lst, hs)"
    and "pf = NFD_PF2VID (ce (ctl le)) (of_nat port)" "fst (NFD_VID2VNIC (ce (ctl le)) pf) \<noteq> NFD_VNIC_TYPE_VF"
    and "unat pcie < NFD_MAX_ISL (ce (ctl le))"
  shows "\<exists>st'. lsc_check le pcie port st = Some st' \<and>
     report_of pcie pf st' = (lst = LINK_UP, c_true (nic_control_check_up (ctl le) (priv (app st)) pf),
       if lst = LINK_UP \<and> flag (ctl_word (app st) pcie pf) (CTRL_ENABLE (nc (ce (ctl le)))) then sts_up (board (ctl le)) port else sts_down,
       0, ctl_word (app st))"
proof -
  let ?e = "ctl le" and ?vs = "nic_control_check_up (ctl le) (priv (app st)) pf"
  obtain changed st1 lst1 where o: "lsc_observe le pcie port st = Some (changed, lst1, ?vs, st1)"
    and lst1: "lst1 = (if c_true ?vs then lst else if ls_bit (vs_current (priv (app st))) (unat pcie) pf then LINK_DOWN else lst)"
    and r1: "report_of pcie pf st1 = (lst = LINK_UP, c_true ?vs, bar_sts (app st) pcie pf, mac_reg_lock (app st), ctl_word (app st))"
    using lsc_observe_result [OF assms(4,5) refl] by blast
  have lk1: "mac_reg_lock (app st1) = 0" and cw1: "ctl_word (app st1) = ctl_word (app st)"
    using r1 assms(3) by (auto simp: report_of_def)
  obtain h2 where s2: "lsc_react le port changed lst1 ?vs (app st1) = Some ((app st1)\<lparr>hist := h2\<rparr>)"
    using lsc_react_total [OF assms(1,2) lk1] by blast
  define sts where "sts = (if lst1 = LINK_UP \<and> flag (ctl_word (app st1) pcie pf) (CTRL_ENABLE (nc (ce ?e)))
      then sts_up (board ?e) port else sts_down)"
  obtain h3 where s3: "lsc_report le pcie port lst1 ?vs ((app st1)\<lparr>hist := h2\<rparr>) = Some (put_sts pcie pf sts ((app st1)\<lparr>hist := h3\<rparr>))"
    using lsc_report_total [OF assms(1,2), of "(app st1)\<lparr>hist := h2\<rparr>" pcie lst1 ?vs] lk1
    by (auto simp: assms(5) sts_def ctl_word_def)
  have en: "lst1 = lst" if "flag (ctl_word (app st) pcie pf) (CTRL_ENABLE (nc (ce ?e)))"
    using check_up_enabled [OF that assms(7)] lst1 by simp
  have sts: "sts = (if lst = LINK_UP \<and> flag (ctl_word (app st) pcie pf) (CTRL_ENABLE (nc (ce ?e))) then sts_up (board ?e) port else sts_down)"
    unfolding sts_def cw1 using en by auto
  define st3 where "st3 = st1\<lparr>app := put_sts pcie pf sts ((app st1)\<lparr>hist := h3\<rparr>)\<rparr>"
  have r3: "report_of pcie pf st3 = (lst = LINK_UP, c_true ?vs, sts, 0, ctl_word (app st))"
    using r1 lk1 by (auto simp: report_of_def st3_def put_sts_def ctl_word_def [abs_def])
  have "\<exists>st'. lsc_check le pcie port st = Some st' \<and> (st' = st3 \<or> st' = send_or_pend le pcie pf st3 \<or>
      st' = lsc_check_vf le pcie port lst1 (send_or_pend le pcie pf st3))"
    unfolding lsc_check_def Let_def assms(5) [symmetric] o using s2 s3 by (simp add: st3_def)
  then show ?thesis using r3 report_check_vf [OF assms(6)] unfolding sts by (elim exE conjE disjE) simp_all
qed

section \<open>Pending interrupts\<close>

text \<open>The interrupt of a vNIC: its entry, its masking mode and whether it is masked;
  whether it is due (the vNIC is enabled, its interrupt is pending and
  configured) and whether a pass sends it.\<close>

definition lsc_entry :: "u32 \<Rightarrow> u32 \<Rightarrow> lsc_state \<Rightarrow> u32" where
  "lsc_entry pcie v st = bar_lsc st pcie v AND 0xff"

definition lsc_automask :: "lsc_env \<Rightarrow> u32 \<Rightarrow> u32 \<Rightarrow> lsc_state \<Rightarrow> u32" where
  "lsc_automask le pcie v st = ctl_word (app st) pcie v AND CTRL_MSIXAUTO (cf (ctl le))"

definition lsc_masked :: "lsc_env \<Rightarrow> u32 \<Rightarrow> u32 \<Rightarrow> lsc_state \<Rightarrow> bool" where
  "lsc_masked le pcie v st \<longleftrightarrow> lsc_automask le pcie v st = 0 \<and> bar_icr st pcie v (lsc_entry pcie v st) AND 0xff \<noteq> 0"

definition lsc_due :: "lsc_env \<Rightarrow> u32 \<Rightarrow> u32 \<Rightarrow> lsc_state \<Rightarrow> bool" where
  "lsc_due le pcie v st \<longleftrightarrow> flag (ctl_word (app st) pcie v) (CTRL_ENABLE (nc (ce (ctl le)))) \<and>
     ls_bit (pending (priv (app st))) (unat pcie) v \<and> lsc_entry pcie v st \<noteq> 0xff"

definition lsc_sends :: "lsc_env \<Rightarrow> u32 \<Rightarrow> u32 \<Rightarrow> lsc_state \<Rightarrow> bool" where
  "lsc_sends le pcie v st \<longleftrightarrow> lsc_due le pcie v st \<and> \<not> lsc_masked le pcie v st"

text \<open>The mask registers of a vNIC after its interrupt was sent.\<close>

definition icr_after :: "lsc_env \<Rightarrow> u32 \<Rightarrow> u32 \<Rightarrow> lsc_state \<Rightarrow> u32 \<Rightarrow> u32" where
  "icr_after le pcie v st = (if lsc_sends le pcie v st \<and> lsc_automask le pcie v st = 0
     then (bar_icr st pcie v)(lsc_entry pcie v st :=
       (bar_icr st pcie v (lsc_entry pcie v st) AND NOT 0xff) OR (NFP_NET_CFG_ICR_LSC le AND 0xff))
     else bar_icr st pcie v)"

definition still_pending :: "lsc_env \<Rightarrow> u32 \<Rightarrow> u32 \<Rightarrow> nat \<Rightarrow> lsc_state \<Rightarrow> bool" where
  "still_pending le pcie v k st \<longleftrightarrow> lsc_due le pcie v st \<and>
     (lsc_masked le pcie v st \<or> msix_send le k pcie (lsc_entry pcie v st) (lsc_automask le pcie v st) \<noteq> 0)"

definition send_log :: "lsc_env \<Rightarrow> u32 \<Rightarrow> nat list \<Rightarrow> lsc_state \<Rightarrow> (u32 \<times> u32 \<times> u32) list" where
  "send_log le pcie vs st = map (\<lambda>v. (pcie, lsc_entry pcie (of_nat v) st, lsc_automask le pcie (of_nat v) st))
     (filter (\<lambda>v. lsc_sends le pcie (of_nat v) st) vs)"

lemmas lsc_int_defs = lsc_entry_def lsc_automask_def lsc_masked_def lsc_due_def lsc_sends_def icr_after_def still_pending_def

lemma pending_one_result:
  "\<exists>P. pending_one le pcie vid st = st\<lparr>app := (app st)\<lparr>priv := (priv (app st))\<lparr>pending := P\<rparr>\<rparr>,
       bar_icr := (bar_icr st)(pcie := (bar_icr st pcie)(vid := icr_after le pcie vid st)),
       msix_log := msix_log st @ (if lsc_sends le pcie vid st then [(pcie, lsc_entry pcie vid st, lsc_automask le pcie vid st)] else [])\<rparr> \<and>
     (\<forall>i v. ls_bit P i v = (if i = unat pcie \<and> v = vid then still_pending le pcie vid (length (msix_log st)) st
        else ls_bit (pending (priv (app st))) i v))"
  (is "\<exists>P. ?run P \<and> ?bits P")
proof -
  let ?P = "pending (priv (app st))" and ?c = "ctl_word (app st) pcie vid"
  have bit: "c_true (LS_READ (?P (unat pcie)) vid) \<longleftrightarrow> ls_bit ?P (unat pcie) vid" by (simp add: ls_bit_def del: LS_READ_true)
  show ?thesis
  proof (cases "flag ?c (CTRL_ENABLE (nc (ce (ctl le)))) \<and> ls_bit ?P (unat pcie) vid")
    case True
    let ?Q = "ls_upd (c_true (fst (lsc_send le pcie vid st))) (unat pcie) vid ?P"
    have "?run ?Q"
      using True unfolding pending_one_def bit
      by (auto simp: send_or_pend_def put_pending_def lsc_send_def put_icr_byte_def lsc_int_defs c_true_def Let_def
          simp del: LS_READ_true split: if_splits)
    moreover have "?bits ?Q"
      using True by (auto simp: ls_bit_upd lsc_send_def put_icr_byte_def lsc_int_defs c_true_def Let_def simp del: LS_READ_true)
    ultimately show ?thesis by blast
  next
    case False
    let ?Q = "if flag ?c (CTRL_ENABLE (nc (ce (ctl le)))) then ?P else ls_upd False (unat pcie) vid ?P"
    have "?run ?Q" using False unfolding pending_one_def bit by (auto simp: put_pending_def lsc_int_defs)
    moreover have "?bits ?Q" using False by (auto simp: ls_bit_upd still_pending_def lsc_due_def)
    ultimately show ?thesis by blast
  qed
qed

text \<open>The state after the pass over the first \<open>n\<close> vNICs.\<close>

definition passed :: "lsc_env \<Rightarrow> u32 \<Rightarrow> nat \<Rightarrow> lsc_state \<Rightarrow> lsc_state \<Rightarrow> bool" where
  "passed le pcie n st st' \<longleftrightarrow>
     (\<exists>P I L. st' = st\<lparr>app := (app st)\<lparr>priv := (priv (app st))\<lparr>pending := P\<rparr>\<rparr>, bar_icr := I, msix_log := L\<rparr>) \<and>
     msix_log st' = msix_log st @ send_log le pcie [0..<n] st \<and>
     (\<forall>i v. ls_bit (pending (priv (app st'))) i v = (if i = unat pcie \<and> unat v < n
        then still_pending le pcie v (length (msix_log st) + length (send_log le pcie [0..<unat v] st)) st
        else ls_bit (pending (priv (app st))) i v)) \<and>
     (\<forall>i v. bar_icr st' i v = (if i = pcie \<and> unat v < n then icr_after le pcie v st else bar_icr st i v))"

lemma passed_same_vnic:
  assumes "passed le pcie n st st'" "n \<le> unat v"
  shows "lsc_entry pcie v st' = lsc_entry pcie v st" "lsc_automask le pcie v st' = lsc_automask le pcie v st"
    "lsc_sends le pcie v st' = lsc_sends le pcie v st" "icr_after le pcie v st' = icr_after le pcie v st"
    "still_pending le pcie v k st' = still_pending le pcie v k st"
proof -
  have "bar_lsc st' = bar_lsc st" "ctl_word (app st') = ctl_word (app st)"
    using assms(1) unfolding passed_def by (auto simp: ctl_word_def [abs_def])
  moreover have "bar_icr st' pcie v = bar_icr st pcie v"
    "ls_bit (pending (priv (app st'))) (unat pcie) v = ls_bit (pending (priv (app st))) (unat pcie) v"
    using assms unfolding passed_def by auto
  ultimately show "lsc_entry pcie v st' = lsc_entry pcie v st" "lsc_automask le pcie v st' = lsc_automask le pcie v st"
    "lsc_sends le pcie v st' = lsc_sends le pcie v st" "icr_after le pcie v st' = icr_after le pcie v st"
    "still_pending le pcie v k st' = still_pending le pcie v k st"
    by (simp_all add: lsc_int_defs)
qed

lemma pending_prefix: "n \<le> 2 ^ 32 \<Longrightarrow> passed le pcie n st (fold (\<lambda>v st. pending_one le pcie (of_nat v) st) [0..<n] st)"
proof (induction n)
  case 0
  have "\<exists>P I L. st = st\<lparr>app := (app st)\<lparr>priv := (priv (app st))\<lparr>pending := P\<rparr>\<rparr>, bar_icr := I, msix_log := L\<rparr>"
    by (rule exI [of _ "pending (priv (app st))"], rule exI [of _ "bar_icr st"], rule exI [of _ "msix_log st"]) simp
  then show ?case by (simp add: passed_def send_log_def)
next
  case (Suc n)
  let ?st = "fold (\<lambda>v st. pending_one le pcie (of_nat v) st) [0..<n] st" and ?v = "of_nat n :: u32"
  have IH: "passed le pcie n st ?st" using Suc by simp
  have u: "unat ?v = n" using Suc.prems by (intro unat_of_nat_small) simp
  have eq: "v = ?v \<longleftrightarrow> unat v = n" for v :: u32 using u by auto
  note same = passed_same_vnic [OF IH, of ?v, unfolded u, OF order_refl]
  obtain P where P: "pending_one le pcie ?v ?st = ?st\<lparr>app := (app ?st)\<lparr>priv := (priv (app ?st))\<lparr>pending := P\<rparr>\<rparr>,
       bar_icr := (bar_icr ?st)(pcie := (bar_icr ?st pcie)(?v := icr_after le pcie ?v st)),
       msix_log := msix_log ?st @ (if lsc_sends le pcie ?v st then [(pcie, lsc_entry pcie ?v st, lsc_automask le pcie ?v st)] else [])\<rparr>"
    "\<And>i v. ls_bit P i v = (if i = unat pcie \<and> v = ?v then still_pending le pcie ?v (length (msix_log ?st)) st
        else ls_bit (pending (priv (app ?st))) i v)"
    using pending_one_result [of le pcie ?v ?st] unfolding same by blast
  have run: "fold (\<lambda>v st. pending_one le pcie (of_nat v) st) [0..<Suc n] st = pending_one le pcie ?v ?st" by simp
  have log: "msix_log ?st = msix_log st @ send_log le pcie [0..<n] st" using IH by (simp add: passed_def)
  show ?case unfolding run passed_def
  proof (intro conjI allI)
    obtain P0 I0 L0 where "?st = st\<lparr>app := (app st)\<lparr>priv := (priv (app st))\<lparr>pending := P0\<rparr>\<rparr>, bar_icr := I0, msix_log := L0\<rparr>"
      using IH unfolding passed_def by blast
    then show "\<exists>P I L. pending_one le pcie ?v ?st = st\<lparr>app := (app st)\<lparr>priv := (priv (app st))\<lparr>pending := P\<rparr>\<rparr>, bar_icr := I, msix_log := L\<rparr>"
      unfolding P(1) by (intro exI [of _ P] exI) simp
    show "msix_log (pending_one le pcie ?v ?st) = msix_log st @ send_log le pcie [0..<Suc n] st"
      unfolding P(1) by (simp add: log send_log_def)
    show "ls_bit (pending (priv (app (pending_one le pcie ?v ?st)))) i v = (if i = unat pcie \<and> unat v < Suc n
        then still_pending le pcie v (length (msix_log st) + length (send_log le pcie [0..<unat v] st)) st
        else ls_bit (pending (priv (app st))) i v)" for i v
      using IH unfolding P(1) passed_def by (auto simp: P(2) eq log less_Suc_eq)
    show "bar_icr (pending_one le pcie ?v ?st) i v = (if i = pcie \<and> unat v < Suc n then icr_after le pcie v st else bar_icr st i v)" for i v
      using IH unfolding P(1) passed_def by (auto simp: eq less_Suc_eq)
  qed
qed

section \<open>Properties\<close>

text \<open>C11. On every board the check of a port returns and makes the PF report the
  MAC: the link bit of the PF equals the state read from the MAC, the switch
  bit says whether any island has the PF enabled, the status word shows link
  and rate exactly when the MAC has link and the PF is enabled and \<open>unknown\<close>
  otherwise, no control word changes and the MAC mutex is free again.\<close>

theorem lsc_check_reports_mac:
  assumes "platform_of ty = Some (board (ctl le))" "port < NS_PLATFORM_NUM_PORTS (board (ctl le))" "mac_reg_lock (app st) = 0"
    and "pf = NFD_PF2VID (ce (ctl le)) (of_nat port)" "fst (NFD_VID2VNIC (ce (ctl le)) pf) \<noteq> NFD_VNIC_TYPE_VF"
    and "unat pcie < NFD_MAX_ISL (ce (ctl le))" "reads_quiet (dv (lev (ctl le)))"
    and "up = link_up (lev (ctl le)) (NS_PLATFORM_MAC (board (ctl le)) port) (NS_PLATFORM_MAC_SERDES_LO (board (ctl le)) port)
       (\<not> NS_PLATFORM_PORT_SPEED (board (ctl le)) port > 1) (hist (app st))"
  shows "\<exists>st'. lsc_check le pcie port st = Some st' \<and>
     ls_bit (ls_current (priv (app st'))) (unat pcie) pf = up \<and>
     ls_bit (vs_current (priv (app st'))) (unat pcie) pf = c_true (nic_control_check_up (ctl le) (priv (app st)) pf) \<and>
     bar_sts (app st') pcie pf = (if up \<and> flag (ctl_word (app st) pcie pf) (CTRL_ENABLE (nc (ce (ctl le))))
        then sts_up (board (ctl le)) port else sts_down) \<and>
     mac_reg_lock (app st') = 0 \<and> ctl_word (app st') = ctl_word (app st)"
proof -
  note a = mac_args_port(2,3) [OF assms(1,2)]
  have "NS_PLATFORM_MAC (board (ctl le)) port < 2" "NS_PLATFORM_MAC_SERDES_LO (board (ctl le)) port < 24"
    using a by (simp_all add: MAX_MAC_ISLANDS_PER_NFP_def MAX_ETH_PORTS_PER_MAC_ISL_def MAX_ETH_PORTS_PER_MAC_CORE_def MAX_MAC_CORES_PER_MAC_ISL_def)
  from port_link_state_up [OF assms(7) this] obtain hs where
    "mac_eth_port_link_state (lev (ctl le)) (NS_PLATFORM_MAC (board (ctl le)) port) (NS_PLATFORM_MAC_SERDES_LO (board (ctl le)) port)
      (\<not> NS_PLATFORM_PORT_SPEED (board (ctl le)) port > 1) (hist (app st)) = Some (if up then LINK_UP else LINK_DOWN, hs)"
    unfolding assms(8) by blast
  from lsc_check_result [OF assms(1-3) this assms(4-6)] show ?thesis by (cases up) (auto simp: report_of_def)
qed

text \<open>C32. One pass over the pending interrupts of an island sends exactly the
  interrupts that are due and can be sent: for every vNIC in order that is
  enabled, has its interrupt pending and configured, and is auto-masked or has a
  clear mask register, one MSI-X with its entry, and no other.  A vNIC's
  interrupt is pending afterwards exactly when it was due and is masked or its
  send failed; the mask register of a vNIC whose interrupt was sent is set unless
  it is auto-masked.  Nothing else changes: the pending bits of other islands and
  vNICs, the other mask registers, the control words and the rest of the state.\<close>

theorem pending_interrupts_pass:
  assumes "st' = handle_pending_interrupts le pcie st" "NVNICS (ctl le) \<le> 2 ^ 32"
  shows "msix_log st' = msix_log st @ map (\<lambda>v. (pcie, lsc_entry pcie (of_nat v) st, lsc_automask le pcie (of_nat v) st))
       (filter (\<lambda>v. lsc_due le pcie (of_nat v) st \<and> \<not> lsc_masked le pcie (of_nat v) st) [0..<NVNICS (ctl le)]) \<and>
     (\<forall>i v. ls_bit (pending (priv (app st'))) i v = (if i = unat pcie \<and> unat v < NVNICS (ctl le)
        then lsc_due le pcie v st \<and> (lsc_masked le pcie v st \<or>
          msix_send le (length (msix_log st) + length (send_log le pcie [0..<unat v] st)) pcie (lsc_entry pcie v st) (lsc_automask le pcie v st) \<noteq> 0)
        else ls_bit (pending (priv (app st))) i v)) \<and>
     (\<forall>i v. bar_icr st' i v = (if i = pcie \<and> unat v < NVNICS (ctl le) then icr_after le pcie v st else bar_icr st i v)) \<and>
     st' = st\<lparr>app := (app st)\<lparr>priv := (priv (app st))\<lparr>pending := pending (priv (app st'))\<rparr>\<rparr>, bar_icr := bar_icr st', msix_log := msix_log st'\<rparr>"
proof -
  have p: "passed le pcie (NVNICS (ctl le)) st st'"
    using pending_prefix [OF assms(2)] by (simp add: assms(1) handle_pending_interrupts_def)
  then obtain P I L where "st' = st\<lparr>app := (app st)\<lparr>priv := (priv (app st))\<lparr>pending := P\<rparr>\<rparr>, bar_icr := I, msix_log := L\<rparr>"
    unfolding passed_def by blast
  then have "st' = st\<lparr>app := (app st)\<lparr>priv := (priv (app st))\<lparr>pending := pending (priv (app st'))\<rparr>\<rparr>, bar_icr := bar_icr st', msix_log := msix_log st'\<rparr>"
    by simp
  then show ?thesis using p unfolding passed_def still_pending_def send_log_def lsc_sends_def by blast
qed

section \<open>Witnesses\<close>

definition lsc_env_ex :: lsc_env where
  "lsc_env_ex = \<lparr>ctl = ctl_env_ex, NFP_NET_CFG_ICR_LSC = 2, msix_send = (\<lambda>_ _ _ _. 0)\<rparr>"

definition lsc_state_ex :: lsc_state where
  "lsc_state_ex = \<lparr>app = app_state_ex\<lparr>priv := app_private_ex\<lparr>nic_control_word := (\<lambda>_ _. 1), pending := ls_upd True 0 48 (\<lambda>_ _. 0)\<rparr>\<rparr>,
     bar_lsc = (\<lambda>_ _. 1), bar_icr = (\<lambda>_ _ _. 0), msix_log = []\<rparr>"

theorem lsc_check_reports_mac_witness:
  "\<exists>st'. lsc_check lsc_env_ex 0 0 lsc_state_ex = Some st' \<and> ls_bit (ls_current (priv (app st'))) 0 48 \<and>
     bar_sts (app st') 0 48 = sts_up CARBON 0"
proof -
  have e: "ctl lsc_env_ex = ctl_env_ex" "ce ctl_env_ex = cfg_env_ex" "plat cfg_env_ex = CARBON" "lev ctl_env_ex = link_env_ex"
    "mac_reg_lock (app lsc_state_ex) = 0" "hist (app lsc_state_ex) = []" "NFD_MAX_ISL cfg_env_ex = 1"
    by (simp_all add: lsc_env_ex_def ctl_env_ex_def cfg_env_ex_def lsc_state_ex_def app_state_ex_def)
  have pf: "(48 :: u32) = NFD_PF2VID cfg_env_ex (of_nat 0)" "fst (NFD_VID2VNIC cfg_env_ex 48) \<noteq> NFD_VNIC_TYPE_VF"
    by (simp_all add: cfg_env_ex_def)
  have b: "platform_of 10 = Some CARBON" "0 < NS_PLATFORM_NUM_PORTS CARBON" "unat (0 :: u32) < 1"
    by (simp_all add: platform_of_def NS_PLATFORM_NUM_PORTS_def CARBON_def)
  have up: "True = link_up link_env_ex (NS_PLATFORM_MAC CARBON 0) (NS_PLATFORM_MAC_SERDES_LO CARBON 0) (\<not> NS_PLATFORM_PORT_SPEED CARBON 0 > 1) []"
    by (simp add: link_up_def link_env_ex_def link_dev_ex_def Let_def ETH_PORT_TO_MAC_CORE_def CARBON_def NS_PLATFORM_MAC_SERDES_LO_def
        NS_PLATFORM_MAC_def)
  have en: "flag (ctl_word (app lsc_state_ex) 0 48) (CTRL_ENABLE (nc cfg_env_ex))"
    by (simp add: flag_def ctl_word_def lsc_state_ex_def cfg_env_ex_def net_ctrl_ex_def c_true_def)
  show ?thesis
    using lsc_check_reports_mac [of 10 lsc_env_ex 0 lsc_state_ex 48 0 True, unfolded e, OF b(1,2) refl pf b(3) reads_quiet_ex up] en by auto
qed

theorem pending_interrupts_pass_witness:
  "msix_log (handle_pending_interrupts lsc_env_ex 0 lsc_state_ex) = [(0, 1, 0)] \<and>
   \<not> ls_bit (pending (priv (app (handle_pending_interrupts lsc_env_ex 0 lsc_state_ex)))) 0 48"
proof -
  have n: "NVNICS (ctl lsc_env_ex) = 51"
    by (simp add: NVNICS_def lsc_env_ex_def ctl_env_ex_def cfg_env_ex_def NS_PLATFORM_NUM_PORTS_def CARBON_def)
  have due: "lsc_due lsc_env_ex 0 v lsc_state_ex \<longleftrightarrow> v = 48" "\<not> lsc_masked lsc_env_ex 0 v lsc_state_ex"
    "lsc_entry 0 v lsc_state_ex = 1" "lsc_automask lsc_env_ex 0 v lsc_state_ex = 0" for v
    by (simp_all add: lsc_int_defs lsc_state_ex_def lsc_env_ex_def ctl_env_ex_def cfg_env_ex_def net_ctrl_ex_def ctl_flags_ex_def
        ctl_word_def flag_def c_true_def ls_bit_upd) (simp add: ls_bit_def)
  have "msix_send lsc_env_ex k a b c = 0" "msix_log lsc_state_ex = []" for k a b c by (simp_all add: lsc_env_ex_def lsc_state_ex_def)
  moreover have "filter (\<lambda>v. (of_nat v :: u32) = 48) [0..<51] = [48]" by (simp add: upt_rec)
  ultimately show ?thesis
    using pending_interrupts_pass [OF refl, of lsc_env_ex 0 lsc_state_ex] unfolding n by (simp add: due)
qed

end
