(* ===== verification/Epoch.thy ===== *)
theory Epoch
  imports NicLocal
begin

unbundle bit_operations_syntax

text \<open>
  The epoch protocol of \<open>nic_local_epoch\<close> in \<open>lib/nic_basic/_c/nic_internal.c\<close>:
  the counter is published to an engine only after all its data path contexts
  have been seen without a pending epoch signal, so a reader of the new value
  knows that every context has passed its quiescent point since the previous
  one.  The waiting loop is an instance of the contract in \<open>PollLoop\<close>.  That the
  worker threads, which are microcode, take their signals is the hypothesis
  \<open>epoch_taken\<close>.
\<close>

abbreviation epoch_pending :: "device \<Rightarrow> u32 \<Rightarrow> u32 \<Rightarrow> dev_hist \<Rightarrow> bool" where
  "epoch_pending d i m hs \<equiv> c_true (fst (epoch_round d i m hs) AND push_bit PKT_IO_SIG_EPOCH 1)"

interpretation epo: poll_loop "epoch_wait d i m" "epoch_pending d i m" "\<lambda>hs. snd (epoch_round d i m hs)" "\<lambda>hs. snd (epoch_round d i m hs)"
  for d i m
  by unfold_locales (subst epoch_wait.simps, rule refl)

text \<open>However often the contexts of the engine were looked at, a later look finds
  no pending epoch signal.\<close>

definition epoch_taken :: "device \<Rightarrow> u32 \<Rightarrow> u32 \<Rightarrow> bool" where
  "epoch_taken d i m \<longleftrightarrow> (\<forall>hs. \<exists>k. \<not> epoch_pending d i m (((\<lambda>hs. snd (epoch_round d i m hs)) ^^ k) hs))"

text \<open>The epoch signal of \<open>ct_signal\<close>: event 8 of a context, addressed by island,
  engine and context.\<close>

definition epoch_signal :: "u32 \<Rightarrow> u32 \<Rightarrow> u32 \<Rightarrow> dev_event" where
  "epoch_signal i m cx = InterthreadSignal (push_bit 24 i OR push_bit 9 m OR push_bit 6 cx OR push_bit 2 8)"

definition nn_write :: "dev_event \<Rightarrow> bool" where
  "nn_write ev = (case ev of NnWrite a v \<Rightarrow> True | _ \<Rightarrow> False)"

definition cnt_push :: "dev_event \<Rightarrow> bool" where
  "cnt_push ev = (case ev of NfdOutPushCnt i q \<Rightarrow> True | NfdInPushCnt i q \<Rightarrow> True | _ \<Rightarrow> False)"

definition thread_signal :: "dev_event \<Rightarrow> bool" where
  "thread_signal ev = (case ev of InterthreadSignal x \<Rightarrow> True | _ \<Rightarrow> False)"

text \<open>An event that neither publishes, pushes a counter nor signals a context.\<close>

definition quiet :: "dev_event \<Rightarrow> bool" where
  "quiet ev \<longleftrightarrow> \<not> nn_write ev \<and> \<not> cnt_push ev \<and> \<not> thread_signal ev"

text \<open>In the events \<open>looks\<close> on top of the history \<open>hs\<close>, newest first, the context was
  selected and its pending signals were read with the epoch signal clear.\<close>

definition seen_clear :: "device \<Rightarrow> u32 \<Rightarrow> u32 \<Rightarrow> u32 \<Rightarrow> dev_hist \<Rightarrow> dev_hist \<Rightarrow> bool" where
  "seen_clear d i m cx looks hs \<longleftrightarrow> (\<exists>c e.
     looks = c @ CsrRead (ct_csr_addr i m ME_CSR_IND_CTX_SGL_EVT) # CsrWrite (ct_csr_addr i m ME_CSR_CTX_PTR) cx # e \<and>
     \<not> bit (csr_dev d (CsrWrite (ct_csr_addr i m ME_CSR_CTX_PTR) cx # e @ hs) (ct_csr_addr i m ME_CSR_IND_CTX_SGL_EVT)) 8)"

text \<open>The history of an engine up to a publication: its four data path contexts
  have been signalled, and since then only looked at until each of them was seen
  to have taken the signal.\<close>

definition epoch_acked :: "device \<Rightarrow> u32 \<Rightarrow> u32 \<Rightarrow> dev_hist \<Rightarrow> bool" where
  "epoch_acked d i m hs \<longleftrightarrow> (\<exists>looks base. hs = looks @ rev (map (epoch_signal i m) [0, 2, 4, 6]) @ base \<and>
     (\<forall>ev \<in> set looks. quiet ev) \<and>
     (\<forall>cx \<in> {0, 2, 4, 6}. seen_clear d i m cx looks (rev (map (epoch_signal i m) [0, 2, 4, 6]) @ base)))"

text \<open>Events of the looks only.\<close>

definition adds_quiet :: "dev_hist \<Rightarrow> dev_hist \<Rightarrow> bool" where
  "adds_quiet hs hs' \<longleftrightarrow> (\<exists>evs. hs' = evs @ hs \<and> (\<forall>ev \<in> set evs. quiet ev))"

lemma adds_quiet_refl [simp]: "adds_quiet hs hs"
  by (simp add: adds_quiet_def)

lemma adds_quiet_trans: "adds_quiet hs hs' \<Longrightarrow> adds_quiet hs' hs'' \<Longrightarrow> adds_quiet hs hs''"
  unfolding adds_quiet_def by (metis UnE append_assoc set_append)

lemma quiet_events [simp]:
  "quiet (Sleep n)" "quiet (CsrWrite a v)" "quiet (CsrRead a)" "\<not> nn_write (InterthreadSignal x)" "\<not> cnt_push (InterthreadSignal x)"
  "\<not> nn_write (Sleep n)" "\<not> cnt_push (Sleep n)"
  "nn_write (NnWrite a v)" "\<not> cnt_push (NnWrite a v)" "cnt_push (NfdOutPushCnt i q)" "cnt_push (NfdInPushCnt i q)"
  by (simp_all add: quiet_def nn_write_def cnt_push_def thread_signal_def)

text \<open>A scan keeps the bits collected so far; when the epoch bit is clear at its
  end, it was clear at every context.\<close>

lemma seen_clear_later: "seen_clear d i m cx evs (ws @ hs) \<Longrightarrow> seen_clear d i m cx (evs @ ws) hs"
  unfolding seen_clear_def by fastforce

lemma sgl_scan_result:
  "\<exists>evs. snd (sgl_scan d i m cxs msk hs) = evs @ hs \<and> (\<forall>ev \<in> set evs. quiet ev) \<and>
     (\<not> bit (fst (sgl_scan d i m cxs msk hs)) 8 \<longrightarrow> \<not> bit msk 8 \<and> (\<forall>cx \<in> set cxs. seen_clear d i m cx evs hs))"
proof (induction cxs arbitrary: msk hs)
  case (Cons cx cxs)
  let ?r = "ct_csr_addr i m ME_CSR_IND_CTX_SGL_EVT" and ?w = "CsrWrite (ct_csr_addr i m ME_CSR_CTX_PTR) cx"
  let ?v = "csr_dev d (?w # hs) ?r"
  have run: "sgl_scan d i m (cx # cxs) msk hs = sgl_scan d i m cxs (msk OR ?v) ([CsrRead ?r, ?w] @ hs)"
    by (simp add: ct_write_csr_def ct_read_csr_def csr_read_def Let_def)
  obtain evs where evs: "snd (sgl_scan d i m (cx # cxs) msk hs) = (evs @ [CsrRead ?r, ?w]) @ hs" "\<forall>ev \<in> set evs. quiet ev"
    "\<not> bit (fst (sgl_scan d i m (cx # cxs) msk hs)) 8 \<longrightarrow>
       \<not> bit (msk OR ?v) 8 \<and> (\<forall>cx \<in> set cxs. seen_clear d i m cx evs ([CsrRead ?r, ?w] @ hs))"
    unfolding run using Cons.IH [of "msk OR ?v" "[CsrRead ?r, ?w] @ hs"] by auto
  have "seen_clear d i m cx (evs @ [CsrRead ?r, ?w]) hs" if "\<not> bit ?v 8"
    unfolding seen_clear_def using that by (intro exI [of _ evs] exI [of _ "[]"]) simp
  then show ?case
    using evs seen_clear_later [of d i m _ evs "[CsrRead ?r, ?w]" hs]
    by (intro exI [of _ "evs @ [CsrRead ?r, ?w]"]) (auto simp: bit_or_iff)
qed simp

lemma epoch_pending_bit: "epoch_pending d i m hs \<longleftrightarrow> bit (fst (epoch_round d i m hs)) 8"
  unfolding PKT_IO_SIG_EPOCH_def by (rule c_true_and_pow2)

lemma epoch_round_result:
  "\<exists>evs. snd (epoch_round d i m hs) = evs @ hs \<and> (\<forall>ev \<in> set evs. quiet ev) \<and>
     (\<not> epoch_pending d i m hs \<longrightarrow> (\<forall>cx \<in> {0, 2, 4, 6}. seen_clear d i m cx evs hs))"
proof -
  obtain evs where evs: "snd (epoch_round d i m hs) = evs @ [Sleep 250] @ hs" "\<forall>ev \<in> set evs. quiet ev"
    "\<not> epoch_pending d i m hs \<longrightarrow> (\<forall>cx \<in> set dp_ctxs. seen_clear d i m cx evs ([Sleep 250] @ hs))"
    using sgl_scan_result [of d i m dp_ctxs 0 "Sleep 250 # hs"] unfolding epoch_pending_bit by (auto simp: epoch_round_def)
  then show ?thesis using seen_clear_later [of d i m _ evs "[Sleep 250]" hs]
    by (intro exI [of _ "evs @ [Sleep 250]"]) (auto simp: dp_ctxs_def)
qed

lemma signals_fold: "fold (\<lambda>cx hs. ct_signal i m cx PKT_IO_SIG_EPOCH hs) dp_ctxs hs = rev (map (epoch_signal i m) [0, 2, 4, 6]) @ hs"
  by (simp add: dp_ctxs_def ct_signal_def epoch_signal_def PKT_IO_SIG_EPOCH_def)

lemma epoch_wait_returns:
  assumes "epoch_taken d i m"
  shows "\<exists>looks. epoch_wait d i m hs = Some (looks @ hs) \<and> (\<forall>ev \<in> set looks. quiet ev) \<and>
     (\<forall>cx \<in> {0, 2, 4, 6}. seen_clear d i m cx looks hs)"
proof -
  obtain k where "\<not> epoch_pending d i m (((\<lambda>hs. snd (epoch_round d i m hs)) ^^ k) hs)" using assms unfolding epoch_taken_def by blast
  moreover have "adds_quiet hs (snd (epoch_round d i m h))" if "adds_quiet hs h" for h
    using epoch_round_result [of d i m h] adds_quiet_trans [OF that] unfolding adds_quiet_def by blast
  ultimately obtain h where h: "epoch_wait d i m hs = Some (snd (epoch_round d i m h))" "adds_quiet hs h" "\<not> epoch_pending d i m h"
    using epo.ends_with [where P = "adds_quiet hs", OF _ adds_quiet_refl] by blast
  obtain ws where ws: "h = ws @ hs" "\<forall>ev \<in> set ws. quiet ev" using h(2) unfolding adds_quiet_def by blast
  obtain evs where evs: "snd (epoch_round d i m h) = evs @ h" "\<forall>ev \<in> set evs. quiet ev" "\<forall>cx \<in> {0, 2, 4, 6}. seen_clear d i m cx evs h"
    using epoch_round_result h(3) by blast
  show ?thesis using h(1) ws evs seen_clear_later [of d i m _ evs ws hs] by (intro exI [of _ "evs @ ws"]) auto
qed

text \<open>The publication to the listed engines.\<close>

definition epoch_nn :: "u32 \<Rightarrow> u32 \<Rightarrow> dev_event" where
  "epoch_nn ep me_id = NnWrite (ct_nn_addr (drop_bit 4 me_id) (me_id AND 0xf) EPOCH_NN_IDX) ep"

lemma epoch_mes_returns:
  assumes "\<forall>me_id \<in> set mes. epoch_taken d (drop_bit 4 me_id) (me_id AND 0xf)"
  shows "\<exists>evs. epoch_mes d ep mes hs = Some (evs @ hs) \<and> filter nn_write evs = rev (map (epoch_nn ep) mes) \<and>
     filter cnt_push evs = [] \<and>
     (\<forall>me_id \<in> set mes. \<exists>a b. evs @ hs = a @ epoch_nn ep me_id # b \<and> epoch_acked d (drop_bit 4 me_id) (me_id AND 0xf) b)"
  using assms
proof (induction mes arbitrary: hs)
  case (Cons me_id mes)
  let ?i = "drop_bit 4 me_id" and ?m = "me_id AND 0xf"
  let ?sigs = "rev (map (epoch_signal ?i ?m) [0, 2, 4, 6])"
  obtain looks where 1: "epoch_wait d ?i ?m (?sigs @ hs) = Some (looks @ ?sigs @ hs)" "\<forall>ev \<in> set looks. quiet ev"
    "\<forall>cx \<in> {0, 2, 4, 6}. seen_clear d ?i ?m cx looks (?sigs @ hs)"
    using epoch_wait_returns [of d ?i ?m "?sigs @ hs"] Cons.prems by auto
  define h1 where "h1 = looks @ ?sigs @ hs"
  have acked: "epoch_acked d ?i ?m h1" using 1(2,3) unfolding epoch_acked_def h1_def by blast
  define ws where "ws = looks @ ?sigs"
  have ws: "h1 = ws @ hs" "filter nn_write ws = []" "filter cnt_push ws = []"
    using 1(2) by (auto simp: h1_def ws_def filter_empty_conv quiet_def epoch_signal_def)
  obtain evs where 2: "epoch_mes d ep mes (epoch_nn ep me_id # h1) = Some (evs @ epoch_nn ep me_id # h1)"
    "filter nn_write evs = rev (map (epoch_nn ep) mes)" "filter cnt_push evs = []"
    "\<forall>x \<in> set mes. \<exists>a b. evs @ epoch_nn ep me_id # h1 = a @ epoch_nn ep x # b \<and> epoch_acked d (drop_bit 4 x) (x AND 0xf) b"
    using Cons.IH [of "epoch_nn ep me_id # h1"] Cons.prems by auto
  have "epoch_mes d ep (me_id # mes) hs = Some ((evs @ epoch_nn ep me_id # ws) @ hs)"
    using 1(1) 2(1) ws(1) by (simp add: signals_fold h1_def ws_def ct_write_nn_def epoch_nn_def Let_def del: fold_simps)
  moreover have "nn_write (epoch_nn ep me_id)" "\<not> cnt_push (epoch_nn ep me_id)" by (simp_all add: epoch_nn_def)
  ultimately show ?case using acked 2 ws by (intro exI [of _ "evs @ epoch_nn ep me_id # ws"]) auto
qed simp

end
