(* ===== verification/HandlerTotal.thy ===== *)
theory HandlerTotal
  imports Lsc Epoch
begin

unbundle bit_operations_syntax

text \<open>
  When an iteration of the configuration loop returns.  A handler of
  \<open>app_control_lib.c\<close> waits without a bound in three places: for the MAC to
  acknowledge an inhibit while it holds the mutex (\<open>mac_eth_disable_rx\<close>), for the
  worker threads to quiesce before a BPF program is loaded, and for a buffer of
  a switch message.  The environment that ends these waits, numbers its vNICs
  consistently and sends messages for configured vNICs only is \<open>requests_served\<close>;
  in it every iteration returns, whatever the host has written.
\<close>

section \<open>Reception of the ports\<close>

definition port_lanes :: "platform \<Rightarrow> nat \<Rightarrow> nat" where
  "port_lanes p port = nat (NS_PLATFORM_MAC_NUM_SERDES p port)"

lemma port_lanes_fit:
  assumes "platform_of ty = Some p" "port < NS_PLATFORM_NUM_PORTS p"
  shows "0 < port_lanes p port" "NS_PLATFORM_MAC_CORE_SERDES_LO p port + port_lanes p port \<le> 12"
  using port_ok [OF assms] by (auto simp: port_ok_def port_lanes_def NS_PLATFORM_MAC_NUM_SERDES_def)

text \<open>The MAC acknowledges the inhibit of every port.\<close>

definition ports_acked :: "ctl_env \<Rightarrow> bool" where
  "ports_acked e \<longleftrightarrow> (\<forall>port < NS_PLATFORM_NUM_PORTS (board e). inhibit_acked (lev e) (NS_PLATFORM_MAC (board e) port)
     (port_lane_mask (NS_PLATFORM_MAC_CORE (board e) port) (NS_PLATFORM_MAC_CORE_SERDES_LO (board e) port) (port_lanes (board e) port)))"

lemma disable_rx_total:
  assumes "platform_of ty = Some (board e)" "port < NS_PLATFORM_NUM_PORTS (board e)" "mac_reg_lock s = 0" "ports_acked e"
  shows "\<exists>ok h. mac_port_disable_rx e port s = Some (ok, s\<lparr>hist := h\<rparr>)"
proof -
  have ack: "inhibit_acked (lev e) (NS_PLATFORM_MAC (board e) port)
     (port_lane_mask (NS_PLATFORM_MAC_CORE (board e) port) (NS_PLATFORM_MAC_CORE_SERDES_LO (board e) port) (port_lanes (board e) port))"
    using assms(2,4) by (simp add: ports_acked_def)
  obtain ok h where "mac_eth_disable_rx (lev e) (NS_PLATFORM_MAC (board e) port) (NS_PLATFORM_MAC_CORE (board e) port)
       (NS_PLATFORM_MAC_CORE_SERDES_LO (board e) port) (port_lanes (board e) port) (hist s) = Some (ok, h)"
    using disable_rx_run [OF mac_args_port(1) [OF assms(1,2)] port_lanes_fit [OF assms(1,2)] ack refl refl refl refl, of "hist s"] by blast
  then have "mac_port_disable_rx e port s = Some (ok, s\<lparr>hist := h\<rparr>)" using assms(3) lock_frame [OF assms(3)]
    by (simp add: mac_port_disable_rx_def port_lanes_def [symmetric] LOCAL_MUTEX_LOCK_def LOCAL_MUTEX_UNLOCK_def c_true_def)
  then show ?thesis by blast
qed

lemma link_state_total:
  assumes "platform_of ty = Some (board e)" "port < NS_PLATFORM_NUM_PORTS (board e)"
  shows "\<exists>lst hs'. mac_eth_port_link_state (lev e) (NS_PLATFORM_MAC (board e) port) (NS_PLATFORM_MAC_SERDES_LO (board e) port) ge hs = Some (lst, hs')"
  using mac_args_port(2,3) [OF assms] by (simp add: mac_eth_port_link_state_def xpb_read_def Let_def)

lemma wait_link_up_total:
  assumes "platform_of ty = Some (board e)" "port < NS_PLATFORM_NUM_PORTS (board e)"
  shows "\<exists>hs'. process_pf_reconfig_wait_link_up (lev e) (board e) port n hs = Some hs'"
proof (induction n arbitrary: hs)
  case (Suc n)
  obtain on h1 where 1: "mac_eth_check_rx_enable (lev e) (NS_PLATFORM_MAC (board e) port) (NS_PLATFORM_MAC_CORE (board e) port)
      (NS_PLATFORM_MAC_CORE_SERDES_LO (board e) port) hs = Some (on, h1)"
    using mac_args_port(1) [OF assms] by (simp add: mac_eth_check_rx_enable_def xpb_read_def)
  obtain lst h2 where 2: "mac_eth_port_link_state (lev e) (NS_PLATFORM_MAC (board e) port) (NS_PLATFORM_MAC_SERDES_LO (board e) port)
      (\<not> NS_PLATFORM_PORT_SPEED (board e) port > 1) h1 = Some (lst, h2)"
    using link_state_total [OF assms] by blast
  show ?case using 1 2 Suc.IH by (cases "on \<and> lst = LINK_UP") (simp_all add: Let_def)
qed simp

section \<open>Loading a BPF program\<close>

lemma bpf_total:
  assumes "\<forall>x \<in> set mes. quiesces d (me_isl_of x) (me_num_of x)"
  shows "\<exists>hs'. nic_local_bpf_reconfig d mes bpf vid vnic hs = Some hs'"
proof -
  have "\<exists>hs'. update_bpf_mes d cfg vnic mes hs = Some hs'" for cfg
    using assms
  proof (induction mes arbitrary: hs)
    case (Cons x mes)
    obtain q where "quiesce d (me_isl_of x) (me_num_of x) (Sleep 10000 # signal_quiesce (me_isl_of x) (me_num_of x) hs) = Some q"
      using quiesce_returns [of d "me_isl_of x" "me_num_of x"] Cons.prems by auto
    then show ?case using Cons by (simp add: me_isl_of_def me_num_of_def Let_def)
  qed simp
  then show ?thesis by (simp add: nic_local_bpf_reconfig_def update_bpf_prog_def)
qed

section \<open>The parts of the handlers\<close>

text \<open>An operation that changes only the worker tables, the switch and the history:
  it keeps the control words, the mutex and the memory shared with the host.\<close>

definition tables_only :: "app_state \<Rightarrow> app_state \<Rightarrow> bool" where
  "tables_only s s' \<longleftrightarrow> s' = s\<lparr>chw := chw s', vio := vio s', hist := hist s'\<rparr>"

lemma tables_only_refl [simp]: "tables_only s s"
  by (simp add: tables_only_def)

lemma tables_only_upd [simp]: "tables_only s (s\<lparr>chw := hw, vio := io\<rparr>)" "tables_only s (s\<lparr>hist := h\<rparr>)"
  by (simp_all add: tables_only_def)

lemma tables_only_trans: "tables_only s s' \<Longrightarrow> tables_only s' s'' \<Longrightarrow> tables_only s s''"
  unfolding tables_only_def by (cases s; cases s'; cases s'') simp

lemma tables_only_lock: "tables_only s s' \<Longrightarrow> mac_reg_lock s' = mac_reg_lock s"
  unfolding tables_only_def by (cases s; cases s') simp

lemma vfs_up_total:
  assumes "veb_ok (vev e)" "\<forall>i \<in> set is. \<exists>v. NFD_VID2VNIC (ce e) (NFD_VF2VID (ce e) (of_nat i)) = (NFD_VNIC_TYPE_VF, v)"
  shows "\<exists>f v s'. pf_vfs_up e jk pcie control is veb_up s = Some (f, v, s') \<and> tables_only s s'"
  using assms(2)
proof (induction "is" arbitrary: veb_up s)
  case (Cons i "is")
  let ?vid = "NFD_VF2VID (ce e) (of_nat i)"
  obtain v where v: "NFD_VID2VNIC (ce e) ?vid = (NFD_VNIC_TYPE_VF, v)" using Cons.prems by auto
  obtain r hw io where u: "cfg_act_vf_up (ce e) (vev e) (host s) (j_acts (jk i)) (j_word (jk i)) (j_vlan (jk i)) pcie ?vid
      control (ctl_word s pcie ?vid) 0 (chw s) (vio s) = Some (r, hw, io)"
    using vf_up_total [OF v assms(1)] by blast
  obtain f1 v1 s1 where 1: "pf_vfs_up e jk pcie control is 1 (s\<lparr>chw := hw, vio := io\<rparr>) = Some (f1, v1, s1)"
    "tables_only (s\<lparr>chw := hw, vio := io\<rparr>) s1"
    using Cons.IH [of 1 "s\<lparr>chw := hw, vio := io\<rparr>"] Cons.prems by auto
  obtain f2 v2 s2 where 2: "pf_vfs_up e jk pcie control is veb_up s = Some (f2, v2, s2)" "tables_only s s2"
    using Cons.IH [of veb_up s] Cons.prems by auto
  show ?case
    using u 1 2 tables_only_trans [OF tables_only_upd(1) 1(2)]
    by (cases "flag (ctl_word s pcie ?vid) (CTRL_ENABLE (nc (ce e)))"; cases "r = 0") (auto simp: Let_def)
qed auto

lemma vfs_down_total:
  assumes "veb_ok (vev e)"
  shows "\<exists>f s'. pf_vfs_down e jk pcie is s = Some (f, s') \<and> tables_only s s'"
proof (induction "is" arbitrary: s)
  case (Cons i "is")
  obtain hw io where d: "cfg_act_vf_down (ce e) (vev e) (host s) (j_acts (jk i)) (j_vlan (jk i)) pcie (NFD_VF2VID (ce e) (of_nat i)) (chw s) (vio s) =
      Some (0, hw, io)" using vf_down_total [OF assms] by blast
  obtain f s' where "pf_vfs_down e jk pcie is (s\<lparr>chw := hw, vio := io\<rparr>) = Some (f, s')" "tables_only (s\<lparr>chw := hw, vio := io\<rparr>) s'"
    using Cons.IH by blast
  then show ?case using d tables_only_trans [OF tables_only_upd(1)] by auto
qed auto

lemma pf_down_total:
  assumes "veb_ok ve"
  shows "\<exists>r. cfg_act_pf_down e ve h acts0 jnkv pcie vid hw io = Some r"
proof -
  obtain ty vnic where v: "NFD_VID2VNIC e vid = (ty, vnic)" by (metis surj_pair)
  let ?j = "reg_zero e (instr acts0) NIC_MAX_INSTR"
  let ?j2 = "reg_zero e (instr (mk (spec_down_wire e h pcie vid) ?j)) NIC_MAX_INSTR"
  obtain hw1 where w1: "cfg_act_write_wire e vnic (mk (spec_down_wire e h pcie vid) ?j) hw = Some hw1"
    using spec_words_pos(5) [of e h pcie vid]
    by (auto simp: cfg_act_write_wire_def cfg_act_write_queue_def NIC_MAX_INSTR_def spec_down_wire_def)
  obtain hw2 where w2: "cfg_act_write_host e pcie vid (mk (spec_down_host e h pcie vid) ?j2) hw1 = Some hw2"
    using write_host_returns [of "mk (spec_down_host e h pcie vid) ?j2" e pcie vid hw1] by (auto simp: spec_down_host_def)
  obtain io' where "cfg_act_write_veb ve jnkv vid (mac_veb_key (nvnic_macs hw2 pcie vid)) None (set_nvnic_mac pcie vid 0 hw2) io = Some io'"
    using write_veb_none [OF assms, of jnkv vid "mac_veb_key (nvnic_macs hw2 pcie vid)" "set_nvnic_mac pcie vid 0 hw2" io] by blast
  then show ?thesis using w1 w2 by (cases io') (auto simp: cfg_act_pf_down_def v build_down_mk Let_def)
qed

section \<open>The environment\<close>

text \<open>A vNIC that the firmware is configured for: a PF has a port of the board and
  queue slots of its own.\<close>

definition vnic_ok :: "ctl_env \<Rightarrow> u32 \<Rightarrow> u32 \<Rightarrow> bool" where
  "vnic_ok e pcie vid \<longleftrightarrow> (case NFD_VID2VNIC (ce e) vid of (ty, vnic) \<Rightarrow>
     ty = NFD_VNIC_TYPE_PF \<longrightarrow> unat vnic < NS_PLATFORM_NUM_PORTS (board e) \<and> slots_ok (ce e) pcie vid)"

definition msgs_ok :: "ctl_env \<Rightarrow> (nat \<Rightarrow> cfg_msg option) \<Rightarrow> bool" where
  "msgs_ok e chk \<longleftrightarrow> (\<forall>pcie m. chk pcie = Some m \<longrightarrow> vnic_ok e (of_nat pcie) (msg_vid m))"

definition requests_served :: "ctl_env \<Rightarrow> bool" where
  "requests_served e \<longleftrightarrow> ports_acked e \<and> (\<forall>x \<in> set (dp_mes_ids e). quiesces (dv (lev e)) (me_isl_of x) (me_num_of x)) \<and>
     veb_ok (vev e) \<and> (\<forall>i < NFD_MAX_VFS (ce e). \<exists>v. NFD_VID2VNIC (ce e) (NFD_VF2VID (ce e) (of_nat i)) = (NFD_VNIC_TYPE_VF, v)) \<and>
     (\<exists>v. NFD_VID2VNIC (ce e) (NFD_PF2VID (ce e) 0) = (NFD_VNIC_TYPE_PF, v)) \<and>
     (\<forall>pcie < 4. slots_ok (ce e) (of_nat pcie) (NFD_PF2VID (ce e) 0))"

section \<open>The handlers\<close>

lemma bring_up_total:
  assumes "requests_served e" "NFD_VID2VNIC (ce e) vid = (NFD_VNIC_TYPE_PF, vnic)" "slots_ok (ce e) pcie vid"
  shows "\<exists>f s'. pf_bring_up e jk pcie control update vid s = Some (f, s') \<and> tables_only s s'"
proof -
  have ok: "veb_ok (vev e)" "\<forall>i \<in> set [0..<NFD_MAX_VFS (ce e)]. \<exists>v. NFD_VID2VNIC (ce e) (NFD_VF2VID (ce e) (of_nat i)) = (NFD_VNIC_TYPE_VF, v)"
    using assms(1) by (auto simp: requests_served_def)
  obtain f v s1 where 1: "pf_vfs_up e jk pcie control [0..<NFD_MAX_VFS (ce e)] 0 s = Some (f, v, s1)" "tables_only s s1"
    using vfs_up_total [OF ok] by blast
  let ?j = "jk (NFD_MAX_VFS (ce e))"
  obtain r hw io where 2: "cfg_act_pf_up (ce e) (vev e) (host s1) (j_acts ?j) (j_word ?j) (j_vlan ?j) pcie vid v control update (chw s1) (vio s1) =
      Some (r, hw, io)" using pf_up_total [OF assms(2) ok(1) assms(3)] by blast
  show ?thesis using 1 2 tables_only_trans [OF 1(2) tables_only_upd(1)] by (cases f) (auto simp: pf_bring_up_def Let_def)
qed

lemma pf_disabled_total:
  assumes "requests_served e" "platform_of ty = Some (board e)" "unat port < NS_PLATFORM_NUM_PORTS (board e)" "mac_reg_lock s = 0"
  shows "\<exists>r. pf_disabled e jk pcie vid port s = Some r"
proof -
  have ok: "veb_ok (vev e)" "ports_acked e" using assms(1) by (auto simp: requests_served_def)
  obtain ok1 h where 1: "(if \<not> c_true (nic_control_check_up e (priv s) vid) then mac_port_disable_rx e (unat port) s else Some (True, s)) =
      Some (ok1, s\<lparr>hist := h\<rparr>)"
  proof (cases "c_true (nic_control_check_up e (priv s) vid)")
    case True
    then show ?thesis using that [of True "hist s"] by simp
  next
    case False
    then show ?thesis using disable_rx_total [OF assms(2-4) ok(2)] that by auto
  qed
  let ?s = "s\<lparr>hist := Sleep (10 * NS_PLATFORM_TCLK (board e) * 1000) # h\<rparr>" and ?j = "jk (NFD_MAX_VFS (ce e))"
  obtain r hw io where 2: "cfg_act_pf_down (ce e) (vev e) (host ?s) (j_acts ?j) (j_vlan ?j) pcie vid (chw ?s) (vio ?s) = Some (r, hw, io)"
    using pf_down_total [OF ok(1)] by (metis prod_cases3)
  obtain f s' where 3: "pf_vfs_down e jk pcie [0..<NFD_MAX_VFS (ce e)] (?s\<lparr>chw := hw, vio := io\<rparr>) = Some (f, s')"
    using vfs_down_total [OF ok(1)] by blast
  show ?thesis using 1 2 3 unfolding pf_disabled_def 1 by (cases ok1; cases f) (auto simp: Let_def)
qed

lemma pf_handler_total:
  assumes "requests_served e" "platform_of ty = Some (board e)" "mac_reg_lock s = 0"
    and "NFD_VID2VNIC (ce e) vid = (NFD_VNIC_TYPE_PF, vnic)" "vnic_ok e pcie vid"
  shows "\<exists>r. process_pf_reconfig e jk pcie control update vid vnic m s = Some r"
proof (cases "c_true (control AND NOT (NFD_CFG_PF_CAP (NS_PLATFORM_TYPE e) (nc (ce e)) (cf e))) \<or>
    c_true (update AND NOT (NFD_CFG_PF_LEGAL_UPD (nc (ce e)) (cf e)))")
  case True
  then show ?thesis using reconfig_rejects_illegal by blast
next
  case False
  let ?en = "CTRL_ENABLE (nc (ce e))"
  have v: "unat vnic < NS_PLATFORM_NUM_PORTS (board e)" "slots_ok (ce e) pcie vid" using assms(4,5) by (simp_all add: vnic_ok_def)
  obtain hs where hs: "(if flag update (UPDATE_BPF (nc (ce e)))
      then nic_local_bpf_reconfig (dv (lev e)) (dp_mes_ids e) (bar_bpf s) vid vnic (hist s) else Some (hist s)) = Some hs"
    using bpf_total [of "dp_mes_ids e" "dv (lev e)" "bar_bpf s" vid vnic "hist s"] assms(1)
    by (cases "flag update (UPDATE_BPF (nc (ce e)))") (auto simp: requests_served_def)
  define s1 where "s1 = (if flag update (UPDATE_VF (nc (ce e))) then handle_sriov_update e pcie (s\<lparr>hist := hs\<rparr>) else s\<lparr>hist := hs\<rparr>)"
  have l1: "mac_reg_lock s1 = 0" using assms(3) by (simp add: s1_def handle_sriov_update_def Let_def)
  obtain f s2 where 2: "(if flag control ?en then pf_bring_up e jk pcie control update vid s1 else Some (False, s1)) = Some (f, s2)" "tables_only s1 s2"
    using bring_up_total [OF assms(1,4) v(2)] by (metis tables_only_refl)
  let ?s3 = "put_ctl_word pcie vid control s2"
  have l3: "mac_reg_lock ?s3 = 0" using tables_only_lock [OF 2(2)] l1 by (simp add: put_ctl_word_def)
  have en: "\<exists>r. pf_enabled e vnic ?s3 = Some r"
    using wait_link_up_total [OF assms(2) v(1)] by (auto simp: pf_enabled_def Let_def bind_eq_Some)
  obtain f' s4 where 4: "(if flag (ctl_word s2 pcie vid XOR control) ?en
      then (if flag control ?en then pf_enabled e vnic ?s3 else pf_disabled e jk pcie vid vnic ?s3) else Some (False, ?s3)) = Some (f', s4)"
    using en pf_disabled_total [OF assms(1,2) v(1) l3] by (metis surj_pair)
  show ?thesis using False 4
    unfolding process_pf_reconfig_def Let_def hs Option.bind.bind_lunit s1_def [symmetric] 2(1)
    by (cases f; cases f') (auto simp: msg_fail_def)
qed

lemma vf_handler_total:
  assumes "requests_served e" "NFD_VID2VNIC (ce e) vid = (NFD_VNIC_TYPE_VF, vnic)" "pcie < 4"
  shows "\<exists>r. process_vf_reconfig e jk (of_nat pcie) control update vid m s = Some r"
proof (cases "legal_vf e control update")
  case False
  then show ?thesis using reconfig_rejects_illegal unfolding legal_vf_def c_true_def by blast
next
  case True
  have ok: "veb_ok (vev e)" "\<exists>v. NFD_VID2VNIC (ce e) (NFD_PF2VID (ce e) 0) = (NFD_VNIC_TYPE_PF, v)"
    "slots_ok (ce e) (of_nat pcie) (NFD_PF2VID (ce e) 0)" using assms(1,3) by (auto simp: requests_served_def)
  obtain failed ls_mode veb_up s2 where 1: "vf_first e jk (of_nat pcie) control update vid (put_ctl_word (of_nat pcie) vid control s) =
      Some (failed, veb_up, ls_mode, s2)" using vf_first_result [OF assms(2) ok(1)] by blast
  obtain r where 2: "vf_finish e jk (of_nat pcie) control vid m veb_up ls_mode s2 = Some r"
    using vf_finish_result [OF _ ok(1,3)] ok(2) by blast
  show ?thesis using 1 2 by (cases failed; cases r) (auto simp: process_vf_split [OF True] msg_fail_def)
qed

lemma ctrl_handler_total:
  assumes "NFD_VID2VNIC (ce e) vid = (NFD_VNIC_TYPE_CTRL, vnic)"
  shows "\<exists>r. process_ctrl_reconfig e j pcie control vid m s = Some r"
proof -
  let ?a = "mk [a_rx_host (ce e) (host s) pcie vid 0, a_plain INSTR_CMSG] (reg_zero (ce e) (instr (j_acts j)) NIC_MAX_INSTR)"
  have b: "cfg_act_build_ctrl (ce e) (host s) pcie vid (j_acts j) = Some ?a"
    by (simp add: cfg_act_build_ctrl_def assms builder_simps)
  have "1 \<le> count ?a" "count ?a \<le> 16" unfolding count_mk by (simp_all add: a_rx_host_def a_plain_def)
  then obtain hw where w: "cfg_act_write_host (ce e) pcie vid ?a (chw s) = Some hw" using write_host_returns by blast
  show ?thesis unfolding process_ctrl_reconfig_def b using w by (simp add: msg_fail_def Let_def)
qed

text \<open>An iteration of the configuration loop returns for every message of a
  configured vNIC.\<close>

lemma cfg_step_total:
  assumes "requests_served e" "platform_of ty = Some (board e)" "mac_reg_lock s = 0" "msgs_ok e chk"
  shows "\<exists>r. cfg_changes_step e jk chk pc m s = Some r"
proof -
  obtain ret pcie m1 cur where n: "next_nfd_cfg_msg e chk pc m = (ret, pcie, m1, cur)" by (metis prod_cases4)
  show ?thesis
  proof (cases "ret = 0")
    case False
    then show ?thesis using n by (simp add: cfg_changes_step_def)
  next
    case True
    have "pcie < 4" using n by (auto simp: next_nfd_cfg_msg_def Let_def)
    have "chk pcie = Some m1" using n True by (auto simp: next_nfd_cfg_msg_def Let_def c_true_def split: if_splits option.splits)
    then have ok: "vnic_ok e (of_nat pcie) (msg_vid m1)" using assms(4) by (auto simp: msgs_ok_def)
    obtain control update where b: "bar_ctrl s (of_nat pcie) (msg_vid m1) = (control, update)" by (metis surj_pair)
    obtain ty' vnic where v: "NFD_VID2VNIC (ce e) (msg_vid m1) = (ty', vnic)" by (metis surj_pair)
    have "\<exists>r. (case ty' of
            NFD_VNIC_TYPE_CTRL \<Rightarrow> process_ctrl_reconfig e (jk 0) (of_nat pcie) control (msg_vid m1) m1 s
          | NFD_VNIC_TYPE_PF \<Rightarrow> process_pf_reconfig e jk (of_nat pcie) control update (msg_vid m1) vnic m1 s
          | NFD_VNIC_TYPE_VF \<Rightarrow> process_vf_reconfig e jk (of_nat pcie) control update (msg_vid m1) m1 s) = Some r"
    proof (cases ty')
      case NFD_VNIC_TYPE_PF
      then show ?thesis using pf_handler_total [OF assms(1-3) _ ok] v by simp
    next
      case NFD_VNIC_TYPE_VF
      then show ?thesis using vf_handler_total [OF assms(1) _ \<open>pcie < 4\<close>] v by simp
    next
      case NFD_VNIC_TYPE_CTRL
      then show ?thesis using ctrl_handler_total [of e "msg_vid m1" vnic] v by simp
    qed
    then show ?thesis using n b v True by (auto simp: cfg_changes_step_def Let_def)
  qed
qed

end
