(* ===== verification/NbiSpec.thy ===== *)
theory NbiSpec
  imports NbiMem
begin

unbundle bit_operations_syntax

text \<open>
  Correctness of the NBI memory library.  A history determines the units
  written to the NBI (\<open>nbi_writes\<close>, newest first); \<open>nbi_stored\<close> is the law of the
  memory.  The copies are reduced to the units they write or read
  (\<open>lmem2nbi_units\<close>, \<open>nbi2lmem_units\<close>), whatever the burst size, and the table
  update is analysed through the histories it passes through.
\<close>

section \<open>The content of the NBI memory\<close>

fun burst_units :: "nat \<Rightarrow> u32 \<Rightarrow> u32 list \<Rightarrow> ((nat \<times> u32) \<times> (u32 \<times> u32)) list" where
  "burst_units nbi ptr (x # y # ws) = ((nbi, ptr), (x, y)) # burst_units nbi (ptr + 8) ws"
| "burst_units nbi ptr _ = []"

fun nbi_writes :: "dev_hist \<Rightarrow> ((nat \<times> u32) \<times> (u32 \<times> u32)) list" where
  "nbi_writes [] = []"
| "nbi_writes (NbiWrite nbi ptr ws # hs) = rev (burst_units nbi ptr ws) @ nbi_writes hs"
| "nbi_writes (_ # hs) = nbi_writes hs"

definition nbi_stored :: "nbi_env \<Rightarrow> (nat \<Rightarrow> u32 \<Rightarrow> u32 \<times> u32) \<Rightarrow> bool" where
  "nbi_stored e init \<longleftrightarrow> (\<forall>hs nbi a. nbi_dev e hs nbi a = (case map_of (nbi_writes hs) (nbi, a) of None \<Rightarrow> init nbi a | Some u \<Rightarrow> u))"

lemma nbi_writes_append [simp]: "nbi_writes (a @ b) = nbi_writes a @ nbi_writes b"
  by (induction a rule: nbi_writes.induct) simp_all

lemma nbi_stored_skip:
  assumes "nbi_stored e init" "\<forall>u. ((nbi, a), u) \<notin> set (nbi_writes evs)"
  shows "nbi_dev e (evs @ hs) nbi a = nbi_dev e hs nbi a"
proof -
  have "map_of (nbi_writes evs) (nbi, a) = None" using assms(2) by (force simp: map_of_eq_None_iff)
  then show ?thesis using assms(1) by (simp add: nbi_stored_def map_add_def split: option.splits)
qed

lemma nbi_stored_hit:
  assumes "nbi_stored e init" "map_of (nbi_writes evs) (nbi, a) = Some u"
  shows "nbi_dev e (evs @ hs) nbi a = u"
  using assms by (simp add: nbi_stored_def map_add_def split: option.splits)

section \<open>The copy loop\<close>

lemma nbi_for_steps:
  assumes "unat p + k * unat step < 2 ^ 32" "0 < unat step" "fin = p + of_nat k * step"
  shows "nbi_for step fin body p s = Some (fold (\<lambda>i. body (p + of_nat i * step)) [0..<k] s)"
  using assms
proof (induction k arbitrary: p s)
  case 0
  then show ?case by (simp add: nbi_for.simps)
next
  case (Suc k)
  have bound: "unat p + unat step + k * unat step < 2 ^ 32" using Suc.prems(1) by simp
  have up: "unat (p + step) = unat p + unat step"
    using bound by (intro unat_add_lem [THEN iffD1]) simp
  have "unat fin = unat p + Suc k * unat step"
    using Suc.prems(1,3) by (simp add: unat_word_ariths unat_of_nat mod_simps)
  then have lt: "p < fin" using Suc.prems(2) by (simp add: word_less_nat_alt)
  have fin: "fin = p + step + of_nat k * step" using Suc.prems(3) by (simp add: algebra_simps)
  have "nbi_for step fin body (p + step) (body p s) =
      Some (fold (\<lambda>i. body (p + step + of_nat i * step)) [0..<k] (body p s))"
    using Suc.IH [of "p + step" "body p s"] bound Suc.prems(2) fin up by simp
  moreover have "[0..<Suc k] = 0 # map Suc [0..<k]" by (simp add: upt_conv_Cons map_Suc_upt del: upt_Suc)
  ultimately show ?case using lt
    by (subst nbi_for.simps) (simp add: fold_map comp_def algebra_simps del: upt_Suc)
qed

lemma fold_bursts:
  "fold (\<lambda>i (x, hs). (step x, ev i x # hs)) [0..<k] (x0, hs) =
     ((step ^^ k) x0, rev (map (\<lambda>i. ev i ((step ^^ i) x0)) [0..<k]) @ hs)"
  by (induction k) simp_all

lemma funpow_add_const: "((\<lambda>x. x + c) ^^ k) (a :: nat) = a + c * k"
  by (induction k) simp_all

text \<open>The units of a source in local memory.\<close>

definition lmem_unit :: "(nat \<Rightarrow> u32) \<Rightarrow> nat \<Rightarrow> u32 \<times> u32" where
  "lmem_unit addr j = (addr (2 * j + 1), addr (2 * j))"

definition unit_list :: "nat \<Rightarrow> u32 \<Rightarrow> (nat \<Rightarrow> u32 \<times> u32) \<Rightarrow> nat \<Rightarrow> ((nat \<times> u32) \<times> (u32 \<times> u32)) list" where
  "unit_list nbi p unit n = map (\<lambda>j. ((nbi, p + 8 * of_nat j), unit j)) [0..<n]"

text \<open>A history extension that only writes these units.\<close>

definition writes_units :: "nat \<Rightarrow> u32 \<Rightarrow> (nat \<Rightarrow> u32 \<times> u32) \<Rightarrow> nat \<Rightarrow> dev_hist \<Rightarrow> bool" where
  "writes_units nbi p unit n evs \<longleftrightarrow> nbi_writes evs = rev (unit_list nbi p unit n) \<and> (\<forall>a. xpb_writes a evs = [])"

lemma nbi_writes_bursts:
  "nbi_writes (rev (map (\<lambda>i. NbiWrite nbi (p i) (ws i)) is)) = rev (concat (map (\<lambda>i. burst_units nbi (p i) (ws i)) is))"
  by (induction "is") simp_all

lemma xpb_writes_bursts: "xpb_writes a (rev (map (\<lambda>i. NbiWrite nbi (p i) (ws i)) is)) = []"
  by (induction "is") (simp_all add: xpb_writes_append)

lemma unit_list_chunks:
  assumes "\<And>i. burst_units nbi (p + of_nat i * (8 * of_nat u)) (ws i) =
      map (\<lambda>j. ((nbi, p + 8 * of_nat j), unit j)) [u * i..<u * i + u]"
  shows "concat (map (\<lambda>i. burst_units nbi (p + of_nat i * (8 * of_nat u)) (ws i)) [0..<k]) = unit_list nbi p unit (u * k)"
proof (induction k)
  case (Suc k)
  have "[0..<u * Suc k] = [0..<u * k] @ [u * k..<u * k + u]" by (metis add.commute le_add2 mult_Suc_right upt_add_eq_append le0)
  then show ?case using Suc assms [of k] by (simp add: unit_list_def)
qed (simp add: unit_list_def)

lemma copy_bursts:
  assumes "unat p + 8 * (u * k) < 2 ^ 32" "0 < u" "u < 100" "step = 8 * of_nat u" "sz = 8 * of_nat (u * k)"
    and "\<And>i. burst_units nbi (p + of_nat i * (8 * of_nat u)) (ws (c * i)) =
      map (\<lambda>j. ((nbi, p + 8 * of_nat j), unit j)) [u * i..<u * i + u]"
  shows "\<exists>evs. map_option snd (nbi_for step (p + sz) (\<lambda>ptr (x, hs). (x + c, nbi_write nbi ptr (ws x) hs)) p (0 :: nat, hs)) =
       Some (evs @ hs) \<and> writes_units nbi p unit (u * k) evs"
proof -
  let ?evs = "rev (map (\<lambda>i. NbiWrite nbi (p + of_nat i * step) (ws (c * i))) [0..<k])"
  have st: "unat step = 8 * u" using assms(2,3,4) by (simp add: unat_word_ariths unat_of_nat)
  have loop: "nbi_for step (p + sz) body p s = Some (fold (\<lambda>i. body (p + of_nat i * step)) [0..<k] s)"
    for body and s :: "nat \<times> dev_hist"
    by (rule nbi_for_steps) (use assms st in \<open>simp_all add: algebra_simps\<close>)
  have "nbi_writes ?evs = rev (unit_list nbi p unit (u * k))"
    unfolding nbi_writes_bursts assms(4) unit_list_chunks [OF assms(6)] by (rule refl)
  then have "writes_units nbi p unit (u * k) ?evs" by (simp add: writes_units_def xpb_writes_bursts)
  moreover have "map_option snd (nbi_for step (p + sz) (\<lambda>ptr (x, hs). (x + c, nbi_write nbi ptr (ws x) hs)) p (0 :: nat, hs)) =
       Some (?evs @ hs)"
    unfolding loop nbi_write_def by (simp add: fold_bursts [where step = "\<lambda>x. x + c"] funpow_add_const)
  ultimately show ?thesis by blast
qed

lemma upt_plus_2: "[m..<m + 2] = [m, m + 1]" and upt_plus_4: "[m..<4 + m] = [m, m + 1, m + 2, m + 3]"
  by (simp_all add: upt_rec)

lemma lmem2nbi_units:
  assumes "unat p + 8 * n < 2 ^ 32" "sz = 8 * of_nat n"
  shows lmem2nbi64: "\<exists>evs. nbi_cpp_lmem2nbi_copy64_sig nbi p addr sz hs = Some (evs @ hs) \<and> writes_units nbi p (lmem_unit addr) n evs"
    and lmem2nbi128: "even n \<Longrightarrow> \<exists>evs. nbi_cpp_lmem2nbi_copy128_sig nbi p addr sz hs = Some (evs @ hs) \<and> writes_units nbi p (lmem_unit addr) n evs"
    and lmem2nbi256: "4 dvd n \<Longrightarrow> \<exists>evs. nbi_cpp_lmem2nbi_copy256_sig nbi p addr sz hs = Some (evs @ hs) \<and> writes_units nbi p (lmem_unit addr) n evs"
proof -
  show "\<exists>evs. nbi_cpp_lmem2nbi_copy64_sig nbi p addr sz hs = Some (evs @ hs) \<and> writes_units nbi p (lmem_unit addr) n evs"
    unfolding nbi_cpp_lmem2nbi_copy64_sig_def
    using copy_bursts [where u = 1 and k = n and c = 2 and p = p and step = 8 and sz = sz and nbi = nbi and unit = "lmem_unit addr"
        and ws = "\<lambda>x. [addr (x + 1), addr x]"] assms
    by (simp add: lmem_unit_def algebra_simps)
  show "\<exists>evs. nbi_cpp_lmem2nbi_copy128_sig nbi p addr sz hs = Some (evs @ hs) \<and> writes_units nbi p (lmem_unit addr) n evs" if "even n"
  proof -
    from that obtain k where k: "n = 2 * k" by blast
    show ?thesis unfolding nbi_cpp_lmem2nbi_copy128_sig_def k
      by (rule copy_bursts [where c = 4 and ws = "\<lambda>x. [addr (x + 1), addr x, addr (x + 3), addr (x + 2)]"])
        (use assms k in \<open>auto simp: lmem_unit_def algebra_simps upt_plus_2 intro!: arg_cong [where f = addr]\<close>)
  qed
  show "\<exists>evs. nbi_cpp_lmem2nbi_copy256_sig nbi p addr sz hs = Some (evs @ hs) \<and> writes_units nbi p (lmem_unit addr) n evs" if "4 dvd n"
  proof -
    from that obtain k where k: "n = 4 * k" by blast
    show ?thesis unfolding nbi_cpp_lmem2nbi_copy256_sig_def k
      by (rule copy_bursts [where c = 8 and ws = "\<lambda>x. [addr (x + 1), addr x, addr (x + 3), addr (x + 2),
           addr (x + 5), addr (x + 4), addr (x + 7), addr (x + 6)]"])
        (use assms k in \<open>auto simp: lmem_unit_def algebra_simps upt_plus_4 intro!: arg_cong [where f = addr]\<close>)
  qed
qed

section \<open>Reading\<close>

definition lmem_words :: "(nat \<Rightarrow> u32 \<times> u32) \<Rightarrow> nat \<Rightarrow> u32 list" where
  "lmem_words unit n = concat (map (\<lambda>j. [snd (unit j), fst (unit j)]) [0..<n])"

definition quiet_events :: "dev_hist \<Rightarrow> bool" where
  "quiet_events evs \<longleftrightarrow> nbi_writes evs = [] \<and> (\<forall>a. xpb_writes a evs = [])"

lemma quiet_events_simps [simp]:
  "quiet_events []" "quiet_events (NbiRead nbi p n # evs) = quiet_events evs"
  "quiet_events (XpbRead a # evs) = quiet_events evs" "quiet_events (Sleep n # evs) = quiet_events evs"
  "quiet_events (xs @ ys) \<longleftrightarrow> quiet_events xs \<and> quiet_events ys"
  by (auto simp: quiet_events_def xpb_writes_append)

lemma nbi_dev_quiet: "nbi_stored e init \<Longrightarrow> quiet_events evs \<Longrightarrow> nbi_dev e (evs @ hs) nbi = nbi_dev e hs nbi"
  by (rule ext) (simp add: nbi_stored_skip quiet_events_def)

lemma fold_reads:
  assumes "nbi_stored e init"
  shows "\<exists>evs. fold (\<lambda>i (lmem, hs). let (d, hs) = nbi_read e nbi (p + of_nat i * step) u hs in (lmem @ g d, hs)) [0..<k] (lm, hs) =
     (lm @ concat (map (\<lambda>i. g (unit_words (nbi_dev e hs nbi) (p + of_nat i * step) u)) [0..<k]), evs @ hs) \<and> quiet_events evs"
proof (induction k)
  case (Suc k)
  then obtain evs where evs: "fold (\<lambda>i (lmem, hs). let (d, hs) = nbi_read e nbi (p + of_nat i * step) u hs in (lmem @ g d, hs)) [0..<k] (lm, hs) =
     (lm @ concat (map (\<lambda>i. g (unit_words (nbi_dev e hs nbi) (p + of_nat i * step) u)) [0..<k]), evs @ hs)" "quiet_events evs" by blast
  show ?case using evs nbi_dev_quiet [OF assms evs(2)]
    by (intro exI [of _ "NbiRead nbi (p + of_nat k * step) u # evs"]) (simp add: nbi_read_def)
qed simp

lemma lmem_words_chunks:
  assumes "\<And>i. g (unit_words mem (p + of_nat i * (8 * of_nat u)) u) =
      concat (map (\<lambda>j. [snd (mem (p + 8 * of_nat j)), fst (mem (p + 8 * of_nat j))]) [u * i..<u * i + u])"
  shows "concat (map (\<lambda>i. g (unit_words mem (p + of_nat i * (8 * of_nat u)) u)) [0..<k]) = lmem_words (\<lambda>j. mem (p + 8 * of_nat j)) (u * k)"
proof (induction k)
  case (Suc k)
  have "[0..<u * Suc k] = [0..<u * k] @ [u * k..<u * k + u]" by (metis add.commute le_add2 mult_Suc_right upt_add_eq_append le0)
  then show ?case using Suc assms [of k] by (simp add: lmem_words_def)
qed (simp add: lmem_words_def)

lemma read_bursts:
  assumes "nbi_stored e init" "unat p + 8 * (u * k) < 2 ^ 32" "0 < u" "u < 100" "step = 8 * of_nat u" "sz = 8 * of_nat (u * k)"
    and "\<And>i. g (unit_words (nbi_dev e hs nbi) (p + of_nat i * (8 * of_nat u)) u) =
      concat (map (\<lambda>j. [snd (nbi_dev e hs nbi (p + 8 * of_nat j)), fst (nbi_dev e hs nbi (p + 8 * of_nat j))]) [u * i..<u * i + u])"
  shows "\<exists>evs. nbi_for step (p + sz) (\<lambda>ptr (lmem, hs). let (d, hs) = nbi_read e nbi ptr u hs in (lmem @ g d, hs)) p ([], hs) =
       Some (lmem_words (\<lambda>j. nbi_dev e hs nbi (p + 8 * of_nat j)) (u * k), evs @ hs) \<and> quiet_events evs"
proof -
  have st: "unat step = 8 * u" using assms(3,4,5) by (simp add: unat_word_ariths unat_of_nat)
  have loop: "nbi_for step (p + sz) body p s = Some (fold (\<lambda>i. body (p + of_nat i * step)) [0..<k] s)"
    for body and s :: "u32 list \<times> dev_hist"
    by (rule nbi_for_steps) (use assms st in \<open>simp_all add: algebra_simps\<close>)
  show ?thesis
    using fold_reads [OF assms(1), where p = p and step = step and u = u and k = k and lm = "[]" and g = g and hs = hs and nbi = nbi]
    unfolding loop unfolding assms(5) lmem_words_chunks [OF assms(7)] by simp
qed

lemma nbi2lmem_units:
  fixes nbi hs
  assumes "nbi_stored e init" "unat p + 8 * n < 2 ^ 32" "sz = 8 * of_nat n"
  defines "ws \<equiv> lmem_words (\<lambda>j. nbi_dev e hs nbi (p + 8 * of_nat j)) n"
  shows nbi2lmem64: "\<exists>evs. nbi_cpp_nbi2lmem_copy64_sig e nbi p sz hs = Some (ws, evs @ hs) \<and> quiet_events evs"
    and nbi2lmem128: "even n \<Longrightarrow> \<exists>evs. nbi_cpp_nbi2lmem_copy128_sig e nbi p sz hs = Some (ws, evs @ hs) \<and> quiet_events evs"
    and nbi2lmem256: "4 dvd n \<Longrightarrow> \<exists>evs. nbi_cpp_nbi2lmem_copy256_sig e nbi p sz hs = Some (ws, evs @ hs) \<and> quiet_events evs"
proof -
  have n1: "n = 1 * n" by simp
  show "\<exists>evs. nbi_cpp_nbi2lmem_copy64_sig e nbi p sz hs = Some (ws, evs @ hs) \<and> quiet_events evs"
    unfolding nbi_cpp_nbi2lmem_copy64_sig_def ws_def
    by (subst n1, rule read_bursts [OF assms(1), where g = "\<lambda>d. [d ! 1, d ! 0]"])
      (use assms(2,3) in \<open>simp_all add: unit_words_def algebra_simps\<close>)
  show "\<exists>evs. nbi_cpp_nbi2lmem_copy128_sig e nbi p sz hs = Some (ws, evs @ hs) \<and> quiet_events evs" if "even n"
  proof -
    from that obtain k where k: "n = 2 * k" by blast
    show ?thesis unfolding nbi_cpp_nbi2lmem_copy128_sig_def ws_def k
      by (rule read_bursts [OF assms(1), where g = "\<lambda>d. [d ! 1, d ! 0, d ! 3, d ! 2]"])
        (use assms(2,3) k in \<open>auto simp: unit_words_def algebra_simps upt_rec\<close>)
  qed
  show "\<exists>evs. nbi_cpp_nbi2lmem_copy256_sig e nbi p sz hs = Some (ws, evs @ hs) \<and> quiet_events evs" if "4 dvd n"
  proof -
    from that obtain k where k: "n = 4 * k" by blast
    show ?thesis unfolding nbi_cpp_nbi2lmem_copy256_sig_def ws_def k
      by (rule read_bursts [OF assms(1), where g = "\<lambda>d. [d ! 1, d ! 0, d ! 3, d ! 2, d ! 5, d ! 4, d ! 7, d ! 6]"])
        (use assms(2,3) k in \<open>auto simp: unit_words_def algebra_simps upt_rec\<close>)
  qed
qed

section \<open>Reading back\<close>

lemma unat_unit_addr:
  assumes "unat p + 8 * n < 2 ^ 32" "j < n"
  shows "unat (p + 8 * of_nat j :: u32) = unat p + 8 * j"
  using assms by (simp add: unat_word_ariths unat_of_nat mod_simps)

lemma unit_addr_inj:
  assumes "unat p + 8 * n < 2 ^ 32" "i < n" "j < n"
  shows "p + 8 * of_nat i = (p + 8 * of_nat j :: u32) \<longleftrightarrow> i = j"
  using unat_unit_addr [OF assms(1,2)] unat_unit_addr [OF assms(1,3)]
  by (metis add_left_cancel mult_cancel1 zero_neq_numeral)

lemma distinct_unit_list:
  assumes "unat p + 8 * n < 2 ^ 32"
  shows "distinct (map fst (unit_list nbi p unit n))"
  using unit_addr_inj [OF assms] by (auto simp: unit_list_def distinct_map inj_on_def comp_def)

lemma units_hit:
  assumes "nbi_stored e init" "writes_units nbi p unit n evs" "unat p + 8 * n < 2 ^ 32" "j < n"
  shows "nbi_dev e (evs @ hs) nbi (p + 8 * of_nat j) = unit j"
proof (rule nbi_stored_hit [OF assms(1)])
  have "distinct (map fst (rev (unit_list nbi p unit n)))"
    using distinct_unit_list [OF assms(3)] by (metis distinct_rev rev_map)
  moreover have "((nbi, p + 8 * of_nat j), unit j) \<in> set (rev (unit_list nbi p unit n))"
    using assms(4) by (auto simp: unit_list_def)
  ultimately show "map_of (nbi_writes evs) (nbi, p + 8 * of_nat j) = Some (unit j)"
    using assms(2) by (metis map_of_eq_Some_iff writes_units_def)
qed

text \<open>A write of units, also while it is in progress, leaves all other units.\<close>

lemma units_miss:
  assumes "nbi_stored e init" "writes_units nbi p unit n (a @ b)" "nbi' = nbi \<longrightarrow> (\<forall>j < n. x \<noteq> p + 8 * of_nat j)"
  shows "nbi_dev e (b @ hs) nbi' x = nbi_dev e hs nbi' x"
proof (rule nbi_stored_skip [OF assms(1)])
  have "set (nbi_writes b) \<subseteq> set (unit_list nbi p unit n)"
    using assms(2) unfolding writes_units_def by (metis Un_iff nbi_writes_append set_append set_rev subsetI)
  then show "\<forall>u. ((nbi', x), u) \<notin> set (nbi_writes b)" using assms(3) by (fastforce simp: unit_list_def)
qed

lemma lmem_words_lmem_unit: "lmem_words (lmem_unit addr) n = map addr [0..<2 * n]"
  by (induction n) (simp_all add: lmem_words_def lmem_unit_def)

section \<open>Updates of a table with two copies\<close>

definition table_view :: "nbi_env \<Rightarrow> dev_hist \<Rightarrow> nat \<Rightarrow> u32 \<Rightarrow> nat \<Rightarrow> (u32 \<times> u32) list" where
  "table_view e hs nbi p n = map (\<lambda>j. nbi_dev e hs nbi (p + 8 * of_nat j)) [0..<n]"

text \<open>The active bit of the table set register is what was last written to it;
  the in-use bits may change by themselves.\<close>

definition tableset_stored :: "nbi_env \<Rightarrow> (nat \<Rightarrow> bool) \<Rightarrow> bool" where
  "tableset_stored e init \<longleftrightarrow> (\<exists>b < 32. TABLESET_ACTIVE e = 2 ^ b) \<and>
     (\<forall>nbi hs. c_true (xpb_dev (xdev e) hs (NBIPC_TABLE_SET_ADDR e nbi) AND TABLESET_ACTIVE e) =
       (case xpb_writes (NBIPC_TABLE_SET_ADDR e nbi) hs of [] \<Rightarrow> init nbi | v # _ \<Rightarrow> c_true (v AND TABLESET_ACTIVE e)))"

definition sec_active :: "nbi_env \<Rightarrow> dev_hist \<Rightarrow> nat \<Rightarrow> bool" where
  "sec_active e hs nbi \<longleftrightarrow> c_true (xpb_dev (xdev e) hs (NBIPC_TABLE_SET_ADDR e nbi) AND TABLESET_ACTIVE e)"

text \<open>What a reader of the table sees.\<close>

definition active_view :: "nbi_env \<Rightarrow> dev_hist \<Rightarrow> nat \<Rightarrow> u32 \<Rightarrow> u32 \<Rightarrow> nat \<Rightarrow> (u32 \<times> u32) list" where
  "active_view e hs nbi pri sec n = table_view e hs nbi (if sec_active e hs nbi then sec else pri) n"

lemma sec_active_skip:
  "tableset_stored e init \<Longrightarrow> xpb_writes (NBIPC_TABLE_SET_ADDR e nbi) evs = [] \<Longrightarrow> sec_active e (evs @ hs) nbi = sec_active e hs nbi"
  by (simp add: tableset_stored_def sec_active_def xpb_writes_append)

lemma sec_active_switch:
  assumes "tableset_stored e init"
  shows "sec_active e (XpbWrite (NBIPC_TABLE_SET_ADDR e nbi) ((v AND TABLESET_ACTIVE e) XOR TABLESET_ACTIVE e) # hs) nbi \<longleftrightarrow>
     \<not> c_true (v AND TABLESET_ACTIVE e)"
proof -
  obtain b where b: "b < 32" "TABLESET_ACTIVE e = 2 ^ b" using assms by (auto simp: tableset_stored_def)
  have p: "c_true (x AND 2 ^ b) \<longleftrightarrow> bit x b" for x :: u32
    using c_true_and_pow2 [of x b] by (simp add: push_bit_of_1)
  have "c_true (((v AND 2 ^ b) XOR 2 ^ b) AND 2 ^ b) \<longleftrightarrow> \<not> bit v b"
    unfolding p by (auto simp: bit_xor_iff bit_and_iff bit_exp_iff possible_bit_def b(1))
  then show ?thesis using assms b(2) p [of v] by (simp add: tableset_stored_def sec_active_def)
qed

lemma table_set_poll_quiet: "\<exists>evs. table_set_poll e nbi ts n hs = evs @ hs \<and> quiet_events evs"
proof (induction n arbitrary: hs)
  case (Suc n)
  obtain evs where "table_set_poll e nbi ts n (Sleep (NBIPC_XPB_SLEEP e) # XpbRead (NBIPC_TABLE_SET_ADDR e nbi) # hs) =
      evs @ Sleep (NBIPC_XPB_SLEEP e) # XpbRead (NBIPC_TABLE_SET_ADDR e nbi) # hs" "quiet_events evs" using Suc.IH by blast
  then show ?case
    by (cases "c_true (xpb_dev (xdev e) hs (NBIPC_TABLE_SET_ADDR e nbi) AND (TABLESET_CHINUSE e ts OR TABLESET_PEINUSE e ts))")
      (auto simp: xpb_read_def Let_def simp del: c_true_or
        intro: exI [of _ "[XpbRead (NBIPC_TABLE_SET_ADDR e nbi)]"]
          exI [of _ "evs @ [Sleep (NBIPC_XPB_SLEEP e), XpbRead (NBIPC_TABLE_SET_ADDR e nbi)]"])
qed simp

text \<open>Two ranges of \<open>n\<close> units without a common unit and without wrap-around.\<close>

definition apart :: "u32 \<Rightarrow> u32 \<Rightarrow> nat \<Rightarrow> bool" where
  "apart p q n \<longleftrightarrow> unat p + 8 * n < 2 ^ 32 \<and> unat q + 8 * n < 2 ^ 32 \<and> (unat p + 8 * n \<le> unat q \<or> unat q + 8 * n \<le> unat p)"

lemma apart_units:
  assumes "apart p q n" "i < n" "j < n"
  shows "p + 8 * of_nat i \<noteq> (q + 8 * of_nat j :: u32)"
proof
  assume "p + 8 * of_nat i = (q + 8 * of_nat j :: u32)"
  then have "unat p + 8 * i = unat q + 8 * j"
    using unat_unit_addr [of p n i] unat_unit_addr [of q n j] assms by (simp add: apart_def)
  then show False using assms by (auto simp: apart_def)
qed

lemma apart_sym: "apart p q n \<Longrightarrow> apart q p n"
  by (auto simp: apart_def)

lemma apart_neq: "apart p q n \<Longrightarrow> 0 < n \<Longrightarrow> p \<noteq> q"
  by (auto simp: apart_def)

lemma view_hit:
  assumes "nbi_stored e init" "writes_units nbi p unit n evs" "unat p + 8 * n < 2 ^ 32"
  shows "table_view e (evs @ hs) nbi p n = map unit [0..<n]"
  using units_hit [OF assms] by (simp add: table_view_def)

lemma view_miss:
  assumes "nbi_stored e init" "writes_units nbi p unit n (a @ b)" "apart p q n"
  shows "table_view e (b @ hs) nbi q n = table_view e hs nbi q n"
  unfolding table_view_def
  by (rule map_cong [OF refl], rule units_miss [OF assms(1,2)]) (use apart_units [OF apart_sym [OF assms(3)]] in auto)

lemma writes_units_quiet:
  "writes_units nbi p unit n a \<Longrightarrow> quiet_events b \<Longrightarrow> writes_units nbi p unit n (a @ b)"
  "writes_units nbi p unit n a \<Longrightarrow> quiet_events b \<Longrightarrow> writes_units nbi p unit n (b @ a)"
  by (auto simp: writes_units_def quiet_events_def xpb_writes_append)

text \<open>The phases of an update: the inactive copy is written, the register is
  switched, the other copy is written.\<close>

lemma table_copy_phases:
  assumes "tableset_stored e init" "apart pri sec n" "0 < n"
    and "\<And>a hs. a \<in> {pri, sec} \<Longrightarrow> \<exists>evs. copy a hs = Some (evs @ hs) \<and> writes_units nbi a unit n evs"
    and "(act, shadow) = (if sec_active e hs nbi then (sec, pri) else (pri, sec))"
  shows "\<exists>q w d. nbipc_table_copy e copy nbi pri sec hs = Some (q @ XpbWrite (NBIPC_TABLE_SET_ADDR e nbi) w # d @ hs) \<and>
     writes_units nbi shadow unit n d \<and> writes_units nbi act unit n q \<and>
     sec_active e (XpbWrite (NBIPC_TABLE_SET_ADDR e nbi) w # d @ hs) nbi = (\<not> sec_active e hs nbi)"
proof -
  let ?A = "NBIPC_TABLE_SET_ADDR e nbi"
  let ?w = "xpb_dev (xdev e) hs ?A AND TABLESET_ACTIVE e XOR TABLESET_ACTIVE e"
  obtain d where d: "copy shadow (XpbRead ?A # hs) = Some (d @ XpbRead ?A # hs)" "writes_units nbi shadow unit n d"
    using assms(4) [of shadow] assms(5) by (auto split: if_splits)
  obtain ev where ev: "table_set_poll e nbi (xpb_dev (xdev e) hs ?A AND TABLESET_ACTIVE e) NBIPC_TABLE_SET_POLL_TIMEOUT
      (XpbWrite ?A ?w # d @ XpbRead ?A # hs) = ev @ XpbWrite ?A ?w # d @ XpbRead ?A # hs" "quiet_events ev"
    using table_set_poll_quiet by blast
  obtain c where c: "copy act (ev @ XpbWrite ?A ?w # d @ XpbRead ?A # hs) = Some (c @ ev @ XpbWrite ?A ?w # d @ XpbRead ?A # hs)"
    "writes_units nbi act unit n c"
    using assms(4) [of act] assms(5) by (metis Pair_inject insertCI)
  have "nbipc_table_copy e copy nbi pri sec hs = Some (c @ ev @ XpbWrite ?A ?w # d @ XpbRead ?A # hs)"
    using assms(5) d(1) ev(1) c(1) apart_neq [OF assms(2,3)]
    by (auto simp: nbipc_table_copy_def xpb_read_def xpb_write_def sec_active_def Let_def split: if_splits)
  moreover have "writes_units nbi act unit n (c @ ev)" "writes_units nbi shadow unit n (d @ [XpbRead ?A])"
    using writes_units_quiet(1) [OF c(2) ev(2)] writes_units_quiet(1) [OF d(2), of "[XpbRead ?A]"] by simp_all
  ultimately show ?thesis
    using sec_active_switch [OF assms(1), of nbi "xpb_dev (xdev e) hs ?A" "d @ XpbRead ?A # hs"]
    by (intro exI [of _ "c @ ev"] exI [of _ ?w] exI [of _ "d @ [XpbRead ?A]"]) (simp add: sec_active_def)
qed

lemma split_at_event:
  assumes "q @ x # d = a @ b"
  obtains (early) a' where "d = a' @ b" | (late) b' where "b = b' @ x # d" "q = a @ b'"
  using assms by (auto simp: append_eq_append_conv2 Cons_eq_append_conv)

lemma table_copy_atomic:
  assumes "nbi_stored e init" "tableset_stored e init'" "apart pri sec n" "0 < n"
    and "\<And>a hs. a \<in> {pri, sec} \<Longrightarrow> \<exists>evs. copy a hs = Some (evs @ hs) \<and> writes_units nbi a unit n evs"
  shows "\<exists>evs. nbipc_table_copy e copy nbi pri sec hs = Some (evs @ hs) \<and>
     (\<forall>a b. evs = a @ b \<longrightarrow> active_view e (b @ hs) nbi pri sec n \<in> {active_view e hs nbi pri sec n, map unit [0..<n]}) \<and>
     table_view e (evs @ hs) nbi pri n = map unit [0..<n] \<and> table_view e (evs @ hs) nbi sec n = map unit [0..<n] \<and>
     (\<forall>nbi' x. (nbi' = nbi \<longrightarrow> (\<forall>j < n. x \<noteq> pri + 8 * of_nat j \<and> x \<noteq> sec + 8 * of_nat j)) \<longrightarrow>
        nbi_dev e (evs @ hs) nbi' x = nbi_dev e hs nbi' x)"
proof -
  obtain act shadow where as: "(act, shadow) = (if sec_active e hs nbi then (sec, pri) else (pri, sec))" by (metis surj_pair)
  then have ap: "apart act shadow n" "apart shadow act n" using assms(3) apart_sym by (auto split: if_splits)
  then have bd: "unat act + 8 * n < 2 ^ 32" "unat shadow + 8 * n < 2 ^ 32" by (auto simp: apart_def)
  let ?A = "NBIPC_TABLE_SET_ADDR e nbi"
  obtain q w d where r: "nbipc_table_copy e copy nbi pri sec hs = Some (q @ XpbWrite ?A w # d @ hs)"
    and d: "writes_units nbi shadow unit n d" and q: "writes_units nbi act unit n q"
    and sw: "sec_active e (XpbWrite ?A w # d @ hs) nbi = (\<not> sec_active e hs nbi)"
    using table_copy_phases [OF assms(2-4,5) as] by blast
  have new: "table_view e (b @ XpbWrite ?A w # d @ hs) nbi shadow n = map unit [0..<n]" if "q = a @ b" for a b
  proof -
    have "table_view e (b @ XpbWrite ?A w # d @ hs) nbi shadow n = table_view e (XpbWrite ?A w # d @ hs) nbi shadow n"
      using view_miss [OF assms(1) _ ap(1)] q that by blast
    also have "\<dots> = table_view e (d @ hs) nbi shadow n"
      using assms(1) by (simp add: table_view_def nbi_stored_def)
    finally show ?thesis using view_hit [OF assms(1) d bd(2)] by simp
  qed
  have "active_view e (b @ hs) nbi pri sec n \<in> {active_view e hs nbi pri sec n, map unit [0..<n]}"
    if ab: "q @ XpbWrite ?A w # d = a @ b" for a b
  proof (cases rule: split_at_event [OF ab])
    case (1 a')
    have "xpb_writes ?A b = []" using d 1 by (auto simp: writes_units_def xpb_writes_append)
    then have "sec_active e (b @ hs) nbi = sec_active e hs nbi" by (rule sec_active_skip [OF assms(2)])
    moreover have "table_view e (b @ hs) nbi act n = table_view e hs nbi act n"
      using view_miss [OF assms(1) _ ap(2)] d 1 by blast
    ultimately show ?thesis using as by (auto simp: active_view_def split: if_splits)
  next
    case (2 b')
    have "xpb_writes ?A b' = []" using q 2(2) by (auto simp: writes_units_def xpb_writes_append)
    then have "sec_active e (b @ hs) nbi = (\<not> sec_active e hs nbi)"
      using sec_active_skip [OF assms(2)] sw 2(1) by simp
    then show ?thesis using as new [OF 2(2)] 2(1) by (auto simp: active_view_def split: if_splits)
  qed
  moreover have "table_view e (q @ XpbWrite ?A w # d @ hs) nbi act n = map unit [0..<n]"
    by (rule view_hit [OF assms(1) q bd(1)])
  moreover have "nbi_dev e (q @ XpbWrite ?A w # d @ hs) nbi' x = nbi_dev e hs nbi' x"
    if "nbi' = nbi \<longrightarrow> (\<forall>j < n. x \<noteq> pri + 8 * of_nat j \<and> x \<noteq> sec + 8 * of_nat j)" for nbi' x
  proof -
    have x: "nbi' = nbi \<longrightarrow> (\<forall>j < n. x \<noteq> act + 8 * of_nat j)" "nbi' = nbi \<longrightarrow> (\<forall>j < n. x \<noteq> shadow + 8 * of_nat j)"
      using that as by (auto split: if_splits)
    have "nbi_dev e (q @ XpbWrite ?A w # d @ hs) nbi' x = nbi_dev e (XpbWrite ?A w # d @ hs) nbi' x"
      using units_miss [OF assms(1), of nbi act unit n "[]" q] q x(1) by simp
    also have "\<dots> = nbi_dev e (d @ hs) nbi' x" using assms(1) by (simp add: nbi_stored_def)
    finally show ?thesis using units_miss [OF assms(1), of nbi shadow unit n "[]" d] d x(2) by simp
  qed
  ultimately show ?thesis using r as new [of "[]" q] by (intro exI [of _ "q @ XpbWrite ?A w # d"]) (auto split: if_splits)
qed

section \<open>One table entry\<close>

text \<open>Reading and writing one entry of 16 bytes in the local or shared memory of
  the preclassifier.\<close>

definition entry_at :: "nbi_env \<Rightarrow> dev_hist \<Rightarrow> nat \<Rightarrow> u32 \<Rightarrow> u32 list" where
  "entry_at e hs nbi p = lmem_words (\<lambda>j. nbi_dev e hs nbi (p + 8 * of_nat j)) 2"

lemma entry_at_view: "entry_at e hs nbi p = lmem_words ((!) (table_view e hs nbi p 2)) 2"
  by (simp add: entry_at_def lmem_words_def table_view_def upt_rec)

lemma entry_read:
  assumes "nbi_stored e init" "unat p < 2 ^ 32 - 16"
  shows "\<exists>evs. nbi_cpp_nbi2lmem_copy128 e nbi p 16 hs = Some (entry_at e hs nbi p, evs @ hs) \<and> quiet_events evs"
  using nbi2lmem128 [OF assms(1), of p 2 16 nbi hs] assms(2) by (simp add: nbi_cpp_nbi2lmem_copy128_def entry_at_def)

lemma entry_write:
  assumes "nbi_stored e init" "tableset_stored e init'" "apart pri sec 2"
  shows "\<exists>evs. nbipc_mem_table_copy_from_lmem e nbi pri sec addr 16 hs = Some (evs @ hs) \<and>
     entry_at e (evs @ hs) nbi pri = map addr [0..<4] \<and> entry_at e (evs @ hs) nbi sec = map addr [0..<4] \<and>
     (\<forall>nbi' p. (nbi' = nbi \<longrightarrow> apart p pri 2 \<and> apart p sec 2) \<longrightarrow> entry_at e (evs @ hs) nbi' p = entry_at e hs nbi' p)"
proof -
  have cp: "\<exists>evs. nbi_cpp_lmem2nbi_copy128_sig nbi a addr 16 hs = Some (evs @ hs) \<and> writes_units nbi a (lmem_unit addr) 2 evs"
    if "a \<in> {pri, sec}" for a hs
    using lmem2nbi128 [of a 2 16 nbi addr hs] assms(3) that by (auto simp: apart_def)
  obtain evs where evs: "nbipc_mem_table_copy_from_lmem e nbi pri sec addr 16 hs = Some (evs @ hs)"
    "table_view e (evs @ hs) nbi pri 2 = map (lmem_unit addr) [0..<2]" "table_view e (evs @ hs) nbi sec 2 = map (lmem_unit addr) [0..<2]"
    "\<forall>nbi' x. (nbi' = nbi \<longrightarrow> (\<forall>j < 2. x \<noteq> pri + 8 * of_nat j \<and> x \<noteq> sec + 8 * of_nat j)) \<longrightarrow>
        nbi_dev e (evs @ hs) nbi' x = nbi_dev e hs nbi' x"
    using table_copy_atomic [OF assms(1-3) zero_less_numeral cp] unfolding nbipc_mem_table_copy_from_lmem_def by blast
  have "lmem_words ((!) (map (lmem_unit addr) [0..<2])) 2 = map addr [0..<4]"
    by (simp add: lmem_words_def lmem_unit_def upt_rec eval_nat_numeral)
  then have "entry_at e (evs @ hs) nbi pri = map addr [0..<4]" "entry_at e (evs @ hs) nbi sec = map addr [0..<4]"
    using evs(2,3) by (simp_all add: entry_at_view)
  moreover have "entry_at e (evs @ hs) nbi' p = entry_at e hs nbi' p" if "nbi' = nbi \<longrightarrow> apart p pri 2 \<and> apart p sec 2" for nbi' p
  proof -
    have "nbi_dev e (evs @ hs) nbi' (p + 8 * of_nat j) = nbi_dev e hs nbi' (p + 8 * of_nat j)" if "j < 2" for j
      using evs(4) apart_units [of p pri 2 j] apart_units [of p sec 2 j] that \<open>nbi' = nbi \<longrightarrow> _\<close> by blast
    from this [of 0] this [of 1] show ?thesis by (simp add: entry_at_def lmem_words_def upt_rec)
  qed
  ultimately show ?thesis using evs(1) by blast
qed

section \<open>Properties\<close>

text \<open>C27. Copying from local memory to the NBI and back returns the source for every
  combination of burst sizes, and leaves all other units of the NBI memories as
  they were.\<close>

theorem nbi_copy_roundtrip:
  assumes "nbi_stored e init" "unat p + 8 * n < 2 ^ 32" "4 dvd n"
    and "wr \<in> {nbi_cpp_lmem2nbi_copy64 nbi, nbi_cpp_lmem2nbi_copy128 nbi, nbi_cpp_lmem2nbi_copy256 nbi}"
    and "rd \<in> {nbi_cpp_nbi2lmem_copy64 e nbi, nbi_cpp_nbi2lmem_copy128 e nbi, nbi_cpp_nbi2lmem_copy256 e nbi}"
  shows "\<exists>hs1 hs2. wr p addr (8 * of_nat n) hs = Some hs1 \<and> rd p (8 * of_nat n) hs1 = Some (map addr [0..<2 * n], hs2) \<and>
     (\<forall>nbi' x. nbi' \<noteq> nbi \<or> (\<forall>j < n. x \<noteq> p + 8 * of_nat j) \<longrightarrow> nbi_dev e hs2 nbi' x = nbi_dev e hs nbi' x)"
proof -
  have ev: "even n" using assms(3) by (meson dvd_trans even_numeral)
  obtain evs where w: "wr p addr (8 * of_nat n) hs = Some (evs @ hs)" "writes_units nbi p (lmem_unit addr) n evs"
    using lmem2nbi64 [OF assms(2) refl] lmem2nbi128 [OF assms(2) refl ev] lmem2nbi256 [OF assms(2) refl assms(3)] assms(4)
    by (auto simp: nbi_cpp_lmem2nbi_copy64_def nbi_cpp_lmem2nbi_copy128_def nbi_cpp_lmem2nbi_copy256_def) metis+
  let ?ws = "lmem_words (\<lambda>j. nbi_dev e (evs @ hs) nbi (p + 8 * of_nat j)) n"
  obtain evs' where r: "rd p (8 * of_nat n) (evs @ hs) = Some (?ws, evs' @ evs @ hs)" "quiet_events evs'"
    using nbi2lmem64 [OF assms(1,2) refl] nbi2lmem128 [OF assms(1,2) refl ev] nbi2lmem256 [OF assms(1,2) refl assms(3)] assms(5)
    by (auto simp: nbi_cpp_nbi2lmem_copy64_def nbi_cpp_nbi2lmem_copy128_def nbi_cpp_nbi2lmem_copy256_def) metis+
  have "?ws = lmem_words (lmem_unit addr) n"
    unfolding lmem_words_def using units_hit [OF assms(1) w(2) assms(2)] by (intro arg_cong [of _ _ concat] map_cong) auto
  moreover have "nbi_dev e (evs' @ evs @ hs) nbi' x = nbi_dev e hs nbi' x" if "nbi' \<noteq> nbi \<or> (\<forall>j < n. x \<noteq> p + 8 * of_nat j)" for nbi' x
    using units_miss [OF assms(1), of nbi p "lmem_unit addr" n "[]" evs] w(2) that nbi_dev_quiet [OF assms(1) r(2)] by auto
  ultimately show ?thesis using w(1) r(1) by (auto simp: lmem_words_lmem_unit)
qed

text \<open>C4. The update of a table with two copies always returns and is atomic for
  the reader of the active copy: at every moment of the update the active copy
  holds either exactly what it held before or exactly the new content; in the
  end both copies hold the new content and no other unit has changed.\<close>

theorem table_update_atomic:
  assumes "nbi_stored e init" "tableset_stored e init'" "apart pri sec (2 * m)" "0 < m"
  shows "\<exists>evs. nbipc_mem_table_copy_from_lmem e nbi pri sec addr (16 * of_nat m) hs = Some (evs @ hs) \<and>
     (\<forall>a b. evs = a @ b \<longrightarrow> active_view e (b @ hs) nbi pri sec (2 * m) \<in>
        {active_view e hs nbi pri sec (2 * m), map (lmem_unit addr) [0..<2 * m]}) \<and>
     table_view e (evs @ hs) nbi pri (2 * m) = map (lmem_unit addr) [0..<2 * m] \<and>
     table_view e (evs @ hs) nbi sec (2 * m) = map (lmem_unit addr) [0..<2 * m] \<and>
     (\<forall>nbi' x. (nbi' = nbi \<longrightarrow> (\<forall>j < 2 * m. x \<noteq> pri + 8 * of_nat j \<and> x \<noteq> sec + 8 * of_nat j)) \<longrightarrow>
        nbi_dev e (evs @ hs) nbi' x = nbi_dev e hs nbi' x)"
proof -
  have "\<exists>evs. nbi_cpp_lmem2nbi_copy128_sig nbi a addr (16 * of_nat m) hs = Some (evs @ hs) \<and> writes_units nbi a (lmem_unit addr) (2 * m) evs"
    if "a \<in> {pri, sec}" for a hs
    using lmem2nbi128 [of a "2 * m" "16 * of_nat m" nbi addr hs] assms(3) that by (auto simp: apart_def)
  moreover have "0 < 2 * m" using assms(4) by simp
  ultimately show ?thesis
    unfolding nbipc_mem_table_copy_from_lmem_def by (intro table_copy_atomic [OF assms(1-3)]) simp_all
qed

section \<open>A concrete device\<close>

definition nbi_env_ex :: nbi_env where
  "nbi_env_ex = \<lparr>xdev = \<lparr>xpb_dev = (\<lambda>hs a. case xpb_writes a hs of [] \<Rightarrow> 0 | v # _ \<Rightarrow> v), csr_dev = (\<lambda>_ _. 0),
       pcie_dev = (\<lambda>_ _ _. (0, 0)), tmq_dev = (\<lambda>_ _ _. 0)\<rparr>,
     nbi_dev = (\<lambda>hs nbi a. case map_of (nbi_writes hs) (nbi, a) of None \<Rightarrow> (0, 0) | Some u \<Rightarrow> u),
     mu_dev = (\<lambda>_ _ _. (0, 0)), NFP_NBI_PC_XPB_OFF = (\<lambda>nbi. of_nat nbi * 0x1000000), NFP_NBI_PC_CHAR = 0x10000,
     NFP_NBI_PC_CHAR_TABLESET = 0x100, TABLESET_ACTIVE = 2 ^ 31, TABLESET_CHINUSE = (\<lambda>ts. if ts = 0 then 1 else 2),
     TABLESET_PEINUSE = (\<lambda>ts. if ts = 0 then 4 else 8), NBIPC_XPB_SLEEP = 2000\<rparr>"

lemma nbi_stored_ex: "nbi_stored nbi_env_ex (\<lambda>_ _. (0, 0))"
  by (simp add: nbi_stored_def nbi_env_ex_def)

lemma tableset_stored_ex: "tableset_stored nbi_env_ex (\<lambda>_. False)"
  by (auto simp: tableset_stored_def nbi_env_ex_def split: list.splits intro: exI [of _ 31])

theorem nbi_copy_roundtrip_witness:
  "\<exists>hs1 hs2. nbi_cpp_lmem2nbi_copy256 0 0x300000 of_nat 32 [] = Some hs1 \<and>
     nbi_cpp_nbi2lmem_copy64 nbi_env_ex 0 0x300000 32 hs1 = Some ([0, 1, 2, 3, 4, 5, 6, 7], hs2)"
proof -
  have c: "8 * of_nat 4 = (32 :: u32)" "map of_nat [0..<2 * 4] = [0, 1, 2, 3, 4, 5, 6, 7 :: u32]" by (simp_all add: upt_rec)
  show ?thesis
    using nbi_copy_roundtrip [OF nbi_stored_ex, of "0x300000" 4 "nbi_cpp_lmem2nbi_copy256 0" 0 "nbi_cpp_nbi2lmem_copy64 nbi_env_ex 0" of_nat "[]",
        unfolded c] by auto
qed

theorem table_update_atomic_witness:
  "\<exists>evs. nbipc_mem_table_copy_from_lmem nbi_env_ex 0 0x301a00 0x301b00 of_nat 16 [] = Some evs \<and>
     table_view nbi_env_ex evs 0 0x301b00 2 = [(1, 0), (3, 2)]"
proof -
  have c: "16 * of_nat 1 = (16 :: u32)" "2 * 1 = (2 :: nat)" "map (lmem_unit of_nat) [0..<2] = [(1, 0), (3, 2)]"
    by (simp_all add: upt_rec lmem_unit_def)
  have a: "apart 0x301a00 0x301b00 2" by (simp add: apart_def)
  show ?thesis
    using table_update_atomic [OF nbi_stored_ex tableset_stored_ex, of "0x301a00" "0x301b00" 1 0 of_nat "[]", unfolded c] a by auto
qed

end
