(* ===== verification/Catamaran.thy ===== *)
theory Catamaran
  imports NbiSpec KvTable
begin

unbundle bit_operations_syntax

text \<open>
  \<open>lib/npfw/_c/catamaran_utils.c\<close> with the table layout of
  \<open>ppc_api/catamaran_defs.h\<close>: the channel-to-port table (8 entries of two bytes in
  each 16-byte location) and the MAC match table (two entries in each location,
  selected by a hash) of the preclassifier, both kept in two copies.  The CLS hash
  unit, the layouts of its configuration register and of the preclassifier
  setup register are parameters.  Table locations are natural numbers below
  \<open>0x1000\<close>; the code shifts them to byte addresses.
\<close>

section \<open>Layout\<close>

definition CATAMARAN_CFG_TABLE_BASE0 :: nat where "CATAMARAN_CFG_TABLE_BASE0 = 0x160"
definition CATAMARAN_CFG_LOC_ADDR :: "nat \<Rightarrow> nat" where "CATAMARAN_CFG_LOC_ADDR ent = ent div 16"
definition CATAMARAN_CFG_MAC_MATCH_HASH_OFF :: nat where "CATAMARAN_CFG_MAC_MATCH_HASH_OFF = 0x3"
definition CATAMARAN_CHAN_ENTRIES_PER_LOC :: nat where "CATAMARAN_CHAN_ENTRIES_PER_LOC = 8"
definition CATAMARAN_CHAN_TABLE_BASE0 :: nat where "CATAMARAN_CHAN_TABLE_BASE0 = 0x1a0"
definition CATAMARAN_CHAN_TABLE_BASE1 :: nat where "CATAMARAN_CHAN_TABLE_BASE1 = 0x1b0"
definition CATAMARAN_CHAN_NUM_CHANS :: nat where "CATAMARAN_CHAN_NUM_CHANS = 128"
definition CATAMARAN_CHAN_MODE_MAC_DA_MATCH :: u8 where "CATAMARAN_CHAN_MODE_MAC_DA_MATCH = 3"

definition CATAMARAN_CHAN_LOC_ADDR :: "u32 \<Rightarrow> u32" where
  "CATAMARAN_CHAN_LOC_ADDR chan = chan div of_nat CATAMARAN_CHAN_ENTRIES_PER_LOC"

definition CATAMARAN_CHAN_MODE_OFF :: "nat \<Rightarrow> nat" where
  "CATAMARAN_CHAN_MODE_OFF chan = ((chan * (16 div CATAMARAN_CHAN_ENTRIES_PER_LOC)) AND 0xf) XOR 0xe"

definition CATAMARAN_CHAN_PORT_OFF :: "nat \<Rightarrow> nat" where
  "CATAMARAN_CHAN_PORT_OFF chan = ((chan * (16 div CATAMARAN_CHAN_ENTRIES_PER_LOC)) AND 0xf) XOR 0xf"

definition CATAMARAN_MAC_TABLE_ADDR_WIDTH :: nat where "CATAMARAN_MAC_TABLE_ADDR_WIDTH = 10"
definition CATAMARAN_MAC_TABLE_BASE0 :: nat where "CATAMARAN_MAC_TABLE_BASE0 = 0x800"
definition CATAMARAN_MAC_TABLE_BASE1 :: nat where "CATAMARAN_MAC_TABLE_BASE1 = 0xc00"
definition CATAMARAN_MAC_TABLE_SIZE :: u32 where "CATAMARAN_MAC_TABLE_SIZE = push_bit CATAMARAN_MAC_TABLE_ADDR_WIDTH 1"
definition CATAMARAN_MAC_HASH_KEY :: "u64 \<Rightarrow> u64" where "CATAMARAN_MAC_HASH_KEY mac_da = mac_da"

text \<open>The byte address of a location.\<close>

definition loc_addr :: "nat \<Rightarrow> u32" where
  "loc_addr l = push_bit 4 (of_nat l)"

section \<open>The channel-to-port table\<close>

record chan2port_entry =
  c2p_port :: u8
  c2p_port_mode :: u8

definition CTMRN_CHAN2PORT_ENTRY_MASK :: u32 where
  "CTMRN_CHAN2PORT_ENTRY_MASK = of_nat CATAMARAN_CHAN_ENTRIES_PER_LOC - 1"

definition CTMRN_CHAN2PORT_ENTRY_READ :: "u32 list \<Rightarrow> nat \<Rightarrow> u32" where
  "CTMRN_CHAN2PORT_ENTRY_READ data off = drop_bit (push_bit 3 (off AND 0x3)) (data ! drop_bit 2 off) AND 0xFF"

definition CTMRN_CHAN2PORT_ENTRY_WRITE :: "u32 list \<Rightarrow> nat \<Rightarrow> u32 \<Rightarrow> u32 list" where
  "CTMRN_CHAN2PORT_ENTRY_WRITE data off val =
    (let data = data[drop_bit 2 off := data ! drop_bit 2 off AND NOT (push_bit (push_bit 3 (off AND 0x3)) 0xFF)]
     in data[drop_bit 2 off := data ! drop_bit 2 off OR push_bit (push_bit 3 (off AND 0x3)) (val AND 0xFF)])"

text \<open>The loops over the channels of one location, \<open>chan\<close> from \<open>first_chan\<close> to
  \<open>last_chan - 1\<close>; an empty list when \<open>last_chan\<close> is not above \<open>first_chan\<close>.\<close>

fun chan2port_get_chans :: "u32 list \<Rightarrow> nat list \<Rightarrow> chan2port_entry list" where
  "chan2port_get_chans data [] = []"
| "chan2port_get_chans data (chan # chans) =
     \<lparr>c2p_port = ucast (CTMRN_CHAN2PORT_ENTRY_READ data (CATAMARAN_CHAN_PORT_OFF chan)),
      c2p_port_mode = ucast (CTMRN_CHAN2PORT_ENTRY_READ data (CATAMARAN_CHAN_MODE_OFF chan))\<rparr> # chan2port_get_chans data chans"

fun chan2port_set_chans :: "(nat \<Rightarrow> chan2port_entry) \<Rightarrow> nat list \<Rightarrow> u32 list \<Rightarrow> nat \<Rightarrow> u32 list \<times> nat" where
  "chan2port_set_chans entries [] data entry_cnt = (data, entry_cnt)"
| "chan2port_set_chans entries (chan # chans) data entry_cnt =
    (let data = CTMRN_CHAN2PORT_ENTRY_WRITE data (CATAMARAN_CHAN_PORT_OFF chan) (ucast (c2p_port (entries entry_cnt)));
         data = CTMRN_CHAN2PORT_ENTRY_WRITE data (CATAMARAN_CHAN_MODE_OFF chan) (ucast (c2p_port_mode (entries entry_cnt)))
     in chan2port_set_chans entries chans data (entry_cnt + 1))"

definition last_chan_of :: "int \<Rightarrow> int \<Rightarrow> int" where
  "last_chan_of first_chan chan_cnt =
    (if chan_cnt < int CATAMARAN_CHAN_ENTRIES_PER_LOC - first_chan then first_chan + chan_cnt
     else int CATAMARAN_CHAN_ENTRIES_PER_LOC)"

text \<open>The loops over the locations.\<close>

fun chan2port_get_blocks :: "nbi_env \<Rightarrow> nat \<Rightarrow> nat list \<Rightarrow> int \<Rightarrow> int \<Rightarrow> dev_hist \<Rightarrow> (chan2port_entry list \<times> dev_hist) option" where
  "chan2port_get_blocks e nbi [] first_chan chan_cnt hs = Some ([], hs)"
| "chan2port_get_blocks e nbi (block # blocks) first_chan chan_cnt hs = do {
     (data, hs) \<leftarrow> nbipc_pelm2lmem_copy e nbi (loc_addr (CATAMARAN_CHAN_TABLE_BASE0 + block)) 16 hs;
     let es = chan2port_get_chans data [nat first_chan..<nat (last_chan_of first_chan chan_cnt)];
     (es', hs) \<leftarrow> chan2port_get_blocks e nbi blocks 0 (chan_cnt - int CATAMARAN_CHAN_ENTRIES_PER_LOC) hs;
     Some (es @ es', hs) }"

fun chan2port_set_blocks ::
  "nbi_env \<Rightarrow> nat \<Rightarrow> (nat \<Rightarrow> chan2port_entry) \<Rightarrow> nat list \<Rightarrow> int \<Rightarrow> int \<Rightarrow> nat \<Rightarrow> dev_hist \<Rightarrow> dev_hist option" where
  "chan2port_set_blocks e nbi entries [] first_chan chan_cnt entry_cnt hs = Some hs"
| "chan2port_set_blocks e nbi entries (block # blocks) first_chan chan_cnt entry_cnt hs = do {
     let addr_pri = loc_addr (CATAMARAN_CHAN_TABLE_BASE0 + block);
     let addr_sec = loc_addr (CATAMARAN_CHAN_TABLE_BASE1 + block);
     (data, hs) \<leftarrow> nbipc_pelm2lmem_copy e nbi addr_pri 16 hs;
     let (data, entry_cnt) = chan2port_set_chans entries [nat first_chan..<nat (last_chan_of first_chan chan_cnt)] data entry_cnt;
     hs \<leftarrow> nbipc_lmem2pelm_copy e nbi addr_pri addr_sec ((!) data) 16 hs;
     chan2port_set_blocks e nbi entries blocks 0 (chan_cnt - int CATAMARAN_CHAN_ENTRIES_PER_LOC) entry_cnt hs }"

definition chan_blocks :: "u32 \<Rightarrow> u32 \<Rightarrow> nat list" where
  "chan_blocks chan_start chan_end = [unat (CATAMARAN_CHAN_LOC_ADDR chan_start)..<Suc (unat (CATAMARAN_CHAN_LOC_ADDR chan_end))]"

definition catamaran_chan2port_table_get ::
  "nbi_env \<Rightarrow> nat \<Rightarrow> u32 \<Rightarrow> u32 \<Rightarrow> dev_hist \<Rightarrow> (chan2port_entry list \<times> dev_hist) option" where
  "catamaran_chan2port_table_get e nbi chan_start chan_end hs =
    (let chan_cnt = sint (chan_end - chan_start + 1);
         first_chan = sint (chan_start AND CTMRN_CHAN2PORT_ENTRY_MASK)
     in if chan_cnt \<le> 0 then Some ([], hs)
        else chan2port_get_blocks e nbi (chan_blocks chan_start chan_end) first_chan chan_cnt hs)"

definition catamaran_chan2port_table_set ::
  "nbi_env \<Rightarrow> nat \<Rightarrow> u32 \<Rightarrow> u32 \<Rightarrow> (nat \<Rightarrow> chan2port_entry) \<Rightarrow> dev_hist \<Rightarrow> dev_hist option" where
  "catamaran_chan2port_table_set e nbi chan_start chan_end entries hs =
    (let chan_cnt = sint (chan_end - chan_start + 1);
         first_chan = sint (chan_start AND CTMRN_CHAN2PORT_ENTRY_MASK)
     in if chan_cnt \<le> 0 then Some hs
        else chan2port_set_blocks e nbi entries (chan_blocks chan_start chan_end) first_chan chan_cnt 0 hs)"

section \<open>The hash of the MAC match table\<close>

text \<open>The parameters of the hash: the value of the CLS configuration register,
  the fields of the preclassifier setup register, and one hash operation of the
  CLS unit, which takes the configuration, a mask, the data and the old residue.\<close>

record cls_env =
  cls_hash_mult :: u32
  NBIPC_PE_SETUP_ADDR :: "nat \<Rightarrow> u32"
  pe_hashsboxen :: "u32 \<Rightarrow> u32"
  pe_hashsbox :: "u32 \<Rightarrow> u32"
  pe_hashmult :: "u32 \<Rightarrow> u32"
  mult_with :: "u32 \<Rightarrow> u32 \<Rightarrow> u32 \<Rightarrow> u32 \<Rightarrow> u32 \<Rightarrow> u32 \<Rightarrow> u32 \<Rightarrow> u32"
  cls_hash :: "u32 \<Rightarrow> u64 \<Rightarrow> u64 \<Rightarrow> u64 \<Rightarrow> u64"

record ctmrn_state =
  mac_match_scalar :: u8
  ctmrn_cls_hash_mult :: u32
  init_cls_hash_mult :: u32

definition swap64 :: "u64 \<Rightarrow> u64" where
  "swap64 x = drop_bit 32 x OR push_bit 32 x"

definition ctmrn_mac_match_mask :: u64 where "ctmrn_mac_match_mask = 0xFFFFFFFF0000FFFF"
definition init_cls_hash_mask :: u64 where "init_cls_hash_mask = 0xFFFFFFFFFFFFFFFF"
definition CTMRN_MAC_MATCH_ADDR_MASK :: u32 where "CTMRN_MAC_MATCH_ADDR_MASK = CATAMARAN_MAC_TABLE_SIZE - 1"

definition catamaran_cls_hash_init :: "nbi_env \<Rightarrow> cls_env \<Rightarrow> nat \<Rightarrow> ctmrn_state \<Rightarrow> dev_hist \<Rightarrow> ctmrn_state \<times> dev_hist" where
  "catamaran_cls_hash_init e ce nbi cs hs =
    (let (pe_setup, hs) = xpb_read (xdev e) (NBIPC_PE_SETUP_ADDR ce nbi) hs;
         hm = pe_hashmult ce pe_setup
     in (cs\<lparr>ctmrn_cls_hash_mult := mult_with ce (cls_hash_mult ce) (pe_hashsboxen ce pe_setup) (pe_hashsbox ce pe_setup)
              (drop_bit 3 hm AND 0x1) (drop_bit 2 hm AND 0x1) (drop_bit 1 hm AND 0x1) (hm AND 0x1),
            init_cls_hash_mult := mult_with ce (cls_hash_mult ce) 0 0 0 0 0 0\<rparr>, hs))"

definition CTMRN_CFG_MAC_MATCH_HASH_ADDR :: nat where
  "CTMRN_CFG_MAC_MATCH_HASH_ADDR = (CATAMARAN_CFG_TABLE_BASE0 OR CATAMARAN_CFG_LOC_ADDR CATAMARAN_CFG_MAC_MATCH_HASH_OFF)"

definition CTMRN_CFG_MAC_MATCH_HASH_OFF :: nat where
  "CTMRN_CFG_MAC_MATCH_HASH_OFF = (CATAMARAN_CFG_MAC_MATCH_HASH_OFF AND 0xF) XOR 0x8"

text \<open>A byte of an array in local memory; the most significant byte of a word has
  the lowest address.\<close>

definition lmem_byte :: "u32 list \<Rightarrow> nat \<Rightarrow> u8" where
  "lmem_byte ws k = ucast (drop_bit (24 - 8 * (k mod 4)) (ws ! (k div 4)))"

definition catamaran_config_read :: "nbi_env \<Rightarrow> nat \<Rightarrow> ctmrn_state \<Rightarrow> dev_hist \<Rightarrow> (ctmrn_state \<times> dev_hist) option" where
  "catamaran_config_read e nbi cs hs = do {
     (cfg_entry, hs) \<leftarrow> nbipc_pelm2lmem_copy e nbi (loc_addr CTMRN_CFG_MAC_MATCH_HASH_ADDR) 16 hs;
     Some (cs\<lparr>mac_match_scalar := lmem_byte cfg_entry CTMRN_CFG_MAC_MATCH_HASH_OFF\<rparr>, hs) }"

definition catamaran_support_setup :: "nbi_env \<Rightarrow> cls_env \<Rightarrow> nat \<Rightarrow> ctmrn_state \<Rightarrow> dev_hist \<Rightarrow> (ctmrn_state \<times> dev_hist) option" where
  "catamaran_support_setup e ce nbi cs hs = do {
     (cs, hs) \<leftarrow> catamaran_config_read e nbi cs hs;
     Some (catamaran_cls_hash_init e ce nbi cs hs) }"

definition catamaran_mac_match_hash_calc :: "cls_env \<Rightarrow> ctmrn_state \<Rightarrow> u64 \<Rightarrow> u32" where
  "catamaran_mac_match_hash_calc ce cs mac_addr =
    (let residue = cls_hash ce (init_cls_hash_mult cs) init_cls_hash_mask (swap64 (ucast (mac_match_scalar cs))) 0;
         residue = cls_hash ce (ctmrn_cls_hash_mult cs) ctmrn_mac_match_mask (swap64 (CATAMARAN_MAC_HASH_KEY mac_addr)) residue
     in ucast (swap64 residue) AND CTMRN_MAC_MATCH_ADDR_MASK)"

section \<open>The MAC match table\<close>

record ctmrn_mac_match_table_entry =
  mac_addr1_hi :: u32
  mac_addr1_lo :: u16
  result1 :: u16
  mac_addr0_hi :: u32
  mac_addr0_lo :: u16
  result0 :: u16

text \<open>The union with the four words \<open>__raw\<close>.\<close>

definition entry_of_raw :: "u32 list \<Rightarrow> ctmrn_mac_match_table_entry" where
  "entry_of_raw r = \<lparr>mac_addr1_hi = r ! 0, mac_addr1_lo = ucast (drop_bit 16 (r ! 1)), result1 = ucast (r ! 1),
     mac_addr0_hi = r ! 2, mac_addr0_lo = ucast (drop_bit 16 (r ! 3)), result0 = ucast (r ! 3)\<rparr>"

definition raw_of_entry :: "ctmrn_mac_match_table_entry \<Rightarrow> u32 list" where
  "raw_of_entry t = [mac_addr1_hi t, push_bit 16 (ucast (mac_addr1_lo t)) OR ucast (result1 t),
     mac_addr0_hi t, push_bit 16 (ucast (mac_addr0_lo t)) OR ucast (result0 t)]"

definition mac_hi_of :: "u64 \<Rightarrow> u32" where
  "mac_hi_of mac_addr = ucast (drop_bit 16 mac_addr AND 0xFFFFFFFF)"

definition mac_lo_of :: "u64 \<Rightarrow> u16" where
  "mac_lo_of mac_addr = ucast (mac_addr AND 0xFFFF)"

definition mac_match_entry_add :: "u32 \<Rightarrow> u16 \<Rightarrow> u16 \<Rightarrow> ctmrn_mac_match_table_entry \<Rightarrow> ctmrn_mac_match_table_entry option" where
  "mac_match_entry_add hi lo result t =
    (if hi = mac_addr0_hi t \<and> lo = mac_addr0_lo t \<and> result0 t \<noteq> 0 then Some (t\<lparr>result0 := result\<rparr>)
     else if hi = mac_addr1_hi t \<and> lo = mac_addr1_lo t \<and> result1 t \<noteq> 0 then Some (t\<lparr>result1 := result\<rparr>)
     else if mac_addr0_hi t = 0 \<and> mac_addr0_lo t = 0 \<and> result0 t = 0
       then Some (t\<lparr>mac_addr0_hi := hi, mac_addr0_lo := lo, result0 := result\<rparr>)
     else if mac_addr1_hi t = 0 \<and> mac_addr1_lo t = 0 \<and> result1 t = 0
       then Some (t\<lparr>mac_addr1_hi := hi, mac_addr1_lo := lo, result1 := result\<rparr>)
     else None)"

definition mac_match_entry_get :: "u32 \<Rightarrow> u16 \<Rightarrow> ctmrn_mac_match_table_entry \<Rightarrow> u16 option" where
  "mac_match_entry_get hi lo t =
    (if hi = mac_addr0_hi t \<and> lo = mac_addr0_lo t \<and> result0 t \<noteq> 0 then Some (result0 t)
     else if hi = mac_addr1_hi t \<and> lo = mac_addr1_lo t \<and> result1 t \<noteq> 0 then Some (result1 t)
     else None)"

definition mac_match_entry_remove :: "u32 \<Rightarrow> u16 \<Rightarrow> ctmrn_mac_match_table_entry \<Rightarrow> ctmrn_mac_match_table_entry option" where
  "mac_match_entry_remove hi lo t =
    (if hi = mac_addr0_hi t \<and> lo = mac_addr0_lo t \<and> result0 t \<noteq> 0
       then Some (t\<lparr>mac_addr0_hi := 0, mac_addr0_lo := 0, result0 := 0\<rparr>)
     else if hi = mac_addr1_hi t \<and> lo = mac_addr1_lo t \<and> result1 t \<noteq> 0
       then Some (t\<lparr>mac_addr1_hi := 0, mac_addr1_lo := 0, result1 := 0\<rparr>)
     else None)"

definition catamaran_mac_match_table_add ::
  "nbi_env \<Rightarrow> cls_env \<Rightarrow> ctmrn_state \<Rightarrow> nat \<Rightarrow> u64 \<Rightarrow> u16 \<Rightarrow> dev_hist \<Rightarrow> (int \<times> dev_hist) option" where
  "catamaran_mac_match_table_add e ce cs nbi mac_addr result hs = do {
     let addr_offset = unat (catamaran_mac_match_hash_calc ce cs mac_addr);
     let addr0 = loc_addr (CATAMARAN_MAC_TABLE_BASE0 + addr_offset);
     let addr1 = loc_addr (CATAMARAN_MAC_TABLE_BASE1 + addr_offset);
     (raw, hs) \<leftarrow> nbipc_pesm2lmem_copy e nbi addr0 16 hs;
     case mac_match_entry_add (mac_hi_of mac_addr) (mac_lo_of mac_addr) result (entry_of_raw raw) of
       None \<Rightarrow> Some (- 1, hs)
     | Some t \<Rightarrow> do { hs \<leftarrow> nbipc_lmem2pesm_copy e nbi addr0 addr1 ((!) (raw_of_entry t)) 16 hs; Some (0, hs) } }"

definition catamaran_mac_match_table_get ::
  "nbi_env \<Rightarrow> cls_env \<Rightarrow> ctmrn_state \<Rightarrow> nat \<Rightarrow> u64 \<Rightarrow> dev_hist \<Rightarrow> (int \<times> dev_hist) option" where
  "catamaran_mac_match_table_get e ce cs nbi mac_addr hs = do {
     let addr_offset = unat (catamaran_mac_match_hash_calc ce cs mac_addr);
     (raw, hs) \<leftarrow> nbipc_pesm2lmem_copy e nbi (loc_addr (CATAMARAN_MAC_TABLE_BASE0 + addr_offset)) 16 hs;
     case mac_match_entry_get (mac_hi_of mac_addr) (mac_lo_of mac_addr) (entry_of_raw raw) of
       None \<Rightarrow> Some (- 1, hs)
     | Some r \<Rightarrow> Some (uint r, hs) }"

definition catamaran_mac_match_table_remove ::
  "nbi_env \<Rightarrow> cls_env \<Rightarrow> ctmrn_state \<Rightarrow> nat \<Rightarrow> u64 \<Rightarrow> dev_hist \<Rightarrow> (int \<times> dev_hist) option" where
  "catamaran_mac_match_table_remove e ce cs nbi mac_addr hs = do {
     let addr_offset = unat (catamaran_mac_match_hash_calc ce cs mac_addr);
     let addr0 = loc_addr (CATAMARAN_MAC_TABLE_BASE0 + addr_offset);
     let addr1 = loc_addr (CATAMARAN_MAC_TABLE_BASE1 + addr_offset);
     (raw, hs) \<leftarrow> nbipc_pesm2lmem_copy e nbi addr0 16 hs;
     case mac_match_entry_remove (mac_hi_of mac_addr) (mac_lo_of mac_addr) (entry_of_raw raw) of
       None \<Rightarrow> Some (- 1, hs)
     | Some t \<Rightarrow> do { hs \<leftarrow> nbipc_lmem2pesm_copy e nbi addr0 addr1 ((!) (raw_of_entry t)) 16 hs; Some (0, hs) } }"

end
