(* ===== verification/CatamaranSpec.thy ===== *)
theory CatamaranSpec
  imports Catamaran
begin

unbundle bit_operations_syntax

text \<open>
  Correctness of the preclassifier tables.  A location of the local or shared
  memory is a list of four words (\<open>loc_words\<close>); writing one changes both copies
  and no other location.  The channel-to-port table is an array of entries, of
  which a call configures exactly the channels \<open>covered\<close>; the MAC match table
  refines a map from 48-bit addresses to results, through the bounded table
  contract that each of its locations satisfies.
\<close>

section \<open>Locations\<close>

definition pe_base :: "u32 \<Rightarrow> bool" where
  "pe_base base \<longleftrightarrow> base \<in> {NBIPC_ALL_LMEM_BASE, NBIPC_ALL_SMEM_BASE}"

definition loc_words :: "nbi_env \<Rightarrow> dev_hist \<Rightarrow> nat \<Rightarrow> u32 \<Rightarrow> nat \<Rightarrow> u32 list" where
  "loc_words e hs nbi base l = entry_at e hs nbi (base + loc_addr l)"

lemma length_loc_words [simp]: "length (loc_words e hs nbi base l) = 4"
  by (simp add: loc_words_def entry_at_def lmem_words_def upt_rec)

lemma unat_loc:
  assumes "l < 0x1000" "pe_base base"
  shows "unat (base + loc_addr l) = unat base + 16 * l"
  using assms
  by (auto simp: pe_base_def loc_addr_def push_bit_eq_mult unat_word_ariths unat_of_nat NBIPC_ALL_LMEM_BASE_def
      NBIPC_ALL_SMEM_BASE_def NBIPC_CPP_BASE_def)

lemma base_bound: "pe_base base \<Longrightarrow> unat base < 0x400000"
  by (auto simp: pe_base_def NBIPC_ALL_LMEM_BASE_def NBIPC_ALL_SMEM_BASE_def NBIPC_CPP_BASE_def)

lemma apart_loc:
  assumes "l < 0x1000" "l' < 0x1000" "l \<noteq> l'" "pe_base base"
  shows "apart (base + loc_addr l) (base + loc_addr l') 2"
  using assms unat_loc [of l base] unat_loc [of l' base] base_bound [of base] by (auto simp: apart_def)

lemma loc_read:
  assumes "nbi_stored e init" "l < 0x1000" "pe_base base"
  shows "\<exists>evs. nbi_cpp_nbi2lmem_copy128 e nbi (base + loc_addr l) 16 hs = Some (loc_words e hs nbi base l, evs @ hs) \<and> quiet_events evs"
  using entry_read [OF assms(1), of "base + loc_addr l" nbi hs] unat_loc [OF assms(2,3)] base_bound [OF assms(3)] assms(2)
  by (simp add: loc_words_def)

lemma loc_words_quiet:
  "nbi_stored e init \<Longrightarrow> quiet_events evs \<Longrightarrow> loc_words e (evs @ hs) nbi base l = loc_words e hs nbi base l"
  by (simp add: loc_words_def entry_at_def nbi_dev_quiet)

text \<open>Writing a location with its two copies.\<close>

lemma loc_write:
  assumes "nbi_stored e init" "tableset_stored e init'" "pe_base base" "l0 < 0x1000" "l1 < 0x1000" "l0 \<noteq> l1" "length data = 4"
  shows "\<exists>hs'. nbipc_mem_table_copy_from_lmem e nbi (base + loc_addr l0) (base + loc_addr l1) ((!) data) 16 hs = Some hs' \<and>
     loc_words e hs' nbi base l0 = data \<and> loc_words e hs' nbi base l1 = data \<and>
     (\<forall>nbi' l. l < 0x1000 \<and> (nbi' = nbi \<longrightarrow> l \<noteq> l0 \<and> l \<noteq> l1) \<longrightarrow> loc_words e hs' nbi' base l = loc_words e hs nbi' base l)"
proof -
  have data: "map ((!) data) [0..<4] = data" using assms(7) by (metis map_nth)
  from entry_write [OF assms(1,2) apart_loc [OF assms(4,5,6,3)], of nbi "(!) data" hs]
  show ?thesis unfolding data loc_words_def using apart_loc [OF _ assms(4) _ assms(3)] apart_loc [OF _ assms(5) _ assms(3)] by blast
qed

section \<open>Bytes of a location\<close>

lemma and_3: "off AND 3 = off mod 4" for off :: nat
  using take_bit_eq_mask [of 2 off] by (simp add: take_bit_eq_mod mask_eq_exp_minus_1)

lemma and_15: "off AND 15 = off mod 16" for off :: nat
  using take_bit_eq_mask [of 4 off] by (simp add: take_bit_eq_mod mask_eq_exp_minus_1)

lemma and_FF: "x AND 0xFF = take_bit 8 x" for x :: u32
  by (simp add: take_bit_eq_mask mask_eq_exp_minus_1)

lemma byte_read: "CTMRN_CHAN2PORT_ENTRY_READ data off = bf_get (8 * (off mod 4)) 8 (data ! (off div 4))"
proof -
  have "push_bit 3 (off AND 3) = 8 * (off mod 4)" "drop_bit 2 off = off div 4"
    by (simp_all add: and_3 push_bit_eq_mult drop_bit_eq_div)
  then show ?thesis by (simp add: CTMRN_CHAN2PORT_ENTRY_READ_def bf_get_def and_FF)
qed

lemma byte_write:
  assumes "off < 16" "length data = 4"
  shows "CTMRN_CHAN2PORT_ENTRY_WRITE data off val = data[off div 4 := bf_put (8 * (off mod 4)) 8 val (data ! (off div 4))]"
proof -
  have "push_bit (8 * (off mod 4)) 0xFF = (push_bit (8 * (off mod 4)) (mask 8) :: u32)" by (simp add: mask_eq_exp_minus_1)
  moreover have "push_bit 3 (off AND 3) = 8 * (off mod 4)" "drop_bit 2 off = off div 4"
    by (simp_all add: and_3 push_bit_eq_mult drop_bit_eq_div)
  ultimately show ?thesis using assms unfolding CTMRN_CHAN2PORT_ENTRY_WRITE_def Let_def and_FF by (simp add: bf_put_def)
qed

lemma byte_read_write:
  assumes "off < 16" "off' < 16" "length data = 4"
  shows "CTMRN_CHAN2PORT_ENTRY_READ (CTMRN_CHAN2PORT_ENTRY_WRITE data off val) off' =
     (if off' = off then take_bit 8 val else CTMRN_CHAN2PORT_ENTRY_READ data off')"
proof (cases "off' div 4 = off div 4")
  case True
  then have "off' \<noteq> off \<Longrightarrow> 8 * (off mod 4) + 8 \<le> 8 * (off' mod 4) \<or> 8 * (off' mod 4) + 8 \<le> 8 * (off mod 4)"
    by (metis div_mult_mod_eq linorder_neqE_nat mult_Suc_right mult_le_mono2 Suc_leI add.commute)
  moreover have "8 * (off mod 4) + 8 \<le> 32" by (metis mod_less_divisor mult_Suc_right add.commute mult_le_mono2 Suc_leI zero_less_numeral numeral_times_numeral semiring_norm(11,12,13))
  ultimately show ?thesis using assms True
    by (auto simp: byte_write byte_read bf_get_put_same bf_get_put_other)
next
  case False
  then show ?thesis using assms by (auto simp: byte_write byte_read)
qed

lemma length_write [simp]: "length (CTMRN_CHAN2PORT_ENTRY_WRITE data off val) = length data"
  by (simp add: CTMRN_CHAN2PORT_ENTRY_WRITE_def Let_def)

lemma chan_offs:
  assumes "c < 8"
  shows "CATAMARAN_CHAN_PORT_OFF c = 15 - 2 * c" "CATAMARAN_CHAN_MODE_OFF c = 14 - 2 * c"
proof -
  have "c \<in> {0, 1, 2, 3, 4, 5, 6, 7}" using assms by auto
  then show "CATAMARAN_CHAN_PORT_OFF c = 15 - 2 * c" "CATAMARAN_CHAN_MODE_OFF c = 14 - 2 * c"
    by (auto simp: CATAMARAN_CHAN_PORT_OFF_def CATAMARAN_CHAN_MODE_OFF_def CATAMARAN_CHAN_ENTRIES_PER_LOC_def)
qed

text \<open>The entry of a channel in the words of its location.\<close>

definition c2p_get :: "u32 list \<Rightarrow> nat \<Rightarrow> chan2port_entry" where
  "c2p_get data chan = \<lparr>c2p_port = ucast (CTMRN_CHAN2PORT_ENTRY_READ data (CATAMARAN_CHAN_PORT_OFF chan)),
     c2p_port_mode = ucast (CTMRN_CHAN2PORT_ENTRY_READ data (CATAMARAN_CHAN_MODE_OFF chan))\<rparr>"

definition c2p_set :: "u32 list \<Rightarrow> nat \<Rightarrow> chan2port_entry \<Rightarrow> u32 list" where
  "c2p_set data chan en = CTMRN_CHAN2PORT_ENTRY_WRITE (CTMRN_CHAN2PORT_ENTRY_WRITE data (CATAMARAN_CHAN_PORT_OFF chan) (ucast (c2p_port en)))
     (CATAMARAN_CHAN_MODE_OFF chan) (ucast (c2p_port_mode en))"

lemma ucast_take_8: "ucast (take_bit 8 (ucast x :: u32)) = (x :: u8)"
  by (rule bit_word_eqI) (auto simp: bit_ucast_iff bit_take_bit_iff)

lemma c2p_get_set:
  assumes "c < 8" "c' < 8" "length data = 4"
  shows "c2p_get (c2p_set data c en) c' = (if c' = c then en else c2p_get data c')"
  using assms
  by (auto simp: c2p_get_def c2p_set_def chan_offs byte_read_write ucast_take_8)

lemma length_c2p_set [simp]: "length (c2p_set data c en) = length data"
  by (simp add: c2p_set_def)

lemma get_chans: "chan2port_get_chans data chans = map (c2p_get data) chans"
  by (induction chans) (simp_all add: c2p_get_def)

lemma set_chans:
  assumes "length data = 4" "l \<le> 8" "f \<le> l"
  shows "\<exists>data'. chan2port_set_chans entries [f..<l] data k = (data', k + (l - f)) \<and> length data' = 4 \<and>
     (\<forall>c < 8. c2p_get data' c = (if f \<le> c \<and> c < l then entries (k + (c - f)) else c2p_get data c))"
  using assms
proof (induction "l - f" arbitrary: f data k)
  case 0
  then show ?case by auto
next
  case (Suc n)
  then have f: "f < l" and n: "n = l - Suc f" by simp_all
  let ?d = "c2p_set data f (entries k)"
  obtain data' where d: "chan2port_set_chans entries [Suc f..<l] ?d (k + 1) = (data', k + 1 + (l - Suc f))" "length data' = 4"
    "\<forall>c < 8. c2p_get data' c = (if Suc f \<le> c \<and> c < l then entries (k + 1 + (c - Suc f)) else c2p_get ?d c)"
    using Suc.hyps(1) [of "Suc f" ?d "k + 1"] n Suc.prems(1,2) f by (metis Suc_leI length_c2p_set)
  have "chan2port_set_chans entries [f..<l] data k = (data', k + (l - f))"
    using d(1) f by (simp add: upt_conv_Cons c2p_set_def Let_def)
  moreover have "c2p_get data' c = (if f \<le> c \<and> c < l then entries (k + (c - f)) else c2p_get data c)" if "c < 8" for c
    using d(3) that c2p_get_set [of f c data "entries k"] f Suc.prems by (auto simp: Suc_diff_Suc)
  ultimately show ?case using d(2) by blast
qed

section \<open>The channel-to-port table as an array\<close>

definition chan_entry :: "nbi_env \<Rightarrow> dev_hist \<Rightarrow> nat \<Rightarrow> nat \<Rightarrow> nat \<Rightarrow> chan2port_entry" where
  "chan_entry e hs nbi base chan = c2p_get (loc_words e hs nbi NBIPC_ALL_LMEM_BASE (base + chan div 8)) (chan mod 8)"

abbreviation c2p_tab :: "nbi_env \<Rightarrow> dev_hist \<Rightarrow> nat \<Rightarrow> nat \<Rightarrow> chan2port_entry" where
  "c2p_tab e hs nbi chan \<equiv> chan_entry e hs nbi CATAMARAN_CHAN_TABLE_BASE0 chan"

text \<open>The two copies of the table agree.\<close>

definition c2p_agree :: "nbi_env \<Rightarrow> dev_hist \<Rightarrow> bool" where
  "c2p_agree e hs \<longleftrightarrow> (\<forall>nbi. \<forall>chan < 128. chan_entry e hs nbi CATAMARAN_CHAN_TABLE_BASE1 chan = c2p_tab e hs nbi chan)"

lemma lmem_base [simp]: "pe_base NBIPC_ALL_LMEM_BASE" and smem_base [simp]: "pe_base NBIPC_ALL_SMEM_BASE"
  by (simp_all add: pe_base_def)

lemma chan_entry_quiet:
  "nbi_stored e init \<Longrightarrow> quiet_events evs \<Longrightarrow> chan_entry e (evs @ hs) nbi base c = chan_entry e hs nbi base c"
  by (simp add: chan_entry_def loc_words_quiet)

lemma c2p_block_write:
  assumes "nbi_stored e init" "tableset_stored e init'" "b < 16" "length data = 4" "c2p_agree e hs"
  shows "\<exists>hs'. nbipc_lmem2pelm_copy e nbi (loc_addr (CATAMARAN_CHAN_TABLE_BASE0 + b)) (loc_addr (CATAMARAN_CHAN_TABLE_BASE1 + b)) ((!) data) 16 hs = Some hs' \<and>
     c2p_agree e hs' \<and> (\<forall>nbi'. \<forall>c < 128. c2p_tab e hs' nbi' c = (if nbi' = nbi \<and> c div 8 = b then c2p_get data (c mod 8) else c2p_tab e hs nbi' c))"
proof -
  let ?B0 = CATAMARAN_CHAN_TABLE_BASE0 and ?B1 = CATAMARAN_CHAN_TABLE_BASE1
  have l: "?B0 + b < 0x1000" "?B1 + b < 0x1000" "?B0 + b \<noteq> ?B1 + b"
    using assms(3) by (simp_all add: CATAMARAN_CHAN_TABLE_BASE0_def CATAMARAN_CHAN_TABLE_BASE1_def)
  obtain hs' where w: "nbipc_lmem2pelm_copy e nbi (loc_addr (?B0 + b)) (loc_addr (?B1 + b)) ((!) data) 16 hs = Some hs'"
    "loc_words e hs' nbi NBIPC_ALL_LMEM_BASE (?B0 + b) = data" "loc_words e hs' nbi NBIPC_ALL_LMEM_BASE (?B1 + b) = data"
    "\<And>nbi' l. l < 0x1000 \<Longrightarrow> (nbi' = nbi \<longrightarrow> l \<noteq> ?B0 + b \<and> l \<noteq> ?B1 + b) \<Longrightarrow>
       loc_words e hs' nbi' NBIPC_ALL_LMEM_BASE l = loc_words e hs nbi' NBIPC_ALL_LMEM_BASE l"
    using loc_write [OF assms(1,2) lmem_base l assms(4), of nbi hs] unfolding nbipc_lmem2pelm_copy_def by blast
  have tab: "chan_entry e hs' nbi' B c = (if nbi' = nbi \<and> c div 8 = b then c2p_get data (c mod 8) else chan_entry e hs nbi' B c)"
    if "c < 128" "B = ?B0 \<or> B = ?B1" for nbi' B c
  proof (cases "nbi' = nbi \<and> c div 8 = b")
    case True
    then show ?thesis using w(2,3) that(2) by (auto simp: chan_entry_def)
  next
    case False
    have "c div 8 < 16" using that(1) by simp
    then have "B + c div 8 < 0x1000" "nbi' = nbi \<longrightarrow> B + c div 8 \<noteq> ?B0 + b \<and> B + c div 8 \<noteq> ?B1 + b"
      using False that(2) assms(3) by (auto simp: CATAMARAN_CHAN_TABLE_BASE0_def CATAMARAN_CHAN_TABLE_BASE1_def)
    then show ?thesis using w(4) False by (auto simp: chan_entry_def)
  qed
  then have "c2p_agree e hs'" using assms(5) by (simp add: c2p_agree_def)
  then show ?thesis using w(1) tab by blast
qed

lemma last_chan_bounds:
  assumes "0 \<le> f" "f \<le> 8" "0 < cnt \<or> f = 0"
  shows "nat f \<le> nat (last_chan_of f cnt)" "nat (last_chan_of f cnt) \<le> 8"
  using assms by (auto simp: last_chan_of_def CATAMARAN_CHAN_ENTRIES_PER_LOC_def)

text \<open>One location.\<close>

lemma set_block:
  fixes f :: int
  assumes "nbi_stored e init" "tableset_stored e init'" "b < 16" "c2p_agree e hs" "0 \<le> f" "f \<le> 8" "0 < cnt \<or> f = 0"
  defines "l \<equiv> nat (last_chan_of f cnt)"
  shows "\<exists>hs'. chan2port_set_blocks e nbi entries (b # bs) f cnt k hs = chan2port_set_blocks e nbi entries bs 0 (cnt - 8) (k + (l - nat f)) hs' \<and>
     c2p_agree e hs' \<and> (\<forall>nbi'. \<forall>c < 128. c2p_tab e hs' nbi' c =
       (if nbi' = nbi \<and> c div 8 = b \<and> nat f \<le> c mod 8 \<and> c mod 8 < l then entries (k + (c mod 8 - nat f)) else c2p_tab e hs nbi' c))"
proof -
  let ?B0 = CATAMARAN_CHAN_TABLE_BASE0
  let ?data = "loc_words e hs nbi NBIPC_ALL_LMEM_BASE (?B0 + b)"
  note bounds = last_chan_bounds [OF assms(5-7), folded l_def]
  have "?B0 + b < 0x1000" using assms(3) by (simp add: CATAMARAN_CHAN_TABLE_BASE0_def)
  then obtain evs where r: "nbipc_pelm2lmem_copy e nbi (loc_addr (?B0 + b)) 16 hs = Some (?data, evs @ hs)" "quiet_events evs"
    using loc_read [OF assms(1) _ lmem_base] unfolding nbipc_pelm2lmem_copy_def by blast
  obtain data' where d: "chan2port_set_chans entries [nat f..<l] ?data k = (data', k + (l - nat f))" "length data' = 4"
    "\<forall>c < 8. c2p_get data' c = (if nat f \<le> c \<and> c < l then entries (k + (c - nat f)) else c2p_get ?data c)"
    using set_chans [of ?data l "nat f" entries k] bounds by auto
  have ag: "c2p_agree e (evs @ hs)" using assms(4) chan_entry_quiet [OF assms(1) r(2)] by (simp add: c2p_agree_def)
  obtain hs' where w: "nbipc_lmem2pelm_copy e nbi (loc_addr (?B0 + b)) (loc_addr (CATAMARAN_CHAN_TABLE_BASE1 + b)) ((!) data') 16 (evs @ hs) = Some hs'"
    "c2p_agree e hs'"
    "\<forall>nbi'. \<forall>c < 128. c2p_tab e hs' nbi' c = (if nbi' = nbi \<and> c div 8 = b then c2p_get data' (c mod 8) else c2p_tab e (evs @ hs) nbi' c)"
    using c2p_block_write [OF assms(1,2,3) d(2) ag, of nbi] by blast
  have "c2p_tab e hs' nbi' c =
       (if nbi' = nbi \<and> c div 8 = b \<and> nat f \<le> c mod 8 \<and> c mod 8 < l then entries (k + (c mod 8 - nat f)) else c2p_tab e hs nbi' c)"
    if "c < 128" for nbi' c
    using w(3) that d(3) chan_entry_quiet [OF assms(1) r(2)] by (auto simp: chan_entry_def)
  moreover have "chan2port_set_blocks e nbi entries (b # bs) f cnt k hs = chan2port_set_blocks e nbi entries bs 0 (cnt - 8) (k + (l - nat f)) hs'"
    using r(1) d(1) w(1) by (simp add: l_def CATAMARAN_CHAN_ENTRIES_PER_LOC_def)
  ultimately show ?thesis using w(2) by blast
qed

text \<open>The locations after the first one.\<close>

lemma set_blocks_rest:
  assumes "nbi_stored e init" "tableset_stored e init'" "b' \<le> 16" "c2p_agree e hs"
  shows "\<exists>hs'. chan2port_set_blocks e nbi entries [b..<b'] 0 cnt k hs = Some hs' \<and> c2p_agree e hs' \<and>
     (\<forall>nbi'. \<forall>c < 128. c2p_tab e hs' nbi' c =
       (if nbi' = nbi \<and> b \<le> c div 8 \<and> c div 8 < b' \<and> int c < 8 * int b + cnt then entries (k + (c - 8 * b)) else c2p_tab e hs nbi' c))"
  using assms(4)
proof (induction "b' - b" arbitrary: b cnt k hs)
  case 0
  then show ?case by auto
next
  case (Suc n)
  then have b: "b < b'" "b < 16" "n = b' - Suc b" using assms(3) by auto
  let ?l = "nat (last_chan_of 0 cnt)"
  obtain hs1 where 1: "chan2port_set_blocks e nbi entries (b # [Suc b..<b']) 0 cnt k hs = chan2port_set_blocks e nbi entries [Suc b..<b'] 0 (cnt - 8) (k + ?l) hs1"
    "c2p_agree e hs1" "\<forall>nbi'. \<forall>c < 128. c2p_tab e hs1 nbi' c =
       (if nbi' = nbi \<and> c div 8 = b \<and> c mod 8 < ?l then entries (k + c mod 8) else c2p_tab e hs nbi' c)"
    using set_block [OF assms(1,2) b(2) Suc.prems, of 0 cnt nbi entries "[Suc b..<b']" k] by auto
  obtain hs2 where 2: "chan2port_set_blocks e nbi entries [Suc b..<b'] 0 (cnt - 8) (k + ?l) hs1 = Some hs2" "c2p_agree e hs2"
    "\<forall>nbi'. \<forall>c < 128. c2p_tab e hs2 nbi' c = (if nbi' = nbi \<and> Suc b \<le> c div 8 \<and> c div 8 < b' \<and> int c < 8 * int (Suc b) + (cnt - 8)
       then entries (k + ?l + (c - 8 * Suc b)) else c2p_tab e hs1 nbi' c)"
    using Suc.hyps(1) [OF b(3) 1(2)] by blast
  have "c2p_tab e hs2 nbi' c =
       (if nbi' = nbi \<and> b \<le> c div 8 \<and> c div 8 < b' \<and> int c < 8 * int b + cnt then entries (k + (c - 8 * b)) else c2p_tab e hs nbi' c)"
    if c: "c < 128" for nbi' c
  proof -
    have cd: "c = 8 * (c div 8) + c mod 8" by simp
    consider "c div 8 = b" | "c div 8 < b" | "Suc b \<le> c div 8" by linarith
    then show ?thesis
    proof cases
      case same: 1
      obtain m where m: "c = 8 * b + m" "m < 8" "c mod 8 = m" using cd same by (metis mod_less_divisor zero_less_numeral)
      then have "m < ?l \<longleftrightarrow> int c < 8 * int b + cnt" "c mod 8 = c - 8 * b"
        by (auto simp: last_chan_of_def CATAMARAN_CHAN_ENTRIES_PER_LOC_def zless_nat_eq_int_zless)
      with m(3) have "c mod 8 < ?l \<longleftrightarrow> int c < 8 * int b + cnt" "c mod 8 = c - 8 * b" by simp_all
      then show ?thesis using 2(3) 1(3) c same b(1) by auto
    next
      case before: 2
      then show ?thesis using 2(3) 1(3) c by auto
    next
      case 3
      have "8 * Suc b \<le> c" using 3 cd by (metis add_leD1 le_trans mult_le_mono2 order_refl nat_le_iff_add)
      moreover have "?l = 8" if "int c < 8 * int b + cnt"
        using that calculation by (simp add: last_chan_of_def CATAMARAN_CHAN_ENTRIES_PER_LOC_def)
      ultimately show ?thesis using 2(3) 1(3) c 3 by auto
    qed
  qed
  then show ?case using 1(1) 2(1,2) b(1) by (auto simp: upt_conv_Cons)
qed

text \<open>The channels that a call for \<open>s\<close> to \<open>t\<close> reaches: the whole range when it
  starts at a location boundary or lies in one location; otherwise the last
  \<open>s mod 8\<close> channels outside the first location are left out.\<close>

definition covered :: "nat \<Rightarrow> nat \<Rightarrow> nat \<Rightarrow> bool" where
  "covered s t chan \<longleftrightarrow> s \<le> chan \<and> chan \<le> t \<and> (chan div 8 = s div 8 \<or> chan + s mod 8 \<le> t)"

definition covered_chans :: "nat \<Rightarrow> nat \<Rightarrow> nat list" where
  "covered_chans s t = [s..<min (8 * (s div 8) + 8) (Suc t)] @ [8 * (s div 8) + 8..<Suc t - s mod 8]"

lemma div8_eq: "c div 8 = q \<longleftrightarrow> 8 * q \<le> c \<and> c < 8 * q + 8" for c q :: nat
  by (auto intro: div_nat_eqI)

lemma set_covered_chans: "s \<le> t \<Longrightarrow> set (covered_chans s t) = Collect (covered s t)"
proof -
  assume "s \<le> t"
  obtain q m where s: "s = 8 * q + m" "m < 8" by (metis div_mult_mod_eq mod_less_divisor mult.commute zero_less_numeral)
  then have qm: "s div 8 = q" "s mod 8 = m" by simp_all
  have "c \<in> set (covered_chans s t) \<longleftrightarrow> covered s t c" for c
    using \<open>s \<le> t\<close> s unfolding covered_chans_def covered_def qm div8_eq by auto
  then show ?thesis by blast
qed

lemma covered_all:
  assumes "s \<le> t" "s mod 8 = 0 \<or> t div 8 = s div 8"
  shows "covered_chans s t = [s..<Suc t]"
proof (cases "t div 8 = s div 8")
  case True
  then have "Suc t \<le> 8 * (s div 8) + 8" using div8_eq [of t "s div 8"] by simp
  then show ?thesis by (simp add: covered_chans_def min_absorb2 del: upt_Suc)
next
  case False
  then have "s mod 8 = 0" using assms(2) by simp
  then have e: "8 * (s div 8) = s" by auto
  have "s div 8 < t div 8" using False assms(1) by (simp add: div_le_mono order_less_le)
  then have "8 * Suc (s div 8) \<le> 8 * (t div 8)" by simp
  also have "\<dots> \<le> t" by simp
  finally have "s + 8 \<le> t" using e by simp
  then have "[s..<Suc t] = [s..<s + 8] @ [s + 8..<Suc t]" by (intro upt_split) simp_all
  then show ?thesis using \<open>s mod 8 = 0\<close> \<open>s + 8 \<le> t\<close> by (simp add: covered_chans_def e min_def del: upt_Suc)
qed

lemma c2p_args:
  assumes "s \<le> t" "unat t < 128"
  shows "sint (t - s + 1 :: u32) = int (unat t) - int (unat s) + 1" "sint (s AND CTMRN_CHAN2PORT_ENTRY_MASK) = int (unat s mod 8)"
    "chan_blocks s t = (unat s div 8) # [Suc (unat s div 8)..<Suc (unat t div 8)]"
proof -
  have st: "unat s \<le> unat t" using assms(1) by (simp add: word_le_nat_alt)
  have u: "unat (t - s + 1 :: u32) = unat t - unat s + 1"
    using assms st by (simp add: unat_word_ariths unat_sub word_le_nat_alt)
  have sm: "sint x = int (unat x)" if "unat x < 2 ^ 31" for x :: u32
  proof -
    have "uint x < 2 ^ 31" using that by (metis of_nat_less_iff of_nat_numeral of_nat_power uint_nat)
    moreover have "- (2 ^ 31) \<le> uint x" by (rule order_trans [OF _ uint_ge_0]) simp
    ultimately show ?thesis by (simp add: sint_uint signed_take_bit_int_eq_self)
  qed
  show "sint (t - s + 1 :: u32) = int (unat t) - int (unat s) + 1" using sm [of "t - s + 1"] u st assms(2) by simp
  have "s AND CTMRN_CHAN2PORT_ENTRY_MASK = s AND mask 3"
    by (simp add: CTMRN_CHAN2PORT_ENTRY_MASK_def CATAMARAN_CHAN_ENTRIES_PER_LOC_def mask_eq_exp_minus_1)
  then have "unat (s AND CTMRN_CHAN2PORT_ENTRY_MASK) = unat s mod 8" by (simp add: unat_mask_and)
  then show "sint (s AND CTMRN_CHAN2PORT_ENTRY_MASK) = int (unat s mod 8)" using sm [of "s AND CTMRN_CHAN2PORT_ENTRY_MASK"] by simp
  have "unat (CATAMARAN_CHAN_LOC_ADDR x) = unat x div 8" for x
    by (simp add: CATAMARAN_CHAN_LOC_ADDR_def CATAMARAN_CHAN_ENTRIES_PER_LOC_def unat_div)
  then show "chan_blocks s t = (unat s div 8) # [Suc (unat s div 8)..<Suc (unat t div 8)]"
    using st by (simp add: chan_blocks_def upt_conv_Cons div_le_mono le_imp_less_Suc del: upt_Suc)
qed

lemma set_blocks_result:
  fixes s t :: nat
  assumes "nbi_stored e init" "tableset_stored e init'" "s \<le> t" "t < 128" "c2p_agree e hs"
  shows "\<exists>hs'. chan2port_set_blocks e nbi entries (s div 8 # [Suc (s div 8)..<Suc (t div 8)]) (int (s mod 8)) (int t - int s + 1) 0 hs = Some hs' \<and>
     c2p_agree e hs' \<and> (\<forall>nbi'. \<forall>c < 128. c2p_tab e hs' nbi' c =
        (if nbi' = nbi \<and> covered s t c then entries (c - s) else c2p_tab e hs nbi' c))"
proof -
  obtain b m where s: "s = 8 * b + m" "m < 8" by (metis div_mult_mod_eq mod_less_divisor mult.commute zero_less_numeral)
  then have bm: "s div 8 = b" "s mod 8 = m" by simp_all
  let ?cnt = "int t - int s + 1"
  let ?l = "nat (last_chan_of (int m) ?cnt)"
  have b: "b < 16" "Suc (t div 8) \<le> 16" using assms(3,4) bm(1) by auto
  have l: "?l = (if t < 8 * b + 8 then m + t - s + 1 else 8)"
    using assms(3) s by (auto simp: last_chan_of_def CATAMARAN_CHAN_ENTRIES_PER_LOC_def)
  have cnt: "0 < ?cnt \<or> int m = 0" using assms(3) by simp
  have m: "0 \<le> int m" "int m \<le> 8" using s(2) by simp_all
  obtain hs1 where 1: "chan2port_set_blocks e nbi entries (b # [Suc b..<Suc (t div 8)]) (int m) ?cnt 0 hs =
      chan2port_set_blocks e nbi entries [Suc b..<Suc (t div 8)] 0 (?cnt - 8) (?l - m) hs1" "c2p_agree e hs1"
    "\<forall>nbi'. \<forall>c < 128. c2p_tab e hs1 nbi' c =
       (if nbi' = nbi \<and> c div 8 = b \<and> m \<le> c mod 8 \<and> c mod 8 < ?l then entries (c mod 8 - m) else c2p_tab e hs nbi' c)"
    using set_block [OF assms(1,2) b(1) assms(5) m cnt, of nbi entries "[Suc b..<Suc (t div 8)]" 0] unfolding nat_int add_0 by blast
  obtain hs2 where 2: "chan2port_set_blocks e nbi entries [Suc b..<Suc (t div 8)] 0 (?cnt - 8) (?l - m) hs1 = Some hs2" "c2p_agree e hs2"
    "\<forall>nbi'. \<forall>c < 128. c2p_tab e hs2 nbi' c = (if nbi' = nbi \<and> Suc b \<le> c div 8 \<and> c div 8 < Suc (t div 8) \<and> int c < 8 * int (Suc b) + (?cnt - 8)
       then entries (?l - m + (c - 8 * Suc b)) else c2p_tab e hs1 nbi' c)"
    using set_blocks_rest [OF assms(1,2) b(2) 1(2)] by blast
  have "c2p_tab e hs2 nbi' c = (if nbi' = nbi \<and> covered s t c then entries (c - s) else c2p_tab e hs nbi' c)"
    if c: "c < 128" for nbi' c
  proof -
    obtain q r where q: "c = 8 * q + r" "r < 8" by (metis div_mult_mod_eq mod_less_divisor mult.commute zero_less_numeral)
    then have qr: "c div 8 = q" "c mod 8 = r" by simp_all
    show ?thesis
    proof (cases "q = b")
      case True
      have "covered s t c \<longleftrightarrow> m \<le> r \<and> r < ?l" "covered s t c \<Longrightarrow> r - m = c - s"
        using q s True assms(3) unfolding covered_def qr bm l by auto
      then show ?thesis using 1(3) 2(3) c True qr by auto
    next
      case False
      have td: "q < Suc (t div 8) \<longleftrightarrow> 8 * q \<le> t" by (metis less_Suc_eq_le less_eq_div_iff_mult_less_eq mult.commute zero_less_numeral)
      have "covered s t c \<longleftrightarrow> Suc b \<le> q \<and> q < Suc (t div 8) \<and> int c < 8 * int (Suc b) + (?cnt - 8)"
        "covered s t c \<Longrightarrow> ?l - m + (c - 8 * Suc b) = c - s"
        using q s False assms(3) unfolding covered_def qr bm l td by auto
      then show ?thesis using 1(3) 2(3) c False qr by auto
    qed
  qed
  then show ?thesis unfolding bm using 1(1) 2(1,2) by auto
qed

text \<open>Configuring the channels \<open>s\<close> to \<open>t\<close> always returns, keeps the two
  copies of the channel-to-port table equal, and sets exactly the channels that
  \<open>covered\<close> describes, in order, to the given entries: every channel of the
  range in the first location, and of the others all but the last \<open>s mod 8\<close>,
  since the loop subtracts a whole location after a partial first one.  All
  other channels and all other NBIs are unchanged.\<close>

lemma set_result:
  assumes "nbi_stored e init" "tableset_stored e init'" "s \<le> t" "unat t < 128" "c2p_agree e hs"
  shows "\<exists>hs'. catamaran_chan2port_table_set e nbi s t entries hs = Some hs' \<and> c2p_agree e hs' \<and>
     (\<forall>nbi'. \<forall>c < 128. c2p_tab e hs' nbi' c =
        (if nbi' = nbi \<and> covered (unat s) (unat t) c then entries (c - unat s) else c2p_tab e hs nbi' c))"
proof -
  have "unat s \<le> unat t" using assms(3) by (simp add: word_le_nat_alt)
  moreover from this have "\<not> int (unat t) - int (unat s) + 1 \<le> 0" by (simp del: of_nat_unat)
  ultimately show ?thesis
    using set_blocks_result [OF assms(1,2) _ assms(4,5), of "unat s" nbi entries]
    unfolding catamaran_chan2port_table_set_def Let_def c2p_args [OF assms(3,4)] by presburger
qed

section \<open>Reading the channel-to-port table\<close>

lemma get_block:
  assumes "nbi_stored e init" "b < 16"
  shows "\<exists>evs. quiet_events evs \<and> chan2port_get_blocks e nbi (b # bs) f cnt hs = do {
     (es', hs') \<leftarrow> chan2port_get_blocks e nbi bs 0 (cnt - 8) (evs @ hs);
     Some (map (c2p_get (loc_words e hs nbi NBIPC_ALL_LMEM_BASE (CATAMARAN_CHAN_TABLE_BASE0 + b)))
       [nat f..<nat (last_chan_of f cnt)] @ es', hs') }"
proof -
  have "CATAMARAN_CHAN_TABLE_BASE0 + b < 0x1000" using assms(2) by (simp add: CATAMARAN_CHAN_TABLE_BASE0_def)
  then obtain evs where "nbipc_pelm2lmem_copy e nbi (loc_addr (CATAMARAN_CHAN_TABLE_BASE0 + b)) 16 hs =
      Some (loc_words e hs nbi NBIPC_ALL_LMEM_BASE (CATAMARAN_CHAN_TABLE_BASE0 + b), evs @ hs)" "quiet_events evs"
    using loc_read [OF assms(1) _ lmem_base] unfolding nbipc_pelm2lmem_copy_def by blast
  then show ?thesis by (intro exI [of _ evs]) (simp add: get_chans CATAMARAN_CHAN_ENTRIES_PER_LOC_def)
qed

lemma map_block_tab:
  "l \<le> 8 \<Longrightarrow> map (c2p_get (loc_words e hs nbi NBIPC_ALL_LMEM_BASE (CATAMARAN_CHAN_TABLE_BASE0 + b))) [f..<l] = map (c2p_tab e hs nbi) [8 * b + f..<8 * b + l]"
proof -
  assume l: "l \<le> 8"
  have "(8 * b + i) div 8 = b" "(8 * b + i) mod 8 = i" if "i < 8" for i using that by simp_all
  then show ?thesis using l by (auto simp: chan_entry_def upt_shift)
qed

lemma get_blocks_rest:
  assumes "nbi_stored e init" "b' \<le> 16"
  shows "\<exists>evs. quiet_events evs \<and> chan2port_get_blocks e nbi [b..<b'] 0 cnt hs =
     Some (map (c2p_tab e hs nbi) [8 * b..<min (8 * b') (nat (8 * int b + cnt))], evs @ hs)"
proof (induction "b' - b" arbitrary: b cnt hs)
  case 0
  then show ?case by (intro exI [of _ "[]"]) simp
next
  case (Suc n)
  then have b: "b < b'" "b < 16" "n = b' - Suc b" using assms(2) by auto
  let ?l = "nat (last_chan_of 0 cnt)"
  have l: "?l \<le> 8" by (rule last_chan_bounds(2)) simp_all
  obtain evs where 1: "quiet_events evs" "chan2port_get_blocks e nbi (b # [Suc b..<b']) 0 cnt hs = do {
     (es', hs') \<leftarrow> chan2port_get_blocks e nbi [Suc b..<b'] 0 (cnt - 8) (evs @ hs); Some (map (c2p_tab e hs nbi) [8 * b..<8 * b + ?l] @ es', hs') }"
    using get_block [OF assms(1) b(2), of nbi "[Suc b..<b']" 0 cnt hs] unfolding map_block_tab [OF l] nat_0 add_0_right by blast
  obtain evs' where 2: "quiet_events evs'" "chan2port_get_blocks e nbi [Suc b..<b'] 0 (cnt - 8) (evs @ hs) =
     Some (map (c2p_tab e (evs @ hs) nbi) [8 * Suc b..<min (8 * b') (nat (8 * int (Suc b) + (cnt - 8)))], evs' @ evs @ hs)"
    using Suc.hyps(1) [OF b(3)] by blast
  let ?u = "nat (8 * int b + cnt)"
  have "[8 * b..<8 * b + ?l] @ [8 * Suc b..<min (8 * b') ?u] = [8 * b..<min (8 * b') ?u]"
  proof (cases "cnt < 8")
    case True
    then have "8 * b + ?l = max (8 * b) ?u" by (auto simp: last_chan_of_def CATAMARAN_CHAN_ENTRIES_PER_LOC_def)
    moreover have "?u \<le> 8 * Suc b" using True by simp
    moreover from this have "min (8 * b') ?u = ?u" using b(1) by (simp add: min_absorb2)
    ultimately show ?thesis by (cases "8 * b \<le> ?u") auto
  next
    case False
    then have "?l = 8" by (simp add: last_chan_of_def CATAMARAN_CHAN_ENTRIES_PER_LOC_def)
    moreover have "8 * Suc b \<le> min (8 * b') ?u" using b(1) False by auto
    ultimately show ?thesis using upt_split [of "8 * b" "8 * b + 8" "min (8 * b') ?u"] by (simp add: add.commute)
  qed
  moreover have "8 * int (Suc b) + (cnt - 8) = 8 * int b + cnt" by simp
  ultimately have "map (c2p_tab e hs nbi) [8 * b..<8 * b + ?l] @ map (c2p_tab e hs nbi) [8 * Suc b..<min (8 * b') (nat (8 * int (Suc b) + (cnt - 8)))] =
      map (c2p_tab e hs nbi) [8 * b..<min (8 * b') ?u]" by (metis map_append)
  then show ?case using 1 2 b(1) chan_entry_quiet [OF assms(1) 1(1)]
    by (intro exI [of _ "evs' @ evs"]) (simp add: upt_conv_Cons)
qed

lemma get_blocks_result:
  fixes s t :: nat
  assumes "nbi_stored e init" "s \<le> t" "t < 128"
  shows "\<exists>evs. quiet_events evs \<and> chan2port_get_blocks e nbi (s div 8 # [Suc (s div 8)..<Suc (t div 8)]) (int (s mod 8)) (int t - int s + 1) hs =
     Some (map (c2p_tab e hs nbi) (covered_chans s t), evs @ hs)"
proof -
  obtain b m where s: "s = 8 * b + m" "m < 8" by (metis div_mult_mod_eq mod_less_divisor mult.commute zero_less_numeral)
  then have bm: "s div 8 = b" "s mod 8 = m" by simp_all
  let ?cnt = "int t - int s + 1"
  let ?l = "nat (last_chan_of (int m) ?cnt)"
  have b: "b < 16" "Suc (t div 8) \<le> 16" using assms(2,3) bm(1) by auto
  have l: "?l \<le> 8" "8 * b + ?l = min (8 * b + 8) (Suc t)"
    using assms(2) s by (auto simp: last_chan_of_def CATAMARAN_CHAN_ENTRIES_PER_LOC_def)
  obtain evs where 1: "quiet_events evs" "chan2port_get_blocks e nbi (b # [Suc b..<Suc (t div 8)]) (int m) ?cnt hs = do {
     (es', hs') \<leftarrow> chan2port_get_blocks e nbi [Suc b..<Suc (t div 8)] 0 (?cnt - 8) (evs @ hs);
     Some (map (c2p_tab e hs nbi) [s..<min (8 * b + 8) (Suc t)] @ es', hs') }"
    using get_block [OF assms(1) b(1), of nbi "[Suc b..<Suc (t div 8)]" "int m" ?cnt hs] unfolding nat_int map_block_tab [OF l(1)] l(2) s(1) [symmetric] by blast
  obtain evs' where 2: "quiet_events evs'" "chan2port_get_blocks e nbi [Suc b..<Suc (t div 8)] 0 (?cnt - 8) (evs @ hs) =
     Some (map (c2p_tab e (evs @ hs) nbi) [8 * Suc b..<min (8 * Suc (t div 8)) (nat (8 * int (Suc b) + (?cnt - 8)))], evs' @ evs @ hs)"
    using get_blocks_rest [OF assms(1) b(2)] by blast
  have "t < 8 * Suc (t div 8)" using div8_eq [of t "t div 8"] by simp
  moreover have "nat (8 * int (Suc b) + (?cnt - 8)) = Suc t - m" using s assms(2) by simp
  ultimately have "min (8 * Suc (t div 8)) (nat (8 * int (Suc b) + (?cnt - 8))) = Suc t - m" by simp
  then show ?thesis unfolding bm using 1 2 chan_entry_quiet [OF assms(1) 1(1)]
    by (intro exI [of _ "evs' @ evs"]) (simp add: covered_chans_def bm add.commute del: upt_Suc chan2port_get_blocks.simps)
qed

lemma get_result:
  assumes "nbi_stored e init" "s \<le> t" "unat t < 128"
  shows "\<exists>evs. quiet_events evs \<and> catamaran_chan2port_table_get e nbi s t hs =
     Some (map (c2p_tab e hs nbi) (covered_chans (unat s) (unat t)), evs @ hs)"
proof -
  have "unat s \<le> unat t" using assms(2) by (simp add: word_le_nat_alt)
  moreover from this have "\<not> int (unat t) - int (unat s) + 1 \<le> 0" by (simp del: of_nat_unat)
  ultimately show ?thesis
    using get_blocks_result [OF assms(1) _ assms(3), of "unat s" nbi hs]
    unfolding catamaran_chan2port_table_get_def Let_def c2p_args [OF assms(2,3)] by presburger
qed

text \<open>A range whose end lies before its start is empty.\<close>

lemma empty_range:
  assumes "\<not> s \<le> t" "unat s < 128"
  shows "sint (t - s + 1 :: u32) \<le> 0"
proof -
  have st: "unat t < unat s" using assms(1) by (simp add: word_le_nat_alt)
  have "t - s + 1 = word_of_int (int (unat t) - int (unat s) + 1)"
    by (simp only: of_int_add of_int_diff of_int_of_nat_eq of_int_1 of_nat_unat ucast_id word_of_int_uint)
  moreover have d: "- 128 < int (unat t) - int (unat s) + 1" "int (unat t) - int (unat s) + 1 \<le> 0"
    using st assms(2) by (simp_all del: of_nat_unat)
  moreover have "signed_take_bit 31 (int (unat t) - int (unat s) + 1) = int (unat t) - int (unat s) + 1"
    by (rule signed_take_bit_int_eq_self) (use d in \<open>simp_all del: of_nat_unat\<close>)
  moreover have "sint (word_of_int k :: u32) = signed_take_bit 31 k" for k by (simp add: signed_of_int)
  ultimately show ?thesis by presburger
qed

lemma c2p_agree_ex: "c2p_agree nbi_env_ex []"
  by (simp add: c2p_agree_def chan_entry_def loc_words_def entry_at_def nbi_env_ex_def)

section \<open>Properties\<close>

text \<open>When the range starts at a location boundary or lies in one location,
  reading the range after configuring it returns the entries, and a range of
  which the end is before the start is neither read nor written.\<close>

lemma chan2port_roundtrip:
  assumes "nbi_stored e init" "tableset_stored e init'" "unat t < 128" "c2p_agree e hs"
    and "unat s mod 8 = 0 \<or> unat t div 8 = unat s div 8"
  shows "if s \<le> t
     then \<exists>hs1 hs2. catamaran_chan2port_table_set e nbi s t entries hs = Some hs1 \<and>
       catamaran_chan2port_table_get e nbi s t hs1 = Some (map entries [0..<Suc (unat t) - unat s], hs2)
     else unat s < 128 \<longrightarrow> catamaran_chan2port_table_set e nbi s t entries hs = Some hs \<and>
       catamaran_chan2port_table_get e nbi s t hs = Some ([], hs)"
proof (cases "s \<le> t")
  case True
  then have st: "unat s \<le> unat t" by (simp add: word_le_nat_alt)
  obtain hs1 where 1: "catamaran_chan2port_table_set e nbi s t entries hs = Some hs1"
    "\<forall>c < 128. c2p_tab e hs1 nbi c = (if covered (unat s) (unat t) c then entries (c - unat s) else c2p_tab e hs nbi c)"
    using set_result [OF assms(1,2) True assms(3,4), of nbi entries] by auto
  obtain evs where 2: "catamaran_chan2port_table_get e nbi s t hs1 = Some (map (c2p_tab e hs1 nbi) [unat s..<Suc (unat t)], evs @ hs1)"
    using get_result [OF assms(1) True assms(3), of nbi hs1] covered_all [OF st assms(5)] by auto
  have cov: "covered (unat s) (unat t) c" if "c \<in> set [unat s..<Suc (unat t)]" for c
    using that set_covered_chans [OF st] covered_all [OF st assms(5)] by (metis mem_Collect_eq)
  have "map (c2p_tab e hs1 nbi) [unat s..<Suc (unat t)] = map (\<lambda>c. entries (c - unat s)) [unat s..<Suc (unat t)]"
  proof (rule map_cong [OF refl])
    fix c assume c: "c \<in> set [unat s..<Suc (unat t)]"
    then have "c < 128" using assms(3) by (simp del: upt_Suc)
    then show "c2p_tab e hs1 nbi c = entries (c - unat s)" using 1(2) cov [OF c] by metis
  qed
  also have "\<dots> = map entries [0..<Suc (unat t) - unat s]"
    using upt_shift [of "unat s" 0 "Suc (unat t) - unat s"] st by (simp add: comp_def del: upt_Suc)
  finally have "map (c2p_tab e hs1 nbi) [unat s..<Suc (unat t)] = map entries [0..<Suc (unat t) - unat s]" .
  then show ?thesis using 1(1) 2 True by (auto simp del: upt_Suc)
next
  case False
  then show ?thesis using empty_range [of s t] assms(3)
    by (auto simp: catamaran_chan2port_table_set_def catamaran_chan2port_table_get_def Let_def)
qed

end
