(* ===== verification/MacMatch.thy ===== *)
theory MacMatch
  imports CatamaranSpec
begin

unbundle bit_operations_syntax

text \<open>
  The MAC match table of the preclassifier refines a map from 48-bit addresses to
  results.  Each location, selected by the hash, holds two entries and satisfies
  the contract of a bounded table with overwriting insertion
  (\<open>KvTable.kv_overwrite\<close>); the refinement of the whole table follows whatever
  the hash function is.
\<close>

section \<open>One location\<close>

type_synonym mm_entry = ctmrn_mac_match_table_entry
type_synonym mm_key = "u32 \<times> u16"

text \<open>The keys of the two slots.\<close>

definition key0 :: "mm_entry \<Rightarrow> mm_key" where "key0 t = (mac_addr0_hi t, mac_addr0_lo t)"
definition key1 :: "mm_entry \<Rightarrow> mm_key" where "key1 t = (mac_addr1_hi t, mac_addr1_lo t)"

definition mm_get :: "mm_entry \<Rightarrow> mm_key \<Rightarrow> u16 option" where
  "mm_get t k = mac_match_entry_get (fst k) (snd k) t"

definition mm_ins :: "mm_key \<Rightarrow> u16 \<Rightarrow> mm_entry \<Rightarrow> mm_entry option" where
  "mm_ins k v t = (if v = 0 then None else mac_match_entry_add (fst k) (snd k) v t)"

definition mm_del :: "mm_key \<Rightarrow> mm_entry \<Rightarrow> mm_entry" where
  "mm_del k t = (case mac_match_entry_remove (fst k) (snd k) t of None \<Rightarrow> t | Some t' \<Rightarrow> t')"

text \<open>An unused slot is zero, and no key is in both slots.\<close>

definition mm_inv :: "mm_entry \<Rightarrow> bool" where
  "mm_inv t \<longleftrightarrow> (result0 t = 0 \<longrightarrow> key0 t = (0, 0)) \<and> (result1 t = 0 \<longrightarrow> key1 t = (0, 0)) \<and>
     (result0 t = 0 \<or> result1 t = 0 \<or> key0 t \<noteq> key1 t)"

lemma mm_get_slots:
  "mm_get t k = (if k = key0 t \<and> result0 t \<noteq> 0 then Some (result0 t) else if k = key1 t \<and> result1 t \<noteq> 0 then Some (result1 t) else None)"
  unfolding mm_get_def mac_match_entry_get_def key0_def key1_def prod_eq_iff fst_conv snd_conv conj_assoc by (rule refl)

text \<open>The slots after a change.\<close>

definition slots :: "mm_entry \<Rightarrow> (mm_key \<times> u16) \<times> (mm_key \<times> u16)" where
  "slots t = ((key0 t, result0 t), (key1 t, result1 t))"

lemma mm_add_slots:
  "map_option slots (mac_match_entry_add (fst k) (snd k) v t) =
    (if k = key0 t \<and> result0 t \<noteq> 0 then Some ((key0 t, v), (key1 t, result1 t))
     else if k = key1 t \<and> result1 t \<noteq> 0 then Some ((key0 t, result0 t), (key1 t, v))
     else if key0 t = (0, 0) \<and> result0 t = 0 then Some ((k, v), (key1 t, result1 t))
     else if key1 t = (0, 0) \<and> result1 t = 0 then Some ((key0 t, result0 t), (k, v))
     else None)"
  unfolding mac_match_entry_add_def slots_def key0_def key1_def prod_eq_iff fst_conv snd_conv conj_assoc
  by (simp add: if_distrib [where f = "map_option _"] split del: if_split cong: if_cong)

lemma mm_remove_slots:
  "map_option slots (mac_match_entry_remove (fst k) (snd k) t) =
    (if k = key0 t \<and> result0 t \<noteq> 0 then Some (((0, 0), 0), (key1 t, result1 t))
     else if k = key1 t \<and> result1 t \<noteq> 0 then Some ((key0 t, result0 t), ((0, 0), 0))
     else None)"
  unfolding mac_match_entry_remove_def slots_def key0_def key1_def prod_eq_iff fst_conv snd_conv conj_assoc
  by (simp add: if_distrib [where f = "map_option _"] split del: if_split cong: if_cong)

lemma if2_Some: "(if A \<and> B then Some x else if C \<and> D then Some y else None) = Some s \<Longrightarrow> (B \<and> s = x) \<or> (D \<and> s = y)"
  by (auto split: if_splits)

text \<open>A successful insertion stores the value in one slot: in the slot that holds
  the key, otherwise in a free one.\<close>

lemma mm_ins_cases:
  assumes "mm_ins k v t = Some t'"
  obtains (slot0) "v \<noteq> 0" "key0 t' = k" "result0 t' = v" "key1 t' = key1 t" "result1 t' = result1 t"
      "(k = key0 t \<and> result0 t \<noteq> 0) \<or> (result0 t = 0 \<and> \<not> (k = key1 t \<and> result1 t \<noteq> 0))"
    | (slot1) "v \<noteq> 0" "key1 t' = k" "result1 t' = v" "key0 t' = key0 t" "result0 t' = result0 t"
      "\<not> (k = key0 t \<and> result0 t \<noteq> 0)" "(k = key1 t \<and> result1 t \<noteq> 0) \<or> result1 t = 0"
proof -
  have v: "v \<noteq> 0" and s: "map_option slots (mac_match_entry_add (fst k) (snd k) v t) = Some (slots t')"
    using assms by (simp_all add: mm_ins_def split: if_splits)
  consider (o0) "k = key0 t" "result0 t \<noteq> 0" | (o1) "k = key1 t" "result1 t \<noteq> 0" "\<not> (k = key0 t \<and> result0 t \<noteq> 0)"
    | (absent) "\<not> (k = key0 t \<and> result0 t \<noteq> 0)" "\<not> (k = key1 t \<and> result1 t \<noteq> 0)" by blast
  then show ?thesis
  proof cases
    case o0
    have "slots t' = ((key0 t, v), (key1 t, result1 t))"
      using s [unfolded mm_add_slots if_P [OF conjI [OF o0]]] by simp
    then show ?thesis using o0 by (intro slot0 [OF v]) (simp_all add: slots_def)
  next
    case o1
    have "slots t' = ((key0 t, result0 t), (key1 t, v))"
      using s [unfolded mm_add_slots if_not_P [OF o1(3)] if_P [OF conjI [OF o1(1,2)]]] by simp
    then show ?thesis using o1 by (intro slot1 [OF v]) (simp_all add: slots_def)
  next
    case absent
    have "(if key0 t = (0, 0) \<and> result0 t = 0 then Some ((k, v), (key1 t, result1 t))
       else if key1 t = (0, 0) \<and> result1 t = 0 then Some ((key0 t, result0 t), (k, v)) else None) = Some (slots t')"
      using s [unfolded mm_add_slots if_not_P [OF absent(1)] if_not_P [OF absent(2)]] .
    from if2_Some [OF this] consider (free0) "result0 t = 0" "slots t' = ((k, v), (key1 t, result1 t))"
      | (free1) "result1 t = 0" "slots t' = ((key0 t, result0 t), (k, v))"
      by blast
    then show ?thesis
    proof cases
      case free0
      then show ?thesis using absent(2) by (intro slot0 [OF v]) (simp_all add: slots_def)
    next
      case free1
      then show ?thesis using absent(1) by (intro slot1 [OF v]) (simp_all add: slots_def)
    qed
  qed
qed

text \<open>The content and the invariant depend on the slots only.\<close>

definition slot_get :: "('k \<times> 'v::zero) \<times> ('k \<times> 'v) \<Rightarrow> 'k \<Rightarrow> 'v option" where
  "slot_get s k = (if k = fst (fst s) \<and> snd (fst s) \<noteq> 0 then Some (snd (fst s))
     else if k = fst (snd s) \<and> snd (snd s) \<noteq> 0 then Some (snd (snd s)) else None)"

definition slot_inv :: "'k \<Rightarrow> ('k \<times> 'v::zero) \<times> ('k \<times> 'v) \<Rightarrow> bool" where
  "slot_inv z s \<longleftrightarrow> (snd (fst s) = 0 \<longrightarrow> fst (fst s) = z) \<and> (snd (snd s) = 0 \<longrightarrow> fst (snd s) = z) \<and>
     (snd (fst s) = 0 \<or> snd (snd s) = 0 \<or> fst (fst s) \<noteq> fst (snd s))"

lemma mm_slot_get: "mm_get t = slot_get (slots t)"
  by (rule ext) (simp only: mm_get_slots slot_get_def slots_def fst_conv snd_conv)

lemma mm_slot_inv: "mm_inv t = slot_inv (0, 0) (slots t)"
  by (simp only: mm_inv_def slot_inv_def slots_def fst_conv snd_conv)

lemma slot_put0:
  assumes "slot_inv z ((k0, r0), (k1, r1))" "v \<noteq> 0" "(k = k0 \<and> r0 \<noteq> 0) \<or> (r0 = 0 \<and> \<not> (k = k1 \<and> r1 \<noteq> 0))"
  shows "slot_get ((k, v), (k1, r1)) = (slot_get ((k0, r0), (k1, r1)))(k \<mapsto> v)" "slot_inv z ((k, v), (k1, r1))"
proof
  show "slot_get ((k, v), (k1, r1)) k' = ((slot_get ((k0, r0), (k1, r1)))(k \<mapsto> v)) k'" for k'
    using assms(2,3) unfolding slot_get_def by (cases "k' = k") (simp, simp, metis)
  show "slot_inv z ((k, v), (k1, r1))" using assms unfolding slot_inv_def fst_conv snd_conv by metis
qed

lemma slot_put1:
  assumes "slot_inv z ((k0, r0), (k1, r1))" "v \<noteq> 0" "\<not> (k = k0 \<and> r0 \<noteq> 0)" "(k = k1 \<and> r1 \<noteq> 0) \<or> r1 = 0"
  shows "slot_get ((k0, r0), (k, v)) = (slot_get ((k0, r0), (k1, r1)))(k \<mapsto> v)" "slot_inv z ((k0, r0), (k, v))"
proof
  show "slot_get ((k0, r0), (k, v)) k' = ((slot_get ((k0, r0), (k1, r1)))(k \<mapsto> v)) k'" for k'
    using assms(2-4) unfolding slot_get_def fst_conv snd_conv fun_upd_apply
    by (cases "k' = k"; cases "k' = k0 \<and> r0 \<noteq> 0"; cases "r1 = 0") (simp_all only: if_True if_False simp_thms, metis?)
  show "slot_inv z ((k0, r0), (k, v))" using assms unfolding slot_inv_def fst_conv snd_conv by metis
qed

lemma slot_clear0:
  assumes "slot_inv z ((k0, r0), (k1, r1))" "k = k0 \<and> r0 \<noteq> 0"
  shows "slot_get ((z, 0), (k1, r1)) = (slot_get ((k0, r0), (k1, r1)))(k := None)"
proof
  show "slot_get ((z, 0), (k1, r1)) k' = ((slot_get ((k0, r0), (k1, r1)))(k := None)) k'" for k'
    using assms unfolding slot_inv_def slot_get_def fst_conv snd_conv fun_upd_apply
    by (cases "k' = k") (simp_all only: if_True if_False simp_thms, metis+)
qed

lemma slot_clear1:
  assumes "slot_inv z ((k0, r0), (k1, r1))" "k = k1 \<and> r1 \<noteq> 0"
  shows "slot_get ((k0, r0), (z, 0)) = (slot_get ((k0, r0), (k1, r1)))(k := None)"
proof
  show "slot_get ((k0, r0), (z, 0)) k' = ((slot_get ((k0, r0), (k1, r1)))(k := None)) k'" for k'
    using assms unfolding slot_inv_def slot_get_def fst_conv snd_conv fun_upd_apply
    by (cases "k' = k") (simp_all only: if_True if_False simp_thms, metis+)
qed

lemma slot_clear_inv:
  assumes "slot_inv z ((k0, r0), (k1, r1))"
  shows "slot_inv z ((z, 0), (k1, r1))" "slot_inv z ((k0, r0), (z, 0))"
  using assms unfolding slot_inv_def fst_conv snd_conv by metis+

lemma slot_full:
  assumes "r0 = 0 \<Longrightarrow> k0 = z" "r1 = 0 \<Longrightarrow> k1 = z"
  shows "(if k = k0 \<and> r0 \<noteq> 0 then Some a else if k = k1 \<and> r1 \<noteq> 0 then Some b
       else if k0 = z \<and> r0 = 0 then Some c else if k1 = z \<and> r1 = 0 then Some d else None) = None \<longleftrightarrow>
     r0 \<noteq> 0 \<and> r1 \<noteq> 0 \<and> slot_get ((k0, r0), (k1, r1)) k = None"
  using assms unfolding slot_get_def fst_conv snd_conv by (cases "r0 = 0"; cases "r1 = 0") simp_all

lemma slot_absent: "\<not> (k = k0 \<and> r0 \<noteq> 0) \<Longrightarrow> \<not> (k = k1 \<and> r1 \<noteq> 0) \<Longrightarrow> slot_get ((k0, r0), (k1, r1)) k = None"
  unfolding slot_get_def fst_conv snd_conv by metis

lemma mm_ins_over:
  assumes "mm_inv t" "mm_ins k v t = Some t'"
  shows "mm_get t' = (mm_get t)(k \<mapsto> v) \<and> mm_inv t'"
  using assms(2)
proof (cases rule: mm_ins_cases)
  case slot0
  show ?thesis using slot_put0 [OF assms(1) [unfolded mm_slot_inv slots_def] slot0(1,6)]
    unfolding mm_slot_get mm_slot_inv slots_def slot0(2-5) by blast
next
  case slot1
  show ?thesis using slot_put1 [OF assms(1) [unfolded mm_slot_inv slots_def] slot1(1,6,7)]
    unfolding mm_slot_get mm_slot_inv slots_def slot1(2-5) by blast
qed

lemma mm_del_slots:
  "slots (mm_del k t) =
    (if k = key0 t \<and> result0 t \<noteq> 0 then (((0, 0), 0), (key1 t, result1 t))
     else if k = key1 t \<and> result1 t \<noteq> 0 then ((key0 t, result0 t), ((0, 0), 0))
     else slots t)"
proof -
  have "slots (mm_del k t) = (case map_option slots (mac_match_entry_remove (fst k) (snd k) t) of None \<Rightarrow> slots t | Some s \<Rightarrow> s)"
    by (simp add: mm_del_def split: option.splits)
  then show ?thesis unfolding mm_remove_slots if_distrib [where f = "case_option _ _"] option.case .
qed

lemma mm_del_ok:
  assumes "mm_inv t"
  shows "mm_get (mm_del k t) = (mm_get t)(k := None) \<and> mm_inv (mm_del k t)"
proof -
  note c = assms [unfolded mm_slot_inv slots_def]
  consider (o0) "k = key0 t \<and> result0 t \<noteq> 0" | (o1) "k = key1 t \<and> result1 t \<noteq> 0" "\<not> (k = key0 t \<and> result0 t \<noteq> 0)"
    | (absent) "\<not> (k = key0 t \<and> result0 t \<noteq> 0)" "\<not> (k = key1 t \<and> result1 t \<noteq> 0)" by blast
  then show ?thesis
  proof cases
    case o0
    then show ?thesis using slot_clear0 [OF c o0] slot_clear_inv(1) [OF c] 
      unfolding mm_slot_get mm_slot_inv mm_del_slots if_P [OF o0] unfolding slots_def by blast
  next
    case o1
    then show ?thesis using slot_clear1 [OF c o1(1)] slot_clear_inv(2) [OF c]
      unfolding mm_slot_get mm_slot_inv mm_del_slots if_P [OF o1(1)] if_not_P [OF o1(2)] unfolding slots_def by blast
  next
    case absent
    have "slots (mm_del k t) = slots t" unfolding mm_del_slots if_not_P [OF absent(1)] if_not_P [OF absent(2)] ..
    then show ?thesis using slot_absent [OF absent] assms
      unfolding mm_slot_get mm_slot_inv by (simp add: fun_upd_idem slots_def)
  qed
qed

interpretation mm: kv_overwrite mm_inv mm_get mm_ins mm_del
  by unfold_locales (use mm_ins_over mm_del_ok in blast)+

text \<open>An insertion fails iff both slots hold other keys; a removal succeeds iff
  the key is present.\<close>

lemma mm_full:
  assumes "mm_inv t" "v \<noteq> 0"
  shows "mac_match_entry_add (fst k) (snd k) v t = None \<longleftrightarrow> result0 t \<noteq> 0 \<and> result1 t \<noteq> 0 \<and> mm_get t k = None"
proof -
  have "mac_match_entry_add (fst k) (snd k) v t = None \<longleftrightarrow> map_option slots (mac_match_entry_add (fst k) (snd k) v t) = None" by simp
  moreover have "result0 t = 0 \<Longrightarrow> key0 t = (0, 0)" "result1 t = 0 \<Longrightarrow> key1 t = (0, 0)"
    using assms(1) unfolding mm_inv_def by blast+
  ultimately show ?thesis unfolding mm_add_slots mm_slot_get slots_def by (simp only: slot_full)
qed

lemma mm_present: "mac_match_entry_remove (fst k) (snd k) t = None \<longleftrightarrow> mm_get t k = None"
proof -
  have "mac_match_entry_remove (fst k) (snd k) t = None \<longleftrightarrow> map_option slots (mac_match_entry_remove (fst k) (snd k) t) = None" by simp
  then show ?thesis unfolding mm_remove_slots mm_get_slots by (metis option.distinct(1))
qed

section \<open>Encodings\<close>

lemma entry_raw [simp]: "entry_of_raw (raw_of_entry t) = t"
proof -
  have "ucast (drop_bit 16 (push_bit 16 (ucast a) OR ucast b :: u32)) = a" "ucast (push_bit 16 (ucast a) OR ucast b :: u32) = b" for a b :: u16
    by (rule bit_word_eqI, auto simp: bit_ucast_iff bit_or_iff bit_drop_bit_eq bit_push_bit_iff dest: bit_imp_le_length)+
  then show ?thesis by (cases t) (simp add: entry_of_raw_def raw_of_entry_def eval_nat_numeral)
qed

lemma length_raw [simp]: "length (raw_of_entry t) = 4"
  by (simp add: raw_of_entry_def)

definition mac_key :: "u64 \<Rightarrow> mm_key" where
  "mac_key mac = (mac_hi_of mac, mac_lo_of mac)"

lemma mac_key_inj:
  assumes "unat m < 2 ^ 48" "unat m' < 2 ^ 48" "mac_key m = mac_key m'"
  shows "m = m'"
proof -
  have t: "take_bit 48 m = m" "take_bit 48 m' = m'" using assms(1,2) by (simp_all add: take_bit_id)
  have masks: "(0xFFFFFFFF :: u64) = mask 32" "(0xFFFF :: u64) = mask 16" by (simp_all add: mask_eq_exp_minus_1)
  have hi: "bit (mac_hi_of x) n \<longleftrightarrow> n < 32 \<and> bit x (16 + n)" and lo: "bit (mac_lo_of x) n \<longleftrightarrow> n < 16 \<and> bit x n" for x n
    unfolding mac_hi_of_def mac_lo_of_def masks by (auto simp: bit_ucast_iff bit_and_iff bit_drop_bit_eq bit_mask_iff)
  have "bit m n = bit m' n" if "n < 48" for n
  proof (cases "n < 16")
    case True
    then show ?thesis using assms(3) lo [of m n] lo [of m' n] by (simp add: mac_key_def)
  next
    case False
    then obtain j where j: "n = 16 + j" by (metis le_Suc_ex not_less)
    then show ?thesis using assms(3) hi [of m j] hi [of m' j] that by (simp add: mac_key_def)
  qed
  then have "take_bit 48 m = take_bit 48 m'" by (intro bit_word_eqI) (auto simp: bit_take_bit_iff)
  then show ?thesis using t by simp
qed

section \<open>The whole table\<close>

lemma hash_bound: "unat (catamaran_mac_match_hash_calc ce cs mac) < 0x400"
proof -
  have m: "CTMRN_MAC_MATCH_ADDR_MASK = mask 10"
    by (simp add: CTMRN_MAC_MATCH_ADDR_MASK_def CATAMARAN_MAC_TABLE_SIZE_def CATAMARAN_MAC_TABLE_ADDR_WIDTH_def mask_eq_exp_minus_1)
  show ?thesis unfolding catamaran_mac_match_hash_calc_def Let_def m unat_mask_and by simp
qed

definition mm_loc :: "nbi_env \<Rightarrow> dev_hist \<Rightarrow> nat \<Rightarrow> nat \<Rightarrow> mm_entry" where
  "mm_loc e hs nbi l = entry_of_raw (loc_words e hs nbi NBIPC_ALL_SMEM_BASE (CATAMARAN_MAC_TABLE_BASE0 + l))"

text \<open>Every location is well formed and equal in the two copies.\<close>

definition mac_match_inv :: "nbi_env \<Rightarrow> dev_hist \<Rightarrow> bool" where
  "mac_match_inv e hs \<longleftrightarrow> (\<forall>nbi. \<forall>l < 0x400. mm_inv (mm_loc e hs nbi l) \<and>
     loc_words e hs nbi NBIPC_ALL_SMEM_BASE (CATAMARAN_MAC_TABLE_BASE1 + l) =
     loc_words e hs nbi NBIPC_ALL_SMEM_BASE (CATAMARAN_MAC_TABLE_BASE0 + l))"

text \<open>The table as a map from 48-bit addresses to results.\<close>

definition mac_match_map :: "nbi_env \<Rightarrow> cls_env \<Rightarrow> ctmrn_state \<Rightarrow> dev_hist \<Rightarrow> nat \<Rightarrow> u64 \<Rightarrow> u16 option" where
  "mac_match_map e ce cs hs nbi mac =
    (if unat mac < 2 ^ 48 then mm_get (mm_loc e hs nbi (unat (catamaran_mac_match_hash_calc ce cs mac))) (mac_key mac) else None)"

lemma mm_quiet:
  assumes "nbi_stored e init" "quiet_events evs"
  shows "mm_loc e (evs @ hs) = mm_loc e hs" "mac_match_map e ce cs (evs @ hs) = mac_match_map e ce cs hs"
    "mac_match_inv e (evs @ hs) = mac_match_inv e hs"
  using loc_words_quiet [OF assms] by (simp_all add: mm_loc_def mac_match_map_def mac_match_inv_def fun_eq_iff)

lemma mm_loc_read:
  assumes "nbi_stored e init" "l < 0x400"
  shows "\<exists>raw evs. nbipc_pesm2lmem_copy e nbi (loc_addr (CATAMARAN_MAC_TABLE_BASE0 + l)) 16 hs = Some (raw, evs @ hs) \<and>
     quiet_events evs \<and> entry_of_raw raw = mm_loc e hs nbi l"
proof -
  have "CATAMARAN_MAC_TABLE_BASE0 + l < 0x1000" using assms(2) by (simp add: CATAMARAN_MAC_TABLE_BASE0_def)
  from loc_read [OF assms(1) this smem_base, of nbi hs] show ?thesis
    unfolding nbipc_pesm2lmem_copy_def mm_loc_def by blast
qed

lemma mm_loc_write:
  assumes "nbi_stored e init" "tableset_stored e init'" "l < 0x400" "mac_match_inv e hs" "mm_inv t"
  shows "\<exists>hs'. nbipc_lmem2pesm_copy e nbi (loc_addr (CATAMARAN_MAC_TABLE_BASE0 + l)) (loc_addr (CATAMARAN_MAC_TABLE_BASE1 + l)) ((!) (raw_of_entry t)) 16 hs = Some hs' \<and>
     mac_match_inv e hs' \<and> (\<forall>nbi' l'. l' < 0x400 \<longrightarrow> mm_loc e hs' nbi' l' = (if nbi' = nbi \<and> l' = l then t else mm_loc e hs nbi' l'))"
proof -
  let ?B0 = CATAMARAN_MAC_TABLE_BASE0 and ?B1 = CATAMARAN_MAC_TABLE_BASE1 and ?S = NBIPC_ALL_SMEM_BASE
  note bases = CATAMARAN_MAC_TABLE_BASE0_def CATAMARAN_MAC_TABLE_BASE1_def
  have l: "?B0 + l < 0x1000" "?B1 + l < 0x1000" "?B0 + l \<noteq> ?B1 + l" using assms(3) by (simp_all add: bases)
  obtain hs' where w: "nbipc_lmem2pesm_copy e nbi (loc_addr (?B0 + l)) (loc_addr (?B1 + l)) ((!) (raw_of_entry t)) 16 hs = Some hs'"
    "loc_words e hs' nbi ?S (?B0 + l) = raw_of_entry t" "loc_words e hs' nbi ?S (?B1 + l) = raw_of_entry t"
    "\<And>nbi' l'. l' < 0x1000 \<Longrightarrow> (nbi' = nbi \<longrightarrow> l' \<noteq> ?B0 + l \<and> l' \<noteq> ?B1 + l) \<Longrightarrow> loc_words e hs' nbi' ?S l' = loc_words e hs nbi' ?S l'"
    using loc_write [OF assms(1,2) smem_base l length_raw, where nbi = nbi and hs = hs] unfolding nbipc_lmem2pesm_copy_def by blast
  have words: "loc_words e hs' nbi' ?S (B + l') = (if nbi' = nbi \<and> l' = l then raw_of_entry t else loc_words e hs nbi' ?S (B + l'))"
    if "l' < 0x400" "B = ?B0 \<or> B = ?B1" for nbi' B l'
  proof (cases "nbi' = nbi \<and> l' = l")
    case True
    then show ?thesis using w(2,3) that(2) by auto
  next
    case False
    have "B + l' < 0x1000" "nbi' = nbi \<longrightarrow> B + l' \<noteq> ?B0 + l \<and> B + l' \<noteq> ?B1 + l"
      using False that assms(3) by (auto simp: bases)
    then show ?thesis using w(4) False by auto
  qed
  then have locs: "mm_loc e hs' nbi' l' = (if nbi' = nbi \<and> l' = l then t else mm_loc e hs nbi' l')" if "l' < 0x400" for nbi' l'
    using that by (simp add: mm_loc_def)
  have "mac_match_inv e hs'" using assms(4,5) locs words unfolding mac_match_inv_def by simp
  then show ?thesis using w(1) locs by blast
qed

text \<open>A change of one location changes the map at one address only.\<close>

lemma mm_map_update:
  assumes "\<forall>nbi' l'. l' < 0x400 \<longrightarrow> mm_loc e hs' nbi' l' = (if nbi' = nbi \<and> l' = unat (catamaran_mac_match_hash_calc ce cs mac) then t else mm_loc e hs nbi' l')"
    and "mm_get t = (mm_get (mm_loc e hs nbi (unat (catamaran_mac_match_hash_calc ce cs mac))))(mac_key mac := r)"
    and "unat mac < 2 ^ 48"
  shows "mac_match_map e ce cs hs' = (mac_match_map e ce cs hs)(nbi := (mac_match_map e ce cs hs nbi)(mac := r))"
proof (intro ext)
  fix nbi' m
  show "mac_match_map e ce cs hs' nbi' m = ((mac_match_map e ce cs hs)(nbi := (mac_match_map e ce cs hs nbi)(mac := r))) nbi' m"
    using assms mac_key_inj [of m mac] by (auto simp: mac_match_map_def hash_bound)
qed

section \<open>Operations\<close>

definition loc_full :: "mm_entry \<Rightarrow> bool" where
  "loc_full t \<longleftrightarrow> result0 t \<noteq> 0 \<and> result1 t \<noteq> 0"

lemma add_refines:
  fixes ce cs nbi
  assumes "nbi_stored e init" "tableset_stored e init'" "mac_match_inv e hs" "unat mac < 2 ^ 48" "result \<noteq> 0"
  defines "full \<equiv> mac_match_map e ce cs hs nbi mac = None \<and> loc_full (mm_loc e hs nbi (unat (catamaran_mac_match_hash_calc ce cs mac)))"
  shows "\<exists>hs'. catamaran_mac_match_table_add e ce cs nbi mac result hs = Some (if full then - 1 else 0, hs') \<and> mac_match_inv e hs' \<and>
     mac_match_map e ce cs hs' = (if full then mac_match_map e ce cs hs
       else (mac_match_map e ce cs hs)(nbi := (mac_match_map e ce cs hs nbi)(mac \<mapsto> result)))"
proof -
  let ?l = "unat (catamaran_mac_match_hash_calc ce cs mac)"
  let ?t = "mm_loc e hs nbi ?l"
  obtain raw evs where r: "nbipc_pesm2lmem_copy e nbi (loc_addr (CATAMARAN_MAC_TABLE_BASE0 + ?l)) 16 hs = Some (raw, evs @ hs)"
    "quiet_events evs" "entry_of_raw raw = ?t" using mm_loc_read [OF assms(1) hash_bound] by blast
  have inv: "mm_inv ?t" using assms(3) hash_bound by (simp add: mac_match_inv_def)
  have full: "full \<longleftrightarrow> mac_match_entry_add (mac_hi_of mac) (mac_lo_of mac) result ?t = None"
    using mm_full [OF inv assms(5), of "mac_key mac"] assms(4) by (auto simp: full_def mac_match_map_def mac_key_def loc_full_def)
  note q = mm_quiet [OF assms(1) r(2)]
  show ?thesis
  proof (cases "mac_match_entry_add (mac_hi_of mac) (mac_lo_of mac) result ?t")
    case None
    then show ?thesis using full r q assms(3) by (simp add: catamaran_mac_match_table_add_def)
  next
    case (Some t)
    then have ins: "mm_ins (mac_key mac) result ?t = Some t" using assms(5) by (simp add: mm_ins_def mac_key_def)
    note ok = mm.ins_over [OF inv ins]
    have iq: "mac_match_inv e (evs @ hs)" using assms(3) q(3) by blast
    obtain hs' where w: "nbipc_lmem2pesm_copy e nbi (loc_addr (CATAMARAN_MAC_TABLE_BASE0 + ?l)) (loc_addr (CATAMARAN_MAC_TABLE_BASE1 + ?l))
        ((!) (raw_of_entry t)) 16 (evs @ hs) = Some hs'" "mac_match_inv e hs'"
      "\<forall>nbi' l'. l' < 0x400 \<longrightarrow> mm_loc e hs' nbi' l' = (if nbi' = nbi \<and> l' = ?l then t else mm_loc e hs nbi' l')"
      using mm_loc_write [OF assms(1,2) hash_bound iq conjunct2 [OF ok], of nbi] unfolding q(1) by blast
    then show ?thesis using full Some r mm_map_update [OF w(3) conjunct1 [OF ok] assms(4)]
      by (simp add: catamaran_mac_match_table_add_def)
  qed
qed

lemma get_refines:
  assumes "nbi_stored e init" "unat mac < 2 ^ 48"
  shows "\<exists>evs. catamaran_mac_match_table_get e ce cs nbi mac hs =
     Some (case mac_match_map e ce cs hs nbi mac of None \<Rightarrow> - 1 | Some r \<Rightarrow> uint r, evs @ hs) \<and> quiet_events evs"
proof -
  obtain raw evs where r: "nbipc_pesm2lmem_copy e nbi (loc_addr (CATAMARAN_MAC_TABLE_BASE0 + unat (catamaran_mac_match_hash_calc ce cs mac))) 16 hs = Some (raw, evs @ hs)"
    "quiet_events evs" "entry_of_raw raw = mm_loc e hs nbi (unat (catamaran_mac_match_hash_calc ce cs mac))" using mm_loc_read [OF assms(1) hash_bound] by blast
  then show ?thesis using assms(2)
    by (auto simp: catamaran_mac_match_table_get_def mac_match_map_def mm_get_def mac_key_def split: option.splits)
qed

lemma remove_refines:
  assumes "nbi_stored e init" "tableset_stored e init'" "mac_match_inv e hs" "unat mac < 2 ^ 48"
  shows "\<exists>hs'. catamaran_mac_match_table_remove e ce cs nbi mac hs = Some (if mac_match_map e ce cs hs nbi mac = None then - 1 else 0, hs') \<and>
     mac_match_inv e hs' \<and> mac_match_map e ce cs hs' = (mac_match_map e ce cs hs)(nbi := (mac_match_map e ce cs hs nbi)(mac := None))"
proof -
  let ?l = "unat (catamaran_mac_match_hash_calc ce cs mac)"
  let ?t = "mm_loc e hs nbi ?l"
  obtain raw evs where r: "nbipc_pesm2lmem_copy e nbi (loc_addr (CATAMARAN_MAC_TABLE_BASE0 + ?l)) 16 hs = Some (raw, evs @ hs)"
    "quiet_events evs" "entry_of_raw raw = ?t" using mm_loc_read [OF assms(1) hash_bound] by blast
  have inv: "mm_inv ?t" using assms(3) hash_bound by (simp add: mac_match_inv_def)
  have absent: "mac_match_map e ce cs hs nbi mac = None \<longleftrightarrow> mac_match_entry_remove (mac_hi_of mac) (mac_lo_of mac) ?t = None"
    using mm_present [of "mac_key mac" ?t] assms(4) by (simp add: mac_match_map_def mac_key_def)
  note q = mm_quiet [OF assms(1) r(2)]
  show ?thesis
  proof (cases "mac_match_entry_remove (mac_hi_of mac) (mac_lo_of mac) ?t")
    case None
    then have "mac_match_map e ce cs hs nbi mac = None" using absent by blast
    then have "(mac_match_map e ce cs hs)(nbi := (mac_match_map e ce cs hs nbi)(mac := None)) = mac_match_map e ce cs hs"
      by (simp add: fun_upd_idem)
    then show ?thesis using absent None r q assms(3) by (simp add: catamaran_mac_match_table_remove_def)
  next
    case (Some t)
    then have del: "mm_del (mac_key mac) ?t = t" by (simp add: mm_del_def mac_key_def)
    have iq: "mac_match_inv e (evs @ hs)" using assms(3) q(3) by blast
    have t: "mm_inv t" "mm_get t = (mm_get ?t)(mac_key mac := None)"
      using mm.del_inv [OF inv, of "mac_key mac"] mm.del_get [OF inv, of "mac_key mac"] unfolding del by blast+
    obtain hs' where w: "nbipc_lmem2pesm_copy e nbi (loc_addr (CATAMARAN_MAC_TABLE_BASE0 + ?l)) (loc_addr (CATAMARAN_MAC_TABLE_BASE1 + ?l))
        ((!) (raw_of_entry t)) 16 (evs @ hs) = Some hs'" "mac_match_inv e hs'"
      "\<forall>nbi' l'. l' < 0x400 \<longrightarrow> mm_loc e hs' nbi' l' = (if nbi' = nbi \<and> l' = ?l then t else mm_loc e hs nbi' l')"
      using mm_loc_write [OF assms(1,2) hash_bound iq t(1), of nbi] unfolding q(1) by blast
    then show ?thesis using absent Some r mm_map_update [OF w(3) t(2) assms(4)]
      by (simp add: catamaran_mac_match_table_remove_def)
  qed
qed

section \<open>Properties\<close>

text \<open>C17. The MAC match table refines a map from 48-bit addresses to results, for
  any hash function.  Adding a nonzero result always returns: with 0 and the map
  updated at that address, whether it was present or not, or with -1 and the map
  unchanged, which happens iff the address is absent and both entries of its
  location are taken.  Getting returns the result of the address or -1; removing
  returns 0 and deletes the address, or -1 if it was absent.  The invariant (the
  copies equal, no address twice) is kept and other NBIs are unchanged.\<close>

theorem mac_match_refines_map:
  assumes "nbi_stored e init" "tableset_stored e init'" "mac_match_inv e hs" "unat mac < 2 ^ 48"
  shows "(\<forall>result. result \<noteq> 0 \<longrightarrow> (\<exists>hs'. mac_match_inv e hs' \<and>
       (if mac_match_map e ce cs hs nbi mac = None \<and> loc_full (mm_loc e hs nbi (unat (catamaran_mac_match_hash_calc ce cs mac)))
        then catamaran_mac_match_table_add e ce cs nbi mac result hs = Some (- 1, hs') \<and> mac_match_map e ce cs hs' = mac_match_map e ce cs hs
        else catamaran_mac_match_table_add e ce cs nbi mac result hs = Some (0, hs') \<and>
          mac_match_map e ce cs hs' = (mac_match_map e ce cs hs)(nbi := (mac_match_map e ce cs hs nbi)(mac \<mapsto> result))))) \<and>
     (\<exists>hs'. catamaran_mac_match_table_get e ce cs nbi mac hs =
       Some (case mac_match_map e ce cs hs nbi mac of None \<Rightarrow> - 1 | Some r \<Rightarrow> uint r, hs') \<and>
       mac_match_inv e hs' \<and> mac_match_map e ce cs hs' = mac_match_map e ce cs hs) \<and>
     (\<exists>hs'. catamaran_mac_match_table_remove e ce cs nbi mac hs = Some (if mac_match_map e ce cs hs nbi mac = None then - 1 else 0, hs') \<and>
       mac_match_inv e hs' \<and> mac_match_map e ce cs hs' = (mac_match_map e ce cs hs)(nbi := (mac_match_map e ce cs hs nbi)(mac := None)))"
proof (intro conjI allI impI)
  show "\<exists>hs'. mac_match_inv e hs' \<and>
       (if mac_match_map e ce cs hs nbi mac = None \<and> loc_full (mm_loc e hs nbi (unat (catamaran_mac_match_hash_calc ce cs mac)))
        then catamaran_mac_match_table_add e ce cs nbi mac result hs = Some (- 1, hs') \<and> mac_match_map e ce cs hs' = mac_match_map e ce cs hs
        else catamaran_mac_match_table_add e ce cs nbi mac result hs = Some (0, hs') \<and>
          mac_match_map e ce cs hs' = (mac_match_map e ce cs hs)(nbi := (mac_match_map e ce cs hs nbi)(mac \<mapsto> result)))"
    if "result \<noteq> 0" for result
    using add_refines [OF assms that, of ce cs nbi]
    by (cases "mac_match_map e ce cs hs nbi mac = None \<and> loc_full (mm_loc e hs nbi (unat (catamaran_mac_match_hash_calc ce cs mac)))")
      (simp_all only: if_True if_False simp_thms, blast+)
  show "\<exists>hs'. catamaran_mac_match_table_get e ce cs nbi mac hs =
       Some (case mac_match_map e ce cs hs nbi mac of None \<Rightarrow> - 1 | Some r \<Rightarrow> uint r, hs') \<and>
       mac_match_inv e hs' \<and> mac_match_map e ce cs hs' = mac_match_map e ce cs hs"
    using get_refines [OF assms(1,4), of ce cs nbi hs] mm_quiet(2,3) [OF assms(1)] assms(3) by metis
qed (rule remove_refines [OF assms])

definition cls_env_ex :: cls_env where
  "cls_env_ex = \<lparr>cls_hash_mult = 0, NBIPC_PE_SETUP_ADDR = (\<lambda>_. 0), pe_hashsboxen = id, pe_hashsbox = id, pe_hashmult = id,
     mult_with = (\<lambda>a _ _ _ _ _ _. a), cls_hash = (\<lambda>_ mask data old. (data AND mask) XOR old)\<rparr>"

definition ctmrn_state_ex :: ctmrn_state where
  "ctmrn_state_ex = \<lparr>mac_match_scalar = 5, ctmrn_cls_hash_mult = 0, init_cls_hash_mult = 0\<rparr>"

lemma mm_loc_ex: "mm_loc nbi_env_ex [] nbi l = entry_of_raw [0, 0, 0, 0]"
  by (simp add: mm_loc_def loc_words_def entry_at_def nbi_env_ex_def lmem_words_def upt_rec)

lemma entry_zero: "mm_inv (entry_of_raw [0, 0, 0, 0])" "mm_get (entry_of_raw [0, 0, 0, 0]) k = None" "\<not> loc_full (entry_of_raw [0, 0, 0, 0])"
  by (simp_all add: entry_of_raw_def mm_inv_def mm_get_slots key0_def key1_def loc_full_def eval_nat_numeral)

lemma mac_match_ex: "mac_match_inv nbi_env_ex []" "mac_match_map nbi_env_ex ce cs [] nbi mac = None"
proof -
  have "loc_words nbi_env_ex [] nbi base l = [0, 0, 0, 0]" for nbi base l
    by (simp add: loc_words_def entry_at_def nbi_env_ex_def lmem_words_def upt_rec)
  then show "mac_match_inv nbi_env_ex []" "mac_match_map nbi_env_ex ce cs [] nbi mac = None"
    by (simp_all add: mac_match_inv_def mac_match_map_def mm_loc_ex entry_zero)
qed

theorem mac_match_refines_map_witness:
  "\<exists>hs1. catamaran_mac_match_table_add nbi_env_ex cls_env_ex ctmrn_state_ex 0 0x154D0A0B0C 7 [] = Some (0, hs1) \<and>
     mac_match_map nbi_env_ex cls_env_ex ctmrn_state_ex hs1 0 0x154D0A0B0C = Some 7"
proof -
  have m: "unat (0x154D0A0B0C :: u64) < 2 ^ 48" by simp
  show ?thesis
    using spec [where x = 7, OF conjunct1 [OF mac_match_refines_map [OF nbi_stored_ex tableset_stored_ex mac_match_ex(1) m, of cls_env_ex ctmrn_state_ex 0]]]
    by (auto simp: mm_loc_ex entry_zero)
qed

end
