(* ===== verification/CatamaranApp.thy ===== *)
theory CatamaranApp
  imports Platform MacMatch
begin

unbundle bit_operations_syntax

text \<open>
  \<open>lib/npfw/_c/catamaran_app_utils.c\<close>: the application's use of the preclassifier
  tables.  At start every channel of every port is configured; later the MAC
  match tables of both NBIs are brought in line with the addresses of the
  enabled ports, by adding, changing and removing entries relative to the
  previous update, which \<open>curr_mac_addr\<close> remembers.  The update is shown to
  refine a function on the abstract maps of the two tables.
\<close>

section \<open>Port information\<close>

record mac_match_info =
  mi_mac_addr :: u64
  port_mask0 :: u8
  port_mask1 :: u8

type_synonym mac_infos = "nat \<Rightarrow> mac_match_info"

definition port_enabled :: "u8 \<Rightarrow> nat \<Rightarrow> bool" where
  "port_enabled port_en_mask port \<longleftrightarrow> c_true (ucast port_en_mask AND (push_bit port 1 :: u32))"

text \<open>The inner loop: \<open>is\<close> are the lower ports.\<close>

fun merge_masks :: "nat list \<Rightarrow> nat \<Rightarrow> mac_infos \<Rightarrow> mac_infos" where
  "merge_masks [] port info = info"
| "merge_masks (i # is) port info =
    (if mi_mac_addr (info i) = mi_mac_addr (info port)
     then let info = info(i := (info i)\<lparr>port_mask0 := port_mask0 (info i) OR port_mask0 (info port)\<rparr>);
              info = info(i := (info i)\<lparr>port_mask1 := port_mask1 (info i) OR port_mask1 (info port)\<rparr>);
              info = info(port := (info port)\<lparr>port_mask0 := port_mask0 (info i)\<rparr>);
              info = info(port := (info port)\<lparr>port_mask1 := port_mask1 (info i)\<rparr>)
          in merge_masks is port info
     else merge_masks is port info)"

definition fresh_info :: "platform \<Rightarrow> (nat \<Rightarrow> u64) \<Rightarrow> nat \<Rightarrow> mac_match_info" where
  "fresh_info p mac_addrs port =
    (if port < NS_PLATFORM_NUM_PORTS_PER_MAC_0 p
     then \<lparr>mi_mac_addr = mac_addrs port, port_mask0 = push_bit port 1, port_mask1 = 0\<rparr>
     else \<lparr>mi_mac_addr = mac_addrs port, port_mask0 = 0, port_mask1 = push_bit port 1\<rparr>)"

definition generate_port :: "platform \<Rightarrow> u8 \<Rightarrow> (nat \<Rightarrow> u64) \<Rightarrow> nat \<Rightarrow> mac_infos \<Rightarrow> mac_infos" where
  "generate_port p port_en_mask mac_addrs port info =
    (if port_enabled port_en_mask port
     then merge_masks [0..<port] port (info(port := fresh_info p mac_addrs port))
     else info(port := \<lparr>mi_mac_addr = 0, port_mask0 = 0, port_mask1 = 0\<rparr>))"

definition generate_mac_match_info :: "platform \<Rightarrow> u8 \<Rightarrow> mac_infos \<Rightarrow> (nat \<Rightarrow> u64) \<Rightarrow> mac_infos" where
  "generate_mac_match_info p port_en_mask info mac_addrs =
     fold (generate_port p port_en_mask mac_addrs) [0..<NS_PLATFORM_NUM_PORTS p] info"

section \<open>Updating the MAC match tables\<close>

type_synonym mm_step = "int \<times> dev_hist"

text \<open>A guarded addition, which collects the error code, and a guarded removal,
  which ignores it.\<close>

definition add_if :: "nbi_env \<Rightarrow> cls_env \<Rightarrow> ctmrn_state \<Rightarrow> bool \<Rightarrow> nat \<Rightarrow> u64 \<Rightarrow> u8 \<Rightarrow> mm_step \<Rightarrow> mm_step option" where
  "add_if e ce cs guard nbi mac_addr port_mask s =
    (if guard then do { (rc, hs) \<leftarrow> catamaran_mac_match_table_add e ce cs nbi mac_addr (push_bit 8 (ucast port_mask)) (snd s); Some (fst s OR rc, hs) }
     else Some s)"

definition remove_if :: "nbi_env \<Rightarrow> cls_env \<Rightarrow> ctmrn_state \<Rightarrow> bool \<Rightarrow> nat \<Rightarrow> u64 \<Rightarrow> mm_step \<Rightarrow> mm_step option" where
  "remove_if e ce cs guard nbi mac_addr s =
    (if guard then do { (rc, hs) \<leftarrow> catamaran_mac_match_table_remove e ce cs nbi mac_addr (snd s); Some (fst s, hs) } else Some s)"

definition update_port :: "nbi_env \<Rightarrow> cls_env \<Rightarrow> ctmrn_state \<Rightarrow> platform \<Rightarrow> mac_infos \<Rightarrow> mac_infos \<Rightarrow> nat \<Rightarrow> mm_step \<Rightarrow> mm_step option" where
  "update_port e ce cs p old_info new_info port s =
    (let port_mask0 = port_mask0 (new_info port); port_mask1 = port_mask1 (new_info port); mac_addr = mi_mac_addr (new_info port)
     in if \<not> c_true port_mask0 \<and> \<not> c_true port_mask1 then Some s
        else if find (\<lambda>i. mac_addr = mi_mac_addr (new_info i)) [0..<port] \<noteq> None then Some s
        else case find (\<lambda>i. mac_addr = mi_mac_addr (old_info i)) [0..<NS_PLATFORM_NUM_PORTS p] of
            Some i \<Rightarrow> do {
              s \<leftarrow> add_if e ce cs (c_true port_mask0 \<and> port_mask0 \<noteq> mac_match_info.port_mask0 (old_info i)) 0 mac_addr port_mask0 s;
              s \<leftarrow> add_if e ce cs (c_true port_mask1 \<and> port_mask1 \<noteq> mac_match_info.port_mask1 (old_info i)) 1 mac_addr port_mask1 s;
              s \<leftarrow> remove_if e ce cs (\<not> c_true port_mask0 \<and> port_mask0 \<noteq> mac_match_info.port_mask0 (old_info i)) 0 mac_addr s;
              remove_if e ce cs (\<not> c_true port_mask1 \<and> port_mask1 \<noteq> mac_match_info.port_mask1 (old_info i)) 1 mac_addr s }
          | None \<Rightarrow> do {
              s \<leftarrow> add_if e ce cs (c_true port_mask0) 0 mac_addr port_mask0 s;
              add_if e ce cs (c_true port_mask1) 1 mac_addr port_mask1 s })"

definition remove_port :: "nbi_env \<Rightarrow> cls_env \<Rightarrow> ctmrn_state \<Rightarrow> platform \<Rightarrow> mac_infos \<Rightarrow> mac_infos \<Rightarrow> nat \<Rightarrow> mm_step \<Rightarrow> mm_step option" where
  "remove_port e ce cs p old_info new_info port s =
    (let port_mask0 = port_mask0 (old_info port); port_mask1 = port_mask1 (old_info port); mac_addr = mi_mac_addr (old_info port)
     in if \<not> c_true port_mask0 \<and> \<not> c_true port_mask1 then Some s
        else if find (\<lambda>i. mac_addr = mi_mac_addr (old_info i)) [0..<port] \<noteq> None then Some s
        else if find (\<lambda>i. mac_addr = mi_mac_addr (new_info i)) [0..<NS_PLATFORM_NUM_PORTS p] \<noteq> None then Some s
        else do {
          s \<leftarrow> remove_if e ce cs (c_true port_mask0) 0 mac_addr s;
          remove_if e ce cs (c_true port_mask1) 1 mac_addr s })"

fun for_ports :: "(nat \<Rightarrow> 's \<Rightarrow> 's option) \<Rightarrow> nat list \<Rightarrow> 's \<Rightarrow> 's option" where
  "for_ports body [] s = Some s"
| "for_ports body (port # ports) s = Option.bind (body port s) (for_ports body ports)"

definition mac_match_table_update ::
  "nbi_env \<Rightarrow> cls_env \<Rightarrow> ctmrn_state \<Rightarrow> platform \<Rightarrow> mac_infos \<Rightarrow> mac_infos \<Rightarrow> dev_hist \<Rightarrow> mm_step option" where
  "mac_match_table_update e ce cs p old_info new_info hs = do {
     s \<leftarrow> for_ports (update_port e ce cs p old_info new_info) [0..<NS_PLATFORM_NUM_PORTS p] (0, hs);
     for_ports (remove_port e ce cs p old_info new_info) [0..<NS_PLATFORM_NUM_PORTS p] s }"

text \<open>\<open>temp_mac_addr\<close> is the uninitialised local array.\<close>

definition update_catamaran_mac_match_table ::
  "nbi_env \<Rightarrow> cls_env \<Rightarrow> ctmrn_state \<Rightarrow> platform \<Rightarrow> u8 \<Rightarrow> (nat \<Rightarrow> u64) \<Rightarrow> mac_infos \<Rightarrow> mac_infos \<Rightarrow> dev_hist \<Rightarrow> (int \<times> mac_infos \<times> dev_hist) option" where
  "update_catamaran_mac_match_table e ce cs p port_en_mask mac_addrs temp_mac_addr curr_mac_addr hs = do {
     let temp_mac_addr = generate_mac_match_info p port_en_mask temp_mac_addr mac_addrs;
     (err_code, hs) \<leftarrow> mac_match_table_update e ce cs p curr_mac_addr temp_mac_addr hs;
     Some (err_code, (\<lambda>i. if i < NS_PLATFORM_NUM_PORTS p then temp_mac_addr i else curr_mac_addr i), hs) }"

section \<open>Configuring the channels\<close>

definition MAX_CHANNELS_PER_PORT :: nat where "MAX_CHANNELS_PER_PORT = 8"

text \<open>The loop over \<open>chans\<close> fills the local array; the entries beyond stay.\<close>

fun fill_entries :: "nat \<Rightarrow> nat list \<Rightarrow> nat \<Rightarrow> (nat \<Rightarrow> chan2port_entry) \<Rightarrow> (nat \<Rightarrow> chan2port_entry)" where
  "fill_entries port [] entry_cnt entries = entries"
| "fill_entries port (chan # chans) entry_cnt entries =
     fill_entries port chans (entry_cnt + 1)
       (entries(entry_cnt := \<lparr>c2p_port = of_nat port, c2p_port_mode = CATAMARAN_CHAN_MODE_MAC_DA_MATCH\<rparr>))"

definition init_port :: "nbi_env \<Rightarrow> platform \<Rightarrow> nat \<Rightarrow> (nat \<Rightarrow> chan2port_entry) \<times> dev_hist \<Rightarrow> ((nat \<Rightarrow> chan2port_entry) \<times> dev_hist) option" where
  "init_port e p port s = do {
     let entries = fill_entries port [NS_PLATFORM_MAC_CHANNEL_LO p port..<Suc (NS_PLATFORM_MAC_CHANNEL_HI p port)] 0 (fst s);
     hs \<leftarrow> catamaran_chan2port_table_set e (NS_PLATFORM_MAC_CORE p port) (of_nat (NS_PLATFORM_MAC_CHANNEL_LO p port))
            (of_nat (NS_PLATFORM_MAC_CHANNEL_HI p port)) entries (snd s);
     Some (entries, hs) }"

definition init_catamaran_chan2port_table :: "nbi_env \<Rightarrow> platform \<Rightarrow> (nat \<Rightarrow> chan2port_entry) \<Rightarrow> dev_hist \<Rightarrow> dev_hist option" where
  "init_catamaran_chan2port_table e p entries hs =
     map_option snd (for_ports (init_port e p) [0..<NS_PLATFORM_NUM_PORTS p] (entries, hs))"

section \<open>The generated information\<close>

lemma enabled_bit: "port_enabled m port \<longleftrightarrow> bit m port"
  using c_true_and_pow2 [of "ucast m :: u32" port] unfolding port_enabled_def by (auto simp: bit_ucast_iff dest: bit_imp_le_length)

text \<open>The effect of the inner loop when all lower ports with the same address have
  the same masks.\<close>

lemma merge_masks:
  assumes "port \<notin> set is" "distinct is" "mi_mac_addr (info port) = a"
    and "\<forall>i \<in> set is. mi_mac_addr (info i) = a \<longrightarrow> port_mask0 (info i) = m0 \<and> port_mask1 (info i) = m1"
  shows "merge_masks is port info = (\<lambda>q.
     if (q \<in> set is \<and> mi_mac_addr (info q) = a) \<or> (q = port \<and> (\<exists>i \<in> set is. mi_mac_addr (info i) = a))
     then \<lparr>mi_mac_addr = a, port_mask0 = m0 OR port_mask0 (info port), port_mask1 = m1 OR port_mask1 (info port)\<rparr> else info q)"
  using assms
proof (induction "is" arbitrary: info)
  case Nil
  then show ?case by simp
next
  case (Cons i "is")
  show ?case
  proof (cases "mi_mac_addr (info i) = a")
    case True
    let ?x = "\<lparr>mi_mac_addr = a, port_mask0 = m0 OR port_mask0 (info port), port_mask1 = m1 OR port_mask1 (info port)\<rparr>"
    let ?info = "info(i := ?x, port := ?x)"
    have ip: "i \<noteq> port" "i \<notin> set is" using Cons.prems(1,2) by auto
    have rec: "mi_mac_addr r = a \<Longrightarrow> r\<lparr>port_mask0 := x, port_mask1 := y\<rparr> = \<lparr>mi_mac_addr = a, port_mask0 = x, port_mask1 = y\<rparr>" for r x y
      by (cases r) simp
    have "merge_masks (i # is) port info = merge_masks is port ?info"
      using True Cons.prems(3,4) ip by (simp add: Let_def fun_upd_twist) (simp only: rec)
    also have "\<dots> = (\<lambda>q. if (q \<in> set is \<and> mi_mac_addr (?info q) = a) \<or> (q = port \<and> (\<exists>i \<in> set is. mi_mac_addr (?info i) = a))
     then \<lparr>mi_mac_addr = a, port_mask0 = m0 OR port_mask0 (?info port), port_mask1 = m1 OR port_mask1 (?info port)\<rparr> else ?info q)"
      by (rule Cons.IH) (use Cons.prems ip in auto)
    finally show ?thesis using True ip Cons.prems(1,3) by (auto simp: fun_eq_iff or.assoc [symmetric])
  next
    case False
    then show ?thesis using Cons by (auto simp: fun_eq_iff)
  qed
qed

text \<open>The information that the ports below \<open>n\<close> should have: the mask of an NBI
  names its enabled ports with the same address.\<close>

definition info_ok :: "platform \<Rightarrow> u8 \<Rightarrow> (nat \<Rightarrow> u64) \<Rightarrow> nat \<Rightarrow> nat \<Rightarrow> mac_match_info \<Rightarrow> bool" where
  "info_ok p en macs n port i \<longleftrightarrow> mi_mac_addr i = (if bit en port then macs port else 0) \<and>
     (\<forall>q. bit (port_mask0 i) q \<longleftrightarrow> bit en port \<and> q < n \<and> bit en q \<and> macs q = macs port \<and> q < NS_PLATFORM_NUM_PORTS_PER_MAC_0 p) \<and>
     (\<forall>q. bit (port_mask1 i) q \<longleftrightarrow> bit en port \<and> q < n \<and> bit en q \<and> macs q = macs port \<and> NS_PLATFORM_NUM_PORTS_PER_MAC_0 p \<le> q)"

lemma info_ok_masks:
  assumes "info_ok p en macs n i x" "info_ok p en macs n j y" "mi_mac_addr x = mi_mac_addr y" "\<forall>q. bit en q \<longrightarrow> macs q \<noteq> 0"
  shows "port_mask0 x = port_mask0 y \<and> port_mask1 x = port_mask1 y"
proof -
  have "bit en i \<and> bit en j \<and> macs i = macs j \<or> \<not> bit en i \<and> \<not> bit en j"
    using assms by (auto simp: info_ok_def split: if_splits)
  then show ?thesis using assms(1,2) by (intro conjI bit_word_eqI) (auto simp: info_ok_def)
qed

lemma bit_push_1: "bit (push_bit port 1 :: u8) q \<longleftrightarrow> q = port \<and> q < 8"
  by (auto simp: bit_exp_iff possible_bit_def)

lemma fresh_info_bits:
  assumes "n < 8"
  shows "bit (port_mask0 (fresh_info p macs n)) q \<longleftrightarrow> q = n \<and> q < NS_PLATFORM_NUM_PORTS_PER_MAC_0 p"
    "bit (port_mask1 (fresh_info p macs n)) q \<longleftrightarrow> q = n \<and> NS_PLATFORM_NUM_PORTS_PER_MAC_0 p \<le> q"
    "mi_mac_addr (fresh_info p macs n) = macs n"
  using assms bit_push_1 [of n q] by (auto simp: fresh_info_def)

text \<open>A port whose address is new gets an entry of its own.\<close>

lemma generate_port_fresh:
  assumes "bit en n" "\<nexists>i. i < n \<and> mi_mac_addr (info i) = macs n"
  shows "generate_port p en macs n info = info(n := fresh_info p macs n)"
proof -
  let ?w = "fresh_info p macs n"
  have w: "mi_mac_addr ?w = macs n" by (simp add: fresh_info_def)
  have "merge_masks [0..<n] n (info(n := ?w)) = (\<lambda>q. if (q \<in> set [0..<n] \<and> mi_mac_addr ((info(n := ?w)) q) = macs n) \<or> (q = n \<and> (\<exists>i \<in> set [0..<n]. mi_mac_addr ((info(n := ?w)) i) = macs n))
    then \<lparr>mi_mac_addr = macs n, port_mask0 = 0 OR port_mask0 ((info(n := ?w)) n), port_mask1 = 0 OR port_mask1 ((info(n := ?w)) n)\<rparr> else (info(n := ?w)) q)"
    by (rule merge_masks) (use assms(2) w in auto)
  then show ?thesis using assms by (auto simp: generate_port_def enabled_bit fun_eq_iff)
qed

text \<open>A port whose address is known joins the entries of that address.\<close>

lemma generate_port_merged:
  assumes "\<forall>q < n. info_ok p en macs n q (info q)" "\<forall>q. bit en q \<longrightarrow> macs q \<noteq> 0" "bit en n" "i < n \<and> mi_mac_addr (info i) = macs n"
  shows "generate_port p en macs n info = (\<lambda>q. if (q < n \<and> mi_mac_addr (info q) = macs n) \<or> q = n
     then \<lparr>mi_mac_addr = macs n, port_mask0 = port_mask0 (info i) OR port_mask0 (fresh_info p macs n),
       port_mask1 = port_mask1 (info i) OR port_mask1 (fresh_info p macs n)\<rparr> else info q)"
proof -
  let ?w = "fresh_info p macs n" and ?m0 = "port_mask0 (info i)" and ?m1 = "port_mask1 (info i)"
  have w: "mi_mac_addr ?w = macs n" by (simp add: fresh_info_def)
  have "merge_masks [0..<n] n (info(n := ?w)) = (\<lambda>q. if (q \<in> set [0..<n] \<and> mi_mac_addr ((info(n := ?w)) q) = macs n) \<or> (q = n \<and> (\<exists>i \<in> set [0..<n]. mi_mac_addr ((info(n := ?w)) i) = macs n))
    then \<lparr>mi_mac_addr = macs n, port_mask0 = ?m0 OR port_mask0 ((info(n := ?w)) n), port_mask1 = ?m1 OR port_mask1 ((info(n := ?w)) n)\<rparr> else (info(n := ?w)) q)"
  proof (rule merge_masks)
    have "port_mask0 (info j) = ?m0 \<and> port_mask1 (info j) = ?m1" if "j < n" "mi_mac_addr (info j) = macs n" for j
      using info_ok_masks [OF _ _ _ assms(2)] assms(1,4) that by metis
    moreover have "(info(n := ?w)) j = info j" if "j \<in> set [0..<n]" for j using that by (intro fun_upd_other) auto
    moreover have "j < n" if "j \<in> set [0..<n]" for j using that by simp
    ultimately show "\<forall>j \<in> set [0..<n]. mi_mac_addr ((info(n := ?w)) j) = macs n \<longrightarrow>
        port_mask0 ((info(n := ?w)) j) = ?m0 \<and> port_mask1 ((info(n := ?w)) j) = ?m1" by metis
  qed (use w in auto)
  moreover have "generate_port p en macs n info = merge_masks [0..<n] n (info(n := ?w))"
    using assms(3) by (simp add: generate_port_def enabled_bit)
  ultimately show ?thesis using assms(4) by (auto simp: fun_eq_iff)
qed

lemma generate_port_ok:
  assumes "\<forall>q < n. info_ok p en macs n q (info q)" "\<forall>q. bit en q \<longrightarrow> macs q \<noteq> 0"
  shows "\<forall>q < Suc n. info_ok p en macs (Suc n) q (generate_port p en macs n info q)"
proof (cases "bit en n")
  case False
  then show ?thesis using assms(1) by (auto simp: generate_port_def enabled_bit info_ok_def less_Suc_eq)
next
  case True
  let ?w = "fresh_info p macs n"
  let ?A = "\<lambda>q. q < n \<and> mi_mac_addr (info q) = macs n"
  have A: "?A q \<longleftrightarrow> q < n \<and> bit en q \<and> macs q = macs n" for q
    using assms True by (auto simp: info_ok_def split: if_splits)
  note w = fresh_info_bits [where n = n, OF bit_imp_le_length [OF True, simplified]]
  show ?thesis
  proof (cases "\<exists>i. ?A i")
    case ex: True
    then obtain i where i: "?A i" by blast
    let ?m0 = "port_mask0 (info i)" and ?m1 = "port_mask1 (info i)"
    let ?x = "\<lparr>mi_mac_addr = macs n, port_mask0 = ?m0 OR port_mask0 ?w, port_mask1 = ?m1 OR port_mask1 ?w\<rparr>"
    have m: "bit ?m0 q \<longleftrightarrow> ?A q \<and> q < NS_PLATFORM_NUM_PORTS_PER_MAC_0 p" "bit ?m1 q \<longleftrightarrow> ?A q \<and> NS_PLATFORM_NUM_PORTS_PER_MAC_0 p \<le> q" for q
      using assms(1) i A [of i] A [of q] by (auto simp: info_ok_def)
    have "info_ok p en macs (Suc n) q ?x" if "?A q \<or> q = n" for q
      using that A [of q] True unfolding info_ok_def by (auto simp: bit_or_iff m w A less_Suc_eq simp del: if_split)
    moreover have "info_ok p en macs (Suc n) q (info q)" if "q < n" "\<not> ?A q" for q
      using that A [of q] assms(1) True by (auto simp: info_ok_def less_Suc_eq)
    ultimately show ?thesis using generate_port_merged [OF assms True i] by (auto simp: less_Suc_eq)
  next
    case none: False
    have "info_ok p en macs (Suc n) n ?w" using True none A unfolding info_ok_def by (auto simp: w less_Suc_eq simp del: if_split)
    moreover have "info_ok p en macs (Suc n) q (info q)" if "q < n" for q
      using that none A [of q] assms(1) True by (auto simp: info_ok_def less_Suc_eq)
    ultimately show ?thesis using generate_port_fresh [where info = info and macs = macs, OF True none] by (auto simp: less_Suc_eq)
  qed
qed

lemma generate_ok:
  assumes "\<forall>q. bit en q \<longrightarrow> macs q \<noteq> 0" "port < NS_PLATFORM_NUM_PORTS p"
  shows "info_ok p en macs (NS_PLATFORM_NUM_PORTS p) port (generate_mac_match_info p en info macs port)"
proof -
  have "\<forall>q < n. info_ok p en macs n q (fold (generate_port p en macs) [0..<n] info q)" for n
    by (induction n) (simp, use generate_port_ok [OF _ assms(1)] in simp)
  then show ?thesis using assms(2) by (simp add: generate_mac_match_info_def)
qed

section \<open>The update as a function on the abstract tables\<close>

type_synonym mm_maps = "nat \<Rightarrow> u64 \<Rightarrow> u16 option"

definition put_mac :: "nat \<Rightarrow> u64 \<Rightarrow> u16 option \<Rightarrow> mm_maps \<Rightarrow> mm_maps" where
  "put_mac nbi a r m = m(nbi := (m nbi)(a := r))"

text \<open>A step returns, keeps the invariant of the table, and if no error has
  occurred up to its end has the effect \<open>f\<close> on the maps; the maps of other NBIs
  do not change.\<close>

definition refines :: "nbi_env \<Rightarrow> cls_env \<Rightarrow> ctmrn_state \<Rightarrow> (mm_step \<Rightarrow> mm_step option) \<Rightarrow> (mm_maps \<Rightarrow> mm_maps) \<Rightarrow> bool" where
  "refines e ce cs step f \<longleftrightarrow> (\<forall>err hs. mac_match_inv e hs \<and> (err = 0 \<or> err = - 1) \<longrightarrow>
     (\<exists>err' hs'. step (err, hs) = Some (err', hs') \<and> mac_match_inv e hs' \<and> (err' = 0 \<or> err' = - 1) \<and>
        (err' = 0 \<longrightarrow> err = 0 \<and> mac_match_map e ce cs hs' = f (mac_match_map e ce cs hs)) \<and>
        (\<forall>nbi \<ge> 2. mac_match_map e ce cs hs' nbi = mac_match_map e ce cs hs nbi)))"

lemma refines_skip: "refines e ce cs Some (\<lambda>m. m)"
  by (auto simp: refines_def)

lemma refines_bind:
  assumes "refines e ce cs s1 f1" "refines e ce cs s2 f2"
  shows "refines e ce cs (\<lambda>s. Option.bind (s1 s) s2) (\<lambda>m. f2 (f1 m))"
  unfolding refines_def
proof (intro allI impI)
  fix err :: int and hs assume pre: "mac_match_inv e hs \<and> (err = 0 \<or> err = - 1)"
  obtain err1 hs1 where 1: "s1 (err, hs) = Some (err1, hs1)" "mac_match_inv e hs1" "err1 = 0 \<or> err1 = - 1"
    "err1 = 0 \<longrightarrow> err = 0 \<and> mac_match_map e ce cs hs1 = f1 (mac_match_map e ce cs hs)"
    "\<forall>nbi \<ge> 2. mac_match_map e ce cs hs1 nbi = mac_match_map e ce cs hs nbi"
    using assms(1) pre unfolding refines_def by blast
  obtain err2 hs2 where 2: "s2 (err1, hs1) = Some (err2, hs2)" "mac_match_inv e hs2" "err2 = 0 \<or> err2 = - 1"
    "err2 = 0 \<longrightarrow> err1 = 0 \<and> mac_match_map e ce cs hs2 = f2 (mac_match_map e ce cs hs1)"
    "\<forall>nbi \<ge> 2. mac_match_map e ce cs hs2 nbi = mac_match_map e ce cs hs1 nbi"
    using assms(2) 1(2,3) unfolding refines_def by blast
  show "\<exists>err' hs'. Option.bind (s1 (err, hs)) s2 = Some (err', hs') \<and> mac_match_inv e hs' \<and> (err' = 0 \<or> err' = - 1) \<and>
        (err' = 0 \<longrightarrow> err = 0 \<and> mac_match_map e ce cs hs' = f2 (f1 (mac_match_map e ce cs hs))) \<and>
        (\<forall>nbi \<ge> 2. mac_match_map e ce cs hs' nbi = mac_match_map e ce cs hs nbi)"
    using 1 2 by (intro exI [of _ err2] exI [of _ hs2]) auto
qed

lemma refines_for:
  "(\<And>port. port \<in> set ports \<Longrightarrow> refines e ce cs (body port) (f port)) \<Longrightarrow> refines e ce cs (for_ports body ports) (fold f ports)"
proof (induction ports)
  case Nil
  show ?case using refines_skip [of e ce cs] by (simp add: refines_def)
next
  case (Cons port ports)
  then have "refines e ce cs (\<lambda>s. Option.bind (body port s) (for_ports body ports)) (\<lambda>m. fold f ports (f port m))"
    by (intro refines_bind) auto
  then show ?case by (simp add: refines_def)
qed

definition enc_mask :: "u8 \<Rightarrow> u16 option" where
  "enc_mask m = (if m = 0 then None else Some (push_bit 8 (ucast m)))"

lemma push_mask_nonzero: "m \<noteq> 0 \<Longrightarrow> push_bit 8 (ucast m) \<noteq> (0 :: u16)" for m :: u8
proof -
  assume "m \<noteq> 0"
  then obtain n where "bit m n" by (auto simp: bit_eq_iff)
  then have "bit (push_bit 8 (ucast m) :: u16) (n + 8)" by (auto simp: bit_push_bit_iff bit_ucast_iff dest: bit_imp_le_length)
  then show ?thesis by (metis bit_0_eq bot_apply bot_bool_def)
qed

lemma refines_add:
  assumes "nbi_stored e init" "tableset_stored e init'" "g \<longrightarrow> unat a < 2 ^ 48 \<and> m \<noteq> 0" "nbi < 2"
  shows "refines e ce cs (add_if e ce cs g nbi a m) (if g then put_mac nbi a (enc_mask m) else (\<lambda>m. m))"
proof (cases g)
  case True
  then have a: "unat a < 2 ^ 48" and m: "push_bit 8 (ucast m) \<noteq> (0 :: u16)" using assms(3) push_mask_nonzero by auto
  show ?thesis unfolding refines_def
  proof (intro allI impI)
    fix err :: int and hs assume pre: "mac_match_inv e hs \<and> (err = 0 \<or> err = - 1)"
    let ?full = "mac_match_map e ce cs hs nbi a = None \<and> loc_full (mm_loc e hs nbi (unat (catamaran_mac_match_hash_calc ce cs a)))"
    obtain hs' where h: "catamaran_mac_match_table_add e ce cs nbi a (push_bit 8 (ucast m)) hs = Some (if ?full then - 1 else 0, hs')"
      "mac_match_inv e hs'" "mac_match_map e ce cs hs' = (if ?full then mac_match_map e ce cs hs
       else (mac_match_map e ce cs hs)(nbi := (mac_match_map e ce cs hs nbi)(a \<mapsto> push_bit 8 (ucast m))))"
      using add_refines [OF assms(1,2) conjunct1 [OF pre] a m] by blast
    show "\<exists>err' hs'. add_if e ce cs g nbi a m (err, hs) = Some (err', hs') \<and> mac_match_inv e hs' \<and> (err' = 0 \<or> err' = - 1) \<and>
        (err' = 0 \<longrightarrow> err = 0 \<and> mac_match_map e ce cs hs' = (if g then put_mac nbi a (enc_mask m) else (\<lambda>m. m)) (mac_match_map e ce cs hs)) \<and>
        (\<forall>nbi \<ge> 2. mac_match_map e ce cs hs' nbi = mac_match_map e ce cs hs nbi)"
      using h True pre assms(3,4)
      by (intro exI [of _ "err OR (if ?full then - 1 else 0)"] exI [of _ hs']) (auto simp: add_if_def put_mac_def enc_mask_def)
  qed
qed (use refines_skip [of e ce cs] in \<open>simp add: refines_def add_if_def\<close>)

lemma refines_remove:
  assumes "nbi_stored e init" "tableset_stored e init'" "g \<longrightarrow> unat a < 2 ^ 48" "nbi < 2"
  shows "refines e ce cs (remove_if e ce cs g nbi a) (if g then put_mac nbi a None else (\<lambda>m. m))"
proof (cases g)
  case True
  then have a: "unat a < 2 ^ 48" using assms(3) by simp
  show ?thesis unfolding refines_def
  proof (intro allI impI)
    fix err :: int and hs assume pre: "mac_match_inv e hs \<and> (err = 0 \<or> err = - 1)"
    obtain rc hs' where h: "catamaran_mac_match_table_remove e ce cs nbi a hs = Some (rc, hs')" "mac_match_inv e hs'"
      "mac_match_map e ce cs hs' = (mac_match_map e ce cs hs)(nbi := (mac_match_map e ce cs hs nbi)(a := None))"
      using remove_refines [OF assms(1,2) conjunct1 [OF pre] a] by blast
    then show "\<exists>err' hs'. remove_if e ce cs g nbi a (err, hs) = Some (err', hs') \<and> mac_match_inv e hs' \<and> (err' = 0 \<or> err' = - 1) \<and>
        (err' = 0 \<longrightarrow> err = 0 \<and> mac_match_map e ce cs hs' = (if g then put_mac nbi a None else (\<lambda>m. m)) (mac_match_map e ce cs hs)) \<and>
        (\<forall>nbi \<ge> 2. mac_match_map e ce cs hs' nbi = mac_match_map e ce cs hs nbi)"
      using True pre assms(4) by (intro exI [of _ err] exI [of _ hs']) (auto simp: remove_if_def put_mac_def)
  qed
qed (use refines_skip [of e ce cs] in \<open>simp add: refines_def remove_if_def\<close>)

section \<open>The maps that an information asks for\<close>

definition mask_of :: "nat \<Rightarrow> mac_match_info \<Rightarrow> u8" where
  "mask_of nbi i = (if nbi = 0 then port_mask0 i else port_mask1 i)"

definition want :: "nat \<Rightarrow> mac_infos \<Rightarrow> mm_maps" where
  "want n info nbi a = (case find (\<lambda>i. a = mi_mac_addr (info i)) [0..<n] of None \<Rightarrow> None | Some i \<Rightarrow> enc_mask (mask_of nbi (info i)))"

text \<open>Ports with the same address have the same masks, and exactly the disabled
  ports have the address zero and no mask.\<close>

definition wf_infos :: "nat \<Rightarrow> mac_infos \<Rightarrow> bool" where
  "wf_infos n info \<longleftrightarrow> (\<forall>p < n. unat (mi_mac_addr (info p)) < 2 ^ 48 \<and>
       (mi_mac_addr (info p) = 0 \<longleftrightarrow> port_mask0 (info p) = 0 \<and> port_mask1 (info p) = 0) \<and>
       (\<forall>q < n. mi_mac_addr (info p) = mi_mac_addr (info q) \<longrightarrow> info p = info q))"

lemma find_port_Some: "find P [0..<n] = Some i \<Longrightarrow> i < n \<and> P i"
  by (auto simp: find_Some_iff)

lemma find_port_None: "find P [0..<n] = None \<longleftrightarrow> (\<forall>i < n. \<not> P i)"
  by (auto simp: find_None_iff)

lemma want_at:
  assumes "wf_infos n info" "p < n"
  shows "want n info nbi (mi_mac_addr (info p)) = enc_mask (mask_of nbi (info p))"
proof (cases "find (\<lambda>i. mi_mac_addr (info p) = mi_mac_addr (info i)) [0..<n]")
  case None
  then show ?thesis using assms(2) unfolding find_port_None by blast
next
  case (Some i)
  then have "info p = info i" using find_port_Some [OF Some] assms unfolding wf_infos_def by blast
  then show ?thesis using Some by (simp add: want_def)
qed

lemma want_absent: "\<forall>i < n. a \<noteq> mi_mac_addr (info i) \<Longrightarrow> want n info nbi a = None"
  using find_port_None [of "\<lambda>i. a = mi_mac_addr (info i)" n] by (simp add: want_def)

text \<open>Bringing both tables in line at one address.\<close>

definition sync_mac :: "mm_maps \<Rightarrow> u64 \<Rightarrow> mm_maps \<Rightarrow> mm_maps" where
  "sync_mac w a m = put_mac 0 a (w 0 a) (put_mac 1 a (w 1 a) m)"

lemma put_mac_idem: "m nbi a = r \<Longrightarrow> put_mac nbi a r m = m"
  by (auto simp: put_mac_def)

lemma put_mac_comm: "put_mac 1 a r (put_mac 0 a r' m) = put_mac 0 a r' (put_mac 1 a r m)"
  by (simp add: put_mac_def fun_upd_twist)

lemma put_mac_get: "put_mac 0 a r m 1 = m 1" "put_mac 1 a r m 0 = m 0"
  by (simp_all add: put_mac_def)

lemma sync_existing:
  assumes "m 0 a = enc_mask o0" "m 1 a = enc_mask o1" "enc_mask m0 = w 0 a" "enc_mask m1 = w 1 a"
  shows "(if \<not> c_true m1 \<and> m1 \<noteq> o1 then put_mac 1 a None else (\<lambda>m. m))
     ((if \<not> c_true m0 \<and> m0 \<noteq> o0 then put_mac 0 a None else (\<lambda>m. m))
     ((if c_true m1 \<and> m1 \<noteq> o1 then put_mac 1 a (enc_mask m1) else (\<lambda>m. m))
     ((if c_true m0 \<and> m0 \<noteq> o0 then put_mac 0 a (enc_mask m0) else (\<lambda>m. m)) m))) = sync_mac w a m"
proof -
  have none: "\<not> c_true x \<Longrightarrow> None = enc_mask x" for x by (simp add: c_true_def enc_mask_def)
  have 1: "(if \<not> c_true m0 \<and> m0 \<noteq> o0 then put_mac 0 a None else (\<lambda>m. m))
      ((if c_true m0 \<and> m0 \<noteq> o0 then put_mac 0 a (enc_mask m0) else (\<lambda>m. m)) m') = put_mac 0 a (enc_mask m0) m'"
    if "m' 0 a = enc_mask o0" for m'
    using that put_mac_idem [of m' 0 a] none [of m0] by (cases "m0 = o0"; cases "c_true m0") simp_all
  have 2: "(if \<not> c_true m1 \<and> m1 \<noteq> o1 then put_mac 1 a None else (\<lambda>m. m))
      ((if c_true m1 \<and> m1 \<noteq> o1 then put_mac 1 a (enc_mask m1) else (\<lambda>m. m)) m') = put_mac 1 a (enc_mask m1) m'"
    if "m' 1 a = enc_mask o1" for m'
    using that put_mac_idem [of m' 1 a] none [of m1] by (cases "m1 = o1"; cases "c_true m1") simp_all
  have swap: "(if \<not> c_true m0 \<and> m0 \<noteq> o0 then put_mac 0 a None else (\<lambda>m. m)) ((if g then put_mac 1 a r else (\<lambda>m. m)) m') =
     (if g then put_mac 1 a r else (\<lambda>m. m)) ((if \<not> c_true m0 \<and> m0 \<noteq> o0 then put_mac 0 a None else (\<lambda>m. m)) m')" for g r m'
    by (simp add: put_mac_comm [unfolded One_nat_def])
  show ?thesis unfolding swap 1 [of m, OF assms(1)] using 2 [of "put_mac 0 a (enc_mask m0) m"] assms
    by (simp only: put_mac_get put_mac_comm sync_mac_def)
qed

lemma sync_new:
  assumes "m 0 a = None" "m 1 a = None" "enc_mask m0 = w 0 a" "enc_mask m1 = w 1 a"
  shows "(if c_true m1 then put_mac 1 a (enc_mask m1) else (\<lambda>m. m)) ((if c_true m0 then put_mac 0 a (enc_mask m0) else (\<lambda>m. m)) m) = sync_mac w a m"
proof -
  have "(if c_true x then put_mac nbi a (enc_mask x) else (\<lambda>m. m)) m' = put_mac nbi a (enc_mask x) m'" if "m' nbi a = None" for x nbi m'
    using that put_mac_idem [of m' nbi a None] by (simp add: c_true_def enc_mask_def)
  from this [of m 0 m0] this [of "put_mac 0 a (enc_mask m0) m" 1 m1] show ?thesis
    using assms by (simp only: put_mac_get put_mac_comm sync_mac_def)
qed

text \<open>The effect of one round of each loop on the maps, as far as the guards decide it.\<close>

definition abs_update :: "nat \<Rightarrow> mac_infos \<Rightarrow> mac_infos \<Rightarrow> nat \<Rightarrow> mm_maps \<Rightarrow> mm_maps" where
  "abs_update n old new port m =
    (let m0 = port_mask0 (new port); m1 = port_mask1 (new port); a = mi_mac_addr (new port)
     in if (\<not> c_true m0 \<and> \<not> c_true m1) \<or> (\<exists>i < port. a = mi_mac_addr (new i)) then m
        else case find (\<lambda>i. a = mi_mac_addr (old i)) [0..<n] of
            Some i \<Rightarrow> (if \<not> c_true m1 \<and> m1 \<noteq> port_mask1 (old i) then put_mac 1 a None else (\<lambda>m. m))
              ((if \<not> c_true m0 \<and> m0 \<noteq> port_mask0 (old i) then put_mac 0 a None else (\<lambda>m. m))
              ((if c_true m1 \<and> m1 \<noteq> port_mask1 (old i) then put_mac 1 a (enc_mask m1) else (\<lambda>m. m))
              ((if c_true m0 \<and> m0 \<noteq> port_mask0 (old i) then put_mac 0 a (enc_mask m0) else (\<lambda>m. m)) m)))
          | None \<Rightarrow> (if c_true m1 then put_mac 1 a (enc_mask m1) else (\<lambda>m. m)) ((if c_true m0 then put_mac 0 a (enc_mask m0) else (\<lambda>m. m)) m))"

definition abs_remove :: "nat \<Rightarrow> mac_infos \<Rightarrow> mac_infos \<Rightarrow> nat \<Rightarrow> mm_maps \<Rightarrow> mm_maps" where
  "abs_remove n old new port m =
    (let m0 = port_mask0 (old port); m1 = port_mask1 (old port); a = mi_mac_addr (old port)
     in if (\<not> c_true m0 \<and> \<not> c_true m1) \<or> (\<exists>i < port. a = mi_mac_addr (old i)) \<or> (\<exists>i < n. a = mi_mac_addr (new i)) then m
        else (if c_true m1 then put_mac 1 a None else (\<lambda>m. m)) ((if c_true m0 then put_mac 0 a None else (\<lambda>m. m)) m))"

lemma update_port_refines:
  assumes "nbi_stored e init" "tableset_stored e init'" "unat (mi_mac_addr (new port)) < 2 ^ 48"
  shows "refines e ce cs (update_port e ce cs p old new port) (abs_update (NS_PLATFORM_NUM_PORTS p) old new port)"
proof -
  let ?a = "mi_mac_addr (new port)" and ?m0 = "port_mask0 (new port)" and ?m1 = "port_mask1 (new port)" and ?n = "NS_PLATFORM_NUM_PORTS p"
  have add: "refines e ce cs (add_if e ce cs (c_true x \<and> g) nbi ?a x) (if c_true x \<and> g then put_mac nbi ?a (enc_mask x) else (\<lambda>m. m))"
    if "nbi < 2" for x g nbi
    by (rule refines_add [OF assms(1,2)]) (use that assms(3) in \<open>auto simp: c_true_def\<close>)
  have rem: "refines e ce cs (remove_if e ce cs g nbi ?a) (if g then put_mac nbi ?a None else (\<lambda>m. m))" if "nbi < 2" for g nbi
    by (rule refines_remove [OF assms(1,2)]) (use that assms(3) in auto)
  have guards: "\<not> (\<not> c_true ?m0 \<and> \<not> c_true ?m1)" "find (\<lambda>i. ?a = mi_mac_addr (new i)) [0..<port] = None"
    if "\<not> ((\<not> c_true ?m0 \<and> \<not> c_true ?m1) \<or> (\<exists>i < port. ?a = mi_mac_addr (new i)))"
    using that unfolding find_port_None by blast+
  consider (skip) "(\<not> c_true ?m0 \<and> \<not> c_true ?m1) \<or> (\<exists>i < port. ?a = mi_mac_addr (new i))"
    | (old) i where "\<not> ((\<not> c_true ?m0 \<and> \<not> c_true ?m1) \<or> (\<exists>i < port. ?a = mi_mac_addr (new i)))" "find (\<lambda>i. ?a = mi_mac_addr (old i)) [0..<?n] = Some i"
    | (new) "\<not> ((\<not> c_true ?m0 \<and> \<not> c_true ?m1) \<or> (\<exists>i < port. ?a = mi_mac_addr (new i)))" "find (\<lambda>i. ?a = mi_mac_addr (old i)) [0..<?n] = None"
    by (cases "find (\<lambda>i. ?a = mi_mac_addr (old i)) [0..<?n]") blast+
  then show ?thesis
  proof cases
    case skip
    then have "update_port e ce cs p old new port = Some" "abs_update ?n old new port = (\<lambda>m. m)"
      by (auto simp: update_port_def abs_update_def find_port_None fun_eq_iff Let_def)
    then show ?thesis using refines_skip by simp
  next
    case (old i)
    have "refines e ce cs (\<lambda>s. Option.bind (add_if e ce cs (c_true ?m0 \<and> ?m0 \<noteq> port_mask0 (old i)) 0 ?a ?m0 s) (\<lambda>s.
        Option.bind (add_if e ce cs (c_true ?m1 \<and> ?m1 \<noteq> port_mask1 (old i)) 1 ?a ?m1 s) (\<lambda>s.
        Option.bind (remove_if e ce cs (\<not> c_true ?m0 \<and> ?m0 \<noteq> port_mask0 (old i)) 0 ?a s)
          (remove_if e ce cs (\<not> c_true ?m1 \<and> ?m1 \<noteq> port_mask1 (old i)) 1 ?a))))
      (abs_update ?n old new port)"
      unfolding abs_update_def Let_def if_not_P [OF old(1)] old(2) option.case
      by (rule refines_bind [OF add refines_bind [OF add refines_bind [OF rem rem]]]) simp_all
    moreover have "update_port e ce cs p old new port = (\<lambda>s. Option.bind (add_if e ce cs (c_true ?m0 \<and> ?m0 \<noteq> port_mask0 (old i)) 0 ?a ?m0 s) (\<lambda>s.
        Option.bind (add_if e ce cs (c_true ?m1 \<and> ?m1 \<noteq> port_mask1 (old i)) 1 ?a ?m1 s) (\<lambda>s.
        Option.bind (remove_if e ce cs (\<not> c_true ?m0 \<and> ?m0 \<noteq> port_mask0 (old i)) 0 ?a s)
          (remove_if e ce cs (\<not> c_true ?m1 \<and> ?m1 \<noteq> port_mask1 (old i)) 1 ?a))))"
      by (rule ext) (simp add: update_port_def Let_def if_not_P [OF guards(1) [OF old(1)]] guards(2) [OF old(1)] old(2))
    ultimately show ?thesis by simp
  next
    case new
    have "refines e ce cs (\<lambda>s. Option.bind (add_if e ce cs (c_true ?m0 \<and> True) 0 ?a ?m0 s) (add_if e ce cs (c_true ?m1 \<and> True) 1 ?a ?m1))
      (abs_update ?n old new port)"
      unfolding abs_update_def Let_def if_not_P [OF new(1)] new(2) option.case
      using refines_bind [OF add [of 0 ?m0 True] add [of 1 ?m1 True]] by simp
    moreover have "update_port e ce cs p old new port = (\<lambda>s. Option.bind (add_if e ce cs (c_true ?m0 \<and> True) 0 ?a ?m0 s) (add_if e ce cs (c_true ?m1 \<and> True) 1 ?a ?m1))"
      by (rule ext) (simp add: update_port_def Let_def if_not_P [OF guards(1) [OF new(1)]] guards(2) [OF new(1)] new(2))
    ultimately show ?thesis by simp
  qed
qed

lemma remove_port_refines:
  assumes "nbi_stored e init" "tableset_stored e init'" "unat (mi_mac_addr (old port)) < 2 ^ 48"
  shows "refines e ce cs (remove_port e ce cs p old new port) (abs_remove (NS_PLATFORM_NUM_PORTS p) old new port)"
proof -
  let ?a = "mi_mac_addr (old port)" and ?m0 = "port_mask0 (old port)" and ?m1 = "port_mask1 (old port)" and ?n = "NS_PLATFORM_NUM_PORTS p"
  let ?skip = "(\<not> c_true ?m0 \<and> \<not> c_true ?m1) \<or> (\<exists>i < port. ?a = mi_mac_addr (old i)) \<or> (\<exists>i < ?n. ?a = mi_mac_addr (new i))"
  have rem: "refines e ce cs (remove_if e ce cs g nbi ?a) (if g then put_mac nbi ?a None else (\<lambda>m. m))" if "nbi < 2" for g nbi
    by (rule refines_remove [OF assms(1,2)]) (use that assms(3) in auto)
  show ?thesis
  proof (cases ?skip)
    case True
    then have "remove_port e ce cs p old new port = Some" "abs_remove ?n old new port = (\<lambda>m. m)"
      by (auto simp: remove_port_def abs_remove_def find_port_None fun_eq_iff Let_def)
    then show ?thesis using refines_skip by simp
  next
    case False
    then have g: "\<not> (\<not> c_true ?m0 \<and> \<not> c_true ?m1)" "find (\<lambda>i. ?a = mi_mac_addr (old i)) [0..<port] = None"
      "find (\<lambda>i. ?a = mi_mac_addr (new i)) [0..<?n] = None" unfolding find_port_None by blast+
    have "refines e ce cs (\<lambda>s. Option.bind (remove_if e ce cs (c_true ?m0) 0 ?a s) (remove_if e ce cs (c_true ?m1) 1 ?a)) (abs_remove ?n old new port)"
      unfolding abs_remove_def Let_def if_not_P [OF False] by (rule refines_bind [OF rem rem]) simp_all
    moreover have "remove_port e ce cs p old new port = (\<lambda>s. Option.bind (remove_if e ce cs (c_true ?m0) 0 ?a s) (remove_if e ce cs (c_true ?m1) 1 ?a))"
      by (rule ext) (simp add: remove_port_def Let_def if_not_P [OF g(1)] g(2,3))
    ultimately show ?thesis by simp
  qed
qed

lemma update_refines:
  assumes "nbi_stored e init" "tableset_stored e init'" "wf_infos (NS_PLATFORM_NUM_PORTS p) old" "wf_infos (NS_PLATFORM_NUM_PORTS p) new"
  defines "n \<equiv> NS_PLATFORM_NUM_PORTS p"
  shows "refines e ce cs (\<lambda>s. Option.bind (for_ports (update_port e ce cs p old new) [0..<n] s) (for_ports (remove_port e ce cs p old new) [0..<n]))
     (\<lambda>m. fold (abs_remove n old new) [0..<n] (fold (abs_update n old new) [0..<n] m))"
  unfolding n_def
  by (intro refines_bind refines_for update_port_refines [OF assms(1,2)] remove_port_refines [OF assms(1,2)])
    (use assms(3,4) in \<open>auto simp: wf_infos_def\<close>)

section \<open>The effect on the maps\<close>

lemma sync_mac_at: "sync_mac w a m nbi b = (if b = a \<and> nbi < 2 then w nbi a else m nbi b)"
  by (auto simp: sync_mac_def put_mac_def less_2_cases_iff)

lemma zero_masks:
  assumes "wf_infos n info" "p < n"
  shows "\<not> c_true (port_mask0 (info p)) \<and> \<not> c_true (port_mask1 (info p)) \<longleftrightarrow> mi_mac_addr (info p) = 0"
  using assms unfolding wf_infos_def c_true_def by blast

lemma abs_update_sync:
  assumes "wf_infos n old" "wf_infos n new" "port < n" "\<forall>nbi < 2. m nbi (mi_mac_addr (new port)) = want n old nbi (mi_mac_addr (new port))"
  shows "abs_update n old new port m = (if mi_mac_addr (new port) = 0 \<or> (\<exists>i < port. mi_mac_addr (new port) = mi_mac_addr (new i)) then m
     else sync_mac (want n new) (mi_mac_addr (new port)) m)"
proof -
  let ?a = "mi_mac_addr (new port)"
  have w: "enc_mask (port_mask0 (new port)) = want n new 0 ?a" "enc_mask (port_mask1 (new port)) = want n new 1 ?a"
    using want_at [OF assms(2,3)] by (simp_all add: mask_of_def)
  show ?thesis
  proof (cases "find (\<lambda>i. ?a = mi_mac_addr (old i)) [0..<n]")
    case None
    then have "m 0 ?a = None" "m 1 ?a = None" using assms(4) by (simp_all add: want_def)
    from sync_new [of m ?a, OF this, where w = "want n new", OF w] show ?thesis unfolding abs_update_def Let_def zero_masks [OF assms(2,3)] None option.case by presburger
  next
    case (Some i)
    then have "m 0 ?a = enc_mask (port_mask0 (old i))" "m 1 ?a = enc_mask (port_mask1 (old i))" using assms(4) by (simp_all add: want_def mask_of_def)
    from sync_existing [of m ?a, OF this, where w = "want n new", OF w] show ?thesis unfolding abs_update_def Let_def zero_masks [OF assms(2,3)] Some option.case by presburger
  qed
qed

lemma abs_update_all:
  assumes "wf_infos n old" "wf_infos n new" "\<forall>nbi < 2. m nbi = want n old nbi" "k \<le> n"
  shows "fold (abs_update n old new) [0..<k] m =
     (\<lambda>nbi a. if nbi < 2 \<and> a \<noteq> 0 \<and> (\<exists>i < k. a = mi_mac_addr (new i)) then want n new nbi a else m nbi a)"
  using assms(4)
proof (induction k)
  case 0
  then show ?case by simp
next
  case (Suc k)
  let ?m = "fold (abs_update n old new) [0..<k] m" and ?a = "mi_mac_addr (new k)"
  have IH: "?m nbi a = (if nbi < 2 \<and> a \<noteq> 0 \<and> (\<exists>i < k. a = mi_mac_addr (new i)) then want n new nbi a else m nbi a)" for nbi a
    using Suc by simp
  show ?case
  proof (cases "?a = 0 \<or> (\<exists>i < k. ?a = mi_mac_addr (new i))")
    case True
    then have "abs_update n old new k ?m = ?m" using zero_masks [OF assms(2), of k] Suc.prems by (auto simp: abs_update_def)
    then show ?thesis using IH True by (auto simp: fun_eq_iff less_Suc_eq)
  next
    case False
    then have "\<forall>nbi < 2. ?m nbi ?a = want n old nbi ?a" using IH assms(3) by auto
    then have "abs_update n old new k ?m = sync_mac (want n new) ?a ?m"
      using abs_update_sync [OF assms(1,2), of k ?m] False Suc.prems by simp
    then show ?thesis using IH False by (auto simp: fun_eq_iff less_Suc_eq sync_mac_at)
  qed
qed

lemma remove_both:
  assumes "m 0 a = enc_mask m0" "m 1 a = enc_mask m1"
  shows "(if c_true m1 then put_mac 1 a None else (\<lambda>m. m)) ((if c_true m0 then put_mac 0 a None else (\<lambda>m. m)) m) = sync_mac (\<lambda>_ _. None) a m"
proof -
  have "(if c_true x then put_mac nbi a None else (\<lambda>m. m)) m' = put_mac nbi a None m'" if "m' nbi a = enc_mask x" for x nbi m'
    using that put_mac_idem [of m' nbi a None] by (simp add: c_true_def enc_mask_def)
  from this [of m 0 m0] this [of "put_mac 0 a None m" 1 m1] show ?thesis
    using assms by (simp only: put_mac_get put_mac_comm sync_mac_def)
qed

lemma abs_remove_all:
  assumes "wf_infos n old" "\<forall>nbi < 2. \<forall>a. (\<forall>i < n. a \<noteq> mi_mac_addr (new i)) \<longrightarrow> m nbi a = want n old nbi a" "k \<le> n"
  shows "fold (abs_remove n old new) [0..<k] m =
     (\<lambda>nbi a. if nbi < 2 \<and> a \<noteq> 0 \<and> (\<exists>i < k. a = mi_mac_addr (old i)) \<and> (\<forall>i < n. a \<noteq> mi_mac_addr (new i)) then None else m nbi a)"
  using assms(3)
proof (induction k)
  case 0
  then show ?case by simp
next
  case (Suc k)
  let ?m = "fold (abs_remove n old new) [0..<k] m" and ?a = "mi_mac_addr (old k)"
  have IH: "?m nbi a = (if nbi < 2 \<and> a \<noteq> 0 \<and> (\<exists>i < k. a = mi_mac_addr (old i)) \<and> (\<forall>i < n. a \<noteq> mi_mac_addr (new i)) then None else m nbi a)" for nbi a
    using Suc by simp
  show ?case
  proof (cases "?a = 0 \<or> (\<exists>i < k. ?a = mi_mac_addr (old i)) \<or> (\<exists>i < n. ?a = mi_mac_addr (new i))")
    case True
    then have "abs_remove n old new k ?m = ?m" using zero_masks [OF assms(1), of k] Suc.prems by (auto simp: abs_remove_def)
    then show ?thesis using IH True by (auto simp: fun_eq_iff less_Suc_eq)
  next
    case False
    have "?m nbi ?a = enc_mask (mask_of nbi (old k))" if "nbi < 2" for nbi
      using IH [of nbi ?a] False assms(2) that want_at [OF assms(1), of k nbi] Suc.prems by auto
    from this [of 0] this [of 1] have "abs_remove n old new k ?m = sync_mac (\<lambda>_ _. None) ?a ?m"
      using zero_masks [OF assms(1), of k] Suc.prems remove_both [of ?m ?a "port_mask0 (old k)" "port_mask1 (old k)"]
      unfolding abs_remove_def Let_def by (simp add: mask_of_def if_not_P [OF False] del: One_nat_def)
    then show ?thesis using IH False by (auto simp: fun_eq_iff less_Suc_eq sync_mac_at)
  qed
qed

lemma want_zero:
  assumes "wf_infos n info"
  shows "want n info nbi 0 = None"
proof (cases "find (\<lambda>i. 0 = mi_mac_addr (info i)) [0..<n]")
  case (Some i)
  then have "i < n" "mi_mac_addr (info i) = 0" using find_port_Some [OF Some] by simp_all
  then have "mask_of nbi (info i) = 0" using assms unfolding wf_infos_def mask_of_def by auto
  then show ?thesis using Some by (simp add: want_def enc_mask_def)
qed (simp add: want_def)

lemma update_maps:
  assumes "wf_infos n old" "wf_infos n new" "\<forall>nbi < 2. m nbi = want n old nbi" "nbi < 2"
  shows "fold (abs_remove n old new) [0..<n] (fold (abs_update n old new) [0..<n] m) nbi = want n new nbi"
proof
  fix a
  let ?m = "fold (abs_update n old new) [0..<n] m"
  note 1 = abs_update_all [OF assms(1-3) order_refl]
  have "\<forall>nbi < 2. \<forall>a. (\<forall>i < n. a \<noteq> mi_mac_addr (new i)) \<longrightarrow> ?m nbi a = want n old nbi a" unfolding 1 using assms(3) by auto
  note 2 = abs_remove_all [OF assms(1) this order_refl]
  consider (zero) "a = 0" | (new) "a \<noteq> 0" "\<exists>i < n. a = mi_mac_addr (new i)" | (none) "a \<noteq> 0" "\<forall>i < n. a \<noteq> mi_mac_addr (new i)" by blast
  then show "fold (abs_remove n old new) [0..<n] ?m nbi a = want n new nbi a"
  proof cases
    case zero
    then show ?thesis unfolding 2 unfolding 1 using assms want_zero [OF assms(1)] want_zero [OF assms(2)] by auto
  next
    case new
    then show ?thesis unfolding 2 unfolding 1 using assms(4) by auto
  next
    case none
    then show ?thesis unfolding 2 unfolding 1 using assms(3,4) want_absent [OF none(2)] want_absent [of n a old] by auto
  qed
qed

lemma generate_wf:
  assumes "\<forall>q. bit en q \<longrightarrow> macs q \<noteq> 0 \<and> unat (macs q) < 2 ^ 48"
  shows "wf_infos (NS_PLATFORM_NUM_PORTS p) (generate_mac_match_info p en info macs)"
  unfolding wf_infos_def
proof (intro allI impI conjI)
  let ?n = "NS_PLATFORM_NUM_PORTS p" and ?g = "generate_mac_match_info p en info macs"
  have nz: "\<forall>q. bit en q \<longrightarrow> macs q \<noteq> 0" using assms by blast
  fix i assume i: "i < ?n"
  note ok = generate_ok [OF nz i, of info]
  show "unat (mi_mac_addr (?g i)) < 2 ^ 48" using ok assms by (auto simp: info_ok_def)
  show "mi_mac_addr (?g i) = 0 \<longleftrightarrow> port_mask0 (?g i) = 0 \<and> port_mask1 (?g i) = 0"
  proof (cases "bit en i")
    case True
    then have "bit (port_mask0 (?g i)) i \<or> bit (port_mask1 (?g i)) i" using ok i True
      unfolding info_ok_def by (cases "i < NS_PLATFORM_NUM_PORTS_PER_MAC_0 p") (blast, metis not_less)
    then have "\<not> (port_mask0 (?g i) = 0 \<and> port_mask1 (?g i) = 0)" by (metis bit_0_eq bot_apply bot_bool_def)
    moreover have "mi_mac_addr (?g i) \<noteq> 0" using ok True nz unfolding info_ok_def by simp
    ultimately show ?thesis by blast
  next
    case False
    then have "port_mask0 (?g i) = 0" "port_mask1 (?g i) = 0" using ok unfolding info_ok_def by (auto simp: bit_eq_iff)
    then show ?thesis using ok False unfolding info_ok_def by simp
  qed
  fix j assume j: "j < ?n" and same: "mi_mac_addr (?g i) = mi_mac_addr (?g j)"
  have "port_mask0 (?g i) = port_mask0 (?g j) \<and> port_mask1 (?g i) = port_mask1 (?g j)"
    by (rule info_ok_masks [OF ok generate_ok [OF nz j] same nz])
  then show "?g i = ?g j" using same by (intro mac_match_info.equality) simp_all
qed

lemma wf_infos_cong: "\<forall>i < n. f i = g i \<Longrightarrow> wf_infos n f = wf_infos n g"
  unfolding wf_infos_def by (intro iff_allI imp_cong) auto

lemma want_cong: "\<forall>i < n. f i = g i \<Longrightarrow> want n f = want n g"
proof (intro ext)
  fix nbi a assume h: "\<forall>i < n. f i = g i"
  then have c: "find (\<lambda>i. a = mi_mac_addr (f i)) [0..<n] = find (\<lambda>i. a = mi_mac_addr (g i)) [0..<n]"
    by (intro find_cong) auto
  show "want n f nbi a = want n g nbi a"
    unfolding want_def c using h find_port_Some [of "\<lambda>i. a = mi_mac_addr (g i)" n] by (auto split: option.split)
qed

section \<open>All channels of a board\<close>

lemma chan_aligned_check: "list_all (\<lambda>p. list_all (\<lambda>port. NS_PLATFORM_MAC_CHANNEL_LO p port mod 4 = 0) [0..<NS_PLATFORM_NUM_PORTS p]) platforms"
  by code_simp

lemma chan_aligned:
  assumes "platform_of ty = Some p" "port < NS_PLATFORM_NUM_PORTS p"
  shows "NS_PLATFORM_MAC_CHANNEL_LO p port mod 4 = 0"
  using chan_aligned_check platform_of_mem [OF assms(1)] assms(2) by (simp add: list_all_iff)

lemma fill_entries: "fill_entries port chans k entries = (\<lambda>i. if k \<le> i \<and> i < k + length chans
   then \<lparr>c2p_port = of_nat port, c2p_port_mode = CATAMARAN_CHAN_MODE_MAC_DA_MATCH\<rparr> else entries i)"
  by (induction chans arbitrary: k entries) (auto simp: fun_eq_iff)

lemma covered_port:
  assumes "lo mod 4 = 0"
  shows "covered lo (lo + 3) c \<longleftrightarrow> lo \<le> c \<and> c \<le> lo + 3"
proof -
  obtain k where "lo = 4 * k" using assms by auto
  then have "(lo + 3) div 8 = lo div 8" by presburger
  then have "c div 8 = lo div 8" if "lo \<le> c" "c \<le> lo + 3" using that by (metis div_le_mono order_antisym)
  then show ?thesis unfolding covered_def by blast
qed

definition chan_of_port :: "platform \<Rightarrow> nat \<Rightarrow> nat \<Rightarrow> bool" where
  "chan_of_port p port c \<longleftrightarrow> NS_PLATFORM_MAC_CHANNEL_LO p port \<le> c \<and> c \<le> NS_PLATFORM_MAC_CHANNEL_HI p port"

lemma init_port_step:
  assumes "nbi_stored e init" "tableset_stored e init'" "platform_of ty = Some p" "port < NS_PLATFORM_NUM_PORTS p" "c2p_agree e hs"
  shows "\<exists>entries' hs'. init_port e p port (entries, hs) = Some (entries', hs') \<and> c2p_agree e hs' \<and>
     (\<forall>nbi. \<forall>c < 128. c2p_tab e hs' nbi c = (if nbi = 0 \<and> chan_of_port p port c
        then \<lparr>c2p_port = of_nat port, c2p_port_mode = CATAMARAN_CHAN_MODE_MAC_DA_MATCH\<rparr> else c2p_tab e hs nbi c))"
proof -
  let ?lo = "NS_PLATFORM_MAC_CHANNEL_LO p port" and ?hi = "NS_PLATFORM_MAC_CHANNEL_HI p port"
  let ?es = "fill_entries port [?lo..<Suc ?hi] 0 entries"
  have ok: "?hi = ?lo + 3" "?hi \<le> 127" "NS_PLATFORM_MAC_CORE p port = 0" using port_ok [OF assms(3,4)] by (simp_all add: port_ok_def)
  have u: "unat (of_nat ?lo :: u32) = ?lo" "unat (of_nat ?hi :: u32) = ?hi" unfolding unat_of_nat using ok(1,2) by simp_all
  then have le: "(of_nat ?lo :: u32) \<le> of_nat ?hi" "unat (of_nat ?hi :: u32) < 128" using ok unfolding word_le_nat_alt u by simp_all
  have cov: "covered ?lo ?hi c \<longleftrightarrow> chan_of_port p port c" for c
    using covered_port [OF chan_aligned [OF assms(3,4)], of c] ok(1) by (simp add: chan_of_port_def)
  obtain hs' where h: "catamaran_chan2port_table_set e 0 (of_nat ?lo) (of_nat ?hi) ?es hs = Some hs'" "c2p_agree e hs'"
     "\<forall>nbi. \<forall>c < 128. c2p_tab e hs' nbi c = (if nbi = 0 \<and> covered ?lo ?hi c then ?es (c - ?lo) else c2p_tab e hs nbi c)"
    using set_result [OF assms(1,2) le assms(5), of 0 ?es] unfolding u by blast
  have "?es (c - ?lo) = \<lparr>c2p_port = of_nat port, c2p_port_mode = CATAMARAN_CHAN_MODE_MAC_DA_MATCH\<rparr>" if "chan_of_port p port c" for c
    using that ok(1) by (auto simp: fill_entries chan_of_port_def)
  then show ?thesis using h cov ok(3) unfolding init_port_def by (intro exI [of _ ?es] exI [of _ hs']) (auto simp del: upt_Suc)
qed

lemma for_ports_append: "for_ports body (xs @ ys) s = Option.bind (for_ports body xs s) (for_ports body ys)"
proof (induction xs arbitrary: s)
  case (Cons x xs)
  then show ?case by (cases "body x s") simp_all
qed simp

lemma port_unique:
  assumes "platform_of ty = Some p" "i < NS_PLATFORM_NUM_PORTS p" "j < NS_PLATFORM_NUM_PORTS p" "chan_of_port p i c" "chan_of_port p j c"
  shows "i = j"
  using ports_apart [OF assms(1,3), of i] ports_apart [OF assms(1,2), of j] assms(4,5)
  by (cases i j rule: linorder_cases) (auto simp: ports_apart_def chan_of_port_def)

section \<open>Properties\<close>

text \<open>At start, on every supported board, the initialisation of the
  channel-to-port table returns and maps every channel of every port to that
  port in the mode that matches the destination address; the two copies of the
  table agree, and channels that belong to no port are not changed.  No channel
  is missed: the ranges of the boards never cross a location of the table.\<close>

lemma chan2port_init:
  assumes "nbi_stored e init" "tableset_stored e init'" "platform_of ty = Some p" "c2p_agree e hs"
  shows "\<exists>hs'. init_catamaran_chan2port_table e p entries hs = Some hs' \<and> c2p_agree e hs' \<and>
     (\<forall>port < NS_PLATFORM_NUM_PORTS p. \<forall>c < 128. chan_of_port p port c \<longrightarrow>
        c2p_tab e hs' 0 c = \<lparr>c2p_port = of_nat port, c2p_port_mode = CATAMARAN_CHAN_MODE_MAC_DA_MATCH\<rparr>) \<and>
     (\<forall>nbi. \<forall>c < 128. nbi \<noteq> 0 \<or> (\<forall>port < NS_PLATFORM_NUM_PORTS p. \<not> chan_of_port p port c) \<longrightarrow> c2p_tab e hs' nbi c = c2p_tab e hs nbi c)"
proof -
  have "k \<le> NS_PLATFORM_NUM_PORTS p \<Longrightarrow> \<exists>entries' hs'. for_ports (init_port e p) [0..<k] (entries, hs) = Some (entries', hs') \<and> c2p_agree e hs' \<and>
     (\<forall>port < k. \<forall>c < 128. chan_of_port p port c \<longrightarrow>
        c2p_tab e hs' 0 c = \<lparr>c2p_port = of_nat port, c2p_port_mode = CATAMARAN_CHAN_MODE_MAC_DA_MATCH\<rparr>) \<and>
     (\<forall>nbi. \<forall>c < 128. nbi \<noteq> 0 \<or> (\<forall>port < k. \<not> chan_of_port p port c) \<longrightarrow> c2p_tab e hs' nbi c = c2p_tab e hs nbi c)" for k
  proof (induction k)
    case (Suc k)
    then have k: "k < NS_PLATFORM_NUM_PORTS p" by simp
    obtain es1 hs1 where 1: "for_ports (init_port e p) [0..<k] (entries, hs) = Some (es1, hs1)" "c2p_agree e hs1"
      "\<forall>port < k. \<forall>c < 128. chan_of_port p port c \<longrightarrow> c2p_tab e hs1 0 c = \<lparr>c2p_port = of_nat port, c2p_port_mode = CATAMARAN_CHAN_MODE_MAC_DA_MATCH\<rparr>"
      "\<forall>nbi. \<forall>c < 128. nbi \<noteq> 0 \<or> (\<forall>port < k. \<not> chan_of_port p port c) \<longrightarrow> c2p_tab e hs1 nbi c = c2p_tab e hs nbi c"
      using Suc.IH k by auto
    obtain es2 hs2 where 2: "init_port e p k (es1, hs1) = Some (es2, hs2)" "c2p_agree e hs2"
      "\<forall>nbi. \<forall>c < 128. c2p_tab e hs2 nbi c = (if nbi = 0 \<and> chan_of_port p k c
        then \<lparr>c2p_port = of_nat k, c2p_port_mode = CATAMARAN_CHAN_MODE_MAC_DA_MATCH\<rparr> else c2p_tab e hs1 nbi c)"
      using init_port_step [OF assms(1,2,3) k 1(2)] by blast
    have "port = k" if "port < k" "chan_of_port p port c" "chan_of_port p k c" for port c
      using port_unique [OF assms(3) _ k that(2,3)] that(1) k by simp
    then have "\<forall>port < Suc k. \<forall>c < 128. chan_of_port p port c \<longrightarrow> c2p_tab e hs2 0 c = \<lparr>c2p_port = of_nat port, c2p_port_mode = CATAMARAN_CHAN_MODE_MAC_DA_MATCH\<rparr>"
      using 1(3) 2(3) by (auto simp: less_Suc_eq)
    moreover have "\<forall>nbi. \<forall>c < 128. nbi \<noteq> 0 \<or> (\<forall>port < Suc k. \<not> chan_of_port p port c) \<longrightarrow> c2p_tab e hs2 nbi c = c2p_tab e hs nbi c"
      using 1(4) 2(3) by auto
    ultimately show ?case using 1(1) 2(1,2) by (auto simp: for_ports_append)
  qed (use assms(4) in auto)
  from this [OF order_refl] show ?thesis unfolding init_catamaran_chan2port_table_def by auto
qed

text \<open>C6. Updating the MAC match tables with the addresses of the enabled ports, all
  nonzero and of 48 bits, always returns.  The new information gives every enabled port its address and,
  per NBI, the mask of all enabled ports of that NBI with the same address.  If
  no error is returned and the tables matched the previous information, then
  afterwards the tables of both NBIs hold exactly the entries that the new
  information asks for: no stale address is left and none is missing.\<close>

theorem mac_match_update_exact:
  assumes "nbi_stored e init" "tableset_stored e init'" "mac_match_inv e hs"
    and "\<forall>q. bit en q \<longrightarrow> macs q \<noteq> 0 \<and> unat (macs q) < 2 ^ 48" "wf_infos (NS_PLATFORM_NUM_PORTS p) cur"
  shows "\<exists>err cur' hs'. update_catamaran_mac_match_table e ce cs p en macs temp cur hs = Some (err, cur', hs') \<and>
     mac_match_inv e hs' \<and> wf_infos (NS_PLATFORM_NUM_PORTS p) cur' \<and> (err = 0 \<or> err = - 1) \<and>
     (\<forall>port < NS_PLATFORM_NUM_PORTS p. info_ok p en macs (NS_PLATFORM_NUM_PORTS p) port (cur' port)) \<and>
     (err = 0 \<and> (\<forall>nbi < 2. mac_match_map e ce cs hs nbi = want (NS_PLATFORM_NUM_PORTS p) cur nbi) \<longrightarrow>
        (\<forall>nbi < 2. mac_match_map e ce cs hs' nbi = want (NS_PLATFORM_NUM_PORTS p) cur' nbi)) \<and>
     (\<forall>nbi \<ge> 2. mac_match_map e ce cs hs' nbi = mac_match_map e ce cs hs nbi)"
proof -
  let ?n = "NS_PLATFORM_NUM_PORTS p" and ?new = "generate_mac_match_info p en temp macs"
  let ?cur = "\<lambda>i. if i < ?n then ?new i else cur i"
  have nz: "\<forall>q. bit en q \<longrightarrow> macs q \<noteq> 0" using assms(4) by blast
  have wf: "wf_infos ?n ?new" by (rule generate_wf [OF assms(4)])
  have same: "wf_infos ?n ?cur = wf_infos ?n ?new" "want ?n ?cur = want ?n ?new" by (rule wf_infos_cong, simp, rule want_cong, simp)
  obtain err hs' where u: "mac_match_table_update e ce cs p cur ?new hs = Some (err, hs')" "mac_match_inv e hs'" "err = 0 \<or> err = - 1"
    "err = 0 \<longrightarrow> mac_match_map e ce cs hs' = fold (abs_remove ?n cur ?new) [0..<?n] (fold (abs_update ?n cur ?new) [0..<?n] (mac_match_map e ce cs hs))"
    "\<forall>nbi \<ge> 2. mac_match_map e ce cs hs' nbi = mac_match_map e ce cs hs nbi"
    using update_refines [OF assms(1,2,5) wf, of ce cs] assms(3) unfolding refines_def mac_match_table_update_def by blast
  have "update_catamaran_mac_match_table e ce cs p en macs temp cur hs = Some (err, ?cur, hs')"
    using u(1) by (simp add: update_catamaran_mac_match_table_def Let_def)
  moreover have "\<forall>port < ?n. info_ok p en macs ?n port (?cur port)" using generate_ok [OF nz] by simp
  moreover have "\<forall>nbi < 2. mac_match_map e ce cs hs' nbi = want ?n ?cur nbi"
    if "err = 0 \<and> (\<forall>nbi < 2. mac_match_map e ce cs hs nbi = want ?n cur nbi)"
    using update_maps [OF assms(5) wf] u(4) that unfolding same by simp
  ultimately show ?thesis using u(2,3,5) wf same(1) by blast
qed

theorem mac_match_update_exact_witness:
  "\<exists>err cur' hs'. update_catamaran_mac_match_table nbi_env_ex cls_env_ex ctmrn_state_ex HYDROGEN_4x10 3 (\<lambda>_. 0x154D0A0B0C)
       (\<lambda>_. \<lparr>mi_mac_addr = 1, port_mask0 = 1, port_mask1 = 1\<rparr>) (\<lambda>_. \<lparr>mi_mac_addr = 0, port_mask0 = 0, port_mask1 = 0\<rparr>) [] = Some (err, cur', hs') \<and>
     mac_match_inv nbi_env_ex hs' \<and> mi_mac_addr (cur' 0) = 0x154D0A0B0C \<and> bit (port_mask0 (cur' 0)) 1 \<and> mi_mac_addr (cur' 2) = 0"
proof -
  have "\<forall>q. bit (3 :: u8) q \<longrightarrow> (0x154D0A0B0C :: u64) \<noteq> 0 \<and> unat (0x154D0A0B0C :: u64) < 2 ^ 48" by simp
  moreover have "wf_infos (NS_PLATFORM_NUM_PORTS HYDROGEN_4x10) (\<lambda>_. \<lparr>mi_mac_addr = 0, port_mask0 = 0, port_mask1 = 0\<rparr>)"
    by (simp add: wf_infos_def)
  ultimately obtain err cur' hs' where h: "update_catamaran_mac_match_table nbi_env_ex cls_env_ex ctmrn_state_ex HYDROGEN_4x10 3 (\<lambda>_. 0x154D0A0B0C)
       (\<lambda>_. \<lparr>mi_mac_addr = 1, port_mask0 = 1, port_mask1 = 1\<rparr>) (\<lambda>_. \<lparr>mi_mac_addr = 0, port_mask0 = 0, port_mask1 = 0\<rparr>) [] = Some (err, cur', hs')"
    "mac_match_inv nbi_env_ex hs'" "\<forall>port < NS_PLATFORM_NUM_PORTS HYDROGEN_4x10. info_ok HYDROGEN_4x10 3 (\<lambda>_. 0x154D0A0B0C) (NS_PLATFORM_NUM_PORTS HYDROGEN_4x10) port (cur' port)"
    using mac_match_update_exact [OF nbi_stored_ex tableset_stored_ex mac_match_ex(1), of 3 "\<lambda>_. 0x154D0A0B0C"] by blast
  moreover have n: "NS_PLATFORM_NUM_PORTS HYDROGEN_4x10 = 4" "NS_PLATFORM_NUM_PORTS_PER_MAC_0 HYDROGEN_4x10 = 4"
    by (simp_all add: HYDROGEN_4x10_def NS_PLATFORM_NUM_PORTS_def)
  moreover have "bit (3 :: u8) 0" "bit (3 :: u8) 1" "\<not> bit (3 :: u8) 2" by code_simp+
  ultimately show ?thesis unfolding n info_ok_def by (intro exI [of _ err] exI [of _ cur'] exI [of _ hs']) auto
qed

end
