(* ===== verification/NicStats.thy ===== *)
theory NicStats
  imports NicLocal
begin

unbundle bit_operations_syntax

text \<open>
  The statistics of \<open>lib/nic_basic/_c/nic_stats.c\<close>.  The layout of the counters is
  generated by \<open>scripts/nic_stats.awk\<close> from \<open>lib/nic_basic/nic_stats.def\<close>; both are
  translated, so that the array \<open>__raw\<close> and the named fields of
  \<open>nic_stats_vnic_t\<close> are two views of a function from word indices to counters.
  What the MAC, the traffic manager and the packet counters return in one pass
  is a parameter (\<open>stats_input\<close>); every counter is read once in a pass.  Memory
  holds 64-bit words in the order that the transfer registers have, so the code
  exchanges the halves (\<open>swapw64\<close>) at every transfer.
\<close>

section \<open>The generated layout\<close>

definition nic_stats_def :: "string list" where
  "nic_stats_def = [
     ''rx'', ''rx_uc'', ''rx_mc'', ''rx_bc'',
     ''tx'', ''tx_uc'', ''tx_mc'', ''tx_bc'',
     ''rx_discards'', ''rx_discard_act'', ''rx_discard_addr'', ''rx_discard_mru'', ''rx_discard_pci'',
     ''rx_errors'', ''rx_error_veb'',
     ''tx_discards'', ''tx_discard_act'',
     ''tx_errors'', ''tx_error_lso'', ''tx_error_offset'', ''tx_error_mtu'', ''tx_error_pci'', ''tx_error_no_ctm'',
     ''rx_discard_mac_pkts'', ''rx_error_mac_pkts'', ''tx_discard_mac_pkts'', ''tx_error_mac_pkts'',
     ''error_pkt_stack'',
     ''bpf_pass'', ''bpf_discard'', ''bpf_tx'', ''bpf_abort'', ''bpf_redirect'']"

definition ends_with :: "string \<Rightarrow> string \<Rightarrow> bool" where
  "ends_with s suf \<longleftrightarrow> length suf \<le> length s \<and> drop (length s - length suf) s = suf"

text \<open>The mask and the name of a line of the definition file.\<close>

definition stat_mask :: "string \<Rightarrow> nat" where
  "stat_mask l = (if ends_with l ''_pkts'' then 1
     else if ends_with l ''_errors'' \<or> ends_with l ''_discards'' then 5
     else if ends_with l ''_bytes'' then 2 else 3)"

definition stat_name :: "string \<Rightarrow> string" where
  "stat_name l = (if ends_with l ''_pkts'' then take (length l - 5) l
     else if ends_with l ''_errors'' \<or> ends_with l ''_discards'' then l
     else if ends_with l ''_bytes'' then take (length l - 6) l else l)"

definition vnic_fields_of :: "string \<Rightarrow> string list" where
  "vnic_fields_of l =
    (if bit (stat_mask l) 2 then [stat_name l]
     else (if bit (stat_mask l) 0 then [stat_name l @ ''_pkts''] else []) @
          (if bit (stat_mask l) 1 then [stat_name l @ ''_bytes''] else []))"

definition NIC_STATS_QUEUE_COUNT :: nat where "NIC_STATS_QUEUE_COUNT = length nic_stats_def"
definition vnic_fields :: "string list" where "vnic_fields = concat (map vnic_fields_of nic_stats_def)"
definition NIC_STATS_VNIC_COUNT :: nat where "NIC_STATS_VNIC_COUNT = length vnic_fields"

fun pow2_at_least :: "nat \<Rightarrow> nat" where
  "pow2_at_least n = (if n \<le> 1 then 1 else 2 * pow2_at_least ((n + 1) div 2))"

definition NIC_STATS_VNIC_WORDS :: nat where "NIC_STATS_VNIC_WORDS = pow2_at_least NIC_STATS_VNIC_COUNT"

definition nic_stats_vnic_mask :: "nat \<Rightarrow> nat" where
  "nic_stats_vnic_mask i = stat_mask (nic_stats_def ! i) AND 3"

fun pos_of :: "string \<Rightarrow> string list \<Rightarrow> nat" where
  "pos_of s [] = 0"
| "pos_of s (x # xs) = (if x = s then 0 else Suc (pos_of s xs))"

text \<open>The index of a queue statistic and the word of a field of \<open>nic_stats_vnic_t\<close>.\<close>

definition qidx :: "string \<Rightarrow> nat" where "qidx s = pos_of s (map stat_name nic_stats_def)"
definition fld :: "string \<Rightarrow> nat" where "fld s = pos_of s vnic_fields"

section \<open>State\<close>

record mac_drops =
  md_rx_discards :: u64
  md_tx_discards :: u64
  md_rx_errors :: u64
  md_tx_errors :: u64

record nfd_qstats =
  q_rx_pkts :: u64
  q_rx_bytes :: u64
  q_tx_pkts :: u64
  q_tx_bytes :: u64

type_synonym vstats = "nat \<Rightarrow> u64"

text \<open>The places in a vNIC's BAR that the statistics are written to.\<close>

datatype bar_region = STATS_RX_DISCARDS | STATS_TX_DISCARDS | STATS_APP0_FRAMES | RXR_STATS nat | TXR_STATS nat

record stats_state =
  st_drops :: "nat \<Rightarrow> mac_drops"
  mac_stats :: "nat \<Rightarrow> nat \<Rightarrow> u64"
  stats_vnic :: "nat \<Rightarrow> nat \<Rightarrow> u64"
  stats_bar :: "nat \<Rightarrow> bar_region \<Rightarrow> nat \<Rightarrow> u64"

text \<open>The size in words of \<open>struct macstats_port_accum\<close>, the words of four of its
  fields, and the vNIC numbering are constants of other packages.\<close>

record stats_env =
  st_plat :: platform
  NVNICS :: nat
  st_maxqs :: "nat \<Rightarrow> nat"
  st_natq :: "nat \<Rightarrow> nat \<Rightarrow> nat"
  st_is_pf :: "nat \<Rightarrow> bool"
  st_pf :: "nat \<Rightarrow> nat"
  accum_words :: nat
  RxMacHeadDrop :: nat
  TxQueueDrop :: nat
  TxPIfOutErrors :: nat
  RxPIfInErrors :: nat
  mem_add64 :: "u64 \<Rightarrow> u64 \<Rightarrow> u64"

text \<open>What one pass reads: the accumulated MAC statistics and head drops of a port,
  the drop count of a traffic manager queue, and the packets and bytes that
  \<open>pkt_cntr_read_and_clr\<close> takes from a queue's counter.\<close>

record stats_input =
  in_accum :: "nat \<Rightarrow> nat \<Rightarrow> u64"
  in_head_drops :: "nat \<Rightarrow> u64"
  in_tmq :: "nat \<Rightarrow> nat \<Rightarrow> u32"
  in_pkts :: "nat \<Rightarrow> nat \<Rightarrow> u32"
  in_bytes :: "nat \<Rightarrow> nat \<Rightarrow> u64"

section \<open>MAC statistics\<close>

fun tmq_drops :: "stats_input \<Rightarrow> nat \<Rightarrow> nat list \<Rightarrow> mac_drops \<Rightarrow> mac_drops" where
  "tmq_drops inp mac [] d = d"
| "tmq_drops inp mac (i # is) d = tmq_drops inp mac is (d\<lparr>md_tx_discards := md_tx_discards d + ucast (in_tmq inp mac i)\<rparr>)"

text \<open>The loop over a block: \<open>ks\<close> are the words of the block; the result are the
  drops and the words to be written.\<close>

fun copy_words :: "stats_env \<Rightarrow> (nat \<Rightarrow> u64) \<Rightarrow> nat list \<Rightarrow> mac_drops \<Rightarrow> mac_drops \<times> u64 list" where
  "copy_words e read_block [] d = (d, [])"
| "copy_words e read_block (stat # stats) d =
    (if stat = RxMacHeadDrop e then let (d', ws) = copy_words e read_block stats d in (d', swapw64 (md_rx_discards d) # ws)
     else if stat = TxQueueDrop e then let (d', ws) = copy_words e read_block stats d in (d', swapw64 (md_tx_discards d) # ws)
     else let d = (if stat = TxPIfOutErrors e then d\<lparr>md_tx_errors := swapw64 (read_block stat)\<rparr>
                   else if stat = RxPIfInErrors e then d\<lparr>md_rx_errors := swapw64 (read_block stat)\<rparr> else d);
              (d', ws) = copy_words e read_block stats d
          in (d', read_block stat # ws))"

text \<open>The loop over blocks of 8 words; the last write is cut to the structure.\<close>

fun copy_blocks :: "stats_env \<Rightarrow> (nat \<Rightarrow> u64) \<Rightarrow> nat list \<Rightarrow> mac_drops \<Rightarrow> (nat \<Rightarrow> u64) \<Rightarrow> mac_drops \<times> (nat \<Rightarrow> u64)" where
  "copy_blocks e read_block [] d out = (d, out)"
| "copy_blocks e read_block (off # offs) d out =
    (let (d, write_block) = copy_words e read_block [off..<off + 8] d;
         sz = min 8 (accum_words e - off)
     in copy_blocks e read_block offs d (array_fill out off (take sz write_block)))"

definition mac_port_accumulate :: "stats_env \<Rightarrow> stats_input \<Rightarrow> nat \<Rightarrow> stats_state \<Rightarrow> stats_state" where
  "mac_port_accumulate e inp port s =
    (let channel = NS_PLATFORM_MAC_SERDES_LO (st_plat e) port;
         d = (st_drops s port)\<lparr>md_rx_discards := swapw64 (in_head_drops inp port)\<rparr>;
         d = tmq_drops inp (NS_PLATFORM_MAC (st_plat e) port)
               [NS_PLATFORM_NBI_TM_QID_LO (st_plat e) port..<Suc (NS_PLATFORM_NBI_TM_QID_HI (st_plat e) port)] d;
         (d, out) = copy_blocks e (in_accum inp port) (map ((*) 8) [0..<(accum_words e + 7) div 8]) d (mac_stats s channel)
     in s\<lparr>st_drops := (st_drops s)(port := d), mac_stats := (mac_stats s)(channel := out)\<rparr>)"

definition mac_stats_accumulate :: "stats_env \<Rightarrow> stats_input \<Rightarrow> stats_state \<Rightarrow> stats_state" where
  "mac_stats_accumulate e inp s = fold (mac_port_accumulate e inp) [0..<NS_PLATFORM_NUM_PORTS (st_plat e)] s"

section \<open>vNIC statistics\<close>

definition bump :: "string \<Rightarrow> u64 \<Rightarrow> vstats \<Rightarrow> vstats" where
  "bump f v s = s(fld f := s (fld f) + v)"

definition update_vnic_queue_stat :: "nat \<Rightarrow> u32 \<Rightarrow> u64 \<Rightarrow> nfd_qstats \<times> nat \<times> vstats \<Rightarrow> nfd_qstats \<times> nat \<times> vstats" where
  "update_vnic_queue_stat queue_stat pkts32 bytes st =
    (let (nfd, vnic_stat, vs) = st;
         pkts = ucast pkts32;
         (vnic_stat, vs) = (if bit (nic_stats_vnic_mask queue_stat) 0 then (vnic_stat + 1, vs(vnic_stat := vs vnic_stat + pkts)) else (vnic_stat, vs));
         (vnic_stat, vs) = (if bit (nic_stats_vnic_mask queue_stat) 1 then (vnic_stat + 1, vs(vnic_stat := vs vnic_stat + bytes)) else (vnic_stat, vs));
         rx = nfd\<lparr>q_rx_pkts := q_rx_pkts nfd + pkts, q_rx_bytes := q_rx_bytes nfd + bytes\<rparr>;
         tx = nfd\<lparr>q_tx_pkts := q_tx_pkts nfd + pkts, q_tx_bytes := q_tx_bytes nfd + bytes\<rparr>
     in if queue_stat = qidx ''rx'' then (rx, vnic_stat, bump ''rx_uc_bytes'' bytes (bump ''rx_uc_pkts'' pkts vs))
        else if queue_stat = qidx ''rx_bc'' \<or> queue_stat = qidx ''rx_mc'' then (rx, vnic_stat, bump ''rx_bytes'' bytes (bump ''rx_pkts'' pkts vs))
        else if queue_stat = qidx ''rx_uc'' \<or> queue_stat = qidx ''tx_uc'' then (nfd, vnic_stat, vs)
        else if queue_stat = qidx ''tx'' then (tx, vnic_stat, bump ''tx_uc_bytes'' bytes (bump ''tx_uc_pkts'' pkts vs))
        else if queue_stat = qidx ''tx_bc'' \<or> queue_stat = qidx ''tx_mc'' then (tx, vnic_stat, bump ''tx_bytes'' bytes (bump ''tx_pkts'' pkts vs))
        else if queue_stat = qidx ''rx_discard_act'' \<or> queue_stat = qidx ''rx_discard_addr'' \<or> queue_stat = qidx ''rx_discard_mru'' \<or>
                queue_stat = qidx ''rx_discard_pci'' \<or> queue_stat = qidx ''bpf_discard'' then (nfd, vnic_stat, bump ''rx_discards'' pkts vs)
        else if queue_stat = qidx ''rx_error_veb'' then (nfd, vnic_stat, bump ''tx_discards'' pkts (bump ''rx_errors'' pkts vs))
        else if queue_stat = qidx ''tx_discard_act'' then (nfd, vnic_stat, bump ''tx_discards'' pkts vs)
        else if queue_stat = qidx ''tx_error_lso'' \<or> queue_stat = qidx ''tx_error_pci'' \<or> queue_stat = qidx ''tx_error_mtu'' \<or>
                queue_stat = qidx ''tx_error_no_ctm'' \<or> queue_stat = qidx ''tx_error_offset'' then (nfd, vnic_stat, bump ''tx_errors'' pkts vs)
        else if queue_stat = qidx ''bpf_tx'' then (nfd, vnic_stat, bump ''tx_bytes'' bytes (bump ''tx_pkts'' pkts vs))
        else (nfd, vnic_stat, vs))"

text \<open>The loop over the counters of the queue \<open>q\<close>.\<close>

definition read_queue :: "stats_input \<Rightarrow> nat \<Rightarrow> nfd_qstats \<Rightarrow> vstats \<Rightarrow> nfd_qstats \<times> vstats" where
  "read_queue inp q nfd vs =
    (let (nfd, stat, vs) = fold (\<lambda>i. update_vnic_queue_stat i (in_pkts inp q i) (in_bytes inp q i)) [0..<NIC_STATS_QUEUE_COUNT] (nfd, 0, vs)
     in (nfd, vs))"

definition vnic_stats_remap :: "string \<Rightarrow> string \<Rightarrow> string \<Rightarrow> string \<Rightarrow> vstats \<Rightarrow> vstats" where
  "vnic_stats_remap dst_stat dst_total src_stat src_total vs =
    (let vs = (if vs (fld src_total) \<noteq> 0 then vs(fld src_total := vs (fld src_total) - vs (fld src_stat)) else vs);
         vs = (if vs (fld dst_total) \<noteq> 0 then vs(fld dst_total := vs (fld dst_total) + vs (fld src_stat)) else vs);
         vs = vs(fld dst_stat := vs (fld dst_stat) + vs (fld src_stat))
     in vs(fld src_stat := 0))"

definition nfd_zero :: nfd_qstats where
  "nfd_zero = \<lparr>q_rx_pkts = 0, q_rx_bytes = 0, q_tx_pkts = 0, q_tx_bytes = 0\<rparr>"

type_synonym bar_stats = "bar_region \<Rightarrow> nat \<Rightarrow> u64"

definition bar_add :: "stats_env \<Rightarrow> bar_region \<Rightarrow> u64 list \<Rightarrow> bar_stats \<Rightarrow> bar_stats" where
  "bar_add e r ws b = b(r := (\<lambda>k. if k < length ws then mem_add64 e (b r k) (ws ! k) else b r k))"

definition bar_write :: "bar_region \<Rightarrow> u64 list \<Rightarrow> bar_stats \<Rightarrow> bar_stats" where
  "bar_write r ws b = b(r := array_fill (b r) 0 ws)"

text \<open>One queue of a vNIC.\<close>

definition vnic_queue :: "stats_env \<Rightarrow> stats_input \<Rightarrow> nat \<Rightarrow> nat \<Rightarrow> vstats \<times> bar_stats \<Rightarrow> vstats \<times> bar_stats" where
  "vnic_queue e inp vid queue st =
    (let (vs, b) = st;
         (nfd_stats, vs) = read_queue inp (st_natq e vid queue) nfd_zero vs;
         b = bar_add e (RXR_STATS queue) [swapw64 (q_rx_pkts nfd_stats), swapw64 (q_rx_bytes nfd_stats)] b;
         b = bar_add e (TXR_STATS queue) [swapw64 (q_tx_pkts nfd_stats), swapw64 (q_tx_bytes nfd_stats)] b;
         vs = (if queue < 256
               then vnic_stats_remap ''tx_discard_act_bytes'' ''tx_discards'' ''rx_discard_act_bytes'' ''rx_discards''
                     (vnic_stats_remap ''tx_discard_act_pkts'' ''tx_discards'' ''rx_discard_act_pkts'' ''rx_discards'' vs)
               else vs)
     in (vs, b))"

text \<open>Bringing a counter up to a MAC total and adding the difference to another.\<close>

definition mac_delta :: "u64 \<Rightarrow> string \<Rightarrow> string \<Rightarrow> vstats \<Rightarrow> vstats" where
  "mac_delta mac_total f tot vs =
    (let delta = mac_total - vs (fld f) in bump tot delta (bump f delta vs))"

definition vnic_pf :: "stats_env \<Rightarrow> stats_input \<Rightarrow> (nat \<Rightarrow> mac_drops) \<Rightarrow> nat \<Rightarrow> vstats \<Rightarrow> vstats" where
  "vnic_pf e inp drops vid vs =
    (let port = st_pf e vid;
         (_, vs) = read_queue inp (256 + port) nfd_zero vs;
         vs = mac_delta (md_rx_discards (drops port)) ''rx_discard_mac_pkts'' ''rx_discards'' vs;
         vs = mac_delta (md_rx_errors (drops port)) ''rx_error_mac_pkts'' ''rx_errors'' vs;
         vs = mac_delta (md_tx_discards (drops port)) ''tx_discard_mac_pkts'' ''tx_discards'' vs
     in mac_delta (md_tx_errors (drops port)) ''tx_error_mac_pkts'' ''tx_errors'' vs)"

definition fields_swapped :: "vstats \<Rightarrow> string list \<Rightarrow> u64 list" where
  "fields_swapped vs fs = map (\<lambda>f. swapw64 (vs (fld f))) fs"

definition update_vnic_bar_stats :: "vstats \<Rightarrow> bar_stats \<Rightarrow> bar_stats" where
  "update_vnic_bar_stats vs b =
    (let b = bar_write STATS_RX_DISCARDS (fields_swapped vs [''rx_discards'', ''rx_errors'', ''rx_bytes'', ''rx_uc_bytes'', ''rx_mc_bytes'',
                ''rx_bc_bytes'', ''rx_pkts'', ''rx_mc_pkts'', ''rx_bc_pkts'']) b;
         b = bar_write STATS_TX_DISCARDS (fields_swapped vs [''tx_discards'', ''tx_errors'', ''tx_bytes'', ''tx_uc_bytes'', ''tx_mc_bytes'',
                ''tx_bc_bytes'', ''tx_pkts'', ''tx_mc_pkts'', ''tx_bc_pkts'']) b
     in bar_write STATS_APP0_FRAMES (fields_swapped vs [''bpf_pass_pkts'', ''bpf_pass_bytes'', ''bpf_discard_pkts'', ''bpf_discard_bytes'',
                ''bpf_tx_pkts'', ''bpf_tx_bytes'', ''bpf_abort_pkts'', ''bpf_abort_bytes'']) b)"

text \<open>Loading and storing the counters in blocks of 8 words.\<close>

definition load_vstats :: "(nat \<Rightarrow> u64) \<Rightarrow> vstats \<Rightarrow> vstats" where
  "load_vstats mem vs = fold (\<lambda>off vs. array_fill vs off (map (\<lambda>i. swapw64 (mem (off + i))) [0..<min 8 (NIC_STATS_VNIC_WORDS - off)]))
     (map ((*) 8) [0..<(NIC_STATS_VNIC_WORDS + 7) div 8]) vs"

definition store_vstats :: "vstats \<Rightarrow> (nat \<Rightarrow> u64) \<Rightarrow> (nat \<Rightarrow> u64)" where
  "store_vstats vs mem = fold (\<lambda>off mem. array_fill mem off (take (min 8 (NIC_STATS_VNIC_WORDS - off)) (map (\<lambda>i. swapw64 (vs (off + i))) [0..<8])))
     (map ((*) 8) [0..<(NIC_STATS_VNIC_WORDS + 7) div 8]) mem"

text \<open>One vNIC; \<open>_vnic_stats\<close> is shared and keeps its last value.\<close>

definition vnic_accumulate :: "stats_env \<Rightarrow> stats_input \<Rightarrow> nat \<Rightarrow> vstats \<times> stats_state \<Rightarrow> vstats \<times> stats_state" where
  "vnic_accumulate e inp vid st =
    (let (vs, s) = st;
         vs = load_vstats (stats_vnic s vid) vs;
         (vs, b) = fold (vnic_queue e inp vid) [0..<st_maxqs e vid] (vs, stats_bar s vid);
         vs = (if st_is_pf e vid then vnic_pf e inp (st_drops s) vid vs else vs);
         b = update_vnic_bar_stats vs b
     in (vs, s\<lparr>stats_vnic := (stats_vnic s)(vid := store_vstats vs (stats_vnic s vid)), stats_bar := (stats_bar s)(vid := b)\<rparr>))"

definition vnic_stats_accumulate :: "stats_env \<Rightarrow> stats_input \<Rightarrow> vstats \<times> stats_state \<Rightarrow> vstats \<times> stats_state" where
  "vnic_stats_accumulate e inp st = fold (vnic_accumulate e inp) [0..<NVNICS e] st"

text \<open>One round of \<open>nic_stats_loop\<close> after the alarm.\<close>

definition nic_stats_round :: "stats_env \<Rightarrow> stats_input \<Rightarrow> vstats \<times> stats_state \<Rightarrow> vstats \<times> stats_state" where
  "nic_stats_round e inp st = vnic_stats_accumulate e inp (fst st, mac_stats_accumulate e inp (snd st))"

section \<open>The layout evaluated\<close>

lemma layout:
  "NIC_STATS_QUEUE_COUNT = 33" "NIC_STATS_VNIC_COUNT = 58" "NIC_STATS_VNIC_WORDS = 64"
  "map nic_stats_vnic_mask [0..<33] = [3, 3, 3, 3, 3, 3, 3, 3, 1, 3, 3, 3, 3, 1, 3, 1, 3, 1, 3, 3, 3, 3, 3, 1, 1, 1, 1, 3, 3, 3, 3, 3, 3]"
  by code_simp+

lemma pos_of_nth: "distinct xs \<Longrightarrow> i < length xs \<Longrightarrow> pos_of (xs ! i) xs = i"
  by (induction xs arbitrary: i) (auto simp: nth_Cons split: nat.splits)

lemma pos_of_all: "distinct xs \<Longrightarrow> map (\<lambda>s. pos_of s xs) xs = [0..<length xs]"
  by (rule nth_equalityI) (simp_all add: pos_of_nth)

lemma vnic_fields_eval: "vnic_fields = [
     ''rx_pkts'', ''rx_bytes'', ''rx_uc_pkts'', ''rx_uc_bytes'', ''rx_mc_pkts'', ''rx_mc_bytes'', ''rx_bc_pkts'',
     ''rx_bc_bytes'', ''tx_pkts'', ''tx_bytes'', ''tx_uc_pkts'', ''tx_uc_bytes'', ''tx_mc_pkts'', ''tx_mc_bytes'',
     ''tx_bc_pkts'', ''tx_bc_bytes'', ''rx_discards'', ''rx_discard_act_pkts'', ''rx_discard_act_bytes'',
     ''rx_discard_addr_pkts'', ''rx_discard_addr_bytes'', ''rx_discard_mru_pkts'', ''rx_discard_mru_bytes'',
     ''rx_discard_pci_pkts'', ''rx_discard_pci_bytes'', ''rx_errors'', ''rx_error_veb_pkts'', ''rx_error_veb_bytes'',
     ''tx_discards'', ''tx_discard_act_pkts'', ''tx_discard_act_bytes'', ''tx_errors'', ''tx_error_lso_pkts'',
     ''tx_error_lso_bytes'', ''tx_error_offset_pkts'', ''tx_error_offset_bytes'', ''tx_error_mtu_pkts'',
     ''tx_error_mtu_bytes'', ''tx_error_pci_pkts'', ''tx_error_pci_bytes'', ''tx_error_no_ctm_pkts'',
     ''tx_error_no_ctm_bytes'', ''rx_discard_mac_pkts'', ''rx_error_mac_pkts'', ''tx_discard_mac_pkts'',
     ''tx_error_mac_pkts'', ''error_pkt_stack_pkts'', ''error_pkt_stack_bytes'', ''bpf_pass_pkts'', ''bpf_pass_bytes'',
     ''bpf_discard_pkts'', ''bpf_discard_bytes'', ''bpf_tx_pkts'', ''bpf_tx_bytes'', ''bpf_abort_pkts'',
     ''bpf_abort_bytes'', ''bpf_redirect_pkts'', ''bpf_redirect_bytes'']"
  by code_simp

lemma stat_names_eval: "map stat_name nic_stats_def = [
     ''rx'', ''rx_uc'', ''rx_mc'', ''rx_bc'', ''tx'', ''tx_uc'', ''tx_mc'', ''tx_bc'', ''rx_discards'',
     ''rx_discard_act'', ''rx_discard_addr'', ''rx_discard_mru'', ''rx_discard_pci'', ''rx_errors'', ''rx_error_veb'',
     ''tx_discards'', ''tx_discard_act'', ''tx_errors'', ''tx_error_lso'', ''tx_error_offset'', ''tx_error_mtu'',
     ''tx_error_pci'', ''tx_error_no_ctm'', ''rx_discard_mac'', ''rx_error_mac'', ''tx_discard_mac'', ''tx_error_mac'',
     ''error_pkt_stack'', ''bpf_pass'', ''bpf_discard'', ''bpf_tx'', ''bpf_abort'', ''bpf_redirect'']"
  by code_simp

lemma fld_all: "map fld vnic_fields = [0..<58]"
proof -
  have "distinct vnic_fields" "length vnic_fields = 58" by code_simp+
  then show ?thesis using pos_of_all [of vnic_fields] by (simp add: fld_def [abs_def])
qed

lemma qidx_all: "map qidx (map stat_name nic_stats_def) = [0..<33]"
proof -
  have "distinct (map stat_name nic_stats_def)" "length (map stat_name nic_stats_def) = 33" by code_simp+
  then show ?thesis using pos_of_all [of "map stat_name nic_stats_def"] by (simp add: qidx_def [abs_def])
qed

lemma upt_eval: "[0..<58] = [
     0, 1, 2, 3, 4, 5, 6, 7, 8, 9, 10, 11, 12, 13, 14, 15, 16, 17, 18, 19, 20, 21, 22, 23, 24, 25, 26, 27, 28, 29, 30,
     31, 32, 33, 34, 35, 36, 37, 38, 39, 40, 41, 42, 43, 44, 45, 46, 47, 48, 49, 50, 51, 52, 53, 54, 55, 56, 57]" "[0..<33] = [
     0, 1, 2, 3, 4, 5, 6, 7, 8, 9, 10, 11, 12, 13, 14, 15, 16, 17, 18, 19, 20, 21, 22, 23, 24, 25, 26, 27, 28, 29, 30,
     31, 32]"
  by (simp_all add: upt_rec)

lemma qidx_eval [simp]:
  "qidx ''rx'' = 0" "qidx ''rx_uc'' = 1" "qidx ''rx_mc'' = 2" "qidx ''rx_bc'' = 3" "qidx ''tx'' = 4" "qidx ''tx_uc'' = 5"
  "qidx ''tx_mc'' = 6" "qidx ''tx_bc'' = 7" "qidx ''rx_discard_act'' = 9" "qidx ''rx_discard_addr'' = 10"
  "qidx ''rx_discard_mru'' = 11" "qidx ''rx_discard_pci'' = 12" "qidx ''rx_error_veb'' = 14" "qidx ''tx_discard_act'' = 16"
  "qidx ''tx_error_lso'' = 18" "qidx ''tx_error_offset'' = 19" "qidx ''tx_error_mtu'' = 20" "qidx ''tx_error_pci'' = 21"
  "qidx ''tx_error_no_ctm'' = 22" "qidx ''bpf_discard'' = 29" "qidx ''bpf_tx'' = 30"
  using qidx_all [unfolded stat_names_eval upt_eval] by (simp_all only: list.map list.inject simp_thms)

lemma fld_eval [simp]:
  "fld ''rx_pkts'' = 0" "fld ''rx_bytes'' = 1" "fld ''rx_uc_pkts'' = 2" "fld ''rx_uc_bytes'' = 3" "fld ''rx_mc_pkts'' = 4"
  "fld ''rx_mc_bytes'' = 5" "fld ''rx_bc_pkts'' = 6" "fld ''rx_bc_bytes'' = 7" "fld ''tx_pkts'' = 8" "fld ''tx_bytes'' = 9"
  "fld ''tx_uc_pkts'' = 10" "fld ''tx_uc_bytes'' = 11" "fld ''tx_mc_pkts'' = 12" "fld ''tx_mc_bytes'' = 13"
  "fld ''tx_bc_pkts'' = 14" "fld ''tx_bc_bytes'' = 15" "fld ''rx_discards'' = 16" "fld ''rx_discard_act_pkts'' = 17"
  "fld ''rx_discard_act_bytes'' = 18" "fld ''rx_discard_addr_pkts'' = 19" "fld ''rx_discard_addr_bytes'' = 20"
  "fld ''rx_discard_mru_pkts'' = 21" "fld ''rx_discard_mru_bytes'' = 22" "fld ''rx_discard_pci_pkts'' = 23"
  "fld ''rx_discard_pci_bytes'' = 24" "fld ''rx_errors'' = 25" "fld ''rx_error_veb_pkts'' = 26"
  "fld ''rx_error_veb_bytes'' = 27" "fld ''tx_discards'' = 28" "fld ''tx_discard_act_pkts'' = 29"
  "fld ''tx_discard_act_bytes'' = 30" "fld ''tx_errors'' = 31" "fld ''tx_error_lso_pkts'' = 32"
  "fld ''tx_error_lso_bytes'' = 33" "fld ''tx_error_offset_pkts'' = 34" "fld ''tx_error_offset_bytes'' = 35"
  "fld ''tx_error_mtu_pkts'' = 36" "fld ''tx_error_mtu_bytes'' = 37" "fld ''tx_error_pci_pkts'' = 38"
  "fld ''tx_error_pci_bytes'' = 39" "fld ''tx_error_no_ctm_pkts'' = 40" "fld ''tx_error_no_ctm_bytes'' = 41"
  "fld ''rx_discard_mac_pkts'' = 42" "fld ''rx_error_mac_pkts'' = 43" "fld ''tx_discard_mac_pkts'' = 44"
  "fld ''tx_error_mac_pkts'' = 45" "fld ''error_pkt_stack_pkts'' = 46" "fld ''error_pkt_stack_bytes'' = 47"
  "fld ''bpf_pass_pkts'' = 48" "fld ''bpf_pass_bytes'' = 49" "fld ''bpf_discard_pkts'' = 50" "fld ''bpf_discard_bytes'' = 51"
  "fld ''bpf_tx_pkts'' = 52" "fld ''bpf_tx_bytes'' = 53" "fld ''bpf_abort_pkts'' = 54" "fld ''bpf_abort_bytes'' = 55"
  "fld ''bpf_redirect_pkts'' = 56" "fld ''bpf_redirect_bytes'' = 57"
  using fld_all [unfolded vnic_fields_eval upt_eval] by (simp_all only: list.map list.inject simp_thms)

lemma masks_eval:
  "i < 33 \<Longrightarrow> nic_stats_vnic_mask i = [3, 3, 3, 3, 3, 3, 3, 3, 1, 3, 3, 3, 3, 1, 3, 1, 3, 1, 3, 3, 3, 3, 3, 1, 1, 1, 1, 3, 3, 3, 3, 3, 3] ! i"
  using arg_cong [OF layout(4), of "\<lambda>xs. xs ! i"] by simp

end
