(* ===== verification/NicStatsSpec.thy ===== *)
theory NicStatsSpec
  imports NicStats
begin

unbundle bit_operations_syntax

text \<open>
  Correctness of the statistics: the sums of the totals over their parts are
  invariants of a round, the running index of the counter loop follows the
  generated layout, the MAC totals are taken over exactly, and the BAR shows
  what is stored.
\<close>

section \<open>The totals\<close>

definition totals_ok :: "vstats \<Rightarrow> bool" where
  "totals_ok vs \<longleftrightarrow>
     vs (fld ''rx_pkts'') = vs (fld ''rx_uc_pkts'') + vs (fld ''rx_mc_pkts'') + vs (fld ''rx_bc_pkts'') \<and>
     vs (fld ''rx_bytes'') = vs (fld ''rx_uc_bytes'') + vs (fld ''rx_mc_bytes'') + vs (fld ''rx_bc_bytes'') \<and>
     vs (fld ''tx_pkts'') = vs (fld ''tx_uc_pkts'') + vs (fld ''tx_mc_pkts'') + vs (fld ''tx_bc_pkts'') + vs (fld ''bpf_tx_pkts'') \<and>
     vs (fld ''tx_bytes'') = vs (fld ''tx_uc_bytes'') + vs (fld ''tx_mc_bytes'') + vs (fld ''tx_bc_bytes'') + vs (fld ''bpf_tx_bytes'') \<and>
     vs (fld ''rx_errors'') = vs (fld ''rx_error_veb_pkts'') + vs (fld ''rx_error_mac_pkts'') \<and>
     vs (fld ''tx_errors'') = vs (fld ''tx_error_lso_pkts'') + vs (fld ''tx_error_offset_pkts'') + vs (fld ''tx_error_mtu_pkts'') +
       vs (fld ''tx_error_pci_pkts'') + vs (fld ''tx_error_no_ctm_pkts'') + vs (fld ''tx_error_mac_pkts'')"

text \<open>The queue statistics that only name totals or MAC counters: the data path
  never counts them.\<close>

definition unused_stats :: "string list" where
  "unused_stats = [''rx_uc'', ''tx_uc'', ''rx_discards'', ''rx_errors'', ''tx_discards'', ''tx_errors'',
     ''rx_discard_mac'', ''rx_error_mac'', ''tx_discard_mac'', ''tx_error_mac'']"

definition unused_zero :: "stats_input \<Rightarrow> bool" where
  "unused_zero inp \<longleftrightarrow> (\<forall>q. \<forall>s \<in> set unused_stats. in_pkts inp q (qidx s) = 0 \<and> in_bytes inp q (qidx s) = 0)"

text \<open>The word of the first field of each queue statistic.\<close>

definition stat_offs :: "nat list" where
  "stat_offs = map (\<lambda>i. length (concat (map vnic_fields_of (take i nic_stats_def)))) [0..<34]"

lemma stat_offs_eval: "stat_offs = [0, 2, 4, 6, 8, 10, 12, 14, 16, 17, 19, 21, 23, 25, 26, 28, 29, 31, 32, 34, 36, 38, 40, 42, 43, 44, 45, 46, 48, 50, 52, 54, 56, 58]"
  by code_simp

lemma unused_qidx: "map qidx unused_stats = [1, 5, 8, 13, 15, 17, 23, 24, 25, 26]"
  using qidx_all [unfolded stat_names_eval upt_eval] by (simp add: unused_stats_def)

lemma mask_bits: "bit (3 :: nat) 0" "bit (3 :: nat) (Suc 0)" "bit (Suc 0) 0" "\<not> bit (Suc 0) (Suc 0)"
  by (simp_all add: bit_iff_odd)

lemmas stat_simps = mask_bits update_vnic_queue_stat_def masks_eval stat_offs_eval bump_def Let_def totals_ok_def

lemma stat_step:
  assumes "i < 33" "totals_ok vs" "i \<in> {1, 5, 8, 13, 15, 17, 23, 24, 25, 26} \<longrightarrow> p = 0 \<and> b = 0"
  shows "\<exists>nfd' vs'. update_vnic_queue_stat i p b (nfd, stat_offs ! i, vs) = (nfd', stat_offs ! Suc i, vs') \<and> totals_ok vs'"
proof -
  have "i \<in> set [0..<33]" using assms(1) by simp
  then have "i \<in> set [0, 1, 2, 3, 4, 5, 6, 7, 8, 9, 10, 11, 12, 13, 14, 15, 16, 17, 18, 19, 20, 21, 22, 23, 24, 25, 26, 27, 28, 29, 30, 31, 32]"
    unfolding upt_eval .
  then show ?thesis using assms(2,3) unfolding set_simps insert_iff empty_iff
    by (elim disjE) (simp_all add: stat_simps algebra_simps)
qed


lemma unused_zero_at:
  assumes "unused_zero inp"
  shows "i \<in> {1, 5, 8, 13, 15, 17, 23, 24, 25, 26} \<longrightarrow> in_pkts inp q i = 0 \<and> in_bytes inp q i = 0"
proof -
  have "i \<in> {1, 5, 8, 13, 15, 17, 23, 24, 25, 26} \<longleftrightarrow> i \<in> qidx ` set unused_stats"
    using arg_cong [OF unused_qidx, of set] by simp
  then show ?thesis using assms by (metis (no_types) unused_zero_def image_iff)
qed

lemma read_queue_ok:
  assumes "unused_zero inp" "totals_ok vs"
  shows "totals_ok (snd (read_queue inp q nfd vs))"
proof -
  let ?f = "\<lambda>i. update_vnic_queue_stat i (in_pkts inp q i) (in_bytes inp q i)"
  have "\<exists>nfd' vs'. fold ?f [0..<n] (nfd, 0, vs) = (nfd', stat_offs ! n, vs') \<and> totals_ok vs'" if "n \<le> 33" for n
    using that
  proof (induction n)
    case 0
    then show ?case using assms(2) by (simp add: stat_offs_eval)
  next
    case (Suc n)
    then obtain nfd1 vs1 where 1: "fold ?f [0..<n] (nfd, 0, vs) = (nfd1, stat_offs ! n, vs1)" "totals_ok vs1" by auto
    have n: "n < 33" using Suc.prems by simp
    obtain nfd2 vs2 where "?f n (nfd1, stat_offs ! n, vs1) = (nfd2, stat_offs ! Suc n, vs2)" "totals_ok vs2"
      using stat_step [OF n 1(2) unused_zero_at [OF assms(1)], where nfd = nfd1] by blast
    then show ?case using 1 by simp
  qed
  from this [of 33] show ?thesis unfolding read_queue_def layout(1) by auto
qed

lemma remap_ok: "totals_ok (vnic_stats_remap ''tx_discard_act_bytes'' ''tx_discards'' ''rx_discard_act_bytes'' ''rx_discards'' vs) = totals_ok vs"
  "totals_ok (vnic_stats_remap ''tx_discard_act_pkts'' ''tx_discards'' ''rx_discard_act_pkts'' ''rx_discards'' vs) = totals_ok vs"
  by (simp_all add: vnic_stats_remap_def totals_ok_def Let_def)

lemma vnic_queue_ok:
  assumes "unused_zero inp" "totals_ok (fst st)"
  shows "totals_ok (fst (vnic_queue e inp vid queue st))"
  using read_queue_ok [OF assms, of "st_natq e vid queue" nfd_zero] by (auto simp: vnic_queue_def Let_def remap_ok split: prod.splits)

lemma mac_delta_ok:
  "totals_ok vs \<Longrightarrow> totals_ok (mac_delta d ''rx_discard_mac_pkts'' ''rx_discards'' vs)"
  "totals_ok vs \<Longrightarrow> totals_ok (mac_delta d ''rx_error_mac_pkts'' ''rx_errors'' vs)"
  "totals_ok vs \<Longrightarrow> totals_ok (mac_delta d ''tx_discard_mac_pkts'' ''tx_discards'' vs)"
  "totals_ok vs \<Longrightarrow> totals_ok (mac_delta d ''tx_error_mac_pkts'' ''tx_errors'' vs)"
  by (simp_all add: mac_delta_def totals_ok_def bump_def Let_def algebra_simps)

lemma vnic_pf_ok: "unused_zero inp \<Longrightarrow> totals_ok vs \<Longrightarrow> totals_ok (vnic_pf e inp drops vid vs)"
  using read_queue_ok [of inp vs "256 + st_pf e vid" nfd_zero] by (auto simp: vnic_pf_def Let_def mac_delta_ok split: prod.splits)

section \<open>Loading and storing\<close>

lemma swapw64_swapw64 [simp]: "swapw64 (swapw64 x) = x"
proof -
  have d: "push_bit 32 x + drop_bit 32 x = (push_bit 32 x OR drop_bit 32 x)" for x :: u64
    by (rule disjunctive_add) (auto simp: bit_push_bit_iff bit_drop_bit_eq dest: bit_imp_le_length)
  show ?thesis unfolding swapw64_def d
    by (rule bit_word_eqI) (auto simp: bit_or_iff bit_push_bit_iff bit_drop_bit_eq dest: bit_imp_le_length)
qed

lemma blocks_of_64: "map ((*) 8) [0..<(NIC_STATS_VNIC_WORDS + 7) div 8] = [0, 8, 16, 24, 32, 40, 48, 56]"
  by (simp add: layout upt_rec)

lemma fill_8: "array_fill f off (map g [0..<8]) k = (if off \<le> k \<and> k < off + 8 then g (k - off) else f k)"
  by (auto simp: array_fill_def simp del: upt_rec_numeral)

lemma load_vstats: "k < 64 \<Longrightarrow> load_vstats mem vs k = swapw64 (mem k)"
  unfolding load_vstats_def blocks_of_64 by (simp add: layout fill_8 del: upt_rec_numeral)

lemma store_vstats: "k < 64 \<Longrightarrow> store_vstats vs mem k = swapw64 (vs k)"
  unfolding store_vstats_def blocks_of_64 by (simp add: layout fill_8 del: upt_rec_numeral)

text \<open>The counters of a vNIC as stored in memory.\<close>

definition stored_counters :: "stats_state \<Rightarrow> nat \<Rightarrow> vstats" where
  "stored_counters s vid k = swapw64 (stats_vnic s vid k)"

lemma stored_cong: "stats_vnic s' vid = stats_vnic s vid \<Longrightarrow> stored_counters s' vid = stored_counters s vid"
  by (simp add: stored_counters_def fun_eq_iff)

lemma totals_ok_cong: "(\<And>k. k < 64 \<Longrightarrow> f k = g k) \<Longrightarrow> totals_ok f = totals_ok g"
  unfolding totals_ok_def by simp

text \<open>The counters of a PF that mirror the totals of its port's MAC.\<close>

definition mac_synced :: "mac_drops \<Rightarrow> vstats \<Rightarrow> bool" where
  "mac_synced d vs \<longleftrightarrow> vs (fld ''rx_discard_mac_pkts'') = md_rx_discards d \<and> vs (fld ''rx_error_mac_pkts'') = md_rx_errors d \<and>
     vs (fld ''tx_discard_mac_pkts'') = md_tx_discards d \<and> vs (fld ''tx_error_mac_pkts'') = md_tx_errors d"

lemma vnic_pf_synced: "mac_synced (drops (st_pf e vid)) (vnic_pf e inp drops vid vs)"
  by (simp add: vnic_pf_def mac_synced_def Let_def mac_delta_def bump_def split: prod.splits)

text \<open>The BAR regions hold the stored words of their fields.\<close>

definition rx_fields :: "string list" where
  "rx_fields = [''rx_discards'', ''rx_errors'', ''rx_bytes'', ''rx_uc_bytes'', ''rx_mc_bytes'', ''rx_bc_bytes'', ''rx_pkts'', ''rx_mc_pkts'', ''rx_bc_pkts'']"

definition tx_fields :: "string list" where
  "tx_fields = [''tx_discards'', ''tx_errors'', ''tx_bytes'', ''tx_uc_bytes'', ''tx_mc_bytes'', ''tx_bc_bytes'', ''tx_pkts'', ''tx_mc_pkts'', ''tx_bc_pkts'']"

definition app_fields :: "string list" where
  "app_fields = [''bpf_pass_pkts'', ''bpf_pass_bytes'', ''bpf_discard_pkts'', ''bpf_discard_bytes'',
     ''bpf_tx_pkts'', ''bpf_tx_bytes'', ''bpf_abort_pkts'', ''bpf_abort_bytes'']"

definition bar_shows :: "bar_stats \<Rightarrow> (nat \<Rightarrow> u64) \<Rightarrow> bool" where
  "bar_shows b mem \<longleftrightarrow> map (b STATS_RX_DISCARDS) [0..<9] = map (\<lambda>f. mem (fld f)) rx_fields \<and>
     map (b STATS_TX_DISCARDS) [0..<9] = map (\<lambda>f. mem (fld f)) tx_fields \<and>
     map (b STATS_APP0_FRAMES) [0..<8] = map (\<lambda>f. mem (fld f)) app_fields"

lemma fill_all: "length ws = n \<Longrightarrow> map (array_fill f 0 ws) [0..<n] = ws"
  by (rule nth_equalityI) (simp_all add: array_fill_def)

lemma update_bar_shows: "(\<And>k. k < 64 \<Longrightarrow> mem k = swapw64 (vs k)) \<Longrightarrow> bar_shows (update_vnic_bar_stats vs b) mem"
  unfolding bar_shows_def update_vnic_bar_stats_def Let_def rx_fields_def [symmetric] tx_fields_def [symmetric] app_fields_def [symmetric]
  by (simp add: bar_write_def fields_swapped_def fill_all rx_fields_def tx_fields_def app_fields_def del: upt_rec_numeral)

section \<open>One vNIC and one round\<close>

lemma queues_ok:
  assumes "unused_zero inp" "totals_ok (fst st)"
  shows "totals_ok (fst (fold (vnic_queue e inp vid) qs st))"
  using assms(2) by (induction qs arbitrary: st) (simp_all add: vnic_queue_ok [OF assms(1)])

lemma vnic_accumulate_one:
  fixes e inp vid vs s
  defines "s' \<equiv> snd (vnic_accumulate e inp vid (vs, s))"
  shows "unused_zero inp \<Longrightarrow> totals_ok (stored_counters s vid) \<Longrightarrow> totals_ok (stored_counters s' vid)"
    and "st_is_pf e vid \<Longrightarrow> mac_synced (st_drops s (st_pf e vid)) (stored_counters s' vid)"
    and "bar_shows (stats_bar s' vid) (stats_vnic s' vid)"
    and "st_drops s' = st_drops s" "mac_stats s' = mac_stats s"
    and "vid' \<noteq> vid \<Longrightarrow> stats_vnic s' vid' = stats_vnic s vid' \<and> stats_bar s' vid' = stats_bar s vid'"
proof -
  define vs1 where "vs1 = load_vstats (stats_vnic s vid) vs"
  define qb where "qb = fold (vnic_queue e inp vid) [0..<st_maxqs e vid] (vs1, stats_bar s vid)"
  define vs2 where "vs2 = (if st_is_pf e vid then vnic_pf e inp (st_drops s) vid (fst qb) else fst qb)"
  have s': "s' = s\<lparr>stats_vnic := (stats_vnic s)(vid := store_vstats vs2 (stats_vnic s vid)),
      stats_bar := (stats_bar s)(vid := update_vnic_bar_stats vs2 (snd qb))\<rparr>"
    unfolding s'_def vnic_accumulate_def vs2_def qb_def vs1_def by (simp add: Let_def split_def)
  then have st: "stats_vnic s' vid = store_vstats vs2 (stats_vnic s vid)" "stats_bar s' vid = update_vnic_bar_stats vs2 (snd qb)" by simp_all
  have cs: "stored_counters s' vid k = vs2 k" if "k < 64" for k
    using that by (simp add: stored_counters_def st(1) store_vstats)
  have c1: "totals_ok vs1 = totals_ok (stored_counters s vid)"
    unfolding vs1_def by (rule totals_ok_cong) (simp add: load_vstats stored_counters_def)
  have c2: "totals_ok (stored_counters s' vid) = totals_ok vs2" by (rule totals_ok_cong) (rule cs)
  show "totals_ok (stored_counters s' vid)" if "unused_zero inp" "totals_ok (stored_counters s vid)"
  proof -
    have "totals_ok (fst qb)" unfolding qb_def by (rule queues_ok [OF that(1)]) (use that(2) c1 in simp)
    then have "totals_ok vs2" unfolding vs2_def using vnic_pf_ok [OF that(1)] by simp
    then show ?thesis using c2 by simp
  qed
  show "mac_synced (st_drops s (st_pf e vid)) (stored_counters s' vid)" if "st_is_pf e vid"
  proof -
    have "mac_synced (st_drops s (st_pf e vid)) vs2" unfolding vs2_def using that vnic_pf_synced by simp
    then show ?thesis unfolding mac_synced_def using cs by simp
  qed
  show "bar_shows (stats_bar s' vid) (stats_vnic s' vid)"
    unfolding st(2) by (rule update_bar_shows) (simp add: st(1) store_vstats)
qed (simp_all add: s'_def vnic_accumulate_def Let_def split_def)

abbreviation after_vnics :: "stats_env \<Rightarrow> stats_input \<Rightarrow> nat list \<Rightarrow> vstats \<times> stats_state \<Rightarrow> stats_state" where
  "after_vnics e inp vids st \<equiv> snd (fold (vnic_accumulate e inp) vids st)"

lemma vnic_step_totals:
  assumes "unused_zero inp" "\<forall>v. totals_ok (stored_counters (snd st) v)"
  shows "\<forall>v. totals_ok (stored_counters (snd (vnic_accumulate e inp vid st)) v)"
proof
  fix v
  obtain vs s where st: "st = (vs, s)" by (cases st)
  show "totals_ok (stored_counters (snd (vnic_accumulate e inp vid st)) v)"
  proof (cases "v = vid")
    case True
    then show ?thesis using vnic_accumulate_one(1) [OF assms(1), of s vid e vs] assms(2) unfolding st by simp
  next
    case False
    then have "stored_counters (snd (vnic_accumulate e inp vid st)) v = stored_counters s v"
      using vnic_accumulate_one(6) [of v vid e inp vs s] unfolding st by (intro stored_cong) blast
    then show ?thesis using assms(2) unfolding st by simp
  qed
qed

lemma vnics_totals:
  assumes "unused_zero inp" "\<forall>v. totals_ok (stored_counters (snd st) v)"
  shows "\<forall>v. totals_ok (stored_counters (after_vnics e inp vids st) v)"
  by (rule fold_invariant [where P = "\<lambda>st. \<forall>v. totals_ok (stored_counters (snd st) v)" and Q = "\<lambda>_. True"])
    (use assms vnic_step_totals in auto)

lemma vnics_frame:
  "st_drops (after_vnics e inp vids st) = st_drops (snd st) \<and> mac_stats (after_vnics e inp vids st) = mac_stats (snd st)"
  by (rule fold_invariant [where P = "\<lambda>x. st_drops (snd x) = st_drops (snd st) \<and> mac_stats (snd x) = mac_stats (snd st)" and Q = "\<lambda>_. True"])
    (use vnic_accumulate_one(4,5) in auto)

lemma vnics_keep:
  "v \<notin> set vids \<Longrightarrow> stats_vnic (after_vnics e inp vids st) v = stats_vnic (snd st) v \<and> stats_bar (after_vnics e inp vids st) v = stats_bar (snd st) v"
  by (rule fold_invariant [where P = "\<lambda>x. stats_vnic (snd x) v = stats_vnic (snd st) v \<and> stats_bar (snd x) v = stats_bar (snd st) v" and Q = "\<lambda>w. w \<noteq> v"])
    (use vnic_accumulate_one(6) in auto)

text \<open>A vNIC that is processed once ends with its BAR and MAC counters in order.\<close>

lemma vnics_each:
  assumes "distinct vids" "v \<in> set vids"
  shows "bar_shows (stats_bar (after_vnics e inp vids st) v) (stats_vnic (after_vnics e inp vids st) v)"
    and "st_is_pf e v \<Longrightarrow> mac_synced (st_drops (snd st) (st_pf e v)) (stored_counters (after_vnics e inp vids st) v)"
proof -
  obtain xs ys where vids: "vids = xs @ v # ys" using assms(2) by (metis split_list)
  obtain vs s where st1: "fold (vnic_accumulate e inp) xs st = (vs, s)" by (metis surj_pair)
  let ?r = "vnic_accumulate e inp v (vs, s)"
  have last: "after_vnics e inp vids st = after_vnics e inp ys ?r" using st1 by (simp add: vids)
  have "v \<notin> set ys" using assms(1) vids by simp
  note keep = vnics_keep [OF this, of e inp ?r]
  have drops: "st_drops s = st_drops (snd st)" using vnics_frame [of e inp xs st] st1 by simp
  show "bar_shows (stats_bar (after_vnics e inp vids st) v) (stats_vnic (after_vnics e inp vids st) v)"
    unfolding last using keep vnic_accumulate_one(3) [of e inp v vs s] by simp
  show "mac_synced (st_drops (snd st) (st_pf e v)) (stored_counters (after_vnics e inp vids st) v)" if "st_is_pf e v"
    using vnic_accumulate_one(2) [OF that, of s inp vs] stored_cong [OF conjunct1 [OF keep]] unfolding last drops [symmetric] by simp
qed

section \<open>MAC statistics\<close>

definition mac_view :: "stats_env \<Rightarrow> (nat \<Rightarrow> u64) \<Rightarrow> mac_drops \<Rightarrow> nat \<Rightarrow> u64" where
  "mac_view e acc d k = (if k = RxMacHeadDrop e then swapw64 (md_rx_discards d) else if k = TxQueueDrop e then swapw64 (md_tx_discards d) else acc k)"

definition drops_seen :: "stats_env \<Rightarrow> (nat \<Rightarrow> u64) \<Rightarrow> nat set \<Rightarrow> mac_drops \<Rightarrow> mac_drops" where
  "drops_seen e acc ks d = d\<lparr>md_tx_errors := (if TxPIfOutErrors e \<in> ks then swapw64 (acc (TxPIfOutErrors e)) else md_tx_errors d),
     md_rx_errors := (if RxPIfInErrors e \<in> ks then swapw64 (acc (RxPIfInErrors e)) else md_rx_errors d)\<rparr>"

definition fields_distinct :: "stats_env \<Rightarrow> bool" where
  "fields_distinct e \<longleftrightarrow> distinct [RxMacHeadDrop e, TxQueueDrop e, TxPIfOutErrors e, RxPIfInErrors e] \<and>
     TxPIfOutErrors e < accum_words e \<and> RxPIfInErrors e < accum_words e"

lemma copy_words:
  assumes "fields_distinct e"
  shows "copy_words e acc ks d = (drops_seen e acc (set ks) d, map (mac_view e acc d) ks)"
proof (induction ks arbitrary: d)
  case Nil
  then show ?case by (simp add: drops_seen_def)
next
  case (Cons k ks)
  have same: "mac_view e acc (d\<lparr>md_tx_errors := x\<rparr>) = mac_view e acc d" "mac_view e acc (d\<lparr>md_rx_errors := x\<rparr>) = mac_view e acc d" for x
    by (simp_all add: mac_view_def fun_eq_iff)
  show ?case using assms by (auto simp: Cons.IH same fields_distinct_def drops_seen_def mac_view_def [of _ _ _ k] Let_def)
qed

lemma mac_view_seen [simp]: "mac_view e acc (drops_seen e acc ks d) = mac_view e acc d"
  by (simp add: mac_view_def drops_seen_def fun_eq_iff)

lemma drops_seen_union: "drops_seen e acc A (drops_seen e acc B d) = drops_seen e acc (B \<union> A) d"
  by (simp add: drops_seen_def)

lemma copy_blocks_append: "copy_blocks e acc (xs @ ys) d out = (let (d, out) = copy_blocks e acc xs d out in copy_blocks e acc ys d out)"
  by (induction xs arbitrary: d out) (simp_all add: Let_def split_def)

lemma copy_blocks:
  assumes "fields_distinct e" "8 * m \<le> accum_words e + 7"
  shows "copy_blocks e acc (map ((*) 8) [0..<m]) d out =
     (drops_seen e acc {..<8 * m} d, \<lambda>k. if k < min (accum_words e) (8 * m) then mac_view e acc d k else out k)"
  using assms(2)
proof (induction m)
  case 0
  then show ?case by (simp add: drops_seen_def)
next
  case (Suc m)
  have "{..<8 * m} \<union> set [8 * m..<8 * m + 8] = {..<8 * Suc m}" by auto
  moreover have "array_fill (\<lambda>k. if k < min (accum_words e) (8 * m) then v k else out k) (8 * m) (take (min 8 (accum_words e - 8 * m)) (map v [8 * m..<8 * m + 8])) =
      (\<lambda>k. if k < min (accum_words e) (8 * Suc m) then v k else out k)" for v
  proof
    fix k
    have "take (min 8 (accum_words e - 8 * m)) (map v [8 * m..<8 * m + 8]) ! (k - 8 * m) = v k" if "8 * m \<le> k" "k < 8 * m + min 8 (accum_words e - 8 * m)"
    proof -
      obtain j where "k = 8 * m + j" using \<open>8 * m \<le> k\<close> le_Suc_ex by blast
      then show ?thesis using that by (simp add: nth_take)
    qed
    then show "array_fill (\<lambda>k. if k < min (accum_words e) (8 * m) then v k else out k) (8 * m) (take (min 8 (accum_words e - 8 * m)) (map v [8 * m..<8 * m + 8])) k =
        (if k < min (accum_words e) (8 * Suc m) then v k else out k)"
      using Suc.prems by (auto simp: array_fill_def)
  qed
  ultimately show ?case using Suc by (simp add: copy_blocks_append copy_words [OF assms(1)] drops_seen_union Let_def)
qed

lemma tmq_drops: "tmq_drops inp mac qs d = d\<lparr>md_tx_discards := md_tx_discards d + (\<Sum>q\<leftarrow>qs. ucast (in_tmq inp mac q))\<rparr>"
  by (induction qs arbitrary: d) (simp_all add: algebra_simps)

text \<open>The drops of a port after a pass.\<close>

definition port_drops :: "stats_env \<Rightarrow> stats_input \<Rightarrow> nat \<Rightarrow> mac_drops \<Rightarrow> mac_drops" where
  "port_drops e inp port d = \<lparr>md_rx_discards = swapw64 (in_head_drops inp port),
     md_tx_discards = md_tx_discards d + (\<Sum>q\<leftarrow>[NS_PLATFORM_NBI_TM_QID_LO (st_plat e) port..<Suc (NS_PLATFORM_NBI_TM_QID_HI (st_plat e) port)].
       ucast (in_tmq inp (NS_PLATFORM_MAC (st_plat e) port) q)),
     md_rx_errors = swapw64 (in_accum inp port (RxPIfInErrors e)), md_tx_errors = swapw64 (in_accum inp port (TxPIfOutErrors e))\<rparr>"

lemma mac_port:
  assumes "fields_distinct e"
  shows "mac_port_accumulate e inp port s = s\<lparr>st_drops := (st_drops s)(port := port_drops e inp port (st_drops s port)),
     mac_stats := (mac_stats s)(NS_PLATFORM_MAC_SERDES_LO (st_plat e) port := (\<lambda>k. if k < accum_words e
       then mac_view e (in_accum inp port) (port_drops e inp port (st_drops s port)) k
       else mac_stats s (NS_PLATFORM_MAC_SERDES_LO (st_plat e) port) k))\<rparr>"
proof -
  let ?m = "(accum_words e + 7) div 8"
  have m: "8 * ?m \<le> accum_words e + 7" "accum_words e \<le> 8 * ?m" by simp_all
  then have f: "TxPIfOutErrors e < 8 * ?m" "RxPIfInErrors e < 8 * ?m" using assms by (auto simp: fields_distinct_def)
  let ?acc = "in_accum inp port" and ?pd = "port_drops e inp port (st_drops s port)"
  let ?d1 = "tmq_drops inp (NS_PLATFORM_MAC (st_plat e) port) [NS_PLATFORM_NBI_TM_QID_LO (st_plat e) port..<Suc (NS_PLATFORM_NBI_TM_QID_HI (st_plat e) port)]
    ((st_drops s port)\<lparr>md_rx_discards := swapw64 (in_head_drops inp port)\<rparr>)"
  have seen: "drops_seen e ?acc {..<8 * ?m} ?d1 = ?pd"
    unfolding tmq_drops port_drops_def using f by (cases "st_drops s port") (simp add: drops_seen_def del: upt_Suc)
  then have view: "mac_view e ?acc ?d1 = mac_view e ?acc ?pd" by (metis mac_view_seen)
  show ?thesis
    unfolding mac_port_accumulate_def Let_def copy_blocks [OF assms m(1)] min_absorb1 [OF m(2)] seen view by simp
qed

lemma serdes_inj:
  assumes "platform_of ty = Some p" "i < NS_PLATFORM_NUM_PORTS p" "j < NS_PLATFORM_NUM_PORTS p"
    "NS_PLATFORM_MAC_SERDES_LO p i = NS_PLATFORM_MAC_SERDES_LO p j"
  shows "i = j"
  using port_ok [OF assms(1,2)] port_ok [OF assms(1,3)] assms(4) unfolding port_ok_def by metis

lemma mac_stats_all:
  assumes "fields_distinct e" "platform_of ty = Some (st_plat e)" "n \<le> NS_PLATFORM_NUM_PORTS (st_plat e)"
  shows "\<forall>port. st_drops (fold (mac_port_accumulate e inp) [0..<n] s) port = (if port < n then port_drops e inp port (st_drops s port) else st_drops s port)"
    and "\<forall>port < n. \<forall>k < accum_words e. mac_stats (fold (mac_port_accumulate e inp) [0..<n] s) (NS_PLATFORM_MAC_SERDES_LO (st_plat e) port) k =
       mac_view e (in_accum inp port) (port_drops e inp port (st_drops s port)) k"
    and "stats_vnic (fold (mac_port_accumulate e inp) [0..<n] s) = stats_vnic s"
  using assms(3)
proof (induction n)
  case (Suc n)
  let ?s = "fold (mac_port_accumulate e inp) [0..<n] s"
  have n: "n < NS_PLATFORM_NUM_PORTS (st_plat e)" "n \<le> NS_PLATFORM_NUM_PORTS (st_plat e)" if "Suc n \<le> NS_PLATFORM_NUM_PORTS (st_plat e)"
    using that by simp_all
  {
    case 1
    show ?case using Suc.IH(1) [OF n(2) [OF 1]] by (auto simp: mac_port [OF assms(1)])
  next
    case 2
    have "NS_PLATFORM_MAC_SERDES_LO (st_plat e) port \<noteq> NS_PLATFORM_MAC_SERDES_LO (st_plat e) n" if "port < n" for port
      using serdes_inj [OF assms(2), of port n] that n(1) [OF 2] by auto
    then show ?case using Suc.IH(1,2) [OF n(2) [OF 2]] by (auto simp: mac_port [OF assms(1)] less_Suc_eq)
  next
    case 3
    show ?case using Suc.IH(3) [OF n(2) [OF 3]] by (simp add: mac_port [OF assms(1)])
  }
qed simp_all

section \<open>Properties\<close>

text \<open>C10. The totals of every vNIC are the sums of their parts, and a statistics
  round keeps it so: received packets and bytes are unicast plus multicast plus
  broadcast, transmitted ones also include what the BPF program transmits, and
  receive and transmit errors are the sums of their causes with the MAC errors
  (all modulo two to the 64).  Assumed: the data path does not count the queue
  statistics that only name totals.\<close>

theorem stats_totals_invariant:
  assumes "unused_zero inp" "\<forall>vid. totals_ok (stored_counters (snd st) vid)" "fields_distinct e" "platform_of ty = Some (st_plat e)"
  shows "\<forall>vid. totals_ok (stored_counters (snd (nic_stats_round e inp st)) vid)"
proof -
  have "stored_counters (mac_stats_accumulate e inp (snd st)) = stored_counters (snd st)"
    using mac_stats_all(3) [OF assms(3,4) order_refl, of inp "snd st"] by (simp add: mac_stats_accumulate_def stored_counters_def fun_eq_iff)
  then show ?thesis unfolding nic_stats_round_def vnic_stats_accumulate_def using vnics_totals [OF assms(1)] assms(2) by simp
qed

text \<open>C26. What a statistics round publishes: the host table of MAC statistics
  holds the accumulated counters of each port with the two drop counters
  replaced by the head drops and the sum of the queue drops; the MAC counters of
  every PF vNIC equal the totals of its port; and the statistics in the BAR of
  every vNIC are the counters stored for it.\<close>

theorem stats_round_publishes:
  fixes e inp st
  assumes "fields_distinct e" "platform_of ty = Some (st_plat e)"
  defines "s' \<equiv> snd (nic_stats_round e inp st)"
  shows "(\<forall>port < NS_PLATFORM_NUM_PORTS (st_plat e). st_drops s' port = port_drops e inp port (st_drops (snd st) port) \<and>
       (\<forall>k < accum_words e. mac_stats s' (NS_PLATFORM_MAC_SERDES_LO (st_plat e) port) k = mac_view e (in_accum inp port) (st_drops s' port) k)) \<and>
     (\<forall>vid < NVNICS e. bar_shows (stats_bar s' vid) (stats_vnic s' vid) \<and>
       (st_is_pf e vid \<longrightarrow> mac_synced (st_drops s' (st_pf e vid)) (stored_counters s' vid)))"
proof -
  let ?m = "mac_stats_accumulate e inp (snd st)"
  have s': "s' = after_vnics e inp [0..<NVNICS e] (fst st, ?m)"
    by (simp add: s'_def nic_stats_round_def vnic_stats_accumulate_def)
  have fr: "st_drops s' = st_drops ?m" "mac_stats s' = mac_stats ?m" using vnics_frame [of e inp "[0..<NVNICS e]" "(fst st, ?m)"] by (simp_all add: s')
  note all = mac_stats_all(1,2) [OF assms(1,2) order_refl, of inp "snd st", folded mac_stats_accumulate_def]
  have "bar_shows (stats_bar s' vid) (stats_vnic s' vid) \<and> (st_is_pf e vid \<longrightarrow> mac_synced (st_drops s' (st_pf e vid)) (stored_counters s' vid))"
    if "vid < NVNICS e" for vid
    using vnics_each [where vids = "[0..<NVNICS e]" and v = vid and e = e and inp = inp and st = "(fst st, ?m)"] that unfolding s' [symmetric] fr by simp
  then show ?thesis using all unfolding fr by auto
qed

section \<open>Discards of one queue\<close>

text \<open>The packets and bytes that an input counts for a statistic of the queue \<open>q\<close>.\<close>

definition in_p :: "stats_input \<Rightarrow> nat \<Rightarrow> string \<Rightarrow> u64" where
  "in_p inp q s = ucast (in_pkts inp q (qidx s))"

definition in_b :: "stats_input \<Rightarrow> nat \<Rightarrow> string \<Rightarrow> u64" where
  "in_b inp q s = in_bytes inp q (qidx s)"

text \<open>The discard counters after the first \<open>n\<close> statistics of the queue were read.\<close>

definition discards_read :: "stats_input \<Rightarrow> nat \<Rightarrow> nat \<Rightarrow> vstats \<Rightarrow> vstats \<Rightarrow> bool" where
  "discards_read inp q n vs vs' \<longleftrightarrow> (let p = (\<lambda>s. if qidx s < n then in_p inp q s else 0); b = (\<lambda>s. if qidx s < n then in_b inp q s else 0) in
     vs' (fld ''rx_discard_act_pkts'') = vs (fld ''rx_discard_act_pkts'') + p ''rx_discard_act'' \<and>
     vs' (fld ''rx_discard_act_bytes'') = vs (fld ''rx_discard_act_bytes'') + b ''rx_discard_act'' \<and>
     vs' (fld ''tx_discard_act_pkts'') = vs (fld ''tx_discard_act_pkts'') + p ''tx_discard_act'' \<and>
     vs' (fld ''tx_discard_act_bytes'') = vs (fld ''tx_discard_act_bytes'') + b ''tx_discard_act'' \<and>
     vs' (fld ''rx_discards'') = vs (fld ''rx_discards'') + p ''rx_discard_act'' + p ''rx_discard_addr'' + p ''rx_discard_mru'' +
       p ''rx_discard_pci'' + p ''bpf_discard'' \<and>
     vs' (fld ''tx_discards'') = vs (fld ''tx_discards'') + p ''rx_error_veb'' + p ''tx_discard_act'')"

lemma discards_step:
  assumes "i < 33" "discards_read inp q i vs vs1" "i \<in> {1, 5, 8, 13, 15, 17, 23, 24, 25, 26} \<longrightarrow> in_pkts inp q i = 0 \<and> in_bytes inp q i = 0"
  shows "\<exists>nfd' vs'. update_vnic_queue_stat i (in_pkts inp q i) (in_bytes inp q i) (nfd, stat_offs ! i, vs1) = (nfd', stat_offs ! Suc i, vs') \<and>
     discards_read inp q (Suc i) vs vs'"
proof -
  have "i \<in> set [0..<33]" using assms(1) by simp
  then have "i \<in> set [0, 1, 2, 3, 4, 5, 6, 7, 8, 9, 10, 11, 12, 13, 14, 15, 16, 17, 18, 19, 20, 21, 22, 23, 24, 25, 26, 27, 28, 29, 30, 31, 32]"
    unfolding upt_eval .
  then show ?thesis using assms(2,3) unfolding set_simps insert_iff empty_iff
    by (elim disjE) (simp_all add: stat_simps discards_read_def in_p_def in_b_def algebra_simps)
qed

lemma read_queue_discards:
  assumes "unused_zero inp"
  shows "discards_read inp q 33 vs (snd (read_queue inp q nfd vs))"
proof -
  let ?f = "\<lambda>i. update_vnic_queue_stat i (in_pkts inp q i) (in_bytes inp q i)"
  have "\<exists>nfd' vs'. fold ?f [0..<n] (nfd, 0, vs) = (nfd', stat_offs ! n, vs') \<and> discards_read inp q n vs vs'" if "n \<le> 33" for n
    using that
  proof (induction n)
    case 0
    then show ?case by (simp add: stat_offs_eval discards_read_def)
  next
    case (Suc n)
    then obtain nfd1 vs1 where 1: "fold ?f [0..<n] (nfd, 0, vs) = (nfd1, stat_offs ! n, vs1)" "discards_read inp q n vs vs1" by auto
    have n: "n < 33" using Suc.prems by simp
    obtain nfd2 vs2 where "?f n (nfd1, stat_offs ! n, vs1) = (nfd2, stat_offs ! Suc n, vs2)" "discards_read inp q (Suc n) vs vs2"
      using discards_step [OF n 1(2) unused_zero_at [OF assms], where nfd = nfd1] by blast
    then show ?case using 1 by simp
  qed
  from this [of 33] show ?thesis unfolding read_queue_def layout(1) by auto
qed

text \<open>C40. What accumulating one queue of a vNIC does to the discards, for every input
  whose unused statistics are zero.  With \<open>A\<close> and \<open>B\<close> the packets and bytes
  discarded by an action on receive and \<open>R\<close> and \<open>T\<close> the receive and transmit totals
  after the counters of the queue were added: a PCIe queue (below 256) moves \<open>A\<close> and
  \<open>B\<close> to the transmit counters; but a transmit total that is zero is not updated, so
  the first moved discards never reach \<open>tx_discards\<close>, and otherwise the bytes are
  moved as well as the packets between the two packet totals.  Another queue moves
  nothing.\<close>

theorem stats_remap_totals:
  assumes "unused_zero inp" "q = st_natq e vid queue" "vs' = fst (vnic_queue e inp vid queue (vs, b))"
    and "A = vs (fld ''rx_discard_act_pkts'') + in_p inp q ''rx_discard_act''"
    and "B = vs (fld ''rx_discard_act_bytes'') + in_b inp q ''rx_discard_act''"
    and "R = vs (fld ''rx_discards'') + in_p inp q ''rx_discard_act'' + in_p inp q ''rx_discard_addr'' + in_p inp q ''rx_discard_mru'' +
       in_p inp q ''rx_discard_pci'' + in_p inp q ''bpf_discard''"
    and "T = vs (fld ''tx_discards'') + in_p inp q ''rx_error_veb'' + in_p inp q ''tx_discard_act''"
  shows "vs' (fld ''tx_discard_act_pkts'') = vs (fld ''tx_discard_act_pkts'') + in_p inp q ''tx_discard_act'' + (if queue < 256 then A else 0) \<and>
     vs' (fld ''tx_discard_act_bytes'') = vs (fld ''tx_discard_act_bytes'') + in_b inp q ''tx_discard_act'' + (if queue < 256 then B else 0) \<and>
     vs' (fld ''rx_discard_act_pkts'') = (if queue < 256 then 0 else A) \<and> vs' (fld ''rx_discard_act_bytes'') = (if queue < 256 then 0 else B) \<and>
     vs' (fld ''tx_discards'') = (if queue < 256 \<and> T \<noteq> 0 then if T + A = 0 then 0 else T + A + B else T) \<and>
     vs' (fld ''rx_discards'') = (if queue < 256 \<and> R \<noteq> 0 then if R = A then 0 else R - A - B else R)"
proof -
  define v1 where "v1 = snd (read_queue inp q nfd_zero vs)"
  have idx: "qidx s < 33" if "s \<in> {''rx_discard_act'', ''tx_discard_act'', ''rx_discard_addr'', ''rx_discard_mru'', ''rx_discard_pci'', ''bpf_discard'', ''rx_error_veb''}" for s
    using that by auto
  have r: "v1 (fld ''rx_discard_act_pkts'') = A" "v1 (fld ''rx_discard_act_bytes'') = B" "v1 (fld ''rx_discards'') = R" "v1 (fld ''tx_discards'') = T"
    "v1 (fld ''tx_discard_act_pkts'') = vs (fld ''tx_discard_act_pkts'') + in_p inp q ''tx_discard_act''"
    "v1 (fld ''tx_discard_act_bytes'') = vs (fld ''tx_discard_act_bytes'') + in_b inp q ''tx_discard_act''"
    using read_queue_discards [OF assms(1), of q vs nfd_zero] unfolding v1_def [symmetric] discards_read_def Let_def assms(4-7) by (simp_all add: idx)
  have "vs' = (if queue < 256
      then vnic_stats_remap ''tx_discard_act_bytes'' ''tx_discards'' ''rx_discard_act_bytes'' ''rx_discards''
        (vnic_stats_remap ''tx_discard_act_pkts'' ''tx_discards'' ''rx_discard_act_pkts'' ''rx_discards'' v1) else v1)"
    unfolding assms(3) v1_def assms(2) by (simp add: vnic_queue_def Let_def split: prod.split)
  then show ?thesis using r by (cases "queue < 256") (simp_all add: vnic_stats_remap_def Let_def)
qed

section \<open>A concrete round\<close>

definition stats_env_ex :: stats_env where
  "stats_env_ex = \<lparr>st_plat = CARBON, NVNICS = 3, st_maxqs = (\<lambda>_. 1), st_natq = (\<lambda>vid _. vid), st_is_pf = (\<lambda>vid. vid = 1), st_pf = (\<lambda>_. 0),
     accum_words = 20, RxMacHeadDrop = 3, TxQueueDrop = 17, TxPIfOutErrors = 15, RxPIfInErrors = 1, mem_add64 = (\<lambda>m d. swapw64 (swapw64 m + swapw64 d))\<rparr>"

definition stats_input_ex :: stats_input where
  "stats_input_ex = \<lparr>in_accum = (\<lambda>port k. of_nat k), in_head_drops = (\<lambda>_. swapw64 7), in_tmq = (\<lambda>_ _. 1),
     in_pkts = (\<lambda>q i. if i = qidx ''rx'' then 5 else 0), in_bytes = (\<lambda>q i. if i = qidx ''rx'' then 320 else 0)\<rparr>"

definition stats_state_ex :: stats_state where
  "stats_state_ex = \<lparr>st_drops = (\<lambda>_. \<lparr>md_rx_discards = 0, md_tx_discards = 0, md_rx_errors = 0, md_tx_errors = 0\<rparr>),
     mac_stats = (\<lambda>_ _. 0), stats_vnic = (\<lambda>_ _. 0), stats_bar = (\<lambda>_ _ _. 0)\<rparr>"

lemma stats_ex:
  "fields_distinct stats_env_ex" "platform_of 10 = Some (st_plat stats_env_ex)" "unused_zero stats_input_ex"
  "totals_ok (stored_counters stats_state_ex vid)"
proof -
  show "fields_distinct stats_env_ex" by (simp add: fields_distinct_def stats_env_ex_def)
  show "platform_of 10 = Some (st_plat stats_env_ex)" by (simp add: platform_of_def stats_env_ex_def)
  have "qidx s \<noteq> 0" if "s \<in> set unused_stats" for s
  proof -
    have "qidx s \<in> set (map qidx unused_stats)" using that by simp
    then show ?thesis unfolding unused_qidx by auto
  qed
  then show "unused_zero stats_input_ex" by (auto simp: unused_zero_def stats_input_ex_def)
  show "totals_ok (stored_counters stats_state_ex vid)"
    by (simp add: totals_ok_def stored_counters_def stats_state_ex_def swapw64_def)
qed

theorem stats_totals_invariant_witness:
  "totals_ok (stored_counters (snd (nic_stats_round stats_env_ex stats_input_ex (\<lambda>_. 0, stats_state_ex))) 1)"
  using stats_totals_invariant [OF stats_ex(3) _ stats_ex(1,2), of "(\<lambda>_. 0, stats_state_ex)"] stats_ex(4) by simp

theorem stats_round_publishes_witness:
  "md_rx_discards (st_drops (snd (nic_stats_round stats_env_ex stats_input_ex (\<lambda>_. 0, stats_state_ex))) 0) = 7 \<and>
   bar_shows (stats_bar (snd (nic_stats_round stats_env_ex stats_input_ex (\<lambda>_. 0, stats_state_ex))) 2)
     (stats_vnic (snd (nic_stats_round stats_env_ex stats_input_ex (\<lambda>_. 0, stats_state_ex))) 2)"
proof -
  have n: "0 < NS_PLATFORM_NUM_PORTS (st_plat stats_env_ex)" "2 < NVNICS stats_env_ex"
    by (simp_all add: stats_env_ex_def CARBON_def NS_PLATFORM_NUM_PORTS_def)
  note r = stats_round_publishes [OF stats_ex(1,2), of stats_input_ex "(\<lambda>_. 0, stats_state_ex)"]
  have "md_rx_discards (port_drops stats_env_ex stats_input_ex 0 d) = 7" for d
    by (simp add: port_drops_def stats_input_ex_def)
  moreover have "st_drops (snd (nic_stats_round stats_env_ex stats_input_ex (\<lambda>_. 0, stats_state_ex))) 0 =
      port_drops stats_env_ex stats_input_ex 0 (st_drops stats_state_ex 0)"
    using conjunct1 [OF mp [OF spec [OF conjunct1 [OF r]] n(1)]] unfolding snd_conv .
  ultimately show ?thesis using conjunct1 [OF mp [OF spec [OF conjunct2 [OF r]] n(2)]] by (simp only: simp_thms)
qed

text \<open>Three packets of 192 bytes discarded by an action: the transmit total misses them
  when it was zero, and grows by 195 when it was one.\<close>

definition discard_input_ex :: stats_input where
  "discard_input_ex = stats_input_ex\<lparr>in_pkts := (\<lambda>q i. if i = qidx ''rx_discard_act'' then 3 else 0),
     in_bytes := (\<lambda>q i. if i = qidx ''rx_discard_act'' then 192 else 0)\<rparr>"

theorem stats_remap_totals_witness:
  "fst (vnic_queue stats_env_ex discard_input_ex 0 0 (\<lambda>_. 0, \<lambda>_ _. 0)) (fld ''tx_discard_act_pkts'') = 3 \<and>
   fst (vnic_queue stats_env_ex discard_input_ex 0 0 (\<lambda>_. 0, \<lambda>_ _. 0)) (fld ''tx_discards'') = 0 \<and>
   fst (vnic_queue stats_env_ex discard_input_ex 0 0 ((\<lambda>_. 0)(fld ''tx_discards'' := 1), \<lambda>_ _. 0)) (fld ''tx_discards'') = 196"
proof -
  have i: "in_p discard_input_ex q s = (if qidx s = qidx ''rx_discard_act'' then 3 else 0)"
    "in_b discard_input_ex q s = (if qidx s = qidx ''rx_discard_act'' then 192 else 0)" for q s
    by (simp_all add: in_p_def in_b_def discard_input_ex_def)
  have "qidx s \<noteq> qidx ''rx_discard_act''" if "s \<in> set unused_stats" for s
  proof -
    have "qidx s \<in> set (map qidx unused_stats)" using that by simp
    then show ?thesis unfolding unused_qidx by auto
  qed
  then have u: "unused_zero discard_input_ex" by (auto simp: unused_zero_def discard_input_ex_def)
  show ?thesis
    using stats_remap_totals [OF u refl refl refl refl refl refl, of stats_env_ex 0 0 "\<lambda>_. 0" "\<lambda>_ _. 0"]
      stats_remap_totals [OF u refl refl refl refl refl refl, of stats_env_ex 0 0 "(\<lambda>_. 0)(fld ''tx_discards'' := 1)" "\<lambda>_ _. 0"]
    by (simp add: i)
qed

end
