(* ===== verification/Trng.thy ===== *)
theory Trng
  imports DevIo
begin

unbundle bit_operations_syntax

text \<open>
  \<open>firmware/apps/nic/trng.c\<close> and \<open>trng.h\<close>: starting the true random number
  generator of the application master's island and reading 64 bits from it.
  What the cluster scratch returns at the data address of the generator is a
  parameter (\<open>cls\<close>), a function of the history of accesses.  The read polls
  until both words are not zero; it is an instance of the contract of waiting
  loops in \<open>PollLoop\<close>.
\<close>

definition TRNG_ASYNC_RING :: u32 where "TRNG_ASYNC_RING = 0x00"
definition TRNG_ASYNC_TEST :: u32 where "TRNG_ASYNC_TEST = 0x04"
definition TRNG_ASYNC_CMD :: u32 where "TRNG_ASYNC_CMD = 0x08"
definition TRNG_ASYNC_CFG :: u32 where "TRNG_ASYNC_CFG = 0x10"
definition TRNG_LFSR_CFG :: u32 where "TRNG_LFSR_CFG = 0x20"
definition TRNG_WHITEN_CONTROL :: u32 where "TRNG_WHITEN_CONTROL = 0x24"
definition TRNG_WHITEN_CONFIG :: u32 where "TRNG_WHITEN_CONFIG = 0x28"
definition TRNG_MON_PERIOD :: u32 where "TRNG_MON_PERIOD = 0x30"
definition TRNG_MON_ONES_MIN :: u32 where "TRNG_MON_ONES_MIN = 0x38"
definition TRNG_MON_ONES_MAX :: u32 where "TRNG_MON_ONES_MAX = 0x3c"
definition TRNG_MON_MAX_RUN_LEN :: u32 where "TRNG_MON_MAX_RUN_LEN = 0x40"
definition TRNG_LOCK :: u32 where "TRNG_LOCK = 0x50"
definition TRNG_ALERT :: u32 where "TRNG_ALERT = 0x54"
definition CLS_TRNG_XPB_DEVICE_ID :: u32 where "CLS_TRNG_XPB_DEVICE_ID = 12"
definition CLS_PERIPHERAL_TRNG_DATA :: u32 where "CLS_PERIPHERAL_TRNG_DATA = 0x60000"

lemmas trng_regs = TRNG_ASYNC_RING_def TRNG_ASYNC_TEST_def TRNG_ASYNC_CMD_def TRNG_ASYNC_CFG_def TRNG_LFSR_CFG_def
  TRNG_WHITEN_CONTROL_def TRNG_WHITEN_CONFIG_def TRNG_MON_PERIOD_def TRNG_MON_ONES_MIN_def TRNG_MON_ONES_MAX_def
  TRNG_MON_MAX_RUN_LEN_def TRNG_LOCK_def TRNG_ALERT_def

text \<open>The XPB address of the generator, from the value of the active context
  register, whose bits 25 to 30 are the island.\<close>

definition trng_xpb_address :: "u32 \<Rightarrow> u32" where
  "trng_xpb_address active_ctx_sts =
    (let r_cl_num = 0x3F AND drop_bit 25 active_ctx_sts
     in push_bit 16 CLS_TRNG_XPB_DEVICE_ID OR push_bit 31 1 OR push_bit 24 r_cl_num)"

text \<open>The writes of the set-up, in program order; the command register is written
  three times with the delays of the code around it.\<close>

definition trng_init :: "u32 \<Rightarrow> dev_hist \<Rightarrow> dev_hist" where
  "trng_init active_ctx_sts hs =
    (let r_xpb_address = trng_xpb_address active_ctx_sts;
         wr = (\<lambda>reg v hs. xpb_write (r_xpb_address + reg) v hs);
         hs = wr TRNG_ASYNC_CMD 2 hs;
         hs = Sleep 5 # hs;
         hs = wr TRNG_ASYNC_CMD 1 hs;
         hs = Sleep 5 # hs;
         hs = wr TRNG_ASYNC_RING 0x87 hs;
         hs = wr TRNG_ASYNC_TEST 0x1 hs;
         hs = wr TRNG_ASYNC_CFG (push_bit 16 0xff00) hs;
         hs = wr TRNG_LFSR_CFG (0x0AAF OR push_bit 28 1) hs;
         hs = wr TRNG_WHITEN_CONTROL (0x2 OR push_bit 28 4) hs;
         hs = wr TRNG_WHITEN_CONFIG 0x83388338 hs;
         hs = wr TRNG_MON_PERIOD 2000 hs;
         hs = wr TRNG_MON_ONES_MIN 450 hs;
         hs = wr TRNG_MON_ONES_MAX 550 hs;
         hs = wr TRNG_MON_MAX_RUN_LEN (push_bit 16 64) hs;
         hs = wr TRNG_ASYNC_CMD 6 hs;
         hs = Sleep 200 # hs;
         hs = XpbRead (r_xpb_address + TRNG_ALERT) # hs;
         hs = Sleep 400000 # hs
     in ClsWrite CLS_PERIPHERAL_TRNG_DATA [0, 0] # hs)"

text \<open>The result is \<open>trng_hi\<close>, \<open>trng_lo\<close> and the history.\<close>

partial_function (option) trng_rd64 :: "(dev_hist \<Rightarrow> u32 \<times> u32) \<Rightarrow> dev_hist \<Rightarrow> (u32 \<times> u32 \<times> dev_hist) option" where
  "trng_rd64 cls hs =
    (if fst (cls hs) = 0 \<or> snd (cls hs) = 0
     then trng_rd64 cls (ClsRead CLS_PERIPHERAL_TRNG_DATA # hs)
     else Some (snd (cls hs), fst (cls hs), ClsRead CLS_PERIPHERAL_TRNG_DATA # hs))"

declare trng_rd64.simps [code]

interpretation trng: poll_loop "trng_rd64 cls" "\<lambda>hs. fst (cls hs) = 0 \<or> snd (cls hs) = 0" "\<lambda>hs. ClsRead CLS_PERIPHERAL_TRNG_DATA # hs"
  "\<lambda>hs. (snd (cls hs), fst (cls hs), ClsRead CLS_PERIPHERAL_TRNG_DATA # hs)"
  for cls
  by unfold_locales (subst trng_rd64.simps, rule refl)

lemma polls_add_reads: "((\<lambda>hs. ClsRead a # hs) ^^ k) hs = replicate k (ClsRead a) @ hs"
  by (induction k) simp_all

text \<open>The read returns two words that are not zero as soon as the generator
  delivers such a pair, after reads of the data address only.\<close>

lemma trng_rd64_returns:
  assumes "fst (cls (replicate k (ClsRead CLS_PERIPHERAL_TRNG_DATA) @ hs)) \<noteq> 0" "snd (cls (replicate k (ClsRead CLS_PERIPHERAL_TRNG_DATA) @ hs)) \<noteq> 0"
  shows "\<exists>j \<le> k. \<exists>hi lo. trng_rd64 cls hs = Some (hi, lo, replicate (Suc j) (ClsRead CLS_PERIPHERAL_TRNG_DATA) @ hs) \<and>
     hi \<noteq> 0 \<and> lo \<noteq> 0 \<and> cls (replicate j (ClsRead CLS_PERIPHERAL_TRNG_DATA) @ hs) = (lo, hi)"
  using trng.first_idle [where k = k and s = hs and cls = cls] assms unfolding polls_add_reads by (metis append_Cons replicate_Suc prod.collapse)

text \<open>Every register of the generator keeps the value of its only write, the
  command register runs through reset, reset of the generator and start, and
  the lock register is never written.\<close>

lemma trng_init_registers:
  fixes sts hs
  defines "a \<equiv> trng_xpb_address sts"
  shows "map (\<lambda>r. xpb_writes (a + r) (trng_init sts []))
      [TRNG_ASYNC_CMD, TRNG_ASYNC_RING, TRNG_ASYNC_CFG, TRNG_MON_PERIOD, TRNG_MON_ONES_MIN, TRNG_MON_ONES_MAX, TRNG_LOCK] =
      [[6, 1, 2], [0x87], [0xff000000], [2000], [450], [550], []]"
    and "trng_init sts hs = trng_init sts [] @ hs"
  by (simp_all add: trng_init_def Let_def xpb_write_def a_def trng_regs)

end
