(* ===== verification/AppMaster.thy ===== *)
theory AppMaster
  imports HandlerTotal CatamaranApp NicStatsSpec Trng
begin

unbundle bit_operations_syntax

text \<open>
  The application master as a whole, \<open>firmware/apps/nic/app_master_main.c\<close>:
  \<open>main\<close> gives each hardware context of the micro-engine one endless loop, and
  the loops share the tables of \<open>app_private.c\<close>, the worker tables and the MAC
  register mutex.  The state joins the states of the components; the loops are
  the rules of the step relation \<open>am_step\<close>, one rule per iteration of a loop, and
  a further rule lets the host write its BARs and the SR-IOV mailbox at any time.
  An iteration is one step; the context swaps inside of the MAC register sections
  are the subject of \<open>MacSections\<close>.  An iteration that does not return is a step
  too: its context hangs, and it may leave the mutex and the tables in any state.
  The remaining parts of the file, the set-up in \<open>main\<close>, \<open>perq_stats_loop\<close> and
  \<open>ct_reflect_data\<close>, are defined here.
\<close>

section \<open>Parameters and state\<close>

record am_env =
  lsce :: lsc_env
  ste :: stats_env
  nbie :: nbi_env
  NFD_TOTAL_VFQS :: nat
  NFD_TOTAL_CTRLQS :: nat
  NFD_TOTAL_PFQS :: nat
  active_ctx_sts :: u32

text \<open>The loops of the contexts.\<close>

datatype ctx_loop = CFG_CHANGES_LOOP | NIC_STATS_LOOP | PERQ_STATS_LOOP | LSC_LOOP | KILLED

record am_state =
  am_lsc :: lsc_state
  am_count :: nat
  am_pcie :: nat
  am_msg :: cfg_msg
  am_q :: u32
  am_epoch :: u32
  am_stats :: "vstats \<times> stats_state"
  am_hung :: "ctx_loop set"

abbreviation am_ctl :: "am_env \<Rightarrow> ctl_env" where
  "am_ctl e \<equiv> ctl (lsce e)"

abbreviation am_app :: "am_state \<Rightarrow> app_state" where
  "am_app s \<equiv> app (am_lsc s)"

definition put_hist :: "dev_hist \<Rightarrow> am_state \<Rightarrow> am_state" where
  "put_hist hs s = s\<lparr>am_lsc := (am_lsc s)\<lparr>app := (am_app s)\<lparr>hist := hs\<rparr>\<rparr>\<rparr>"

section \<open>The contexts\<close>

definition APP_MASTER_CTX_CONFIG_CHANGES :: nat where "APP_MASTER_CTX_CONFIG_CHANGES = 0"
definition APP_MASTER_CTX_MAC_STATS :: nat where "APP_MASTER_CTX_MAC_STATS = 2"
definition APP_MASTER_CTX_PERQ_STATS :: nat where "APP_MASTER_CTX_PERQ_STATS = 4"
definition APP_MASTER_CTX_LINK_STATE :: nat where "APP_MASTER_CTX_LINK_STATE = 6"

definition main_loop :: "nat \<Rightarrow> ctx_loop" where
  "main_loop cx =
    (if cx = APP_MASTER_CTX_CONFIG_CHANGES then CFG_CHANGES_LOOP
     else if cx = APP_MASTER_CTX_MAC_STATS then NIC_STATS_LOOP
     else if cx = APP_MASTER_CTX_PERQ_STATS then PERQ_STATS_LOOP
     else if cx = APP_MASTER_CTX_LINK_STATE then LSC_LOOP
     else KILLED)"

section \<open>Reflecting data to another engine\<close>

definition ct_reflect_addr :: "u32 \<Rightarrow> u32 \<Rightarrow> u32" where
  "ct_reflect_addr dst_me dst_xfer =
     push_bit 20 (dst_me AND 0x3F0) OR (push_bit 10 (dst_me AND 0xF) OR push_bit 2 (dst_xfer AND 0xFF))"

text \<open>The event carries the address, the context and the signal of the indirect
  reference, and the words of the transfer registers.\<close>

definition ct_reflect_data :: "u32 \<Rightarrow> u32 \<Rightarrow> u32 \<Rightarrow> u32 \<Rightarrow> u32 list \<Rightarrow> nat \<Rightarrow> dev_hist \<Rightarrow> dev_hist" where
  "ct_reflect_data dst_me dst_ctx dst_xfer sig_no src_xfer sz hs =
     ReflectWrite (ct_reflect_addr dst_me dst_xfer) dst_ctx sig_no (take (drop_bit 2 sz) src_xfer) # hs"

section \<open>Per queue statistics\<close>

definition PERQ_STATS_SLEEP :: nat where "PERQ_STATS_SLEEP = 2000"

definition perq_total :: "am_env \<Rightarrow> nat" where
  "perq_total e = NFD_TOTAL_VFQS e + NFD_TOTAL_CTRLQS e + NFD_TOTAL_PFQS e"

text \<open>The counter pushes of one round, oldest first.\<close>

definition perq_pushes :: "am_env \<Rightarrow> u32 \<Rightarrow> dev_event list" where
  "perq_pushes e q = concat (map (\<lambda>i. [NfdOutPushCnt i q, NfdInPushCnt i q]) (islands (lsce e)))"

definition perq_stats_step :: "am_env \<Rightarrow> am_state \<Rightarrow> am_state option" where
  "perq_stats_step e s =
    (let hs = rev (perq_pushes e (am_q s)) @ hist (am_app s);
         q = am_q s + 1;
         q = (if unat q \<ge> perq_total e then 0 else q);
         hs = Sleep PERQ_STATS_SLEEP # hs
     in do {
       (ep, hs) \<leftarrow> nic_local_epoch (dv (lev (am_ctl e))) (dp_mes_ids (am_ctl e)) (am_epoch s) hs;
       Some (put_hist hs (s\<lparr>am_q := q, am_epoch := ep\<rparr>)) })"

section \<open>Start\<close>

definition DISABLE_GPIO_POLL :: "nat \<Rightarrow> u32" where
  "DISABLE_GPIO_POLL ty = (if ty = 10 \<or> ty = 12 then 0 else 1)"

definition init_nfd_cfg_msg :: "am_env \<Rightarrow> dev_hist \<Rightarrow> dev_hist" where
  "init_nfd_cfg_msg e hs = fold (\<lambda>i hs. CfgMsgInit i # hs) (islands (lsce e)) hs"

definition init_msix :: "am_env \<Rightarrow> dev_hist \<Rightarrow> dev_hist" where
  "init_msix e hs = fold (\<lambda>i hs. MsixInit i # hs) (islands (lsce e)) hs"

text \<open>The configuration context before it enters its loop; \<open>entries\<close> and \<open>pad\<close> are
  the content of uninitialised local memory.\<close>

definition main_config_start :: "am_env \<Rightarrow> (nat \<Rightarrow> chan2port_entry) \<Rightarrow> u32 list \<Rightarrow> app_state \<Rightarrow> app_state option" where
  "main_config_start e entries pad s = do {
     let hs = init_nfd_cfg_msg e (hist s);
     let hs = trng_init (active_ctx_sts e) hs;
     hs \<leftarrow> init_catamaran_chan2port_table (nbie e) (board (am_ctl e)) entries hs;
     let hs = init_msix e hs;
     let hs = mac_csr_sync_start (lev (am_ctl e)) (DISABLE_GPIO_POLL (NS_PLATFORM_TYPE (am_ctl e))) hs;
     s \<leftarrow> mac_rx_disable (am_ctl e) (s\<lparr>hist := hs\<rparr>);
     Some (init_nic (am_ctl e) pad s) }"

section \<open>The steps\<close>

text \<open>What the host may change at any time.\<close>

definition host_writes :: "app_state \<Rightarrow> app_state \<Rightarrow> bool" where
  "host_writes s s' \<longleftrightarrow> s' = s\<lparr>host := host s', bar_ctrl := bar_ctrl s', bar_bpf := bar_bpf s', vf_mb := vf_mb s'\<rparr>"

text \<open>The next iteration of a loop does not return, for the configuration loop with
  some message of a configured vNIC.\<close>

definition diverges :: "am_env \<Rightarrow> am_state \<Rightarrow> ctx_loop \<Rightarrow> bool" where
  "diverges e s l = (case l of
     CFG_CHANGES_LOOP \<Rightarrow> \<exists>jk chk. msgs_ok (am_ctl e) chk \<and> cfg_changes_step (am_ctl e) jk chk (am_pcie s) (am_msg s) (am_app s) = None
   | LSC_LOOP \<Rightarrow> lsc_loop_step (lsce e) (am_count s, am_lsc s) = None
   | PERQ_STATS_LOOP \<Rightarrow> perq_stats_step e s = None
   | _ \<Rightarrow> False)"

inductive am_step :: "am_env \<Rightarrow> am_state \<Rightarrow> am_state \<Rightarrow> bool" for e where
  cfg: "main_loop cx = CFG_CHANGES_LOOP \<Longrightarrow> CFG_CHANGES_LOOP \<notin> am_hung s \<Longrightarrow> msgs_ok (am_ctl e) chk \<Longrightarrow>
     cfg_changes_step (am_ctl e) jk chk (am_pcie s) (am_msg s) (am_app s) = Some (cur, m, a, reply) \<Longrightarrow>
     am_step e s (s\<lparr>am_pcie := cur, am_msg := m, am_lsc := (am_lsc s)\<lparr>app := a\<rparr>\<rparr>)"
| lsc: "main_loop cx = LSC_LOOP \<Longrightarrow> LSC_LOOP \<notin> am_hung s \<Longrightarrow> lsc_loop_step (lsce e) (am_count s, am_lsc s) = Some (n, l) \<Longrightarrow>
     am_step e s (s\<lparr>am_count := n, am_lsc := l\<rparr>)"
| perq: "main_loop cx = PERQ_STATS_LOOP \<Longrightarrow> PERQ_STATS_LOOP \<notin> am_hung s \<Longrightarrow> perq_stats_step e s = Some s' \<Longrightarrow> am_step e s s'"
| stats: "main_loop cx = NIC_STATS_LOOP \<Longrightarrow> unused_zero inp \<Longrightarrow>
     am_step e s (s\<lparr>am_stats := nic_stats_round (ste e) inp (am_stats s)\<rparr>)"
| host: "host_writes (am_app s) a \<Longrightarrow> am_step e s (s\<lparr>am_lsc := (am_lsc s)\<lparr>app := a, bar_lsc := bl, bar_icr := bi\<rparr>\<rparr>)"
| hang: "main_loop cx = l \<Longrightarrow> diverges e s l \<Longrightarrow> am_step e s (s\<lparr>am_hung := insert l (am_hung s), am_lsc := left\<rparr>)"

inductive am_reach :: "am_env \<Rightarrow> am_state \<Rightarrow> am_state \<Rightarrow> bool" for e s0 where
  start: "am_reach e s0 s0"
| step: "am_reach e s0 s \<Longrightarrow> am_step e s s' \<Longrightarrow> am_reach e s0 s'"

section \<open>Well-formed states\<close>

definition ctl_cap :: "ctl_env \<Rightarrow> vnic_type \<Rightarrow> u32" where
  "ctl_cap e ty = (case ty of NFD_VNIC_TYPE_PF \<Rightarrow> NFD_CFG_PF_CAP (NS_PLATFORM_TYPE e) (nc (ce e)) (cf e)
     | NFD_VNIC_TYPE_VF \<Rightarrow> NFD_CFG_VF_CAP (nc (ce e)) (cf e) | NFD_VNIC_TYPE_CTRL \<Rightarrow> NFD_CFG_CTRL_CAP e)"

definition words_legal :: "ctl_env \<Rightarrow> (nat \<Rightarrow> u32 \<Rightarrow> u32) \<Rightarrow> bool" where
  "words_legal e w \<longleftrightarrow> (\<forall>pcie vid. w pcie vid AND NOT (ctl_cap e (fst (NFD_VID2VNIC (ce e) vid))) = 0)"

definition am_wf :: "am_env \<Rightarrow> am_state \<Rightarrow> bool" where
  "am_wf e s \<longleftrightarrow> mac_reg_lock (am_app s) = 0 \<and> words_legal (am_ctl e) (nic_control_word (priv (am_app s))) \<and>
     am_count s \<le> 19 \<and> am_pcie s \<le> 4 \<and> unat (am_q s) < max 1 (perq_total e) \<and> am_hung s = {} \<and>
     (\<forall>vid. totals_ok (stored_counters (snd (am_stats s)) vid))"

text \<open>The part of the state that the loops must not break: the control words and
  the mutex.\<close>

definition core :: "app_state \<Rightarrow> (nat \<Rightarrow> u32 \<Rightarrow> u32) \<times> u32" where
  "core s = (nic_control_word (priv s), mac_reg_lock s)"

lemma core_frame [simp]:
  "core (s\<lparr>hist := h\<rparr>) = core s" "core (s\<lparr>chw := hw\<rparr>) = core s" "core (s\<lparr>vio := io\<rparr>) = core s"
  "core (s\<lparr>host := ho\<rparr>) = core s" "core (s\<lparr>bar_sts := bs\<rparr>) = core s" "core (s\<lparr>vf_mb_ret := vr\<rparr>) = core s"
  "core (put_sts pcie vid v s) = core s" "core (handle_sriov_update e pcie s) = core s"
  by (simp_all add: core_def put_sts_def handle_sriov_update_def Let_def)

lemma core_lsc_list [simp]: "core (update_vf_lsc_list e pcie port vid control mode s) = core s"
  by (simp add: core_def update_vf_lsc_list_def Let_def lsc_fold_word put_sts_def)

lemma core_put_word:
  "core (put_ctl_word pcie vid control s) = ((fst (core s))(unat pcie := (fst (core s) (unat pcie))(vid := control)), snd (core s))"
  by (simp add: core_def put_ctl_word_def set_nic_control_word_def)

lemma words_legal_put:
  assumes "words_legal e w" "\<not> c_true (control AND NOT (ctl_cap e (fst (NFD_VID2VNIC (ce e) vid))))"
  shows "words_legal e (w(pcie := (w pcie)(vid := control)))"
  using assms by (simp add: words_legal_def c_true_def)

section \<open>What the operations keep\<close>

text \<open>An operation under the mutex changes the history only.\<close>

lemma mutex_op:
  assumes "Option.bind (LOCAL_MUTEX_LOCK s) (\<lambda>s. Option.bind (f s) (\<lambda>r. Some (g r (LOCAL_MUTEX_UNLOCK (s\<lparr>hist := h r\<rparr>))))) = Some x"
  shows "\<exists>r h. x = g r (s\<lparr>hist := h\<rparr>)"
proof -
  have l: "mac_reg_lock s = 0" using assms by (cases "c_true (mac_reg_lock s)") (simp_all add: LOCAL_MUTEX_LOCK_def c_true_def)
  obtain r where "x = g r (LOCAL_MUTEX_UNLOCK (s\<lparr>mac_reg_lock := 1\<rparr>\<lparr>hist := h r\<rparr>))"
    using assms l by (auto simp: LOCAL_MUTEX_LOCK_def bind_eq_Some)
  moreover have "LOCAL_MUTEX_UNLOCK (s\<lparr>mac_reg_lock := 1\<rparr>\<lparr>hist := h r\<rparr>) = s\<lparr>hist := h r\<rparr>"
    using l by (cases s) (simp add: LOCAL_MUTEX_UNLOCK_def)
  ultimately show ?thesis by auto
qed

lemma port_ops_keep:
  "mac_port_enable_rx e port s = Some s' \<Longrightarrow> core s' = core s"
  "mac_port_disable_rx e port s = Some (b, s') \<Longrightarrow> core s' = core s"
  "mac_port_enable_tx e port s = Some s' \<Longrightarrow> core s' = core s"
  "mac_port_enable_tx_flush e i j k s = Some s' \<Longrightarrow> core s' = core s"
  "mac_port_disable_tx_flush e i j k s = Some s' \<Longrightarrow> core s' = core s"
  unfolding mac_port_enable_rx_def mac_port_disable_rx_def mac_port_enable_tx_def mac_port_enable_tx_flush_def mac_port_disable_tx_flush_def
    split_def
  by (drule mutex_op [where g = "\<lambda>r s. s"] mutex_op [where g = "\<lambda>r s. (fst r, s)"]; auto)+

lemma vfs_up_keeps: "pf_vfs_up e jk pcie control is veb_up s = Some (f, v, s') \<Longrightarrow> core s' = core s"
  by (induction e jk pcie control "is" veb_up s arbitrary: f v s' rule: pf_vfs_up.induct)
    (fastforce simp: Let_def bind_eq_Some split: if_splits prod.splits)+

lemma vfs_down_keeps: "pf_vfs_down e jk pcie is s = Some (f, s') \<Longrightarrow> core s' = core s"
  by (induction e jk pcie "is" s arbitrary: f s' rule: pf_vfs_down.induct)
    (fastforce simp: Let_def bind_eq_Some split: if_splits prod.splits)+

lemma bring_up_keeps: "pf_bring_up e jk pcie control update vid s = Some (f, s') \<Longrightarrow> core s' = core s"
  by (auto simp: pf_bring_up_def Let_def bind_eq_Some dest!: vfs_up_keeps split: if_splits prod.splits)

lemma enabled_keeps: "pf_enabled e port s = Some (f, s') \<Longrightarrow> core s' = core s"
  by (auto simp: pf_enabled_def Let_def bind_eq_Some)

lemma disabled_keeps:
  assumes "pf_disabled e jk pcie vid port s = Some (f, s')"
  shows "core s' = core s"
proof -
  obtain ok s1 where 1: "(if \<not> c_true (nic_control_check_up e (priv s) vid) then mac_port_disable_rx e (unat port) s else Some (True, s)) = Some (ok, s1)"
    using assms unfolding pf_disabled_def by (auto simp: bind_eq_Some)
  then have c: "core s1 = core s" by (auto split: if_splits dest: port_ops_keep(2))
  show ?thesis
    using assms c unfolding pf_disabled_def 1 by (auto simp: Let_def bind_eq_Some split: if_splits prod.splits dest!: vfs_down_keeps)
qed

lemmas handlers_keep = port_ops_keep bring_up_keeps enabled_keeps disabled_keeps

text \<open>A handler leaves the control words and the mutex alone or stores a control
  word that is within the capabilities of the kind of vNIC it serves.\<close>

definition stores_legal :: "ctl_env \<Rightarrow> vnic_type \<Rightarrow> u32 \<Rightarrow> u32 \<Rightarrow> app_state \<Rightarrow> app_state \<Rightarrow> bool" where
  "stores_legal e ty pcie vid s s' \<longleftrightarrow> core s' = core s \<or>
     (\<exists>control. \<not> c_true (control AND NOT (ctl_cap e ty)) \<and> core s' = core (put_ctl_word pcie vid control s))"

lemma stores_legalI:
  "core s' = core s \<Longrightarrow> stores_legal e ty pcie vid s s'"
  "core s' = core (put_ctl_word pcie vid control s) \<Longrightarrow> \<not> c_true (control AND NOT (ctl_cap e ty)) \<Longrightarrow> stores_legal e ty pcie vid s s'"
  by (auto simp: stores_legal_def)

lemma core_put_cong: "core s' = core s \<Longrightarrow> core (put_ctl_word pcie vid control s') = core (put_ctl_word pcie vid control s)"
  by (simp add: core_put_word)

lemma ctrl_stores:
  assumes "process_ctrl_reconfig e j pcie control vid m s = Some (r, m', s')"
  shows "stores_legal e NFD_VNIC_TYPE_CTRL pcie vid s s'"
proof (cases "c_true (control AND NOT (NFD_CFG_CTRL_CAP e))")
  case True
  then show ?thesis using assms by (simp add: process_ctrl_reconfig_def msg_fail_def stores_legal_def)
next
  case False
  then have "core s' = core (put_ctl_word pcie vid control s)"
    using assms by (auto simp: process_ctrl_reconfig_def bind_eq_Some Let_def core_put_word)
  then show ?thesis using False by (auto simp: stores_legal_def ctl_cap_def)
qed

lemma pf_stores:
  assumes "process_pf_reconfig e jk pcie control update vid vnic m s = Some (r, m', s')"
  shows "stores_legal e NFD_VNIC_TYPE_PF pcie vid s s'"
proof (cases "c_true (control AND NOT (NFD_CFG_PF_CAP (NS_PLATFORM_TYPE e) (nc (ce e)) (cf e))) \<or>
    c_true (update AND NOT (NFD_CFG_PF_LEGAL_UPD (nc (ce e)) (cf e)))")
  case True
  then have "process_pf_reconfig e jk pcie control update vid vnic m s = msg_fail m s"
    unfolding process_pf_reconfig_def Let_def by (elim disjE) simp_all
  then have "s' = s" using assms by (simp add: msg_fail_def)
  then show ?thesis by (simp add: stores_legal_def)
next
  case False
  let ?en = "CTRL_ENABLE (nc (ce e))"
  have legal: "\<not> c_true (control AND NOT (ctl_cap e NFD_VNIC_TYPE_PF))" using False by (simp add: ctl_cap_def)
  obtain hs where hs: "(if flag update (UPDATE_BPF (nc (ce e)))
      then nic_local_bpf_reconfig (dv (lev e)) (dp_mes_ids e) (bar_bpf s) vid vnic (hist s) else Some (hist s)) = Some hs"
    using assms False unfolding process_pf_reconfig_def Let_def by (auto simp: bind_eq_Some)
  define s1 where "s1 = (if flag update (UPDATE_VF (nc (ce e))) then handle_sriov_update e pcie (s\<lparr>hist := hs\<rparr>) else s\<lparr>hist := hs\<rparr>)"
  obtain f s2 where 2: "(if flag control ?en then pf_bring_up e jk pcie control update vid s1 else Some (False, s1)) = Some (f, s2)"
    using assms False unfolding process_pf_reconfig_def Let_def hs Option.bind.bind_lunit s1_def by (auto simp: bind_eq_Some)
  have c2: "core s2 = core s" using 2 by (auto simp: s1_def split: if_splits dest: bring_up_keeps)
  show ?thesis
  proof (cases f)
    case True
    have "s' = s2" using assms False True unfolding process_pf_reconfig_def Let_def hs Option.bind.bind_lunit s1_def [symmetric] 2
      by (simp add: msg_fail_def)
    then show ?thesis using c2 by (simp add: stores_legal_def)
  next
    case nf: False
    let ?s3 = "put_ctl_word pcie vid control s2"
    obtain f' s4 where 4: "(if flag (ctl_word s2 pcie vid XOR control) ?en
        then (if flag control ?en then pf_enabled e vnic ?s3 else pf_disabled e jk pcie vid vnic ?s3) else Some (False, ?s3)) = Some (f', s4)"
      and s4: "s' = s4"
      using assms False nf unfolding process_pf_reconfig_def Let_def hs Option.bind.bind_lunit s1_def [symmetric] 2
      by (auto simp: msg_fail_def bind_eq_Some split: if_splits prod.splits)
    have "core s4 = core ?s3" using 4 by (auto split: if_splits dest: enabled_keeps disabled_keeps)
    then show ?thesis using legal core_put_cong [OF c2] s4 by (intro stores_legalI(2)) simp_all
  qed
qed

lemma vf_stores:
  assumes "process_vf_reconfig e jk pcie control update vid m s = Some (r, m', s')"
  shows "stores_legal e NFD_VNIC_TYPE_VF pcie vid s s'"
proof (cases "c_true (control AND NOT (NFD_CFG_VF_CAP (nc (ce e)) (cf e))) \<or> c_true (update AND NOT (NFD_CFG_VF_LEGAL_UPD (nc (ce e)) (cf e)))")
  case True
  then have "process_vf_reconfig e jk pcie control update vid m s = msg_fail m s"
    unfolding process_vf_reconfig_def Let_def by (elim disjE) simp_all
  then have "s' = s" using assms by (simp add: msg_fail_def)
  then show ?thesis by (simp add: stores_legal_def)
next
  case False
  then have "core s' = core (put_ctl_word pcie vid control s)"
    using assms by (auto simp: process_vf_reconfig_def Let_def bind_eq_Some msg_fail_def split: if_splits)
  then show ?thesis using False by (auto simp: stores_legal_def ctl_cap_def)
qed

lemma cfg_step_stores:
  assumes "cfg_changes_step e jk chk pc m s = Some (cur, m', s', reply)"
  shows "s' = s \<or> (\<exists>pcie vid. stores_legal e (fst (NFD_VID2VNIC (ce e) vid)) pcie vid s s')" "cur \<le> 4"
proof -
  obtain ret pcie m1 cur1 where n: "next_nfd_cfg_msg e chk pc m = (ret, pcie, m1, cur1)" by (metis prod_cases4)
  have cur: "cur1 \<le> 4" using n by (auto simp: next_nfd_cfg_msg_def Let_def)
  have both: "(s' = s \<or> (\<exists>pcie vid. stores_legal e (fst (NFD_VID2VNIC (ce e) vid)) pcie vid s s')) \<and> cur = cur1"
  proof (cases "ret = 0")
    case False
    then show ?thesis using assms n by (simp add: cfg_changes_step_def)
  next
    case True
    obtain control update where b: "bar_ctrl s (of_nat pcie) (msg_vid m1) = (control, update)" by (metis surj_pair)
    obtain ty vnic where v: "NFD_VID2VNIC (ce e) (msg_vid m1) = (ty, vnic)" by (metis surj_pair)
    obtain r m2 where "(case ty of
            NFD_VNIC_TYPE_CTRL \<Rightarrow> process_ctrl_reconfig e (jk 0) (of_nat pcie) control (msg_vid m1) m1 s
          | NFD_VNIC_TYPE_PF \<Rightarrow> process_pf_reconfig e jk (of_nat pcie) control update (msg_vid m1) vnic m1 s
          | NFD_VNIC_TYPE_VF \<Rightarrow> process_vf_reconfig e jk (of_nat pcie) control update (msg_vid m1) m1 s) = Some (r, m2, s')"
      and c: "cur = cur1"
      using assms True n b v by (auto simp: cfg_changes_step_def Let_def bind_eq_Some)
    then have "stores_legal e (fst (NFD_VID2VNIC (ce e) (msg_vid m1))) (of_nat pcie) (msg_vid m1) s s'"
      using v by (cases ty) (auto dest: ctrl_stores pf_stores vf_stores)
    then show ?thesis using c by blast
  qed
  show "s' = s \<or> (\<exists>pcie vid. stores_legal e (fst (NFD_VID2VNIC (ce e) vid)) pcie vid s s')" using both by blast
  show "cur \<le> 4" using both cur by simp
qed

section \<open>The link state loop\<close>

lemma lsc_puts_keep [simp]:
  "core (app (put_ls b pcie vid st)) = core (app st)" "core (app (put_vs b pcie vid st)) = core (app st)"
  "core (app (put_pending b pcie vid st)) = core (app st)" "core (app (send_or_pend le pcie vid st)) = core (app st)"
  "core (app (pending_one le pcie vid st)) = core (app st)" "core (app (lsc_check_vf_one le pcie port lst vid st)) = core (app st)"
proof -
  show ls: "core (app (put_ls b pcie vid st)) = core (app st)" "core (app (put_vs b pcie vid st)) = core (app st)"
    "core (app (put_pending b pcie vid st)) = core (app st)" for b pcie vid st
    by (simp_all add: core_def put_ls_def put_vs_def put_pending_def)
  show sp: "core (app (send_or_pend le pcie vid st)) = core (app st)" for le pcie vid st by (simp add: core_def send_or_pend_app)
  show "core (app (pending_one le pcie vid st)) = core (app st)" by (simp add: pending_one_def ls sp)
  show "core (app (lsc_check_vf_one le pcie port lst vid st)) = core (app st)"
    by (simp add: lsc_check_vf_one_def Let_def sp) (simp add: ls)
qed

lemma pending_pass_keeps [simp]: "core (app (handle_pending_interrupts le pcie st)) = core (app st)"
  unfolding handle_pending_interrupts_def by (rule fold_keeps [where f = "\<lambda>st. core (app st)"]) simp

lemma check_vf_keeps [simp]: "core (app (lsc_check_vf le pcie port lst st)) = core (app st)"
  unfolding lsc_check_vf_def by (rule fold_keeps [where f = "\<lambda>st. core (app st)"]) simp

lemma path_on_keeps: "port_path_on e port s = Some s' \<Longrightarrow> core s' = core s"
  by (auto simp: port_path_on_def bind_eq_Some dest!: port_ops_keep)

lemma react_keeps: "lsc_react le port changed lst vs s = Some s' \<Longrightarrow> core s' = core s"
  by (auto simp: lsc_react_def Let_def split: if_splits dest: port_ops_keep path_on_keeps)

lemma report_keeps: "lsc_report le pcie port lst vs s = Some s' \<Longrightarrow> core s' = core s"
  by (auto simp: lsc_report_def Let_def bind_eq_Some split: if_splits dest!: path_on_keeps)

lemma observe_keeps: "lsc_observe le pcie port st = Some (c, lst, vs, st') \<Longrightarrow> core (app st') = core (app st)"
  by (auto simp: lsc_observe_def Let_def bind_eq_Some)

lemma check_keeps:
  assumes "lsc_check le pcie port st = Some st'"
  shows "core (app st') = core (app st)"
proof -
  obtain c lst vs st1 where 1: "lsc_observe le pcie port st = Some (c, lst, vs, st1)"
    using assms by (auto simp: lsc_check_def Let_def bind_eq_Some)
  obtain s2 where 2: "lsc_react le port c lst vs (app st1) = Some s2" using assms 1 by (auto simp: lsc_check_def Let_def bind_eq_Some)
  obtain s3 where 3: "lsc_report le pcie port lst vs s2 = Some s3" using assms 1 2 by (auto simp: lsc_check_def Let_def bind_eq_Some)
  have "core s3 = core (app st)" using observe_keeps [OF 1] react_keeps [OF 2] report_keeps [OF 3] by simp
  then show ?thesis using assms 1 2 3 by (auto simp: lsc_check_def Let_def split: if_splits)
qed

lemma check_ports_keep: "check_ports le pcie ports st = Some st' \<Longrightarrow> core (app st') = core (app st)"
  by (induction ports arbitrary: st) (auto simp: bind_eq_Some dest!: check_keeps)

lemma check_islands_keep: "check_islands le is st = Some st' \<Longrightarrow> core (app st') = core (app st)"
  by (induction "is" arbitrary: st) (auto simp: bind_eq_Some lsc_check_ports_def dest!: check_ports_keep)

lemma lsc_step_keeps:
  assumes "lsc_loop_step le (n, st) = Some (n', st')"
  shows "core (app st') = core (app st)" "n \<le> 19 \<Longrightarrow> n' \<le> 19"
proof -
  have f: "core (app (fold (\<lambda>i st. handle_pending_interrupts le (of_nat i) st) is st)) = core (app st)" for "is" st
    by (rule fold_keeps [where f = "\<lambda>st. core (app st)"]) simp
  show "core (app st') = core (app st)" "n \<le> 19 \<Longrightarrow> n' \<le> 19"
    using assms by (auto simp: lsc_loop_step_def Let_def bind_eq_Some f split: if_splits dest!: check_islands_keep)
qed

section \<open>Preservation and progress\<close>

lemma stores_legal_wf:
  assumes "stores_legal e (fst (NFD_VID2VNIC (ce e) vid)) pcie vid s s'" "words_legal e (nic_control_word (priv s))"
  shows "words_legal e (nic_control_word (priv s'))" "mac_reg_lock s' = mac_reg_lock s"
proof -
  consider "core s' = core s" | control where "\<not> c_true (control AND NOT (ctl_cap e (fst (NFD_VID2VNIC (ce e) vid))))"
      "core s' = core (put_ctl_word pcie vid control s)"
    using assms(1) unfolding stores_legal_def by blast
  then have "words_legal e (nic_control_word (priv s')) \<and> mac_reg_lock s' = mac_reg_lock s"
  proof cases
    case 1
    then show ?thesis using assms(2) by (simp add: core_def)
  next
    case 2
    then show ?thesis unfolding core_put_word using words_legal_put [OF assms(2) 2(1), of "unat pcie"] by (simp add: core_def)
  qed
  then show "words_legal e (nic_control_word (priv s'))" "mac_reg_lock s' = mac_reg_lock s" by blast+
qed

lemma core_wf:
  "core s' = core s \<Longrightarrow> nic_control_word (priv s') = nic_control_word (priv s) \<and> mac_reg_lock s' = mac_reg_lock s"
  by (simp add: core_def)

lemma lsc_check_total:
  assumes "platform_of ty = Some (board (ctl le))" "port < NS_PLATFORM_NUM_PORTS (board (ctl le))" "mac_reg_lock (app st) = 0"
  shows "\<exists>st'. lsc_check le pcie port st = Some st'"
proof -
  obtain c lst vs st1 where 1: "lsc_observe le pcie port st = Some (c, lst, vs, st1)"
    using link_state_total [OF assms(1,2)] lsc_observe_result [OF _ refl refl] by blast
  then have l1: "mac_reg_lock (app st1) = 0" using core_wf [OF observe_keeps] assms(3) by metis
  obtain s2 where 2: "lsc_react le port c lst vs (app st1) = Some s2" using lsc_react_total [OF assms(1,2) l1] by blast
  then have "mac_reg_lock s2 = 0" using core_wf [OF react_keeps] l1 by metis
  from lsc_report_total [OF assms(1,2) this] obtain s3 where "lsc_report le pcie port lst vs s2 = Some s3" by blast
  then show ?thesis using 1 2 by (simp add: lsc_check_def Let_def)
qed

lemma check_ports_total:
  assumes "platform_of ty = Some (board (ctl le))" "\<forall>port \<in> set ports. port < NS_PLATFORM_NUM_PORTS (board (ctl le))"
  shows "mac_reg_lock (app st) = 0 \<Longrightarrow> \<exists>st'. check_ports le pcie ports st = Some st'"
  using assms(2)
proof (induction ports arbitrary: st)
  case (Cons port ports)
  obtain st1 where 1: "lsc_check le pcie port st = Some st1" using lsc_check_total [OF assms(1)] Cons.prems by (metis list.set_intros(1))
  then have "mac_reg_lock (app st1) = 0" using core_wf [OF check_keeps] Cons.prems by metis
  then show ?case using Cons 1 by simp
qed simp

lemma check_islands_total:
  assumes "platform_of ty = Some (board (ctl le))"
  shows "mac_reg_lock (app st) = 0 \<Longrightarrow> \<exists>st'. check_islands le is st = Some st'"
proof (induction "is" arbitrary: st)
  case (Cons i "is")
  obtain st1 where 1: "check_ports le (of_nat i) [0..<NS_PLATFORM_NUM_PORTS (board (ctl le))] st = Some st1"
    using check_ports_total [OF assms _ Cons.prems, of "[0..<NS_PLATFORM_NUM_PORTS (board (ctl le))]"] by auto
  then have "mac_reg_lock (app st1) = 0" using core_wf [OF check_ports_keep] Cons.prems by metis
  then show ?case using Cons.IH 1 by (simp add: lsc_check_ports_def)
qed simp

lemma lsc_loop_total:
  assumes "platform_of ty = Some (board (ctl le))" "mac_reg_lock (app st) = 0"
  shows "\<exists>r. lsc_loop_step le (n, st) = Some r"
proof -
  let ?st = "fold (\<lambda>i st. handle_pending_interrupts le (of_nat i) st) (islands le)
    (st\<lparr>app := (app st)\<lparr>hist := Sleep LSC_POLL_PERIOD # hist (app st)\<rparr>\<rparr>)"
  have "core (app ?st) = core (app st)"
    using fold_keeps [where f = "\<lambda>st. core (app st)" and g = "\<lambda>i st. handle_pending_interrupts le (of_nat i) st" and xs = "islands le"] by simp
  then have "mac_reg_lock (app ?st) = 0" using core_wf assms(2) by metis
  from check_islands_total [OF assms(1) this] obtain st' where "check_islands le (islands le) ?st = Some st'" by blast
  then show ?thesis by (cases "n + 1 > 19") (simp_all add: lsc_loop_step_def Let_def)
qed

section \<open>Rounds of the per queue statistics\<close>


definition engines_take_epoch :: "am_env \<Rightarrow> bool" where
  "engines_take_epoch e \<longleftrightarrow>
     (\<forall>me_id \<in> set (dp_mes_ids (am_ctl e)). epoch_taken (dv (lev (am_ctl e))) (drop_bit 4 me_id) (me_id AND 0xf))"

text \<open>All engines have been given the epoch \<open>ep\<close>, each after its contexts had been
  sent the signal and been seen to have taken it.\<close>

definition epoch_published :: "am_env \<Rightarrow> u32 \<Rightarrow> dev_hist \<Rightarrow> bool" where
  "epoch_published e ep hs \<longleftrightarrow> (\<forall>me_id \<in> set (dp_mes_ids (am_ctl e)). \<exists>a b. hs = a @ epoch_nn ep me_id # b \<and>
     epoch_acked (dv (lev (am_ctl e))) (drop_bit 4 me_id) (me_id AND 0xf) b)"

lemma pushes_only: "filter cnt_push (perq_pushes e q) = perq_pushes e q" "filter nn_write (perq_pushes e q) = []"
  by (auto simp: perq_pushes_def filter_concat comp_def nn_write_def)

lemma perq_step_result:
  assumes "engines_take_epoch e"
  shows "\<exists>s'. perq_stats_step e s = Some s' \<and> am_epoch s' = am_epoch s + 1 \<and>
     am_q s' = (if unat (am_q s + 1) \<ge> perq_total e then 0 else am_q s + 1) \<and>
     epoch_published e (am_epoch s') (hist (am_app s')) \<and>
     filter cnt_push (hist (am_app s')) = rev (perq_pushes e (am_q s)) @ filter cnt_push (hist (am_app s)) \<and>
     (\<exists>evs. hist (am_app s') = evs @ hist (am_app s))"
proof -
  let ?hs = "Sleep PERQ_STATS_SLEEP # rev (perq_pushes e (am_q s)) @ hist (am_app s)" and ?d = "dv (lev (am_ctl e))"
  obtain evs where 1: "epoch_mes ?d (am_epoch s + 1) (dp_mes_ids (am_ctl e)) ?hs = Some (evs @ ?hs)" "filter cnt_push evs = []"
    "\<forall>me_id \<in> set (dp_mes_ids (am_ctl e)). \<exists>a b. evs @ ?hs = a @ epoch_nn (am_epoch s + 1) me_id # b \<and>
       epoch_acked ?d (drop_bit 4 me_id) (me_id AND 0xf) b"
    using epoch_mes_returns [OF assms [unfolded engines_take_epoch_def]] by blast
  have "nic_local_epoch ?d (dp_mes_ids (am_ctl e)) (am_epoch s) ?hs = Some (am_epoch s + 1, evs @ ?hs)"
    using 1(1) by (simp add: nic_local_epoch_def)
  then show ?thesis using 1(2,3) pushes_only [of e "am_q s"]
    unfolding perq_stats_step_def Let_def epoch_published_def
    by (auto simp: put_hist_def rev_filter [symmetric] simp del: append_Cons intro!: exI [of _ "evs @ Sleep PERQ_STATS_SLEEP # rev (perq_pushes e (am_q s))"])
qed


section \<open>Progress of the loops\<close>

lemma no_loop_diverges:
  assumes "am_wf e s" "requests_served (am_ctl e)" "engines_take_epoch e" "platform_of ty = Some (board (am_ctl e))"
  shows "\<not> diverges e s l"
proof -
  have lock: "mac_reg_lock (am_app s) = 0" using assms(1) by (simp add: am_wf_def)
  show ?thesis
  proof (cases l)
    case CFG_CHANGES_LOOP
    have "cfg_changes_step (am_ctl e) jk chk (am_pcie s) (am_msg s) (am_app s) \<noteq> None" if "msgs_ok (am_ctl e) chk" for jk chk
      using cfg_step_total [OF assms(2,4) lock that, of jk "am_pcie s" "am_msg s"] by auto
    then show ?thesis unfolding CFG_CHANGES_LOOP diverges_def ctx_loop.case by blast
  next
    case LSC_LOOP
    then show ?thesis using lsc_loop_total [OF assms(4) lock, of "am_count s"] by (auto simp: diverges_def)
  next
    case PERQ_STATS_LOOP
    then show ?thesis using perq_step_result [OF assms(3), of s] by (auto simp: diverges_def)
  qed (simp_all add: diverges_def)
qed

lemma am_step_wf:
  assumes "am_step e s s'" "am_wf e s" "fields_distinct (ste e)" "platform_of ty = Some (st_plat (ste e))"
    and "\<And>l. \<not> diverges e s l"
  shows "am_wf e s'"
  using assms(1)
proof cases
  case (cfg cx chk jk cur m a reply)
  have "words_legal (am_ctl e) (nic_control_word (priv a)) \<and> mac_reg_lock a = 0"
    using cfg_step_stores(1) [OF cfg(5)] assms(2) stores_legal_wf [of "am_ctl e" _ _ "am_app s" a] by (auto simp: am_wf_def)
  then show ?thesis using cfg(1) cfg_step_stores(2) [OF cfg(5)] assms(2) by (simp add: am_wf_def)
next
  case (lsc cx n l)
  show ?thesis using lsc(1) core_wf [OF lsc_step_keeps(1) [OF lsc(4)]] lsc_step_keeps(2) [OF lsc(4)] assms(2) by (simp add: am_wf_def)
next
  case (perq cx)
  have q: "unat (if unat (am_q s + 1) \<ge> perq_total e then 0 else am_q s + 1) < max 1 (perq_total e)" by (simp add: less_max_iff_disj)
  show ?thesis using perq(3) assms(2) q
    unfolding perq_stats_step_def Let_def bind_eq_Some by (auto simp: am_wf_def put_hist_def)
next
  case (stats cx inp)
  have "stored_counters (mac_stats_accumulate (ste e) inp (snd (am_stats s))) = stored_counters (snd (am_stats s))"
    using mac_stats_all(3) [OF assms(3,4) order_refl, of inp "snd (am_stats s)"] by (simp add: mac_stats_accumulate_def stored_counters_def fun_eq_iff)
  then have "\<forall>vid. totals_ok (stored_counters (snd (nic_stats_round (ste e) inp (am_stats s))) vid)"
    unfolding nic_stats_round_def vnic_stats_accumulate_def using vnics_totals [OF stats(3)] assms(2) by (simp add: am_wf_def)
  then show ?thesis using stats(1) assms(2) by (simp add: am_wf_def)
next
  case (host a bl bi)
  then have "core a = core ((am_app s)\<lparr>host := host a, bar_ctrl := bar_ctrl a, bar_bpf := bar_bpf a, vf_mb := vf_mb a\<rparr>)"
    unfolding host_writes_def by (intro arg_cong [where f = core])
  then have "core a = core (am_app s)" by (simp add: core_def)
  from core_wf [OF this] show ?thesis using host(1) assms(2) by (simp add: am_wf_def)
next
  case (hang cx l left)
  then show ?thesis using assms(5) by blast
qed

section \<open>Properties\<close>

text \<open>C1. Type soundness and progress of the application master, with each iteration
  of a loop taken as one step.  Suppose the MAC acknowledges its inhibits, the
  worker threads quiesce and take their epoch signals, buffers of switch messages
  can be allocated, and the messages are for configured vNICs.  From a
  well-formed state every interleaving of iterations of the four loops, of
  iterations that hang and of writes of the host leads to well-formed states
  only: no context hangs, the MAC register mutex is free between two iterations,
  every stored control word has only bits within the capabilities of its kind of
  vNIC, the counters of the loops stay in range and the totals of the statistics
  are the sums of their parts.  And in all these states the next iteration of
  each loop returns, that of the configuration loop for every message, whatever
  the host has written.\<close>

theorem app_master_sound:
  assumes "am_reach e s0 s" "am_wf e s0" "fields_distinct (ste e)" "platform_of ty = Some (st_plat (ste e))"
    and "platform_of ty = Some (board (am_ctl e))" "requests_served (am_ctl e)" "engines_take_epoch e"
  shows "am_wf e s \<and>
     (\<forall>jk chk. msgs_ok (am_ctl e) chk \<longrightarrow> (\<exists>r. cfg_changes_step (am_ctl e) jk chk (am_pcie s) (am_msg s) (am_app s) = Some r)) \<and>
     (\<exists>r. lsc_loop_step (lsce e) (am_count s, am_lsc s) = Some r) \<and> (\<exists>s'. perq_stats_step e s = Some s')"
proof -
  have wf: "am_wf e s" using assms(1)
    by (induction rule: am_reach.induct) (use assms(2) am_step_wf [OF _ _ assms(3,4)] no_loop_diverges [OF _ assms(6,7,5)] in blast)+
  then have lock: "mac_reg_lock (am_app s) = 0" by (simp add: am_wf_def)
  show ?thesis
    using wf cfg_step_total [OF assms(6,5) lock] lsc_loop_total [OF assms(5) lock] perq_step_result [OF assms(7), of s] by blast
qed


section \<open>Witnesses\<close>

definition am_env_ex :: am_env where
  "am_env_ex = \<lparr>lsce = lsc_env_ex, ste = stats_env_ex, nbie = nbi_env_ex, NFD_TOTAL_VFQS = 1, NFD_TOTAL_CTRLQS = 1, NFD_TOTAL_PFQS = 1,
     active_ctx_sts = 0\<rparr>"

definition am_state_ex :: am_state where
  "am_state_ex = \<lparr>am_lsc = \<lparr>app = app_state_ex, bar_lsc = (\<lambda>_ _. 0xff), bar_icr = (\<lambda>_ _ _. 0), msix_log = []\<rparr>, am_count = 19, am_pcie = 0,
     am_msg = cfg_msg_ex, am_q = 0, am_epoch = 0, am_stats = (\<lambda>_. 0, stats_state_ex), am_hung = {}\<rparr>"

lemma am_wf_ex: "am_wf am_env_ex am_state_ex"
  using stats_ex(4)
  by (simp add: am_wf_def am_env_ex_def am_state_ex_def app_state_ex_def app_private_ex_def words_legal_def perq_total_def)

lemma am_boards_ex:
  "fields_distinct (ste am_env_ex)" "platform_of 10 = Some (st_plat (ste am_env_ex))" "platform_of 10 = Some (board (am_ctl am_env_ex))"
  using stats_ex(1,2) by (simp_all add: am_env_ex_def lsc_env_ex_def ctl_env_ex_def cfg_env_ex_def platform_of_def)

lemma csr_ex: "csr_dev (dv (lev ctl_env_ex)) hs a = 0x1000"
  by (simp add: ctl_env_ex_def link_env_ex_def link_dev_ex_def)

lemma engines_ex: "engines_take_epoch am_env_ex"
proof -
  have "\<not> epoch_pending (dv (lev ctl_env_ex)) i m hs" for i m hs
    by (simp add: epoch_round_def dp_ctxs_def ct_read_csr_def csr_read_def csr_ex Let_def PKT_IO_SIG_EPOCH_def c_true_def)
  then show ?thesis by (simp add: engines_take_epoch_def epoch_taken_def am_env_ex_def lsc_env_ex_def)
qed

lemma ports_acked_ex: "ports_acked ctl_env_ex"
proof -
  have "platform_of 10 = Some (board ctl_env_ex)" using am_boards_ex(3) by (simp add: am_env_ex_def lsc_env_ex_def)
  then have "NS_PLATFORM_MAC (board ctl_env_ex) port = 0" if "port < NS_PLATFORM_NUM_PORTS (board ctl_env_ex)" for port
    using port_ok that unfolding port_ok_def by blast
  moreover have "lev ctl_env_ex = link_env_ex" by (simp add: ctl_env_ex_def)
  ultimately show ?thesis by (simp add: ports_acked_def inhibit_acked_ex)
qed

lemma requests_served_ex: "requests_served ctl_env_ex"
proof -
  have e: "ce ctl_env_ex = cfg_env_ex" "vev ctl_env_ex = veb_env_ex" "NFD_PF2VID cfg_env_ex 0 = 48" "NFD_VF2VID cfg_env_ex v = v"
    "NFD_MAX_VFS cfg_env_ex = 48" for v
    by (simp_all add: ctl_env_ex_def cfg_env_ex_def)
  have four: "i = 0 \<or> i = 1 \<or> i = 2 \<or> i = 3" if "i < 4" for i :: nat using that by linarith
  have s: "slots_ok cfg_env_ex (of_nat pcie) 48" if "pcie < 4" for pcie
    using four [OF that] by (elim disjE) (auto simp: slots_ok_def wire_slot_def cfg_env_ex_def dest!: four)
  have v: "NFD_VID2VNIC cfg_env_ex (of_nat i) = (NFD_VNIC_TYPE_VF, of_nat i)" if "i < 48" for i
    using that by (simp add: cfg_env_ex_def word_less_nat_alt unat_of_nat take_bit_nat_eq_self)
  show ?thesis
    using ports_acked_ex veb_ok_ex s v pf_ex quiesces_ready [OF csr_ex] by (simp add: requests_served_def e)
qed

theorem app_master_sound_witness:
  "\<exists>s. am_reach am_env_ex am_state_ex s \<and> am_pcie s = 1 \<and> am_wf am_env_ex s \<and>
     (\<exists>r. lsc_loop_step (lsce am_env_ex) (am_count s, am_lsc s) = Some r)"
proof -
  have e: "am_ctl am_env_ex = ctl_env_ex" by (simp add: am_env_ex_def lsc_env_ex_def)
  note sound = app_master_sound [OF _ am_wf_ex am_boards_ex requests_served_ex [folded e] engines_ex]
  let ?chk = "\<lambda>_. Some cfg_msg_ex" and ?s = am_state_ex
  have ok: "msgs_ok (am_ctl am_env_ex) ?chk"
    by (simp add: e msgs_ok_def vnic_ok_def cfg_msg_ex_def ctl_env_ex_def vf_ex)
  obtain cur m a reply where st: "cfg_changes_step (am_ctl am_env_ex) junk_ex ?chk (am_pcie ?s) (am_msg ?s) (am_app ?s) = Some (cur, m, a, reply)"
    using sound [OF am_reach.start] ok by (metis prod_cases4)
  let ?t = "?s\<lparr>am_pcie := cur, am_msg := m, am_lsc := (am_lsc ?s)\<lparr>app := a\<rparr>\<rparr>"
  have "main_loop 0 = CFG_CHANGES_LOOP" by (simp add: main_loop_def APP_MASTER_CTX_CONFIG_CHANGES_def)
  from am_step.cfg [OF this _ ok st] have r: "am_reach am_env_ex ?s ?t"
    using am_reach.step [OF am_reach.start] by (simp add: am_state_ex_def)
  have "cur = 1" using st
    by (auto simp: cfg_changes_step_def next_nfd_cfg_msg_def am_state_ex_def e ctl_env_ex_def cfg_msg_ex_def c_true_def Let_def split_beta bind_eq_Some)
  then show ?thesis using r sound [OF r] by (intro exI [of _ ?t]) simp
qed


end
