(* ===== verification/Boot.thy ===== *)
theory Boot
  imports AppMaster
begin

unbundle bit_operations_syntax

text \<open>
  The start of the firmware: what the configuration context of
  \<open>app_master_main.c\<close> has done when it enters its loop (\<open>main_config_start\<close>).  The
  start touches most components: the random number generator, the
  channel-to-port table of the preclassifier, the engine that synchronises the
  MAC registers, the reception of all ports and the next-neighbour registers of
  the workers.
\<close>

section \<open>Registers of the workers\<close>

lemma nn_clear_block:
  assumes "unat i + 16 \<le> 128"
  shows "nn_regs (fold (\<lambda>me hw. ct_nn_write me i (replicate 16 0) hw) ms hw) me =
     (if me \<in> me_of ` set ms then array_fill (nn_regs hw me) (unat i) (replicate 16 0) else nn_regs hw me)"
proof -
  have i: "unat (take_bit 7 i) = unat i"
    using assms by (simp add: unsigned_take_bit_eq take_bit_nat_eq_self)
  have "nn_regs (ct_nn_write m i (replicate 16 0) hw) =
      (nn_regs hw)(me_of m := array_fill (nn_regs hw (me_of m)) (unat i) (replicate 16 0))" for m hw
    by (simp add: ct_nn_write_def i)
  then show ?thesis by (induction ms arbitrary: hw) (auto simp: array_fill_idem)
qed

lemma init_nn_tables_regs:
  assumes "r < 128"
  shows "nn_regs (init_nn_tables e hw) me r = (if me \<in> me_of ` set (cfg_mes_ids e) then 0 else nn_regs hw me r)"
proof -
  define blk where "blk = (\<lambda>i hw. fold (\<lambda>me hw. ct_nn_write me i (replicate 16 0) hw) (cfg_mes_ids e) hw)"
  have l: "[0, 16, 32, 48, 64, 80, 96, 112] = map (\<lambda>k. of_nat (16 * k) :: u32) [0..<8]" by (simp add: upt_rec)
  have "nn_regs (fold (\<lambda>k. blk (of_nat (16 * k))) [0..<n] hw) me r =
      (if me \<in> me_of ` set (cfg_mes_ids e) \<and> r < 16 * n then 0 else nn_regs hw me r)" if "n \<le> 8" for n
    using that
  proof (induction n)
    case (Suc n)
    have u: "unat (of_nat (16 * n) :: u32) = 16 * n" using Suc.prems by (intro unat_of_nat_small) simp
    have "nn_regs (blk (of_nat (16 * n)) h) me r = (if me \<in> me_of ` set (cfg_mes_ids e) \<and> 16 * n \<le> r \<and> r < 16 * n + 16 then 0 else nn_regs h me r)" for h
      unfolding blk_def using Suc.prems u by (subst nn_clear_block) (auto simp: array_fill_def simp del: of_nat_mult)
    then show ?case using Suc by (auto simp del: of_nat_mult)
  qed simp
  from this [of 8] show ?thesis
    using assms unfolding init_nn_tables_def l fold_map comp_def blk_def [symmetric] by simp
qed

lemma slicc_pad_regs:
  assumes "length pad = 40"
  shows "nn_regs (upd_slicc_hash_table e pad hw) me r =
     (if me \<in> me_of ` set (cfg_mes_ids e) \<and> 64 \<le> r \<and> r < 104 then pad ! (r - 64) else nn_regs hw me r)"
proof -
  have st: "nn_regs (upd_nn_table_instr e (take 10 (drop t pad)) (SLICC_HASH_PAD_NN_IDX + of_nat t) 10 hw) me r =
      (if me \<in> me_of ` set (cfg_mes_ids e) \<and> 64 + t \<le> r \<and> r < 74 + t then pad ! (r - 64) else nn_regs hw me r)"
    if "t \<le> 30" for t hw
  proof -
    have u: "unat (SLICC_HASH_PAD_NN_IDX + of_nat t) = 64 + t"
      using that by (simp add: SLICC_HASH_PAD_NN_IDX_def unat_word_ariths unat_of_nat)
    show ?thesis using that assms u
      by (subst nn_table_update) (auto simp: u add.commute)
  qed
  have "nn_regs (upd_slicc_hash_table e pad hw) me r =
      nn_regs (fold (\<lambda>t. upd_nn_table_instr e (take 10 (drop t pad)) (SLICC_HASH_PAD_NN_IDX + of_nat t) 10) [0, 10, 20, 30] hw) me r"
    by (simp add: upd_slicc_hash_table_def)
  then show ?thesis by (simp only: fold_simps id_apply comp_apply st numeral_le_iff zero_le semiring_norm) auto
qed

section \<open>Reception of the ports\<close>

text \<open>The commands for the synchronisation engine in a history, oldest first.\<close>

fun sync_cmds :: "dev_hist \<Rightarrow> u32 list" where
  "sync_cmds [] = []"
| "sync_cmds (SyncMeCmd _ _ c # hs) = sync_cmds hs @ [c]"
| "sync_cmds (_ # hs) = sync_cmds hs"

lemma sync_cmds_append: "sync_cmds (hs @ hs') = sync_cmds hs' @ sync_cmds hs"
  by (induction hs rule: sync_cmds.induct) simp_all

text \<open>Events that access registers or wait only.\<close>

definition reg_event :: "dev_event \<Rightarrow> bool" where
  "reg_event ev \<longleftrightarrow> (case ev of XpbRead _ \<Rightarrow> True | XpbWrite _ _ \<Rightarrow> True | Sleep _ \<Rightarrow> True | _ \<Rightarrow> False)"

lemma reg_events:
  "\<forall>ev \<in> set evs. reg_event ev \<Longrightarrow> sync_cmds evs = [] \<and> nbi_writes evs = []"
  by (induction evs rule: sync_cmds.induct) (auto simp: reg_event_def split: dev_event.splits)

definition rx_off :: "platform \<Rightarrow> nat \<Rightarrow> u32 \<times> u32 \<times> u32 \<times> u32" where
  "rx_off p port = (ARB_CODE_ETH_CMD_CFG_DISABLE_RX, of_nat (NS_PLATFORM_MAC p port), of_nat (NS_PLATFORM_MAC_CORE p port),
     of_nat (NS_PLATFORM_MAC_CORE_SERDES_LO p port))"

lemma port_disable_step:
  assumes "platform_of ty = Some (board e)" "port < NS_PLATFORM_NUM_PORTS (board e)" "mac_reg_lock s = 0" "ports_acked e"
  shows "\<exists>ok evs. mac_port_disable_rx e port s = Some (ok, s\<lparr>hist := evs @ hist s\<rparr>) \<and> nbi_writes evs = [] \<and>
     map arb_decode (sync_cmds evs) = [rx_off (board e) port]"
proof -
  let ?isl = "NS_PLATFORM_MAC (board e) port" and ?core = "NS_PLATFORM_MAC_CORE (board e) port"
  let ?lo = "NS_PLATFORM_MAC_CORE_SERDES_LO (board e) port" and ?n = "port_lanes (board e) port"
  let ?m = "port_lane_mask ?core ?lo ?n" and ?inh = "MAC_EQ_INH_ADDR (lev e) ?isl" and ?dn = "MAC_EQ_INH_DONE_ADDR (lev e) ?isl"
  let ?old = "xpb_dev (dv (lev e)) (hist s) ?inh"
  have ack: "inhibit_acked (lev e) ?isl ?m" using assms(2,4) by (simp add: ports_acked_def)
  note a = mac_args_port(1) [OF assms(1,2)] and l = port_lanes_fit [OF assms(1,2)]
  obtain ok checks k where r: "mac_eth_disable_rx (lev e) ?isl ?core ?lo ?n (hist s) = Some (ok,
       XpbWrite ?inh (?old AND NOT ?m) # checks @ sync_event ?isl ?core ?lo ARB_CODE_ETH_CMD_CFG_DISABLE_RX #
       XpbRead ?dn # replicate k (XpbRead ?dn) @ XpbWrite ?inh (?old OR ?m) # XpbRead ?inh # hist s)"
    and c: "set checks \<subseteq> {XpbRead (MAC_CONF_ADDR (lev e) ?isl ?core ?lo), Sleep (10 * NS_PLATFORM_TCLK (lplat (lev e)) * 1000)}"
    using disable_rx_run [OF a l ack refl refl refl refl, of "hist s"] by blast
  define post where "post = XpbWrite ?inh (?old AND NOT ?m) # checks"
  define pre where "pre = XpbRead ?dn # replicate k (XpbRead ?dn) @ [XpbWrite ?inh (?old OR ?m), XpbRead ?inh]"
  define evs where "evs = post @ sync_event ?isl ?core ?lo ARB_CODE_ETH_CMD_CFG_DISABLE_RX # pre"
  have q: "sync_cmds post = [] \<and> nbi_writes post = []" "sync_cmds pre = [] \<and> nbi_writes pre = []"
    using c by (intro reg_events; auto simp: post_def pre_def reg_event_def)+
  have "mac_port_disable_rx e port s = Some (ok, s\<lparr>hist := evs @ hist s\<rparr>)"
    using r assms(3) lock_frame [OF assms(3)]
    by (simp add: mac_port_disable_rx_def port_lanes_def [symmetric] LOCAL_MUTEX_LOCK_def LOCAL_MUTEX_UNLOCK_def c_true_def evs_def post_def pre_def)
  moreover have "nbi_writes evs = []" "map arb_decode (sync_cmds evs) = [rx_off (board e) port]"
    using q sync_cmd_decode [OF a, of ARB_CODE_ETH_CMD_CFG_DISABLE_RX 0]
    by (simp_all add: evs_def sync_event_def sync_cmds_append rx_off_def ARB_CODE_MAX_def ARB_CODE_ETH_CMD_CFG_DISABLE_RX_def
        ARB_CODE_ETH_CMD_CFG_DISABLE_FLUSH_def)
  ultimately show ?thesis by (intro exI [of _ ok] exI [of _ evs] conjI)
qed

lemma disable_ports_result:
  assumes "platform_of ty = Some (board e)" "ports_acked e" "mac_reg_lock s = 0" "\<forall>port \<in> set ports. port < NS_PLATFORM_NUM_PORTS (board e)"
  shows "\<exists>evs. disable_ports e ports s = Some (s\<lparr>hist := evs @ hist s\<rparr>) \<and> nbi_writes evs = [] \<and>
     map arb_decode (sync_cmds evs) = map (rx_off (board e)) ports"
  using assms(3,4)
proof (induction ports arbitrary: s)
  case (Cons port ports)
  obtain ok evs where 1: "mac_port_disable_rx e port s = Some (ok, s\<lparr>hist := evs @ hist s\<rparr>)" "nbi_writes evs = []"
    "map arb_decode (sync_cmds evs) = [rx_off (board e) port]"
    using port_disable_step [OF assms(1) _ Cons.prems(1) assms(2), of port] Cons.prems(2) by auto
  obtain evs' where 2: "disable_ports e ports (s\<lparr>hist := evs @ hist s\<rparr>) = Some (s\<lparr>hist := evs' @ evs @ hist s\<rparr>)" "nbi_writes evs' = []"
    "map arb_decode (sync_cmds evs') = map (rx_off (board e)) ports"
    using Cons.IH [of "s\<lparr>hist := evs @ hist s\<rparr>"] Cons.prems by auto
  show ?case using 1 2 by (intro exI [of _ "evs' @ evs"]) (simp add: sync_cmds_append)
qed (auto intro!: exI [of _ "[]"])

section \<open>Properties\<close>

lemma chan_entry_no_writes:
  assumes "nbi_stored e init" "nbi_writes evs = []"
  shows "chan_entry e (evs @ hs) nbi base c = chan_entry e hs nbi base c"
proof -
  have "nbi_dev e (evs @ hs) nbi = nbi_dev e hs nbi" using nbi_stored_skip [OF assms(1)] assms(2) by auto
  then show ?thesis by (simp add: chan_entry_def loc_words_def entry_at_def)
qed

text \<open>The events between the start of the table initialisation and the first
  command to the MAC.\<close>

lemma start_events:
  "\<exists>evs. trng_init cs (init_nfd_cfg_msg e hs) = evs @ hs \<and> nbi_writes evs = []"
  "\<exists>evs. mac_csr_sync_start le v (init_msix e hs) = evs @ hs \<and> nbi_writes evs = []"
proof -
  have m: "\<exists>evs. fold (\<lambda>i hs. CfgMsgInit i # hs) is hs = evs @ hs \<and> nbi_writes evs = []"
    "\<exists>evs. fold (\<lambda>i hs. MsixInit i # hs) is hs = evs @ hs \<and> nbi_writes evs = []" for "is" hs
    by (rule exI [of _ "rev (map CfgMsgInit is)"], induction "is" rule: rev_induct; simp)
      (rule exI [of _ "rev (map MsixInit is)"], induction "is" rule: rev_induct; simp)
  obtain a where a: "init_nfd_cfg_msg e hs = a @ hs" "nbi_writes a = []"
    unfolding init_nfd_cfg_msg_def using m(1) by blast
  obtain b where b: "init_msix e hs = b @ hs" "nbi_writes b = []"
    unfolding init_msix_def using m(2) by blast
  show "\<exists>evs. trng_init cs (init_nfd_cfg_msg e hs) = evs @ hs \<and> nbi_writes evs = []"
    unfolding trng_init_def xpb_write_def Let_def a(1) append_Cons [symmetric] by (rule exI, rule conjI, rule refl) (simp add: a)
  show "\<exists>evs. mac_csr_sync_start le v (init_msix e hs) = evs @ hs \<and> nbi_writes evs = []"
    unfolding mac_csr_sync_start_def Let_def b(1) append_Cons [symmetric] by (rule exI, rule conjI, rule refl) (simp add: b)
qed

text \<open>C28. On every supported board the start of the configuration context
  returns when the MAC acknowledges its inhibit.  When the loops start, every
  channel of every port is mapped to that port in both copies of the
  channel-to-port table, reception has been disabled on all ports by the
  commands that the synchronisation engine decodes as such, one per port in
  order and all sent after that engine was started, the registers of every
  worker hold the hash pad and zero otherwise, and the control words, the
  configuration and the mutex are as they were.\<close>

theorem boot_ready:
  assumes "nbi_stored (nbie e) init" "tableset_stored (nbie e) init'" "platform_of ty = Some p" "p = board (am_ctl e)"
    and "c2p_agree (nbie e) (hist s)" "mac_reg_lock s = 0" "ports_acked (am_ctl e)" "length pad = 40"
  shows "\<exists>hs late s'. main_config_start e entries pad s = Some s' \<and>
     s' = s\<lparr>chw := chw s', hist := hist s'\<rparr> \<and>
     hist s' = late @ mac_csr_sync_start (lev (am_ctl e)) (DISABLE_GPIO_POLL (NS_PLATFORM_TYPE (am_ctl e))) hs \<and>
     map arb_decode (sync_cmds late) = map (rx_off p) [0..<NS_PLATFORM_NUM_PORTS p] \<and>
     c2p_agree (nbie e) (hist s') \<and>
     (\<forall>port < NS_PLATFORM_NUM_PORTS p. \<forall>c < 128. chan_of_port p port c \<longrightarrow>
        c2p_tab (nbie e) (hist s') 0 c = \<lparr>c2p_port = of_nat port, c2p_port_mode = CATAMARAN_CHAN_MODE_MAC_DA_MATCH\<rparr>) \<and>
     (\<forall>me \<in> set (cfg_mes_ids (ce (am_ctl e))). \<forall>r < 128. nn_regs (chw s') (me_of me) r = (if 64 \<le> r \<and> r < 104 then pad ! (r - 64) else 0))"
proof -
  let ?le = "lev (am_ctl e)" and ?v = "DISABLE_GPIO_POLL (NS_PLATFORM_TYPE (am_ctl e))"
  obtain a where a: "trng_init (active_ctx_sts e) (init_nfd_cfg_msg e (hist s)) = a @ hist s" "nbi_writes a = []"
    using start_events(1) by blast
  have "c2p_agree (nbie e) (a @ hist s)"
    using assms(5) by (simp add: c2p_agree_def chan_entry_no_writes [OF assms(1) a(2)])
  then obtain h where h: "init_catamaran_chan2port_table (nbie e) p entries (a @ hist s) = Some h" "c2p_agree (nbie e) h"
    "\<forall>port < NS_PLATFORM_NUM_PORTS p. \<forall>c < 128. chan_of_port p port c \<longrightarrow>
        c2p_tab (nbie e) h 0 c = \<lparr>c2p_port = of_nat port, c2p_port_mode = CATAMARAN_CHAN_MODE_MAC_DA_MATCH\<rparr>"
    using chan2port_init [OF assms(1-3)] by blast
  obtain b where b: "mac_csr_sync_start ?le ?v (init_msix e h) = b @ h" "nbi_writes b = []"
    using start_events(2) by blast
  obtain d where d: "disable_ports (am_ctl e) [0..<NS_PLATFORM_NUM_PORTS p] (s\<lparr>hist := b @ h\<rparr>) = Some (s\<lparr>hist := d @ b @ h\<rparr>)"
    "nbi_writes d = []" "map arb_decode (sync_cmds d) = map (rx_off p) [0..<NS_PLATFORM_NUM_PORTS p]"
    using disable_ports_result [of ty "am_ctl e" "s\<lparr>hist := b @ h\<rparr>" "[0..<NS_PLATFORM_NUM_PORTS p]"] assms(3,4,6,7) by auto
  define t where "t = NS_PLATFORM_TCLK p * 1000000 div 20"
  let ?late = "Sleep t # d"
  let ?hw = "upd_slicc_hash_table (ce (am_ctl e)) pad (init_nn_tables (ce (am_ctl e)) (chw s))"
  have run: "main_config_start e entries pad s = Some (s\<lparr>hist := ?late @ b @ h, chw := ?hw\<rparr>)"
    using h(1) d(1) by (simp add: main_config_start_def a(1) b(1) mac_rx_disable_def init_nic_def t_def flip: assms(4))
  have w: "nbi_writes (?late @ b) = []" using b(2) d(2) by simp
  have same: "chan_entry (nbie e) (Sleep t # d @ b @ h) nbi base c = chan_entry (nbie e) h nbi base c" for nbi base c
    using chan_entry_no_writes [OF assms(1) w] by simp
  show ?thesis
    by (rule exI [of _ "init_msix e h"], rule exI [of _ ?late], rule exI [of _ "s\<lparr>hist := ?late @ b @ h, chw := ?hw\<rparr>"])
      (use run b(1) d(3) h(2,3) assms(8) in \<open>auto simp: c2p_agree_def same slicc_pad_regs init_nn_tables_regs\<close>)
qed

theorem boot_ready_witness:
  "\<exists>s' late hs. main_config_start am_env_ex (\<lambda>_. \<lparr>c2p_port = 0, c2p_port_mode = 0\<rparr>) (replicate 40 7) app_state_ex = Some s' \<and>
     hist s' = late @ mac_csr_sync_start link_env_ex 0 hs \<and> map arb_decode (sync_cmds late) = [(4, 0, 0, 0), (4, 0, 0, 4)] \<and>
     c2p_tab nbi_env_ex (hist s') 0 0 = \<lparr>c2p_port = 0, c2p_port_mode = 3\<rparr>"
proof -
  have e: "nbie am_env_ex = nbi_env_ex" "am_ctl am_env_ex = ctl_env_ex" "lev ctl_env_ex = link_env_ex" "hist app_state_ex = []" "mac_reg_lock app_state_ex = 0"
    "NS_PLATFORM_TYPE ctl_env_ex = 10"
    by (simp_all add: am_env_ex_def lsc_env_ex_def ctl_env_ex_def app_state_ex_def)
  have b: "board ctl_env_ex = CARBON" by (simp add: ctl_env_ex_def cfg_env_ex_def)
  have ty: "platform_of 10 = Some CARBON" by (simp add: platform_of_def)
  have p: "map (rx_off CARBON) [0..<NS_PLATFORM_NUM_PORTS CARBON] = [(4, 0, 0, 0), (4, 0, 0, 4)]"
    "0 < NS_PLATFORM_NUM_PORTS CARBON" "chan_of_port CARBON 0 0" by code_simp+
  from boot_ready [of am_env_ex _ _ 10 CARBON app_state_ex "replicate 40 7" "\<lambda>_. \<lparr>c2p_port = 0, c2p_port_mode = 0\<rparr>", unfolded e b p(1),
      OF nbi_stored_ex tableset_stored_ex ty refl c2p_agree_ex refl ports_acked_ex length_replicate]
  obtain hs late s' where "main_config_start am_env_ex (\<lambda>_. \<lparr>c2p_port = 0, c2p_port_mode = 0\<rparr>) (replicate 40 7) app_state_ex = Some s'"
    "hist s' = late @ mac_csr_sync_start link_env_ex (DISABLE_GPIO_POLL 10) hs" "map arb_decode (sync_cmds late) = [(4, 0, 0, 0), (4, 0, 0, 4)]"
    "\<forall>port < NS_PLATFORM_NUM_PORTS CARBON. \<forall>c < 128. chan_of_port CARBON port c \<longrightarrow>
        c2p_tab nbi_env_ex (hist s') 0 c = \<lparr>c2p_port = of_nat port, c2p_port_mode = CATAMARAN_CHAN_MODE_MAC_DA_MATCH\<rparr>"
    by (elim exE conjE) (rule that; assumption)
  then show ?thesis using p(2,3)
    by (intro exI [of _ s'] exI [of _ late] exI [of _ hs]) (simp add: DISABLE_GPIO_POLL_def CATAMARAN_CHAN_MODE_MAC_DA_MATCH_def)
qed

end
