(* ===== verification/MacSections.thy ===== *)
theory MacSections
  imports Boot
begin

unbundle bit_operations_syntax

text \<open>
  The six MAC operations of \<open>app_control_lib.c\<close> that run under \<open>mac_reg_lock\<close>, access
  by access.  Every register access and every command swaps the context, so the
  contexts of the application master interleave inside of the operations.  An
  operation is a process: it reads a register and goes on with the value, or it
  causes an event, or it ends with its result.  The operations as functions
  (\<open>ControlLib\<close>) run a process to its end; here processes of several contexts
  interleave, and the mutex is shown to make them appear one after the other.
  Accesses outside of the mutex only read registers and are left out.
\<close>

section \<open>Processes\<close>

codatatype mac_prog = Ret bool | Rd u32 "u32 \<Rightarrow> mac_prog" | Ev dev_event mac_prog

text \<open>The process alone, from a history to its result and history.\<close>

partial_function (option) run_prog :: "device \<Rightarrow> mac_prog \<Rightarrow> dev_hist \<Rightarrow> (bool \<times> dev_hist) option" where
  "run_prog d p hs = (case p of Ret b \<Rightarrow> Some (b, hs)
     | Rd a k \<Rightarrow> run_prog d (k (xpb_dev d hs a)) (XpbRead a # hs)
     | Ev ev p \<Rightarrow> run_prog d p (ev # hs))"

lemma run_prog_simps [simp]:
  "run_prog d (Ret b) hs = Some (b, hs)"
  "run_prog d (Rd a k) hs = run_prog d (k (xpb_dev d hs a)) (XpbRead a # hs)"
  "run_prog d (Ev ev p) hs = run_prog d p (ev # hs)"
  by (subst run_prog.simps, simp)+

section \<open>The operations as processes\<close>

text \<open>The unbounded loop on the inhibit-done register.\<close>

primcorec poll_prog :: "u32 \<Rightarrow> u32 \<Rightarrow> mac_prog \<Rightarrow> mac_prog" where
  "poll_prog addr mac_port_mask k =
     Rd addr (\<lambda>v. if v AND mac_port_mask \<noteq> mac_port_mask then poll_prog addr mac_port_mask k else k)"

fun rx_wait_prog :: "link_env \<Rightarrow> nat \<Rightarrow> nat \<Rightarrow> nat \<Rightarrow> nat \<Rightarrow> (bool \<Rightarrow> mac_prog) \<Rightarrow> mac_prog" where
  "rx_wait_prog le mac_isl mac_core core_port 0 k = k False"
| "rx_wait_prog le mac_isl mac_core core_port (Suc n) k = Rd (MAC_CONF_ADDR le mac_isl mac_core core_port) (\<lambda>mac_conf.
     if \<not> c_true (mac_conf AND CMD_CONFIG_RX_ENABLE le) then k True
     else Ev (Sleep (10 * NS_PLATFORM_TCLK (lplat le) * 1000)) (rx_wait_prog le mac_isl mac_core core_port n k))"

definition sync_prog :: "nat \<Rightarrow> nat \<Rightarrow> nat \<Rightarrow> u32 \<Rightarrow> mac_prog \<Rightarrow> mac_prog" where
  "sync_prog mac_isl mac_core core_port code = Ev (SyncMeCmd ARB_CLS_BASE_ADDR_Hi32 (push_bit 2 ARB_CLS_RING_NUM)
     (LINK_CTRL_SYNC_CMD mac_isl mac_core core_port code 0))"

definition disable_rx_prog :: "link_env \<Rightarrow> nat \<Rightarrow> nat \<Rightarrow> nat \<Rightarrow> nat \<Rightarrow> mac_prog" where
  "disable_rx_prog le mac_isl mac_core core_port num_lanes =
    (let addr = MAC_EQ_INH_ADDR le mac_isl; mac_port_mask = port_lane_mask mac_core core_port num_lanes in
     Rd addr (\<lambda>v. let mac_inhibit = v OR mac_port_mask in
     Ev (XpbWrite addr mac_inhibit) (
     poll_prog (MAC_EQ_INH_DONE_ADDR le mac_isl) mac_port_mask (
     sync_prog mac_isl mac_core core_port ARB_CODE_ETH_CMD_CFG_DISABLE_RX (
     rx_wait_prog le mac_isl mac_core core_port 10 (\<lambda>ok.
     Ev (XpbWrite addr (mac_inhibit AND NOT mac_port_mask)) (Ret ok)))))))"

fun queues_prog :: "link_env \<Rightarrow> nat \<Rightarrow> bool \<Rightarrow> nat list \<Rightarrow> mac_prog" where
  "queues_prog le nbi on [] = Ret True"
| "queues_prog le nbi on (q # qs) = Rd (NBI_TM_Q_CFG_ADDR le nbi q) (\<lambda>v.
     Ev (XpbWrite (NBI_TM_Q_CFG_ADDR le nbi q)
       (if on then v OR QUEUE_CONFIG_QUEUEENABLE le else v AND NOT (QUEUE_CONFIG_QUEUEENABLE le)))
     (queues_prog le nbi on qs))"

text \<open>The operations on a port, with the result 1 for those that have none.\<close>

datatype mac_op = EnableRx nat | DisableRx nat | EnableTx nat | DisableTx nat | EnableFlush nat | DisableFlush nat

fun op_port :: "mac_op \<Rightarrow> nat" where
  "op_port (EnableRx port) = port"
| "op_port (DisableRx port) = port"
| "op_port (EnableTx port) = port"
| "op_port (DisableTx port) = port"
| "op_port (EnableFlush port) = port"
| "op_port (DisableFlush port) = port"

fun op_prog :: "ctl_env \<Rightarrow> mac_op \<Rightarrow> mac_prog" where
  "op_prog e (EnableRx port) = sync_prog (NS_PLATFORM_MAC (board e) port) (NS_PLATFORM_MAC_CORE (board e) port)
     (NS_PLATFORM_MAC_CORE_SERDES_LO (board e) port) ARB_CODE_ETH_CMD_CFG_ENABLE_RX (Ret True)"
| "op_prog e (DisableRx port) = disable_rx_prog (lev e) (NS_PLATFORM_MAC (board e) port) (NS_PLATFORM_MAC_CORE (board e) port)
     (NS_PLATFORM_MAC_CORE_SERDES_LO (board e) port) (nat (NS_PLATFORM_MAC_NUM_SERDES (board e) port))"
| "op_prog e (EnableTx port) = queues_prog (lev e) (NS_PLATFORM_MAC (board e) port) True (port_queues (board e) port)"
| "op_prog e (DisableTx port) = queues_prog (lev e) (NS_PLATFORM_MAC (board e) port) False (port_queues (board e) port)"
| "op_prog e (EnableFlush port) = sync_prog (NS_PLATFORM_MAC (board e) port) (NS_PLATFORM_MAC_CORE (board e) port)
     (NS_PLATFORM_MAC_CORE_SERDES_LO (board e) port) ARB_CODE_ETH_CMD_CFG_ENABLE_FLUSH (Ret True)"
| "op_prog e (DisableFlush port) = sync_prog (NS_PLATFORM_MAC (board e) port) (NS_PLATFORM_MAC_CORE (board e) port)
     (NS_PLATFORM_MAC_CORE_SERDES_LO (board e) port) ARB_CODE_ETH_CMD_CFG_DISABLE_FLUSH (Ret True)"

text \<open>The same operations as functions.\<close>

fun op_run :: "ctl_env \<Rightarrow> mac_op \<Rightarrow> app_state \<Rightarrow> (bool \<times> app_state) option" where
  "op_run e (EnableRx port) s = map_option (Pair True) (mac_port_enable_rx e port s)"
| "op_run e (DisableRx port) s = mac_port_disable_rx e port s"
| "op_run e (EnableTx port) s = map_option (Pair True) (mac_port_enable_tx e port s)"
| "op_run e (DisableTx port) s = map_option (Pair True) (mac_port_disable_tx e port s)"
| "op_run e (EnableFlush port) s = map_option (Pair True) (mac_port_enable_tx_flush e (NS_PLATFORM_MAC (board e) port)
     (NS_PLATFORM_MAC_CORE (board e) port) (NS_PLATFORM_MAC_CORE_SERDES_LO (board e) port) s)"
| "op_run e (DisableFlush port) s = map_option (Pair True) (mac_port_disable_tx_flush e (NS_PLATFORM_MAC (board e) port)
     (NS_PLATFORM_MAC_CORE (board e) port) (NS_PLATFORM_MAC_CORE_SERDES_LO (board e) port) s)"

section \<open>The two descriptions of an operation agree\<close>

lemma poll_prog_unfold:
  "poll_prog a m k = Rd a (\<lambda>v. if v AND m \<noteq> m then poll_prog a m k else k)"
  by (rule poll_prog.code)

lemma run_poll_prog:
  "run_prog d (poll_prog a m k) hs =
     (if xpb_dev d hs a AND m \<noteq> m then run_prog d (poll_prog a m k) (XpbRead a # hs) else run_prog d k (XpbRead a # hs))"
  by (subst poll_prog_unfold) simp

lemma run_poll_to:
  assumes "inhibit_poll d a m hs = Some hs'"
  shows "run_prog d (poll_prog a m k) hs = run_prog d k hs'"
  using assms
proof (rule inhibit_poll.raw_induct [where P = "\<lambda>d a m hs hs'. run_prog d (poll_prog a m k) hs = run_prog d k hs'", rotated], goal_cases)
  case (1 poll d a m hs hs')
  then show ?case by (subst run_poll_prog) (auto split: if_splits)
qed

lemma run_poll_from:
  assumes "run_prog d (poll_prog a m k) hs = Some r"
  shows "\<exists>hs'. inhibit_poll d a m hs = Some hs'"
proof -
  have "p = poll_prog a m k \<longrightarrow> (\<exists>hs'. inhibit_poll d a m hs = Some hs')" if "run_prog d p hs = Some r" for p
    using that
  proof (rule run_prog.raw_induct [where P = "\<lambda>d p hs r. p = poll_prog a m k \<longrightarrow> (\<exists>hs'. inhibit_poll d a m hs = Some hs')", rotated], goal_cases)
    case (1 run d p hs r)
    have "\<exists>hs'. inhibit_poll d a m hs = Some hs'" if p: "p = poll_prog a m k"
    proof (cases "xpb_dev d hs a AND m = m")
      case True
      then show ?thesis by (subst inhibit_poll.simps) simp
    next
      case False
      then have "run d (poll_prog a m k) (XpbRead a # hs) = Some r" using 1(2) p by (simp add: poll_prog_unfold [of a m k])
      then show ?thesis using 1(1) False by (subst inhibit_poll.simps) auto
    qed
    then show ?case by blast
  qed
  with assms show ?thesis by blast
qed

lemma run_poll: "run_prog d (poll_prog a m k) hs = Option.bind (inhibit_poll d a m hs) (run_prog d k)"
proof (cases "inhibit_poll d a m hs")
  case None
  then show ?thesis using run_poll_from [of d a m k hs] by (cases "run_prog d (poll_prog a m k) hs") auto
qed (simp add: run_poll_to)

lemma run_rx_wait:
  "mac_args_ok mac_isl mac_core core_port \<Longrightarrow> run_prog (dv le) (rx_wait_prog le mac_isl mac_core core_port n k) hs =
     Option.bind (rx_disabled_wait le mac_isl mac_core core_port n hs) (\<lambda>(ok, hs). run_prog (dv le) (k ok) hs)"
  by (induction n arbitrary: hs) (simp_all add: mac_eth_check_rx_enable_def xpb_read_def)

lemma run_queues:
  "nbi < 2 \<Longrightarrow> \<forall>q \<in> set qs. q < 1024 \<Longrightarrow> run_prog (dv le) (queues_prog le nbi True qs) hs =
     map_option (Pair True) (enable_port_tx_datapath le nbi qs hs)"
  "nbi < 2 \<Longrightarrow> \<forall>q \<in> set qs. q < 1024 \<Longrightarrow> run_prog (dv le) (queues_prog le nbi False qs) hs =
     map_option (Pair True) (disable_port_tx_datapath le nbi qs hs)"
  by (induction qs arbitrary: hs) (simp_all add: tm_enable_queue_eq)

lemma run_disable_rx:
  assumes "mac_args_ok mac_isl mac_core core_port" "0 < lanes" "core_port + lanes \<le> 12"
  shows "run_prog (dv le) (disable_rx_prog le mac_isl mac_core core_port lanes) hs = mac_eth_disable_rx le mac_isl mac_core core_port lanes hs"
proof -
  have g: "0 < core_port + lanes \<and> core_port + lanes - 1 < MAX_ETH_PORTS_PER_MAC_CORE"
    using assms(2,3) by (simp add: MAX_ETH_PORTS_PER_MAC_CORE_def)
  have w: "run_prog (dv le) (sync_prog mac_isl mac_core core_port ARB_CODE_ETH_CMD_CFG_DISABLE_RX (rx_wait_prog le mac_isl mac_core core_port 10 k)) =
      (\<lambda>hs. Option.bind (rx_disabled_wait le mac_isl mac_core core_port 10 (issue_sync_me_cmd mac_isl mac_core core_port ARB_CODE_ETH_CMD_CFG_DISABLE_RX 0 hs))
        (\<lambda>(ok, hs). run_prog (dv le) (k ok) hs))" for k
    by (rule ext) (simp add: sync_prog_def issue_sync_me_cmd_def run_rx_wait [OF assms(1)] del: rx_wait_prog.simps rx_disabled_wait.simps)
  show ?thesis
    unfolding mac_eth_disable_rx_def if_P [OF conjI [OF assms(1) g]]
    by (simp add: disable_rx_prog_def Let_def xpb_read_def xpb_write_def run_poll w split_def del: rx_wait_prog.simps rx_disabled_wait.simps)
qed

lemma op_agrees:
  assumes "platform_of ty = Some (board e)" "op_port op < NS_PLATFORM_NUM_PORTS (board e)" "mac_reg_lock s = 0"
  shows "op_run e op s = map_option (\<lambda>(r, hs). (r, s\<lparr>hist := hs\<rparr>)) (run_prog (dv (lev e)) (op_prog e op) (hist s))"
proof -
  note a = mac_args_port(1) [OF assms(1,2)] and q = port_queue_facts [OF assms(1,2)] and l = port_lanes_fit [OF assms(1,2), unfolded port_lanes_def]
  have f: "LOCAL_MUTEX_LOCK s = Some (s\<lparr>mac_reg_lock := 1\<rparr>)"
    "LOCAL_MUTEX_UNLOCK (s\<lparr>mac_reg_lock := 1, hist := h\<rparr>) = s\<lparr>hist := h\<rparr>" for h
    using assms(3) by (simp_all add: LOCAL_MUTEX_LOCK_def LOCAL_MUTEX_UNLOCK_def c_true_def)
  note mac = mac_port_enable_rx_def mac_port_disable_rx_def mac_port_enable_tx_def mac_port_disable_tx_def mac_port_enable_tx_flush_def
    mac_port_disable_tx_flush_def mac_eth_enable_rx_def mac_eth_enable_tx_flush_def mac_eth_disable_tx_flush_def issue_sync_me_cmd_def
  show ?thesis using a q l
    by (cases op) (auto simp: mac f sync_prog_def run_disable_rx run_queues map_option_bind option.map_comp comp_def split_def
        map_option_case split: option.split)
qed

section \<open>Contexts\<close>

text \<open>What a context does: nothing under the mutex, waiting in \<open>LOCAL_MUTEX_LOCK\<close>, or
  inside of an operation with what is left of it.\<close>

datatype mc_pc = Idle | Waiting mac_op | Running mac_op mac_prog

text \<open>\<open>mc_done\<close> records the operations that are finished, with their results, newest
  first.\<close>

record mc_state =
  mc_lock :: u32
  mc_hist :: dev_hist
  mc_pc :: "nat \<Rightarrow> mc_pc"
  mc_done :: "(mac_op \<times> bool) list"

text \<open>A step is what one context does between two swaps: the test of the mutex and
  its setting are one step, every register access is one.\<close>

inductive mc_step :: "ctl_env \<Rightarrow> mc_state \<Rightarrow> mc_state \<Rightarrow> bool" for e where
  call: "mc_pc s t = Idle \<Longrightarrow> op_port op < NS_PLATFORM_NUM_PORTS (board e) \<Longrightarrow> mc_step e s (s\<lparr>mc_pc := (mc_pc s)(t := Waiting op)\<rparr>)"
| spin: "mc_pc s t = Waiting op \<Longrightarrow> c_true (mc_lock s) \<Longrightarrow> mc_step e s s"
| lock: "mc_pc s t = Waiting op \<Longrightarrow> \<not> c_true (mc_lock s) \<Longrightarrow>
     mc_step e s (s\<lparr>mc_lock := 1, mc_pc := (mc_pc s)(t := Running op (op_prog e op))\<rparr>)"
| rd: "mc_pc s t = Running op (Rd a k) \<Longrightarrow>
     mc_step e s (s\<lparr>mc_hist := XpbRead a # mc_hist s, mc_pc := (mc_pc s)(t := Running op (k (xpb_dev (dv (lev e)) (mc_hist s) a)))\<rparr>)"
| ev: "mc_pc s t = Running op (Ev x p) \<Longrightarrow> mc_step e s (s\<lparr>mc_hist := x # mc_hist s, mc_pc := (mc_pc s)(t := Running op p)\<rparr>)"
| unlock: "mc_pc s t = Running op (Ret b) \<Longrightarrow>
     mc_step e s (s\<lparr>mc_lock := 0, mc_pc := (mc_pc s)(t := Idle), mc_done := (op, b) # mc_done s\<rparr>)"

inductive mc_reach :: "ctl_env \<Rightarrow> mc_state \<Rightarrow> mc_state \<Rightarrow> bool" for e s0 where
  start: "mc_reach e s0 s0"
| step: "mc_reach e s0 s \<Longrightarrow> mc_step e s s' \<Longrightarrow> mc_reach e s0 s'"

definition mc_init :: "dev_hist \<Rightarrow> mc_state" where
  "mc_init h = \<lparr>mc_lock = 0, mc_hist = h, mc_pc = (\<lambda>_. Idle), mc_done = []\<rparr>"

text \<open>The finished operations one after the other, oldest first, as functions.\<close>

fun seq_ops :: "ctl_env \<Rightarrow> (mac_op \<times> bool) list \<Rightarrow> app_state \<Rightarrow> app_state option" where
  "seq_ops e [] s = Some s"
| "seq_ops e ((op, b) # ops) s = do {
     s \<leftarrow> seq_ops e ops s;
     (r, s) \<leftarrow> op_run e op s;
     if r = b then Some s else None }"

section \<open>The invariant\<close>

text \<open>Either the mutex is free and the history is that of the finished operations,
  or one context is inside, and running the rest of its operation from the
  present history is running the operation from the history of the finished
  ones.\<close>

definition mc_free :: "ctl_env \<Rightarrow> app_state \<Rightarrow> mc_state \<Rightarrow> bool" where
  "mc_free e s0 s \<longleftrightarrow> mc_lock s = 0 \<and> (\<forall>t op p. mc_pc s t \<noteq> Running op p) \<and>
     seq_ops e (mc_done s) s0 = Some (s0\<lparr>hist := mc_hist s\<rparr>)"

definition mc_inside :: "ctl_env \<Rightarrow> app_state \<Rightarrow> mc_state \<Rightarrow> nat \<Rightarrow> mac_op \<Rightarrow> mac_prog \<Rightarrow> bool" where
  "mc_inside e s0 s t op p \<longleftrightarrow> mc_lock s = 1 \<and> mc_pc s t = Running op p \<and> (\<forall>u. u \<noteq> t \<longrightarrow> (\<forall>op p. mc_pc s u \<noteq> Running op p)) \<and>
     (\<exists>h. seq_ops e (mc_done s) s0 = Some (s0\<lparr>hist := h\<rparr>) \<and>
        run_prog (dv (lev e)) (op_prog e op) h = run_prog (dv (lev e)) p (mc_hist s))"

definition mc_calls_ok :: "ctl_env \<Rightarrow> mc_state \<Rightarrow> bool" where
  "mc_calls_ok e s \<longleftrightarrow> (\<forall>t op. (mc_pc s t = Waiting op \<or> (\<exists>p. mc_pc s t = Running op p)) \<longrightarrow> op_port op < NS_PLATFORM_NUM_PORTS (board e))"

definition mc_inv :: "ctl_env \<Rightarrow> app_state \<Rightarrow> mc_state \<Rightarrow> bool" where
  "mc_inv e s0 s \<longleftrightarrow> mc_calls_ok e s \<and> (mc_free e s0 s \<or> (\<exists>t op p. mc_inside e s0 s t op p))"

lemma mc_calls_step: "mc_step e s s' \<Longrightarrow> mc_calls_ok e s \<Longrightarrow> mc_calls_ok e s'"
  by (induction rule: mc_step.induct) (auto simp: mc_calls_ok_def split: if_splits)

lemma mc_free_step:
  assumes "mc_step e s s'" "mc_free e s0 s"
  shows "mc_free e s0 s' \<or> (\<exists>t op p. mc_inside e s0 s' t op p)"
  using assms(1)
proof cases
  case (call t op)
  then show ?thesis using assms(2) by (simp add: mc_free_def)
next
  case (lock t op)
  then have "mc_inside e s0 s' t op (op_prog e op)" using assms(2) by (auto simp: mc_free_def mc_inside_def)
  then show ?thesis by blast
qed (use assms(2) in \<open>auto simp: mc_free_def c_true_def\<close>)

lemma mc_inside_step:
  assumes "mc_step e s s'" "mc_inside e s0 s t op p" "mc_calls_ok e s" "platform_of ty = Some (board e)" "mac_reg_lock s0 = 0"
  shows "mc_free e s0 s' \<or> (\<exists>t op p. mc_inside e s0 s' t op p)"
proof -
  obtain h where i: "mc_lock s = 1" "mc_pc s t = Running op p" "\<forall>u. u \<noteq> t \<longrightarrow> (\<forall>op p. mc_pc s u \<noteq> Running op p)"
    "seq_ops e (mc_done s) s0 = Some (s0\<lparr>hist := h\<rparr>)" "run_prog (dv (lev e)) (op_prog e op) h = run_prog (dv (lev e)) p (mc_hist s)"
    using assms(2) by (auto simp: mc_inside_def)
  have me: "u = t \<and> q = op \<and> r = p" if "mc_pc s u = Running q r" for u q r
    using that i(2,3) by (cases "u = t") auto
  show ?thesis using assms(1)
  proof cases
    case (call u q)
    then have "mc_inside e s0 s' t op p" using assms(2) by (auto simp: mc_inside_def)
    then show ?thesis by blast
  next
    case (rd u q a k)
    have u: "u = t" "q = op" "p = Rd a k" using me [OF rd(2)] by simp_all
    have "mc_inside e s0 s' t op (k (xpb_dev (dv (lev e)) (mc_hist s) a))"
      unfolding mc_inside_def rd(1) u(1,2) using i(1,3,4,5) u(3) by (simp, intro exI [of _ h], simp)
    then show ?thesis by blast
  next
    case (ev u q x p')
    have u: "u = t" "q = op" "p = Ev x p'" using me [OF ev(2)] by simp_all
    have "mc_inside e s0 s' t op p'"
      unfolding mc_inside_def ev(1) u(1,2) using i(1,3,4,5) u(3) by (simp, intro exI [of _ h], simp)
    then show ?thesis by blast
  next
    case (unlock u q b)
    have u: "u = t" "q = op" "p = Ret b" using me [OF unlock(2)] by simp_all
    have "op_port op < NS_PLATFORM_NUM_PORTS (board e)" using assms(3) i(2) by (auto simp: mc_calls_ok_def)
    then have "op_run e op (s0\<lparr>hist := h\<rparr>) = Some (b, s0\<lparr>hist := mc_hist s\<rparr>)"
      using op_agrees [OF assms(4), of op "s0\<lparr>hist := h\<rparr>"] assms(5) i(5) u(3) by simp
    then have "mc_free e s0 s'" unfolding mc_free_def unlock(1) u(1,2) using i(3,4) by simp
    then show ?thesis by blast
  qed (use assms(2) i(1) in \<open>auto simp: c_true_def\<close>)
qed

lemma mc_reach_inv:
  assumes "mc_reach e (mc_init (hist s0)) s" "platform_of ty = Some (board e)" "mac_reg_lock s0 = 0"
  shows "mc_inv e s0 s"
  using assms(1)
proof induction
  case start
  show ?case by (simp add: mc_inv_def mc_calls_ok_def mc_free_def mc_init_def)
next
  case (step s s')
  then show ?case
    using mc_calls_step mc_free_step mc_inside_step [OF step.hyps(2) _ _ assms(2,3)] unfolding mc_inv_def by blast
qed

section \<open>Progress\<close>

lemma mc_reach_trans: "mc_reach e s1 s2 \<Longrightarrow> mc_reach e s0 s1 \<Longrightarrow> mc_reach e s0 s2"
  by (induction rule: mc_reach.induct) (auto intro: mc_reach.step)

text \<open>A context whose operation returns can finish it by its own steps.\<close>

lemma finish_alone:
  assumes "run_prog (dv (lev e)) p h = Some (b, h')" "mc_pc s t = Running op p" "mc_hist s = h"
  shows "mc_reach e s (s\<lparr>mc_hist := h', mc_lock := 0, mc_pc := (mc_pc s)(t := Idle), mc_done := (op, b) # mc_done s\<rparr>)"
proof -
  let ?P = "\<lambda>d p h r. d = dv (lev e) \<longrightarrow> (\<forall>s :: mc_state. mc_pc s t = Running op p \<longrightarrow> mc_hist s = h \<longrightarrow>
      mc_reach e s (s\<lparr>mc_hist := snd r, mc_lock := 0, mc_pc := (mc_pc s)(t := Idle), mc_done := (op, fst r) # mc_done s\<rparr>))"
  have "?P (dv (lev e)) p h (b, h')" using assms(1)
  proof (rule run_prog.raw_induct [where P = ?P, rotated], goal_cases)
    case (1 run d p h r)
    show ?case
    proof (intro impI allI)
      fix s :: mc_state assume d: "d = dv (lev e)" and s: "mc_pc s t = Running op p" "mc_hist s = h"
      show "mc_reach e s (s\<lparr>mc_hist := snd r, mc_lock := 0, mc_pc := (mc_pc s)(t := Idle), mc_done := (op, fst r) # mc_done s\<rparr>)"
      proof (cases p)
        case (Ret b)
        have "s\<lparr>mc_hist := h\<rparr> = s" using s(2) by (cases s) simp
        moreover have "r = (b, h)" using 1(2) Ret by simp
        ultimately show ?thesis using mc_reach.step [OF mc_reach.start mc_step.unlock [of s t op b]] s(1) Ret by simp
      next
        case (Rd a k)
        let ?s = "s\<lparr>mc_hist := XpbRead a # h, mc_pc := (mc_pc s)(t := Running op (k (xpb_dev d h a)))\<rparr>"
        have "run d (k (xpb_dev d h a)) (XpbRead a # h) = Some r" using 1(2) Rd by simp
        from 1(1) [OF this, rule_format, OF d, of ?s]
        have "mc_reach e ?s (s\<lparr>mc_hist := snd r, mc_lock := 0, mc_pc := (mc_pc s)(t := Idle), mc_done := (op, fst r) # mc_done s\<rparr>)" by simp
        moreover have "mc_step e s ?s" using mc_step.rd [of s t op a k e] s Rd d by simp
        ultimately show ?thesis by (meson mc_reach_trans mc_reach.intros)
      next
        case (Ev x q)
        let ?s = "s\<lparr>mc_hist := x # h, mc_pc := (mc_pc s)(t := Running op q)\<rparr>"
        have "run d q (x # h) = Some r" using 1(2) Ev by simp
        from 1(1) [OF this, rule_format, OF d, of ?s]
        have "mc_reach e ?s (s\<lparr>mc_hist := snd r, mc_lock := 0, mc_pc := (mc_pc s)(t := Idle), mc_done := (op, fst r) # mc_done s\<rparr>)" by simp
        moreover have "mc_step e s ?s" using mc_step.ev [of s t op x q e] s Ev by simp
        ultimately show ?thesis by (meson mc_reach_trans mc_reach.intros)
      qed
    qed
  qed
  then show ?thesis using assms(2,3) by simp
qed

lemma op_returns:
  assumes "platform_of ty = Some (board e)" "op_port op < NS_PLATFORM_NUM_PORTS (board e)" "mac_reg_lock s = 0" "ports_acked e"
  shows "\<exists>b h. run_prog (dv (lev e)) (op_prog e op) (hist (s :: app_state)) = Some (b, h)"
proof -
  note q = port_queue_facts [OF assms(1,2)]
  have off: "\<exists>h. disable_port_tx_datapath le 0 qs h0 = Some h" if "\<forall>q \<in> set qs. q < 1024" for le qs h0
    using that by (induction qs arbitrary: h0) (simp_all add: tm_enable_queue_eq)
  show ?thesis
  proof (cases op)
    case (DisableRx port)
    then obtain ok evs where "op_run e op s = Some (ok, s\<lparr>hist := evs @ hist s\<rparr>)"
      using port_disable_step [OF assms(1) _ assms(3,4), of port] assms(2) by auto
    then show ?thesis using op_agrees [OF assms(1-3)] by auto
  qed (use q off [of "port_queues (board e) (op_port op)"] tx_datapath_total [of 0 "port_queues (board e) (op_port op)"] in
      \<open>auto simp: sync_prog_def run_queues\<close>)
qed

section \<open>Properties\<close>

text \<open>C14. However the contexts of the application master interleave inside of the
  MAC operations, the mutex makes the operations appear one after the other:
  whenever it is free, no context is inside, and the register history is that of
  the finished operations run as functions in the order in which they finished,
  with the results that were returned.  When it is taken, exactly one context is
  inside, and if the MAC acknowledges its inhibit this context can finish by its
  own steps, which frees the mutex.\<close>

theorem mac_sections_serialize:
  assumes "mc_reach e (mc_init (hist s0)) s" "platform_of ty = Some (board e)" "mac_reg_lock s0 = 0"
  shows "(mc_lock s = 0 \<and> (\<forall>t op p. mc_pc s t \<noteq> Running op p) \<and> seq_ops e (mc_done s) s0 = Some (s0\<lparr>hist := mc_hist s\<rparr>)) \<or>
     (mc_lock s = 1 \<and> (\<exists>!t. \<exists>op p. mc_pc s t = Running op p) \<and>
      (ports_acked e \<longrightarrow> (\<exists>s'. mc_reach e s s' \<and> mc_lock s' = 0 \<and> length (mc_done s') = Suc (length (mc_done s)))))"
proof -
  have inv: "mc_inv e s0 s" by (rule mc_reach_inv [OF assms])
  then consider "mc_free e s0 s" | (inside) t op p where "mc_inside e s0 s t op p" unfolding mc_inv_def by blast
  then show ?thesis
  proof cases
    case inside
    then obtain h where i: "mc_lock s = 1" "mc_pc s t = Running op p" "\<forall>u. u \<noteq> t \<longrightarrow> (\<forall>op p. mc_pc s u \<noteq> Running op p)"
      "run_prog (dv (lev e)) (op_prog e op) h = run_prog (dv (lev e)) p (mc_hist s)"
      by (auto simp: mc_inside_def)
    have "\<exists>s'. mc_reach e s s' \<and> mc_lock s' = 0 \<and> length (mc_done s') = Suc (length (mc_done s))" if acked: "ports_acked e"
    proof -
      have "op_port op < NS_PLATFORM_NUM_PORTS (board e)" using inv i(2) by (auto simp: mc_inv_def mc_calls_ok_def)
      then obtain b h' where "run_prog (dv (lev e)) p (mc_hist s) = Some (b, h')"
        using op_returns [OF assms(2) _ _ acked, of op "s0\<lparr>hist := h\<rparr>"] assms(3) i(4) by auto
      from finish_alone [OF this i(2) refl] show ?thesis by (intro exI conjI) auto
    qed
    moreover have "\<exists>!t. \<exists>op p. mc_pc s t = Running op p" using i(2,3) by (intro ex1I [of _ t]) blast+
    ultimately show ?thesis using i(1) by blast
  qed (simp add: mc_free_def)
qed

theorem mac_sections_serialize_witness:
  "\<exists>s. mc_reach ctl_env_ex (mc_init []) s \<and> mc_pc s 0 = Waiting (DisableRx 0) \<and> mc_done s = [(EnableRx 0, True)] \<and>
     seq_ops ctl_env_ex [(EnableRx 0, True)] app_state_ex = Some (app_state_ex\<lparr>hist := mc_hist s\<rparr>)"
proof -
  have e: "board ctl_env_ex = CARBON" "hist app_state_ex = []" "mac_reg_lock app_state_ex = 0"
    by (simp_all add: ctl_env_ex_def cfg_env_ex_def app_state_ex_def)
  have ty: "platform_of 10 = Some (board ctl_env_ex)" by (simp add: e platform_of_def)
  have n: "0 < NS_PLATFORM_NUM_PORTS (board ctl_env_ex)" unfolding e by code_simp
  define cmd where "cmd = SyncMeCmd ARB_CLS_BASE_ADDR_Hi32 (push_bit 2 ARB_CLS_RING_NUM) (LINK_CTRL_SYNC_CMD (NS_PLATFORM_MAC (board ctl_env_ex) 0)
     (NS_PLATFORM_MAC_CORE (board ctl_env_ex) 0) (NS_PLATFORM_MAC_CORE_SERDES_LO (board ctl_env_ex) 0) ARB_CODE_ETH_CMD_CFG_ENABLE_RX 0)"
  have p: "op_prog ctl_env_ex (EnableRx 0) = Ev cmd (Ret True)" by (simp add: sync_prog_def cmd_def)
  let ?s1 = "(mc_init [])\<lparr>mc_pc := (\<lambda>_. Idle)(6 := Waiting (EnableRx 0))\<rparr>"
  let ?s2 = "?s1\<lparr>mc_lock := 1, mc_pc := (\<lambda>_. Idle)(6 := Running (EnableRx 0) (Ev cmd (Ret True)))\<rparr>"
  let ?s3 = "?s2\<lparr>mc_pc := (\<lambda>_. Idle)(6 := Running (EnableRx 0) (Ev cmd (Ret True)), 0 := Waiting (DisableRx 0))\<rparr>"
  let ?s4 = "?s3\<lparr>mc_hist := [cmd], mc_pc := (\<lambda>_. Idle)(6 := Running (EnableRx 0) (Ret True), 0 := Waiting (DisableRx 0))\<rparr>"
  let ?s5 = "?s4\<lparr>mc_lock := 0, mc_pc := (\<lambda>_. Idle)(0 := Waiting (DisableRx 0), 6 := Idle), mc_done := [(EnableRx 0, True)]\<rparr>"
  have "mc_step ctl_env_ex (mc_init []) ?s1" using mc_step.call [of "mc_init []" 6 "EnableRx 0"] n by (simp add: mc_init_def)
  moreover have "mc_step ctl_env_ex ?s1 ?s2" using mc_step.lock [of ?s1 6 "EnableRx 0" ctl_env_ex, unfolded p] by (simp add: mc_init_def)
  moreover have "mc_step ctl_env_ex ?s2 ?s3" using mc_step.call [of ?s2 0 "DisableRx 0"] n by simp
  moreover have "mc_step ctl_env_ex ?s3 ?s4"
    using mc_step.ev [of ?s3 6 "EnableRx 0" cmd "Ret True"] by (simp add: mc_init_def fun_upd_twist)
  moreover have "mc_step ctl_env_ex ?s4 ?s5"
    using mc_step.unlock [of ?s4 6 "EnableRx 0" True] by (simp add: mc_init_def fun_upd_twist)
  ultimately have r: "mc_reach ctl_env_ex (mc_init []) ?s5" by (meson mc_reach.intros)
  have "seq_ops ctl_env_ex (mc_done ?s5) app_state_ex = Some (app_state_ex\<lparr>hist := mc_hist ?s5\<rparr>)"
    using mac_sections_serialize [of ctl_env_ex app_state_ex ?s5 10, unfolded e(2), OF r ty e(3)] by simp
  with r show ?thesis by (intro exI [of _ ?s5]) simp
qed

end
