(* ===== verification/MapMsg.thy ===== *)
theory MapMsg
  imports ConfigOps
begin

unbundle bit_operations_syntax

text \<open>
  \<open>maps/cmsg_map_types.h\<close>: the control messages of the hash map engine, as
  structures and as the words that the engine reads, and the memory image that
  \<open>nic_mac_vlan_entry_op_cmsg\<close> leaves for it.  The sender builds the header and the
  key in its own layout (\<open>struct nic_mac_vlan_cmsg\<close>) and stores them with the
  bytes of every word reversed, and stores the action list 80 bytes further on
  as it is.  \<open>VebTable\<close> speaks of the messages as the sender sees them; here they
  are read back as requests of the engine, and the table that the requests build
  is shown to be the one of \<open>VebTable\<close>.  The reversing store is a library function
  and is a parameter.
\<close>

section \<open>Constants\<close>

definition CMSG_MAP_VERSION :: u8 where "CMSG_MAP_VERSION = 1"
definition CMSG_PORT :: u32 where "CMSG_PORT = 0xffffffff"
definition HASHMAP_MAX_TID :: u32 where "HASHMAP_MAX_TID = 255"
definition CMSG_TYPE_MAP_ALLOC :: u32 where "CMSG_TYPE_MAP_ALLOC = 1"
definition CMSG_TYPE_MAP_FREE :: u32 where "CMSG_TYPE_MAP_FREE = 2"
definition CMSG_TYPE_MAP_LOOKUP :: u32 where "CMSG_TYPE_MAP_LOOKUP = 3"
definition CMSG_TYPE_MAP_GETNEXT :: u32 where "CMSG_TYPE_MAP_GETNEXT = 6"
definition CMSG_TYPE_MAP_GETFIRST :: u32 where "CMSG_TYPE_MAP_GETFIRST = 7"
definition CMSG_TYPE_PRINT :: u32 where "CMSG_TYPE_PRINT = 8"
definition CMSG_TYPE_MAP_ARRAY_GETNEXT :: u32 where "CMSG_TYPE_MAP_ARRAY_GETNEXT = 0xf6"
definition CMSG_TYPE_MAP_START :: u32 where "CMSG_TYPE_MAP_START = 1"
definition CMSG_TYPE_MAP_MAX :: u32 where "CMSG_TYPE_MAP_MAX = 7"
definition CMSG_TYPE_MAP_ALLOC_REPLY :: u32 where "CMSG_TYPE_MAP_ALLOC_REPLY = 0x81"
definition CMSG_TYPE_MAP_FREE_REPLY :: u32 where "CMSG_TYPE_MAP_FREE_REPLY = 0x82"
definition CMSG_TYPE_MAP_LOOKUP_REPLY :: u32 where "CMSG_TYPE_MAP_LOOKUP_REPLY = 0x83"
definition CMSG_TYPE_MAP_ADD_REPLY :: u32 where "CMSG_TYPE_MAP_ADD_REPLY = 0x84"
definition CMSG_TYPE_MAP_DELETE_REPLY :: u32 where "CMSG_TYPE_MAP_DELETE_REPLY = 0x85"
definition CMSG_TYPE_MAP_GETNEXT_REPLY :: u32 where "CMSG_TYPE_MAP_GETNEXT_REPLY = 0x86"
definition CMSG_TYPE_MAP_GETFIRST_REPLY :: u32 where "CMSG_TYPE_MAP_GETFIRST_REPLY = 0x87"
definition CMSG_TYPE_MAP_REPLY_BIT :: nat where "CMSG_TYPE_MAP_REPLY_BIT = 7"
definition CMSG_MAP_KEY_LW :: nat where "CMSG_MAP_KEY_LW = 10"
definition CMSG_MAP_VALUE_LW :: nat where "CMSG_MAP_VALUE_LW = 6"
definition CMSG_MAP_KEY_VALUE_LW :: nat where "CMSG_MAP_KEY_VALUE_LW = 16"
definition CMSG_MAP_KEY_VALUE_SZ :: nat where "CMSG_MAP_KEY_VALUE_SZ = CMSG_MAP_KEY_VALUE_LW * 4"
definition CMSG_OP_HDR_LW :: nat where "CMSG_OP_HDR_LW = 4"
definition CMSG_MAP_RC_IDX :: nat where "CMSG_MAP_RC_IDX = 1"
definition CMSG_MAP_TID_IDX :: nat where "CMSG_MAP_TID_IDX = 1"
definition CMSG_MAP_OP_COUNT_IDX :: nat where "CMSG_MAP_OP_COUNT_IDX = 2"
definition CMSG_MAP_OP_FLAGS_IDX :: nat where "CMSG_MAP_OP_FLAGS_IDX = 3"
definition CMSG_MAP_ALLOC_KEYSZ_IDX :: nat where "CMSG_MAP_ALLOC_KEYSZ_IDX = 1"
definition CMSG_MAP_ALLOC_VALUESZ_IDX :: nat where "CMSG_MAP_ALLOC_VALUESZ_IDX = 2"
definition CMSG_MAP_ALLOC_MAXENT_IDX :: nat where "CMSG_MAP_ALLOC_MAXENT_IDX = 3"
definition CMSG_MAP_ALLOC_TYPE_IDX :: nat where "CMSG_MAP_ALLOC_TYPE_IDX = 4"
definition CMSG_MAP_ALLOC_FLAGS_IDX :: nat where "CMSG_MAP_ALLOC_FLAGS_IDX = 5"
definition CMSG_BPF_ANY :: u32 where "CMSG_BPF_ANY = 0"
definition CMSG_BPF_NOEXIST :: u32 where "CMSG_BPF_NOEXIST = 1"
definition CMSG_BPF_EXIST :: u32 where "CMSG_BPF_EXIST = 2"

text \<open>The results of an operation.\<close>

definition CMSG_RC_SUCCESS :: u32 where "CMSG_RC_SUCCESS = 0"
definition CMSG_RC_ERR_MAP_FD :: u32 where "CMSG_RC_ERR_MAP_FD = 1"
definition CMSG_RC_ERR_MAP_NOENT :: u32 where "CMSG_RC_ERR_MAP_NOENT = 2"
definition CMSG_RC_ERR_MAP_ERR :: u32 where "CMSG_RC_ERR_MAP_ERR = 3"
definition CMSG_RC_ERR_MAP_PARSE :: u32 where "CMSG_RC_ERR_MAP_PARSE = 4"
definition CMSG_RC_ERR_MAP_EXIST :: u32 where "CMSG_RC_ERR_MAP_EXIST = 5"
definition CMSG_RC_ERR_NOMEM :: u32 where "CMSG_RC_ERR_NOMEM = 6"
definition CMSG_RC_ERR_ENOENT :: u32 where "CMSG_RC_ERR_ENOENT = 2"
definition CMSG_RC_ERR_E2BIG :: u32 where "CMSG_RC_ERR_E2BIG = 7"
definition CMSG_RC_ERR_EINVAL :: u32 where "CMSG_RC_ERR_EINVAL = 22"
definition CMSG_RC_ERR_EEXIST :: u32 where "CMSG_RC_ERR_EEXIST = 17"
definition CMSG_RC_ERR_ENOMEM :: u32 where "CMSG_RC_ERR_ENOMEM = 12"

text \<open>\<open>struct nic_mac_vlan_cmsg\<close> and the sizes of \<open>app_mac_vlan_config_cmsg.h\<close>.\<close>

definition NIC_MAC_VLAN_KEY_SIZE_LW :: nat where "NIC_MAC_VLAN_KEY_SIZE_LW = 2"
definition NIC_MAC_VLAN_RESULT_SIZE_LW :: nat where "NIC_MAC_VLAN_RESULT_SIZE_LW = 16"
definition NIC_MAC_VLAN_CMSG_SIZE_LW :: nat where "NIC_MAC_VLAN_CMSG_SIZE_LW = NIC_MAC_VLAN_KEY_SIZE_LW + 4"

section \<open>Structures\<close>

text \<open>The bit fields \<open>type\<close>, \<open>ver\<close> and \<open>tag\<close> with which every message begins.\<close>

record cmsg_hdr =
  m_type :: u8
  m_ver :: u8
  m_tag :: u16

definition hdr_word :: "cmsg_hdr \<Rightarrow> u32" where
  "hdr_word h = bf_put 24 8 (ucast (m_type h)) (bf_put 16 8 (ucast (m_ver h)) (bf_put 0 16 (ucast (m_tag h)) 0))"

definition hdr_of_word :: "u32 \<Rightarrow> cmsg_hdr" where
  "hdr_of_word w = \<lparr>m_type = ucast (bf_get 24 8 w), m_ver = ucast (bf_get 16 8 w), m_tag = ucast (bf_get 0 16 w)\<rparr>"

record cmsg_req_map_alloc_tbl =
  qa_hdr :: cmsg_hdr
  qa_key_size :: u32
  qa_value_size :: u32
  qa_max_entries :: u32
  qa_map_type :: u32
  qa_map_flags :: u32

record cmsg_reply_map_alloc_tbl =
  ra_hdr :: cmsg_hdr
  ra_rc :: u32
  ra_tid :: u32

record cmsg_req_map_free_tbl =
  qf_hdr :: cmsg_hdr
  qf_tid :: u32

record cmsg_reply_map_free_tbl =
  rf_hdr :: cmsg_hdr
  rf_rc :: u32

record cmsg_key_value =
  kv_key :: "u32 list"
  kv_value :: "u32 list"

record cmsg_req_map_op =
  qo_hdr :: cmsg_hdr
  qo_tid :: u32
  qo_count :: u32
  qo_flags :: u32
  qo_data :: cmsg_key_value

record cmsg_reply_map_op =
  ro_hdr :: cmsg_hdr
  ro_rc :: u32
  ro_count :: u32
  ro_reserve :: u32
  ro_data :: cmsg_key_value

text \<open>The words of a structure and the structure in given words.  The arrays of
  a structure have \<open>CMSG_MAP_KEY_VALUE_LW\<close> words.\<close>

definition req_alloc_words :: "cmsg_req_map_alloc_tbl \<Rightarrow> u32 list" where
  "req_alloc_words m = [hdr_word (qa_hdr m), qa_key_size m, qa_value_size m, qa_max_entries m, qa_map_type m, qa_map_flags m]"

definition req_alloc_of :: "u32 list \<Rightarrow> cmsg_req_map_alloc_tbl" where
  "req_alloc_of ws = \<lparr>qa_hdr = hdr_of_word (ws ! 0), qa_key_size = ws ! CMSG_MAP_ALLOC_KEYSZ_IDX,
     qa_value_size = ws ! CMSG_MAP_ALLOC_VALUESZ_IDX, qa_max_entries = ws ! CMSG_MAP_ALLOC_MAXENT_IDX,
     qa_map_type = ws ! CMSG_MAP_ALLOC_TYPE_IDX, qa_map_flags = ws ! CMSG_MAP_ALLOC_FLAGS_IDX\<rparr>"

definition reply_alloc_words :: "cmsg_reply_map_alloc_tbl \<Rightarrow> u32 list" where
  "reply_alloc_words m = [hdr_word (ra_hdr m), ra_rc m, ra_tid m]"

definition reply_alloc_of :: "u32 list \<Rightarrow> cmsg_reply_map_alloc_tbl" where
  "reply_alloc_of ws = \<lparr>ra_hdr = hdr_of_word (ws ! 0), ra_rc = ws ! CMSG_MAP_RC_IDX, ra_tid = ws ! 2\<rparr>"

definition req_free_words :: "cmsg_req_map_free_tbl \<Rightarrow> u32 list" where
  "req_free_words m = [hdr_word (qf_hdr m), qf_tid m]"

definition req_free_of :: "u32 list \<Rightarrow> cmsg_req_map_free_tbl" where
  "req_free_of ws = \<lparr>qf_hdr = hdr_of_word (ws ! 0), qf_tid = ws ! CMSG_MAP_TID_IDX\<rparr>"

definition reply_free_words :: "cmsg_reply_map_free_tbl \<Rightarrow> u32 list" where
  "reply_free_words m = [hdr_word (rf_hdr m), rf_rc m]"

definition reply_free_of :: "u32 list \<Rightarrow> cmsg_reply_map_free_tbl" where
  "reply_free_of ws = \<lparr>rf_hdr = hdr_of_word (ws ! 0), rf_rc = ws ! CMSG_MAP_RC_IDX\<rparr>"

definition key_value_words :: "cmsg_key_value \<Rightarrow> u32 list" where
  "key_value_words kv = kv_key kv @ kv_value kv"

definition key_value_of :: "u32 list \<Rightarrow> cmsg_key_value" where
  "key_value_of ws = \<lparr>kv_key = take CMSG_MAP_KEY_VALUE_LW ws,
     kv_value = take CMSG_MAP_KEY_VALUE_LW (drop CMSG_MAP_KEY_VALUE_LW ws)\<rparr>"

definition req_op_words :: "cmsg_req_map_op \<Rightarrow> u32 list" where
  "req_op_words m = [hdr_word (qo_hdr m), qo_tid m, qo_count m, qo_flags m] @ key_value_words (qo_data m)"

definition req_op_of :: "u32 list \<Rightarrow> cmsg_req_map_op" where
  "req_op_of ws = \<lparr>qo_hdr = hdr_of_word (ws ! 0), qo_tid = ws ! CMSG_MAP_TID_IDX, qo_count = ws ! CMSG_MAP_OP_COUNT_IDX,
     qo_flags = ws ! CMSG_MAP_OP_FLAGS_IDX, qo_data = key_value_of (drop CMSG_OP_HDR_LW ws)\<rparr>"

definition reply_op_words :: "cmsg_reply_map_op \<Rightarrow> u32 list" where
  "reply_op_words m = [hdr_word (ro_hdr m), ro_rc m, ro_count m, ro_reserve m] @ key_value_words (ro_data m)"

definition reply_op_of :: "u32 list \<Rightarrow> cmsg_reply_map_op" where
  "reply_op_of ws = \<lparr>ro_hdr = hdr_of_word (ws ! 0), ro_rc = ws ! CMSG_MAP_RC_IDX, ro_count = ws ! CMSG_MAP_OP_COUNT_IDX,
     ro_reserve = ws ! CMSG_MAP_OP_FLAGS_IDX, ro_data = key_value_of (drop CMSG_OP_HDR_LW ws)\<rparr>"

section \<open>The memory image of a switch request\<close>

text \<open>The raw form of \<open>struct nic_mac_vlan_cmsg\<close>.\<close>

definition cmsg_raw :: "veb_msg \<Rightarrow> u32 list" where
  "cmsg_raw msg = [word0 msg, tid msg, cmsg_count msg, cmsg_flags msg] @ key_raw (cmsg_key msg)"

text \<open>The words from \<open>NFD_IN_DATA_OFFSET\<close> of the buffer on, which held \<open>buf\<close> before:
  the reversed structure at their begin and the action list at byte 80.\<close>

definition request_image :: "(u32 \<Rightarrow> u32) \<Rightarrow> (nat \<Rightarrow> u32) \<Rightarrow> veb_msg \<Rightarrow> nat \<Rightarrow> u32" where
  "request_image swp buf msg = array_fill (array_fill buf 0 (map swp (take NIC_MAC_VLAN_CMSG_SIZE_LW (cmsg_raw msg)))) (80 div 4) (action_data msg)"

text \<open>The reversing store is documented to exchange the bytes of each word.\<close>

definition byte_reversing :: "(u32 \<Rightarrow> u32) \<Rightarrow> bool" where
  "byte_reversing swp \<longleftrightarrow> (\<forall>w. \<forall>i < 4. bf_get (8 * i) 8 (swp w) = bf_get (24 - 8 * i) 8 w)"

section \<open>The map that the requests build\<close>

text \<open>What the engine does with a request for the switch table, which it sets up
  with keys of 8 and values of 56 bytes (\<open>maps/cmsg_app.uc\<close>): it checks the version,
  reads the key reversed and takes the value as it is.\<close>

type_synonym hash_map = "u32 list \<Rightarrow> u32 list option"

definition hash_apply :: "(u32 \<Rightarrow> u32) \<Rightarrow> cmsg_req_map_op \<Rightarrow> hash_map \<Rightarrow> hash_map" where
  "hash_apply swp r tbl =
    (let key = map swp (take 2 (kv_key (qo_data r))); val = take 14 (kv_value (qo_data r)) in
     if CMSG_MAP_VERSION < m_ver (qo_hdr r) \<or> qo_tid r \<noteq> SRIOV_TID then tbl
     else if m_type (qo_hdr r) = ucast CMSG_TYPE_MAP_ADD then tbl(key \<mapsto> val)
     else if m_type (qo_hdr r) = ucast CMSG_TYPE_MAP_DELETE then tbl(key := None)
     else tbl)"

definition request_of :: "(u32 \<Rightarrow> u32) \<Rightarrow> (nat \<Rightarrow> u32) \<Rightarrow> veb_msg \<Rightarrow> cmsg_req_map_op" where
  "request_of swp buf msg = req_op_of (map (request_image swp buf msg) [0..<CMSG_OP_HDR_LW + 2 * CMSG_MAP_KEY_VALUE_LW])"

text \<open>The map after the requests of the queue; \<open>bufs i\<close> is what the buffer of the
  request \<open>i\<close> held before.\<close>

definition hash_content :: "(u32 \<Rightarrow> u32) \<Rightarrow> (nat \<Rightarrow> nat \<Rightarrow> u32) \<Rightarrow> veb_msg list \<Rightarrow> hash_map" where
  "hash_content swp bufs q = fold (\<lambda>(i, msg). hash_apply swp (request_of swp (bufs i) msg)) (enumerate 0 q) Map.empty"

definition sw_request :: "veb_msg \<Rightarrow> bool" where
  "sw_request msg \<longleftrightarrow> word0 msg \<in> {CMSG_TYPE_MAP_ADD OR push_bit 8 1, CMSG_TYPE_MAP_DELETE OR push_bit 8 1} \<and>
     tid msg = push_bit 24 SRIOV_TID \<and> cmsg_count msg = 0 \<and> cmsg_flags msg = 0 \<and> length (action_data msg) = 16"

section \<open>Round trips of the structures\<close>

lemma hdr_word_inverse [simp]: "hdr_of_word (hdr_word h) = h"
proof -
  have "take_bit 8 (ucast b :: u32) = ucast b" for b :: u8 
    by (rule bit_word_eqI) (auto simp: bit_take_bit_iff bit_ucast_iff dest: bit_imp_le_length)
  moreover have "take_bit 16 (ucast b :: u32) = ucast b" for b :: u16
    by (rule bit_word_eqI) (auto simp: bit_take_bit_iff bit_ucast_iff dest: bit_imp_le_length)
  moreover have "ucast (ucast b :: u32) = b" for b :: u8 by (rule bit_word_eqI) (auto simp: bit_ucast_iff)
  moreover have "ucast (ucast b :: u32) = b" for b :: u16 by (rule bit_word_eqI) (auto simp: bit_ucast_iff)
  ultimately show ?thesis by (simp add: hdr_of_word_def hdr_word_def bf_law)
qed

lemma hdr_of_word_inverse: "hdr_word (hdr_of_word w) = w"
proof (rule bit_word_eqI)
  fix n assume "n < LENGTH(32)"
  then show "bit (hdr_word (hdr_of_word w)) n = bit w n"
    by (auto simp: hdr_word_def hdr_of_word_def bit_bf_put bit_bf_get bit_ucast_iff)
qed

definition kv_ok :: "cmsg_key_value \<Rightarrow> bool" where
  "kv_ok kv \<longleftrightarrow> length (kv_key kv) = CMSG_MAP_KEY_VALUE_LW \<and> length (kv_value kv) = CMSG_MAP_KEY_VALUE_LW"

lemma key_value_inverse: "kv_ok kv \<Longrightarrow> key_value_of (key_value_words kv) = kv"
  by (simp add: kv_ok_def key_value_of_def key_value_words_def)

lemmas msg_idx = CMSG_MAP_RC_IDX_def CMSG_MAP_TID_IDX_def CMSG_MAP_OP_COUNT_IDX_def CMSG_MAP_OP_FLAGS_IDX_def
  CMSG_MAP_ALLOC_KEYSZ_IDX_def CMSG_MAP_ALLOC_VALUESZ_IDX_def CMSG_MAP_ALLOC_MAXENT_IDX_def CMSG_MAP_ALLOC_TYPE_IDX_def
  CMSG_MAP_ALLOC_FLAGS_IDX_def CMSG_OP_HDR_LW_def

lemma table_messages_inverse:
  "req_alloc_of (req_alloc_words qa) = qa" "reply_alloc_of (reply_alloc_words ra) = ra"
  "req_free_of (req_free_words qf) = qf" "reply_free_of (reply_free_words rf) = rf"
  by (simp_all add: msg_idx req_alloc_of_def req_alloc_words_def reply_alloc_of_def reply_alloc_words_def
      req_free_of_def req_free_words_def reply_free_of_def reply_free_words_def)

lemma op_messages_inverse:
  "kv_ok (qo_data qo) \<Longrightarrow> req_op_of (req_op_words qo) = qo"
  "kv_ok (ro_data ro) \<Longrightarrow> reply_op_of (reply_op_words ro) = ro"
  by (simp_all add: msg_idx req_op_of_def req_op_words_def reply_op_of_def reply_op_words_def key_value_inverse)

text \<open>The raw view of the allocation request (\<open>__raw[5]\<close>) is one word short of the
  structure: it does not show the flags.\<close>

lemma alloc_raw_misses_flags: "take 5 (req_alloc_words (m\<lparr>qa_map_flags := f\<rparr>)) = take 5 (req_alloc_words m)"
  by (simp add: req_alloc_words_def)

text \<open>The type of a reply is that of the request with the reply bit set.\<close>

lemma reply_types:
  "CMSG_TYPE_MAP_ALLOC_REPLY = (CMSG_TYPE_MAP_ALLOC OR push_bit CMSG_TYPE_MAP_REPLY_BIT 1) \<and>
   CMSG_TYPE_MAP_FREE_REPLY = (CMSG_TYPE_MAP_FREE OR push_bit CMSG_TYPE_MAP_REPLY_BIT 1) \<and>
   CMSG_TYPE_MAP_LOOKUP_REPLY = (CMSG_TYPE_MAP_LOOKUP OR push_bit CMSG_TYPE_MAP_REPLY_BIT 1) \<and>
   CMSG_TYPE_MAP_ADD_REPLY = (CMSG_TYPE_MAP_ADD OR push_bit CMSG_TYPE_MAP_REPLY_BIT 1) \<and>
   CMSG_TYPE_MAP_DELETE_REPLY = (CMSG_TYPE_MAP_DELETE OR push_bit CMSG_TYPE_MAP_REPLY_BIT 1) \<and>
   CMSG_TYPE_MAP_GETNEXT_REPLY = (CMSG_TYPE_MAP_GETNEXT OR push_bit CMSG_TYPE_MAP_REPLY_BIT 1) \<and>
   CMSG_TYPE_MAP_GETFIRST_REPLY = (CMSG_TYPE_MAP_GETFIRST OR push_bit CMSG_TYPE_MAP_REPLY_BIT 1)"
  by code_simp

section \<open>Reading a request back\<close>

lemma image_words:
  assumes "length (action_data msg) = 16"
  shows "map (request_image swp buf msg) [0..<36] =
     map swp (cmsg_raw msg) @ map buf [6..<20] @ action_data msg"
proof (rule nth_equalityI)
  have l: "length (cmsg_raw msg) = 6" by (simp add: cmsg_raw_def key_raw_def)
  show "length (map (request_image swp buf msg) [0..<36]) = length (map swp (cmsg_raw msg) @ map buf [6..<20] @ action_data msg)"
    using assms l by simp
  fix i assume "i < length (map (request_image swp buf msg) [0..<36])"
  then have "i < 36" by simp
  moreover have "take NIC_MAC_VLAN_CMSG_SIZE_LW (cmsg_raw msg) = cmsg_raw msg"
    using l by (simp add: NIC_MAC_VLAN_CMSG_SIZE_LW_def NIC_MAC_VLAN_KEY_SIZE_LW_def)
  ultimately show "map (request_image swp buf msg) [0..<36] ! i = (map swp (cmsg_raw msg) @ map buf [6..<20] @ action_data msg) ! i"
    using assms l by (auto simp: request_image_def array_fill_def nth_append simp del: upt_rec_numeral upt_Suc)
qed

lemma request_fields:
  assumes "length (action_data msg) = 16"
  shows "request_of swp buf msg = \<lparr>qo_hdr = hdr_of_word (swp (word0 msg)), qo_tid = swp (tid msg), qo_count = swp (cmsg_count msg),
     qo_flags = swp (cmsg_flags msg),
     qo_data = \<lparr>kv_key = map swp (key_raw (cmsg_key msg)) @ map buf [6..<20], kv_value = action_data msg\<rparr>\<rparr>"
proof -
  have n: "CMSG_OP_HDR_LW + 2 * CMSG_MAP_KEY_VALUE_LW = 36" by (simp add: CMSG_OP_HDR_LW_def CMSG_MAP_KEY_VALUE_LW_def)
  have b: "length (map buf [6..<20]) = 14" by simp
  show ?thesis
    unfolding request_of_def n image_words [OF assms]
    using assms by (simp add: req_op_of_def key_value_of_def msg_idx CMSG_MAP_KEY_VALUE_LW_def cmsg_raw_def key_raw_def
        del: upt_rec_numeral upt_Suc)
qed

lemma reversing_bit:
  assumes "byte_reversing swp" "n < 32"
  shows "bit (swp w) n = bit w (24 - 8 * (n div 8) + n mod 8)"
proof -
  have i: "n div 8 < 4" using assms(2) by simp
  have "bit (swp w) n = bit (bf_get (8 * (n div 8)) 8 (swp w)) (n mod 8)" by (simp add: bit_bf_get)
  also have "\<dots> = bit (bf_get (24 - 8 * (n div 8)) 8 w) (n mod 8)" using assms(1) i unfolding byte_reversing_def by metis
  finally show ?thesis by (simp add: bit_bf_get)
qed

lemma reversing_twice:
  assumes "byte_reversing swp"
  shows "swp (swp w) = w"
proof (rule bit_word_eqI)
  fix n assume n: "n < LENGTH(32)"
  let ?m = "24 - 8 * (n div 8) + n mod 8"
  have d: "n div 8 \<le> 3" "n mod 8 < 8" using n by (auto simp: less_mult_imp_div_less)
  have m: "?m = 8 * (3 - n div 8) + n mod 8" using d by simp
  have md: "?m div 8 = 3 - n div 8" "?m mod 8 = n mod 8" unfolding m by (simp_all add: div_add1_eq mod_add_eq)
  have "24 - 8 * (3 - n div 8) = 8 * (n div 8)" using d(1) by (simp add: diff_mult_distrib2)
  then have "24 - 8 * (?m div 8) + ?m mod 8 = n" unfolding md by (simp only: mult_div_mod_eq)
  then have b: "bit w (24 - 8 * (?m div 8) + ?m mod 8) = bit w n" by (simp only:)
  have "n < 32" "?m < 32" using d n by simp_all
  from reversing_bit [OF assms this(1), of "swp w"] reversing_bit [OF assms this(2), of w]
  show "bit (swp (swp w)) n = bit w n" unfolding b by (simp only:)
qed

definition bswap32 :: "u32 \<Rightarrow> u32" where
  "bswap32 w = bf_get 24 8 w OR push_bit 8 (bf_get 16 8 w) OR push_bit 16 (bf_get 8 8 w) OR push_bit 24 (bf_get 0 8 w)"

lemma bswap32_reversing: "byte_reversing bswap32"
  unfolding byte_reversing_def
proof (intro allI impI)
  fix w and i :: nat assume "i < 4"
  then consider "i = 0" | "i = 1" | "i = 2" | "i = 3" by linarith
  then show "bf_get (8 * i) 8 (bswap32 w) = bf_get (24 - 8 * i) 8 w"
    by cases (auto intro!: bit_word_eqI simp: bswap32_def bit_bf_get bit_or_iff bit_push_bit_iff)
qed

lemma reversing_eq: "byte_reversing swp \<Longrightarrow> swp w = bswap32 w"
  using reversing_bit [OF bswap32_reversing] by (intro bit_word_eqI) (simp add: reversing_bit)

lemma key_raw_inj: "key_raw k = key_raw k' \<longleftrightarrow> key_of k = key_of k'"
proof
  assume eq: "key_raw k = key_raw k'"
  have hi: "ucast (push_bit 20 (ucast (vlan_id k)) OR ucast (mac_addr_hi k) :: u32) = mac_addr_hi k" for k
    by (rule bit_word_eqI) (auto simp: bit_ucast_iff bit_or_iff bit_push_bit_iff)
  have vl: "ucast (drop_bit 20 (push_bit 20 (ucast (vlan_id k)) OR ucast (mac_addr_hi k) :: u32)) = vlan_id k" for k
    by (rule bit_word_eqI) (auto simp: bit_ucast_iff bit_or_iff bit_push_bit_iff bit_drop_bit_eq dest: bit_imp_le_length)
  from eq have w: "(push_bit 20 (ucast (vlan_id k)) OR ucast (mac_addr_hi k) :: u32) = push_bit 20 (ucast (vlan_id k')) OR ucast (mac_addr_hi k')"
    "mac_addr_lo k = mac_addr_lo k'" by (simp_all add: key_raw_def)
  show "key_of k = key_of k'" using w hi [of k] hi [of k'] vl [of k] vl [of k'] by (simp add: key_of_def)
next
  assume "key_of k = key_of k'"
  then have "vlan_id k = vlan_id k'" by (intro word_unat_eq_iff [THEN iffD2]) (simp add: key_of_def)
  then show "key_raw k = key_raw k'" using \<open>key_of k = key_of k'\<close> by (simp add: key_of_def key_raw_def)
qed

lemma reversed_header:
  assumes "byte_reversing swp"
  shows "swp (CMSG_TYPE_MAP_ADD OR push_bit 8 1) = 0x04010000" "swp (CMSG_TYPE_MAP_DELETE OR push_bit 8 1) = 0x05010000"
    "swp (push_bit 24 SRIOV_TID) = SRIOV_TID"
  by (simp_all add: reversing_eq [OF assms] bswap32_def bf_get_def CMSG_TYPE_MAP_ADD_def CMSG_TYPE_MAP_DELETE_def SRIOV_TID_def)

lemma hash_apply_request:
  assumes "byte_reversing swp" "sw_request msg"
  shows "hash_apply swp (request_of swp buf msg) tbl =
    (if word0 msg AND 0xff = CMSG_TYPE_MAP_ADD then tbl(key_raw (cmsg_key msg) \<mapsto> take 14 (action_data msg))
     else tbl(key_raw (cmsg_key msg) := None))"
proof -
  have len: "length (action_data msg) = 16" and t: "tid msg = push_bit 24 SRIOV_TID"
    using assms(2) by (simp_all add: sw_request_def)
  have key: "map swp (take 2 (map swp (key_raw k) @ xs)) = key_raw k" for k xs
    by (simp add: key_raw_def reversing_twice [OF assms(1)])
  from assms(2) consider "word0 msg = (CMSG_TYPE_MAP_ADD OR push_bit 8 1)" | "word0 msg = (CMSG_TYPE_MAP_DELETE OR push_bit 8 1)"
    by (auto simp: sw_request_def)
  then show ?thesis
  proof cases
    case 1
    have "hdr_of_word (swp (word0 msg)) = \<lparr>m_type = 4, m_ver = 1, m_tag = 0\<rparr>"
      unfolding 1 reversed_header(1) [OF assms(1)] by (simp add: hdr_of_word_def bf_get_def)
    then show ?thesis unfolding hash_apply_def request_fields [OF len] t reversed_header(3) [OF assms(1)] 1
      by (simp add: Let_def key CMSG_MAP_VERSION_def CMSG_TYPE_MAP_ADD_def del: take_append upt_rec_numeral)
  next
    case 2
    have "hdr_of_word (swp (word0 msg)) = \<lparr>m_type = 5, m_ver = 1, m_tag = 0\<rparr>"
      unfolding 2 reversed_header(2) [OF assms(1)] by (simp add: hdr_of_word_def bf_get_def)
    then show ?thesis unfolding hash_apply_def request_fields [OF len] t reversed_header(3) [OF assms(1)] 2
      by (simp add: Let_def key CMSG_MAP_VERSION_def CMSG_TYPE_MAP_ADD_def CMSG_TYPE_MAP_DELETE_def del: take_append upt_rec_numeral)
  qed
qed

lemma hash_content_agrees:
  assumes "byte_reversing swp" "\<forall>msg \<in> set q. sw_request msg"
  shows "hash_content swp bufs q (key_raw k) = map_option (take 14) (fold veb_apply q Map.empty (key_of k))"
  using assms(2)
proof (induction q rule: rev_induct)
  case (snoc msg q)
  have "hash_content swp bufs (q @ [msg]) = hash_apply swp (request_of swp (bufs (length q)) msg) (hash_content swp bufs q)"
    by (simp add: hash_content_def enumerate_append_eq)
  moreover have "word0 msg AND 0xff \<in> {CMSG_TYPE_MAP_ADD, CMSG_TYPE_MAP_DELETE}"
    using snoc.prems by (auto simp: sw_request_def CMSG_TYPE_MAP_ADD_def CMSG_TYPE_MAP_DELETE_def)
  ultimately show ?case
    using snoc hash_apply_request [OF assms(1), of msg] by (auto simp: veb_apply_def key_raw_inj)
qed (simp add: hash_content_def)

section \<open>The senders only queue such requests\<close>

definition sw_queue :: "veb_io \<Rightarrow> bool" where
  "sw_queue io \<longleftrightarrow> (\<forall>msg \<in> set (map_cmsg_q io). sw_request msg)"

lemma entry_op_request:
  assumes "nic_mac_vlan_entry_op_cmsg ve key acts op io = Some (res, io')" "sw_queue io" "op \<in> {CMSG_TYPE_MAP_ADD, CMSG_TYPE_MAP_DELETE}"
    and "16 \<le> length (case acts of Some a \<Rightarrow> a | None \<Rightarrow> lmem0 ve)"
  shows "sw_queue io'"
  using assms by (auto simp: nic_mac_vlan_entry_op_cmsg_def Let_def sw_queue_def sw_request_def min_def split: if_splits option.splits)

lemma add_loop_request:
  assumes "veb_add_loop ve nv vlans key acts io = Some (r, io')" "sw_queue io"
  shows "sw_queue io'"
  using assms
proof (induction vlans arbitrary: key acts io)
  case (Cons vlan vlans)
  show ?case
  proof (cases "vlan_selected nv vlan")
    case True
    let ?k = "key\<lparr>vlan_id := of_nat vlan\<rparr>"
    from True Cons.prems(1) obtain acts' res io1 where s: "nic_mac_vlan_entry_op_cmsg ve ?k (Some (acts_words acts')) CMSG_TYPE_MAP_ADD io = Some (res, io1)"
      "io' = io1 \<or> veb_add_loop ve nv vlans ?k acts' io1 = Some (r, io')"
      by (auto simp: bind_eq_Some Let_def split: if_splits prod.splits)
    have "sw_queue io1" by (rule entry_op_request [OF s(1) Cons.prems(2)]) (simp_all add: acts_words_def)
    then show ?thesis using s(2) Cons.IH by blast
  qed (use Cons in auto)
qed auto

lemma del_loop_request:
  assumes "veb_del_loop ve nv vlans key stored err io = Some (r, io')" "sw_queue io" "16 \<le> length (lmem0 ve)"
  shows "sw_queue io'"
  using assms(1,2)
proof (induction vlans arbitrary: err io)
  case (Cons vlan vlans)
  let ?k = "stored\<lparr>vlan_id := of_nat vlan\<rparr>"
  from Cons.prems(1) consider err' where "veb_del_loop ve nv vlans key stored err' io = Some (r, io')"
    | res io1 err' where "nic_mac_vlan_entry_op_cmsg ve ?k None CMSG_TYPE_MAP_DELETE io = Some (res, io1)"
      "veb_del_loop ve nv vlans key stored err' io1 = Some (r, io')"
    by (auto simp: bind_eq_Some Let_def split: if_splits prod.splits)
  then show ?case
  proof cases
    case 2
    have "sw_queue io1" by (rule entry_op_request [OF 2(1) Cons.prems(2)]) (simp_all add: assms(3))
    then show ?thesis using 2(2) Cons.IH by blast
  qed (use Cons in blast)
qed auto

lemma write_veb_request:
  assumes "cfg_act_write_veb ve jnk vid key acts hw io = Some (err, hw', io')" "sw_queue io" "16 \<le> length (lmem0 ve)"
  shows "sw_queue io'"
proof (cases acts)
  case None
  then show ?thesis using assms unfolding cfg_act_write_veb_def
    by (auto simp: Let_def bind_eq_Some dest: del_loop_request simp del: upt_rec_numeral upt_Suc)
next
  case (Some a)
  let ?add = "veb_add_loop ve (unat (vlan_id key)) [0..<NIC_NO_VLAN_ID + 1] key a io"
  show ?thesis
  proof (cases "io' = io")
    case False
    with assms(1) Some obtain added io1 where 1: "?add = Some (added, io1)" and 2: "(case added of Inl err \<Rightarrow> Some (err, hw, io1)
        | Inr veb_key \<Rightarrow> do {
            let stored_key_rd = veb_stored_keys hw vid;
            let hw = hw\<lparr>veb_stored_keys := (veb_stored_keys hw)(vid := veb_key)\<rparr>;
            (err, io) \<leftarrow> veb_del_loop ve (unat (vlan_id key)) [0..<NIC_NO_VLAN_ID + 1] veb_key stored_key_rd NO_ERROR io1;
            Some (err, hw, io) }) = Some (err, hw', io')"
      unfolding cfg_act_write_veb_def
      by (auto simp: bind_eq_Some [of "veb_add_loop _ _ _ _ _ _"] Let_def [of "MAC64_FROM_VEB_KEY key"] Let_def [of "unat (vlan_id key)"] split: if_splits simp del: upt_rec_numeral upt_Suc)
    have "sw_queue io1" by (rule add_loop_request [OF 1 assms(2)])
    then show ?thesis using 2 assms(3) by (cases added) (auto simp: bind_eq_Some Let_def dest: del_loop_request simp del: upt_rec_numeral upt_Suc)
  qed (use assms(2) in simp)
qed

text \<open>An entry of 14 words holds the lists that are built for the switch.\<close>

lemma entry_holds_list:
  assumes "count acts \<le> 14"
  shows "take (count acts) (take 14 (acts_words acts)) = view acts"
  using assms by (simp add: acts_words_def view_def take_map min_def)

lemma switch_lists_fit:
  "NFD_VID2VNIC e vid = (NFD_VNIC_TYPE_VF, vnic) \<Longrightarrow>
     cfg_act_build_veb_vf e h jnk pcie vid pf_control vf_control acts0 hw = Some (acts, hw') \<Longrightarrow> count acts \<le> 14"
  "NFD_VID2VNIC e vid = (NFD_VNIC_TYPE_PF, vnic) \<Longrightarrow>
     cfg_act_build_veb_pf e h jnk pcie vid pf_control update acts0 hw = Some (acts, hw') \<Longrightarrow> count acts \<le> 14"
  using spec_words(4) [of e h jnk pcie vid pf_control hw] spec_words(5) [of e h jnk pcie vid pf_control vf_control hw]
    build_veb_pf_mk [of e vid vnic h jnk pcie pf_control update acts0 hw]
  by (auto simp: build_veb_vf_mk)

section \<open>Properties\<close>

text \<open>C21. The table that the hash map engine builds from the requests in memory is
  the table of the switch: \<open>cfg_act_write_veb\<close>, whatever it adds, deletes or fails
  to send, leaves a queue whose requests, read back word by word from their
  buffers with the layout of \<open>struct cmsg_req_map_op\<close> and whatever the buffers held
  before, have the version, table and type that the engine accepts, and store
  under each key the first 14 words of the action list (the size of an entry) that
  the switch table has for it; deleted keys are gone.\<close>

theorem switch_requests_reach_map:
  assumes "byte_reversing swp" "sw_queue io" "16 \<le> length (lmem0 ve)"
    and "cfg_act_write_veb ve jnk vid key acts hw io = Some (err, hw', io')"
  shows "sw_queue io' \<and>
     (\<forall>k. hash_content swp bufs (map_cmsg_q io') (key_raw k) = map_option (take 14) (veb_content io' (key_of k)))"
proof -
  have "sw_queue io'" by (rule write_veb_request [OF assms(4,2,3)])
  then show ?thesis using hash_content_agrees [OF assms(1)] by (simp add: sw_queue_def veb_content_def)
qed

theorem switch_requests_reach_map_witness:
  "\<exists>hw' io'. cfg_act_write_veb veb_env_ex 0 3 key_ex (Some (mk [] (\<lambda>_. 7))) hw_ex veb_io_ex = Some (NO_ERROR, hw', io') \<and>
     hash_content bswap32 (\<lambda>_ _. 99) (map_cmsg_q io') [0x00500015, 0xdeadbeef] = Some (replicate 14 7)"
proof -
  have w: "acts_words (mk [] (\<lambda>_. 7)) = replicate 16 7"
    by (simp add: acts_words_def mk_def array_fill_def upt_rec numeral_eq_Suc)
  have v: "0 < unat (vlan_id key_ex)" "unat (vlan_id key_ex) < 4095" by (simp_all add: key_ex_def)
  obtain hw' io' where io': "cfg_act_write_veb veb_env_ex 0 3 key_ex (Some (mk [] (\<lambda>_. 7))) hw_ex veb_io_ex = Some (NO_ERROR, hw', io')"
    and c: "veb_content io' = veb_purged (unat (vlan_id key_ex)) (mac_of key_ex) (mac_of (veb_stored_keys hw_ex 3))
       (veb_added (unat (vlan_id key_ex)) (mac_of key_ex) (replicate 16 7) (veb_content veb_io_ex))"
    using write_veb_single [OF veb_ok_ex unicast_ex v, of 0 3 "mk [] (\<lambda>_. 7)" hw_ex veb_io_ex] unfolding w by blast
  have "sw_queue veb_io_ex" "16 \<le> length (lmem0 veb_env_ex)" by (simp_all add: sw_queue_def veb_io_ex_def veb_env_ex_def)
  from switch_requests_reach_map [OF bswap32_reversing this io', of "\<lambda>_ _. 99"]
  have "hash_content bswap32 (\<lambda>_ _. 99) (map_cmsg_q io') (key_raw key_ex) = map_option (take 14) (veb_content io' (key_of key_ex))" by blast
  also have "key_raw key_ex = [0x00500015, 0xdeadbeef]" by (simp add: key_raw_def key_ex_def)
  also have "veb_content io' (key_of key_ex) = Some (replicate 16 7)"
    by (simp add: c veb_purged_def veb_added_def key_of_def mac_of_def key_ex_def)
  finally show ?thesis using io' by auto
qed

end
