(* ===== verification/PpcLayout.thy ===== *)
theory PpcLayout
  imports Catamaran
begin

unbundle bit_operations_syntax

text \<open>
  The rest of \<open>ppc_api/catamaran_defs.h\<close>, the layout of the preclassifier tables:
  the geometry of the tables, the macros that pack and unpack the entries of
  the port, VLAN and protocol tables and build their keys, and those that fill
  the load balancing table.  \<open>Catamaran\<close> has the part that \<open>catamaran_utils.c\<close> uses.
  Sizes, addresses and indices are natural numbers, packed values are words.
\<close>

section \<open>General configuration table\<close>

definition CATAMARAN_CFG_TABLE_ADDR_WIDTH :: nat where "CATAMARAN_CFG_TABLE_ADDR_WIDTH = 6"
definition CATAMARAN_CFG_TABLE_BASE1 :: nat where "CATAMARAN_CFG_TABLE_BASE1 = 0x180"
definition CATAMARAN_CFG_TABLE_SIZE :: nat where "CATAMARAN_CFG_TABLE_SIZE = push_bit CATAMARAN_CFG_TABLE_ADDR_WIDTH 1"

definition CATAMARAN_CFG_DATA_ENTRY_8_OFF :: "nat \<Rightarrow> nat" where
  "CATAMARAN_CFG_DATA_ENTRY_8_OFF ent = (ent AND 0xf) XOR 0xf"

definition CATAMARAN_CFG_DATA_ENTRY_16_LOWER_OFF :: "nat \<Rightarrow> nat" where
  "CATAMARAN_CFG_DATA_ENTRY_16_LOWER_OFF ent = (ent AND 0xf) XOR 0xe"

definition CATAMARAN_CFG_DATA_ENTRY_16_UPPER_OFF :: "nat \<Rightarrow> nat" where
  "CATAMARAN_CFG_DATA_ENTRY_16_UPPER_OFF ent = (ent AND 0xf) XOR 0xf"

text \<open>The fields, with offset and size: the result for packets in error, the hash
  seeds, default VLAN and initial load balancing state, the heads of the load
  balancing chains and the thresholds of the buffer pool sets.  The result for
  packets in error has a value (at a shift) and a flag (at a bit) for the buffer
  pool, the sequencer and the destination.\<close>

definition cfg_gen_error :: "(nat \<times> nat) \<times> (nat \<times> nat) list" where
  "cfg_gen_error = ((0x0, 2), [(8, 3), (0, 4), (6, 5)])"

definition cfg_gen_fields :: "(nat \<times> nat) list" where
  "cfg_gen_fields = [(0x2, 1), (0x3, 1), (0x4, 2), (0x6, 2)]"

definition cfg_lb_heads :: "(nat \<times> nat) list" where
  "cfg_lb_heads = [(0x22, 2), (0x26, 2), (0x12, 2), (0x1a, 2), (0x1c, 2), (0x10, 2), (0x18, 2), (0x16, 2), (0x14, 2),
     (0x1e, 2), (0x24, 2), (0x20, 2), (0x28, 2)]"

definition cfg_bpset_fields :: "(nat \<times> nat) list" where
  "cfg_bpset_fields = [(0x30, 2), (0x40, 2), (0x32, 2), (0x42, 2), (0x34, 2), (0x44, 2), (0x36, 2), (0x46, 2),
     (0x38, 2), (0x48, 2), (0x3a, 2), (0x4a, 2), (0x3c, 2), (0x4c, 2), (0x3e, 2), (0x4e, 2)]"

section \<open>Protocol table\<close>

definition CATAMARAN_HP_ENTRIES_PER_LOC :: nat where "CATAMARAN_HP_ENTRIES_PER_LOC = 2"
definition CATAMARAN_HP_TABLE_ADDR_WIDTH :: nat where "CATAMARAN_HP_TABLE_ADDR_WIDTH = 8"
definition CATAMARAN_HP_TABLE_BASE0 :: nat where "CATAMARAN_HP_TABLE_BASE0 = 0x200"
definition CATAMARAN_HP_TABLE_BASE1 :: nat where "CATAMARAN_HP_TABLE_BASE1 = 0x300"
definition CATAMARAN_HP_TABLE_SIZE :: nat where "CATAMARAN_HP_TABLE_SIZE = push_bit CATAMARAN_HP_TABLE_ADDR_WIDTH 1"
definition CATAMARAN_HP_NUM_ENTRIES :: nat where "CATAMARAN_HP_NUM_ENTRIES = push_bit CATAMARAN_HP_TABLE_ADDR_WIDTH CATAMARAN_HP_ENTRIES_PER_LOC"
definition CATAMARAN_HP_PARENT_FIELD_SZ :: nat where "CATAMARAN_HP_PARENT_FIELD_SZ = 8"
definition CATAMARAN_HP_PROTO_FIELD_SZ :: nat where "CATAMARAN_HP_PROTO_FIELD_SZ = 16"
definition CATAMARAN_HP_NUM_PROTOS :: nat where "CATAMARAN_HP_NUM_PROTOS = push_bit CATAMARAN_HP_PROTO_FIELD_SZ 1"
definition CATAMARAN_HP_MAX_PROTO_NUM :: nat where "CATAMARAN_HP_MAX_PROTO_NUM = CATAMARAN_HP_NUM_PROTOS - 1"
definition CATAMARAN_HP_KEY_MASK :: u32 where "CATAMARAN_HP_KEY_MASK = push_bit (CATAMARAN_HP_PARENT_FIELD_SZ + CATAMARAN_HP_PROTO_FIELD_SZ) 1 - 1"
definition CATAMARAN_HP_DATA_FIELD_SZ :: nat where "CATAMARAN_HP_DATA_FIELD_SZ = 16"
definition CATAMARAN_HP_DATA_MASK :: u32 where "CATAMARAN_HP_DATA_MASK = push_bit CATAMARAN_HP_DATA_FIELD_SZ 1 - 1"
definition CATAMARAN_HP_OPCODE_FIELD_SZ :: nat where "CATAMARAN_HP_OPCODE_FIELD_SZ = 8"
definition CATAMARAN_HP_OPCODE_MASK :: u32 where "CATAMARAN_HP_OPCODE_MASK = push_bit CATAMARAN_HP_OPCODE_FIELD_SZ 1 - 1"
definition CATAMARAN_HP_OP_RSRC_SHF :: nat where "CATAMARAN_HP_OP_RSRC_SHF = CATAMARAN_HP_OPCODE_FIELD_SZ"
definition CATAMARAN_HP_OP_RSRC_SZ :: nat where "CATAMARAN_HP_OP_RSRC_SZ = 2"
definition CATAMARAN_HP_OP_RSRC_MASK :: u32 where "CATAMARAN_HP_OP_RSRC_MASK = push_bit CATAMARAN_HP_OP_RSRC_SZ 1 - 1"
definition CATAMARAN_HP_OP_OFF_SHF :: nat where "CATAMARAN_HP_OP_OFF_SHF = CATAMARAN_HP_OP_RSRC_SHF + CATAMARAN_HP_OP_RSRC_SZ"
definition CATAMARAN_HP_OP_OFF_SZ :: nat where "CATAMARAN_HP_OP_OFF_SZ = 2"
definition CATAMARAN_HP_OP_OFF_MASK :: u32 where "CATAMARAN_HP_OP_OFF_MASK = push_bit CATAMARAN_HP_OP_OFF_SZ 1 - 1"
definition CATAMARAN_HP_OP_MISC_FIELD_SHF :: nat where "CATAMARAN_HP_OP_MISC_FIELD_SHF = CATAMARAN_HP_OP_OFF_SHF + CATAMARAN_HP_OP_OFF_SZ"
definition CATAMARAN_HP_OP_MISC_FIELD_SZ :: nat where "CATAMARAN_HP_OP_MISC_FIELD_SZ = CATAMARAN_HP_DATA_FIELD_SZ - CATAMARAN_HP_OP_MISC_FIELD_SHF"
definition CATAMARAN_HP_OP_MISC_FIELD_MASK :: u32 where "CATAMARAN_HP_OP_MISC_FIELD_MASK = push_bit CATAMARAN_HP_OP_MISC_FIELD_SZ 1 - 1"
definition CATAMARAN_HP_OP_POL_ID_SHF :: nat where "CATAMARAN_HP_OP_POL_ID_SHF = CATAMARAN_HP_OP_MISC_FIELD_SHF"
definition CATAMARAN_HP_OP_POL_ID_SZ :: nat where "CATAMARAN_HP_OP_POL_ID_SZ = 3"
definition CATAMARAN_HP_OP_POL_ID_MASK :: u32 where "CATAMARAN_HP_OP_POL_ID_MASK = push_bit CATAMARAN_HP_OP_POL_ID_SZ 1 - 1"
definition CATAMARAN_HP_VXLAN_OP_I_L2_OFF_SHF :: nat where "CATAMARAN_HP_VXLAN_OP_I_L2_OFF_SHF = CATAMARAN_HP_OP_MISC_FIELD_SHF"
definition CATAMARAN_HP_VXLAN_OP_I_L2_OFF_SZ :: nat where "CATAMARAN_HP_VXLAN_OP_I_L2_OFF_SZ = 2"
definition CATAMARAN_HP_VXLAN_OP_I_L2_OFF_MASK :: u32 where "CATAMARAN_HP_VXLAN_OP_I_L2_OFF_MASK = push_bit CATAMARAN_HP_VXLAN_OP_I_L2_OFF_SZ 1 - 1"

definition CATAMARAN_HP_HASH_KEY :: "u32 \<Rightarrow> u32 \<Rightarrow> u32" where
  "CATAMARAN_HP_HASH_KEY parent proto = proto"

definition CATAMARAN_HP_KEY :: "u32 \<Rightarrow> u32 \<Rightarrow> u32" where
  "CATAMARAN_HP_KEY parent proto = push_bit CATAMARAN_HP_PROTO_FIELD_SZ parent OR CATAMARAN_HP_HASH_KEY parent proto"

definition CATAMARAN_HP_DATA_ENTRY :: "u32 \<Rightarrow> u32 \<Rightarrow> u32 \<Rightarrow> u32 \<Rightarrow> u32" where
  "CATAMARAN_HP_DATA_ENTRY opc rsrc off misc = opc OR push_bit CATAMARAN_HP_OP_RSRC_SHF rsrc
     OR push_bit CATAMARAN_HP_OP_OFF_SHF off OR push_bit CATAMARAN_HP_OP_MISC_FIELD_SHF misc"

definition CATAMARAN_HP_OPCODE :: "u32 \<Rightarrow> u32" where
  "CATAMARAN_HP_OPCODE data = data AND CATAMARAN_HP_OPCODE_MASK"

definition CATAMARAN_HP_OP_RSRC :: "u32 \<Rightarrow> u32" where
  "CATAMARAN_HP_OP_RSRC data = drop_bit CATAMARAN_HP_OP_RSRC_SHF data AND CATAMARAN_HP_OP_RSRC_MASK"

definition CATAMARAN_HP_OP_OFF :: "u32 \<Rightarrow> u32" where
  "CATAMARAN_HP_OP_OFF data = drop_bit CATAMARAN_HP_OP_OFF_SHF data AND CATAMARAN_HP_OP_OFF_MASK"

definition CATAMARAN_HP_OP_POL_ID :: "u32 \<Rightarrow> u32" where
  "CATAMARAN_HP_OP_POL_ID data = drop_bit CATAMARAN_HP_OP_POL_ID_SHF data AND CATAMARAN_HP_OP_POL_ID_MASK"

definition CATAMARAN_HP_VXLAN_OP_I_L2_OFF :: "u32 \<Rightarrow> u32" where
  "CATAMARAN_HP_VXLAN_OP_I_L2_OFF data = drop_bit CATAMARAN_HP_VXLAN_OP_I_L2_OFF_SHF data AND CATAMARAN_HP_VXLAN_OP_I_L2_OFF_MASK"

section \<open>Load balancing table\<close>

definition CATAMARAN_LB_ENTRIES_PER_LOC :: nat where "CATAMARAN_LB_ENTRIES_PER_LOC = 16"
definition CATAMARAN_LB_TABLE_ADDR_WIDTH :: nat where "CATAMARAN_LB_TABLE_ADDR_WIDTH = 4"
definition CATAMARAN_LB_TABLE_BASE0 :: nat where "CATAMARAN_LB_TABLE_BASE0 = 0x1e0"
definition CATAMARAN_LB_TABLE_BASE1 :: nat where "CATAMARAN_LB_TABLE_BASE1 = 0x1f0"
definition CATAMARAN_LB_TABLE_SIZE :: nat where "CATAMARAN_LB_TABLE_SIZE = push_bit CATAMARAN_LB_TABLE_ADDR_WIDTH 1"
definition CATAMARAN_LB_NUM_ENTRIES :: nat where "CATAMARAN_LB_NUM_ENTRIES = push_bit CATAMARAN_LB_TABLE_ADDR_WIDTH CATAMARAN_LB_ENTRIES_PER_LOC"
definition CATAMARAN_LB_BP_VAL_SHIFT :: nat where "CATAMARAN_LB_BP_VAL_SHIFT = 3"
definition CATAMARAN_LB_SEQ_VAL_SHIFT :: nat where "CATAMARAN_LB_SEQ_VAL_SHIFT = 0"
definition CATAMARAN_LB_TNFP_VAL_SHIFT :: nat where "CATAMARAN_LB_TNFP_VAL_SHIFT = 6"

definition CATAMARAN_LB_BP_PREIDX :: "nat \<Rightarrow> nat" where
  "CATAMARAN_LB_BP_PREIDX ent = ent"

definition CATAMARAN_LB_SEQ_PREIDX :: "nat \<Rightarrow> nat \<Rightarrow> nat" where
  "CATAMARAN_LB_SEQ_PREIDX ent num_bps = CATAMARAN_LB_BP_PREIDX ent div num_bps"

definition CATAMARAN_LB_TNFP_PREIDX :: "nat \<Rightarrow> nat \<Rightarrow> nat \<Rightarrow> nat" where
  "CATAMARAN_LB_TNFP_PREIDX ent num_bps num_seqs = CATAMARAN_LB_SEQ_PREIDX ent num_bps div num_seqs"

definition CATAMARAN_LB_XTRA_PREIDX :: "nat \<Rightarrow> nat \<Rightarrow> nat \<Rightarrow> nat \<Rightarrow> nat" where
  "CATAMARAN_LB_XTRA_PREIDX ent num_bps num_seqs num_tnfps = CATAMARAN_LB_TNFP_PREIDX ent num_bps num_seqs div num_tnfps"

definition CATAMARAN_LB_BP_IDX :: "nat \<Rightarrow> nat \<Rightarrow> nat \<Rightarrow> nat \<Rightarrow> nat" where
  "CATAMARAN_LB_BP_IDX ent num_bps num_seqs num_tnfps =
     (CATAMARAN_LB_BP_PREIDX ent + CATAMARAN_LB_SEQ_PREIDX ent num_bps) mod num_bps"

definition CATAMARAN_LB_SEQ_IDX :: "nat \<Rightarrow> nat \<Rightarrow> nat \<Rightarrow> nat \<Rightarrow> nat" where
  "CATAMARAN_LB_SEQ_IDX ent num_bps num_seqs num_tnfps =
     (CATAMARAN_LB_SEQ_PREIDX ent num_bps + CATAMARAN_LB_TNFP_PREIDX ent num_bps num_seqs) mod num_seqs"

definition CATAMARAN_LB_TNFP_IDX :: "nat \<Rightarrow> nat \<Rightarrow> nat \<Rightarrow> nat \<Rightarrow> nat" where
  "CATAMARAN_LB_TNFP_IDX ent num_bps num_seqs num_tnfps =
     (CATAMARAN_LB_TNFP_PREIDX ent num_bps num_seqs + CATAMARAN_LB_XTRA_PREIDX ent num_bps num_seqs num_tnfps) mod num_tnfps"

section \<open>Channel, port, VLAN and MAC tables\<close>

definition CATAMARAN_CHAN_TABLE_ADDR_WIDTH :: nat where "CATAMARAN_CHAN_TABLE_ADDR_WIDTH = 4"
definition CATAMARAN_CHAN_TABLE_SIZE :: nat where "CATAMARAN_CHAN_TABLE_SIZE = push_bit CATAMARAN_CHAN_TABLE_ADDR_WIDTH 1"
definition CATAMARAN_CHAN_NUM_ENTRIES :: nat where "CATAMARAN_CHAN_NUM_ENTRIES = push_bit CATAMARAN_CHAN_TABLE_ADDR_WIDTH CATAMARAN_CHAN_ENTRIES_PER_LOC"
definition CATAMARAN_CHAN_MAX_CHAN_NUM :: nat where "CATAMARAN_CHAN_MAX_CHAN_NUM = CATAMARAN_CHAN_NUM_CHANS - 1"
definition CATAMARAN_CHAN_NUM_PORTS :: nat where "CATAMARAN_CHAN_NUM_PORTS = 256"
definition CATAMARAN_CHAN_MAX_PORT_NUM :: nat where "CATAMARAN_CHAN_MAX_PORT_NUM = CATAMARAN_CHAN_NUM_PORTS - 1"
definition CATAMARAN_PORT_ENTRIES_PER_LOC :: nat where "CATAMARAN_PORT_ENTRIES_PER_LOC = 8"
definition CATAMARAN_PORT_TABLE_ADDR_WIDTH :: nat where "CATAMARAN_PORT_TABLE_ADDR_WIDTH = 4"
definition CATAMARAN_PORT_TABLE_BASE0 :: nat where "CATAMARAN_PORT_TABLE_BASE0 = 0x1c0"
definition CATAMARAN_PORT_TABLE_BASE1 :: nat where "CATAMARAN_PORT_TABLE_BASE1 = 0x1d0"
definition CATAMARAN_PORT_TABLE_SIZE :: nat where "CATAMARAN_PORT_TABLE_SIZE = push_bit CATAMARAN_PORT_TABLE_ADDR_WIDTH 1"
definition CATAMARAN_PORT_NUM_ENTRIES :: nat where "CATAMARAN_PORT_NUM_ENTRIES = push_bit CATAMARAN_PORT_TABLE_ADDR_WIDTH CATAMARAN_PORT_ENTRIES_PER_LOC"
definition CATAMARAN_PORT_NUM_PORTS :: nat where "CATAMARAN_PORT_NUM_PORTS = 128"
definition CATAMARAN_PORT_MAX_PORT_NUM :: nat where "CATAMARAN_PORT_MAX_PORT_NUM = CATAMARAN_PORT_NUM_PORTS - 1"
definition CATAMARAN_PORT_LIF_FIELD_SZ :: nat where "CATAMARAN_PORT_LIF_FIELD_SZ = 10"
definition CATAMARAN_PORT_NUM_LIFS :: nat where "CATAMARAN_PORT_NUM_LIFS = push_bit CATAMARAN_PORT_LIF_FIELD_SZ 1"
definition CATAMARAN_PORT_MAX_LIF_NUM :: nat where "CATAMARAN_PORT_MAX_LIF_NUM = CATAMARAN_PORT_NUM_LIFS - 1"
definition CATAMARAN_PORT_LIF_LOWER_SZ :: nat where "CATAMARAN_PORT_LIF_LOWER_SZ = 8"
definition CATAMARAN_PORT_LIF_LOWER_MASK :: u32 where "CATAMARAN_PORT_LIF_LOWER_MASK = push_bit CATAMARAN_PORT_LIF_LOWER_SZ 1 - 1"
definition CATAMARAN_PORT_LIF_UPPER_MASK :: u32 where "CATAMARAN_PORT_LIF_UPPER_MASK = push_bit (CATAMARAN_PORT_LIF_FIELD_SZ - CATAMARAN_PORT_LIF_LOWER_SZ) 1 - 1"
definition CATAMARAN_PORT_MODE_FIELD_SZ :: nat where "CATAMARAN_PORT_MODE_FIELD_SZ = 4"
definition CATAMARAN_PORT_NUM_MODES :: nat where "CATAMARAN_PORT_NUM_MODES = push_bit CATAMARAN_PORT_MODE_FIELD_SZ 1"
definition CATAMARAN_PORT_MAX_MODE_NUM :: nat where "CATAMARAN_PORT_MAX_MODE_NUM = CATAMARAN_PORT_NUM_MODES - 1"
definition CATAMARAN_PORT_MODE_MASK :: u32 where "CATAMARAN_PORT_MODE_MASK = of_nat CATAMARAN_PORT_NUM_MODES - 1"
definition CATAMARAN_PORT_MODE_SHF :: nat where "CATAMARAN_PORT_MODE_SHF = 4"

definition CATAMARAN_PORT_LOC_ADDR :: "nat \<Rightarrow> nat" where
  "CATAMARAN_PORT_LOC_ADDR port = port div CATAMARAN_PORT_ENTRIES_PER_LOC"

definition CATAMARAN_PORT_DATA_ENTRY_LOWER_OFF :: "nat \<Rightarrow> nat" where
  "CATAMARAN_PORT_DATA_ENTRY_LOWER_OFF port = ((port * (16 div CATAMARAN_PORT_ENTRIES_PER_LOC)) AND 0xf) XOR 0xf"

definition CATAMARAN_PORT_DATA_ENTRY_UPPER_OFF :: "nat \<Rightarrow> nat" where
  "CATAMARAN_PORT_DATA_ENTRY_UPPER_OFF port = ((port * (16 div CATAMARAN_PORT_ENTRIES_PER_LOC)) AND 0xf) XOR 0xe"

definition CATAMARAN_PORT_DATA_ENTRY_LOWER :: "u32 \<Rightarrow> u32 \<Rightarrow> u32" where
  "CATAMARAN_PORT_DATA_ENTRY_LOWER lif mode = lif AND CATAMARAN_PORT_LIF_LOWER_MASK"

definition CATAMARAN_PORT_DATA_ENTRY_UPPER :: "u32 \<Rightarrow> u32 \<Rightarrow> u32" where
  "CATAMARAN_PORT_DATA_ENTRY_UPPER lif mode = push_bit CATAMARAN_PORT_MODE_SHF (mode AND CATAMARAN_PORT_MODE_MASK)
     OR (drop_bit CATAMARAN_PORT_LIF_LOWER_SZ lif AND CATAMARAN_PORT_LIF_UPPER_MASK)"

definition CATAMARAN_PORT_LIF :: "u32 \<Rightarrow> u32 \<Rightarrow> u32" where
  "CATAMARAN_PORT_LIF data_lo data_hi = data_lo OR push_bit CATAMARAN_PORT_LIF_LOWER_SZ (data_hi AND CATAMARAN_PORT_LIF_UPPER_MASK)"

definition CATAMARAN_PORT_MODE :: "u32 \<Rightarrow> u32 \<Rightarrow> u32" where
  "CATAMARAN_PORT_MODE data_lo data_hi = drop_bit CATAMARAN_PORT_MODE_SHF data_hi AND CATAMARAN_PORT_MODE_MASK"

definition CATAMARAN_VLAN_ENTRIES_PER_LOC :: nat where "CATAMARAN_VLAN_ENTRIES_PER_LOC = 2"
definition CATAMARAN_VLAN_TABLE_ADDR_WIDTH :: nat where "CATAMARAN_VLAN_TABLE_ADDR_WIDTH = 10"
definition CATAMARAN_VLAN_TABLE_BASE0 :: nat where "CATAMARAN_VLAN_TABLE_BASE0 = 0x0"
definition CATAMARAN_VLAN_TABLE_BASE1 :: nat where "CATAMARAN_VLAN_TABLE_BASE1 = 0x400"
definition CATAMARAN_VLAN_TABLE_SIZE :: nat where "CATAMARAN_VLAN_TABLE_SIZE = push_bit CATAMARAN_VLAN_TABLE_ADDR_WIDTH 1"
definition CATAMARAN_VLAN_NUM_ENTRIES :: nat where "CATAMARAN_VLAN_NUM_ENTRIES = push_bit CATAMARAN_VLAN_TABLE_ADDR_WIDTH CATAMARAN_VLAN_ENTRIES_PER_LOC"
definition CATAMARAN_VLAN_PORT_FIELD_SZ :: nat where "CATAMARAN_VLAN_PORT_FIELD_SZ = 8"
definition CATAMARAN_VLAN_NUM_PORTS :: nat where "CATAMARAN_VLAN_NUM_PORTS = push_bit CATAMARAN_VLAN_PORT_FIELD_SZ 1"
definition CATAMARAN_VLAN_MAX_PORT_NUM :: nat where "CATAMARAN_VLAN_MAX_PORT_NUM = CATAMARAN_VLAN_NUM_PORTS - 1"
definition CATAMARAN_VLAN_CNOTS_FLAG_SHF :: nat where "CATAMARAN_VLAN_CNOTS_FLAG_SHF = 13"
definition CATAMARAN_VLAN_VALID_FLAG_SHF :: nat where "CATAMARAN_VLAN_VALID_FLAG_SHF = 15"
definition CATAMARAN_VLAN_VALID_FLAG_MASK :: u32 where "CATAMARAN_VLAN_VALID_FLAG_MASK = push_bit CATAMARAN_VLAN_VALID_FLAG_SHF 1"
definition CATAMARAN_VLAN_VLAN_FIELD_SZ :: nat where "CATAMARAN_VLAN_VLAN_FIELD_SZ = 12"
definition CATAMARAN_VLAN_NUM_VLANS :: nat where "CATAMARAN_VLAN_NUM_VLANS = push_bit CATAMARAN_VLAN_VLAN_FIELD_SZ 1"
definition CATAMARAN_VLAN_MAX_VLAN_NUM :: nat where "CATAMARAN_VLAN_MAX_VLAN_NUM = CATAMARAN_VLAN_NUM_VLANS - 1"
definition CATAMARAN_VLAN_KEY_MASK :: u32 where "CATAMARAN_VLAN_KEY_MASK = push_bit (CATAMARAN_VLAN_PORT_FIELD_SZ + 16) 1 - 1"
definition CATAMARAN_VLAN_DATA_FIELD_SZ :: nat where "CATAMARAN_VLAN_DATA_FIELD_SZ = 16"
definition CATAMARAN_VLAN_DATA_MASK :: u32 where "CATAMARAN_VLAN_DATA_MASK = push_bit CATAMARAN_VLAN_DATA_FIELD_SZ 1 - 1"
definition CATAMARAN_VLAN_LIF_FIELD_SZ :: nat where "CATAMARAN_VLAN_LIF_FIELD_SZ = CATAMARAN_PORT_LIF_FIELD_SZ"
definition CATAMARAN_VLAN_NUM_LIFS :: nat where "CATAMARAN_VLAN_NUM_LIFS = push_bit CATAMARAN_VLAN_LIF_FIELD_SZ 1"
definition CATAMARAN_VLAN_MAX_LIF_NUM :: nat where "CATAMARAN_VLAN_MAX_LIF_NUM = CATAMARAN_VLAN_NUM_LIFS - 1"
definition CATAMARAN_VLAN_LIF_MASK :: u32 where "CATAMARAN_VLAN_LIF_MASK = of_nat CATAMARAN_VLAN_NUM_LIFS - 1"
definition CATAMARAN_VLAN_MODE_FIELD_SZ :: nat where "CATAMARAN_VLAN_MODE_FIELD_SZ = CATAMARAN_PORT_MODE_FIELD_SZ"
definition CATAMARAN_VLAN_NUM_MODES :: nat where "CATAMARAN_VLAN_NUM_MODES = push_bit CATAMARAN_VLAN_MODE_FIELD_SZ 1"
definition CATAMARAN_VLAN_MAX_MODE_NUM :: nat where "CATAMARAN_VLAN_MAX_MODE_NUM = CATAMARAN_VLAN_NUM_MODES - 1"
definition CATAMARAN_VLAN_MODE_MASK :: u32 where "CATAMARAN_VLAN_MODE_MASK = of_nat CATAMARAN_VLAN_NUM_MODES - 1"
definition CATAMARAN_VLAN_MODE_SHF :: nat where "CATAMARAN_VLAN_MODE_SHF = CATAMARAN_VLAN_DATA_FIELD_SZ - CATAMARAN_VLAN_MODE_FIELD_SZ"

definition CATAMARAN_VLAN_HASH_KEY0 :: "u32 \<Rightarrow> u32 \<Rightarrow> u32 \<Rightarrow> u32" where
  "CATAMARAN_VLAN_HASH_KEY0 port vlan cnots = port"

definition CATAMARAN_VLAN_HASH_KEY1 :: "u32 \<Rightarrow> u32 \<Rightarrow> u32 \<Rightarrow> u32" where
  "CATAMARAN_VLAN_HASH_KEY1 port vlan cnots = CATAMARAN_VLAN_VALID_FLAG_MASK OR push_bit CATAMARAN_VLAN_CNOTS_FLAG_SHF cnots OR vlan"

definition CATAMARAN_VLAN_KEY :: "u32 \<Rightarrow> u32 \<Rightarrow> u32 \<Rightarrow> u32" where
  "CATAMARAN_VLAN_KEY port vlan cnots = push_bit 16 (CATAMARAN_VLAN_HASH_KEY0 port vlan cnots) OR CATAMARAN_VLAN_HASH_KEY1 port vlan cnots"

definition CATAMARAN_VLAN_DATA_ENTRY :: "u32 \<Rightarrow> u32 \<Rightarrow> u32" where
  "CATAMARAN_VLAN_DATA_ENTRY lif mode = push_bit CATAMARAN_VLAN_MODE_SHF mode OR lif"

definition CATAMARAN_VLAN_LIF :: "u32 \<Rightarrow> u32" where
  "CATAMARAN_VLAN_LIF data = data AND CATAMARAN_VLAN_LIF_MASK"

definition CATAMARAN_VLAN_MODE :: "u32 \<Rightarrow> u32" where
  "CATAMARAN_VLAN_MODE data = drop_bit CATAMARAN_VLAN_MODE_SHF data AND CATAMARAN_VLAN_MODE_MASK"

definition CATAMARAN_MAC_ENTRIES_PER_LOC :: nat where "CATAMARAN_MAC_ENTRIES_PER_LOC = 2"
definition CATAMARAN_MAC_NUM_ENTRIES :: nat where "CATAMARAN_MAC_NUM_ENTRIES = push_bit CATAMARAN_MAC_TABLE_ADDR_WIDTH CATAMARAN_MAC_ENTRIES_PER_LOC"

lemmas ppc_consts =
  CATAMARAN_CFG_TABLE_ADDR_WIDTH_def CATAMARAN_CFG_TABLE_BASE1_def CATAMARAN_CFG_TABLE_SIZE_def
  CATAMARAN_HP_ENTRIES_PER_LOC_def CATAMARAN_HP_TABLE_ADDR_WIDTH_def CATAMARAN_HP_TABLE_BASE0_def
  CATAMARAN_HP_TABLE_BASE1_def CATAMARAN_HP_TABLE_SIZE_def CATAMARAN_HP_NUM_ENTRIES_def
  CATAMARAN_HP_PARENT_FIELD_SZ_def CATAMARAN_HP_PROTO_FIELD_SZ_def CATAMARAN_HP_NUM_PROTOS_def
  CATAMARAN_HP_MAX_PROTO_NUM_def CATAMARAN_HP_KEY_MASK_def CATAMARAN_HP_DATA_FIELD_SZ_def CATAMARAN_HP_DATA_MASK_def
  CATAMARAN_HP_OPCODE_FIELD_SZ_def CATAMARAN_HP_OPCODE_MASK_def CATAMARAN_HP_OP_RSRC_SHF_def
  CATAMARAN_HP_OP_RSRC_SZ_def CATAMARAN_HP_OP_RSRC_MASK_def CATAMARAN_HP_OP_OFF_SHF_def CATAMARAN_HP_OP_OFF_SZ_def
  CATAMARAN_HP_OP_OFF_MASK_def CATAMARAN_HP_OP_MISC_FIELD_SHF_def CATAMARAN_HP_OP_MISC_FIELD_SZ_def
  CATAMARAN_HP_OP_MISC_FIELD_MASK_def CATAMARAN_HP_OP_POL_ID_SHF_def CATAMARAN_HP_OP_POL_ID_SZ_def
  CATAMARAN_HP_OP_POL_ID_MASK_def CATAMARAN_HP_VXLAN_OP_I_L2_OFF_SHF_def CATAMARAN_HP_VXLAN_OP_I_L2_OFF_SZ_def
  CATAMARAN_HP_VXLAN_OP_I_L2_OFF_MASK_def CATAMARAN_LB_ENTRIES_PER_LOC_def CATAMARAN_LB_TABLE_ADDR_WIDTH_def
  CATAMARAN_LB_TABLE_BASE0_def CATAMARAN_LB_TABLE_BASE1_def CATAMARAN_LB_TABLE_SIZE_def CATAMARAN_LB_NUM_ENTRIES_def
  CATAMARAN_LB_BP_VAL_SHIFT_def CATAMARAN_LB_SEQ_VAL_SHIFT_def CATAMARAN_LB_TNFP_VAL_SHIFT_def
  CATAMARAN_CHAN_TABLE_ADDR_WIDTH_def CATAMARAN_CHAN_TABLE_SIZE_def CATAMARAN_CHAN_NUM_ENTRIES_def
  CATAMARAN_CHAN_MAX_CHAN_NUM_def CATAMARAN_CHAN_NUM_PORTS_def CATAMARAN_CHAN_MAX_PORT_NUM_def
  CATAMARAN_PORT_ENTRIES_PER_LOC_def CATAMARAN_PORT_TABLE_ADDR_WIDTH_def CATAMARAN_PORT_TABLE_BASE0_def
  CATAMARAN_PORT_TABLE_BASE1_def CATAMARAN_PORT_TABLE_SIZE_def CATAMARAN_PORT_NUM_ENTRIES_def
  CATAMARAN_PORT_NUM_PORTS_def CATAMARAN_PORT_MAX_PORT_NUM_def CATAMARAN_PORT_LIF_FIELD_SZ_def
  CATAMARAN_PORT_NUM_LIFS_def CATAMARAN_PORT_MAX_LIF_NUM_def CATAMARAN_PORT_LIF_LOWER_SZ_def
  CATAMARAN_PORT_LIF_LOWER_MASK_def CATAMARAN_PORT_LIF_UPPER_MASK_def CATAMARAN_PORT_MODE_FIELD_SZ_def
  CATAMARAN_PORT_NUM_MODES_def CATAMARAN_PORT_MAX_MODE_NUM_def CATAMARAN_PORT_MODE_MASK_def
  CATAMARAN_PORT_MODE_SHF_def CATAMARAN_VLAN_ENTRIES_PER_LOC_def CATAMARAN_VLAN_TABLE_ADDR_WIDTH_def
  CATAMARAN_VLAN_TABLE_BASE0_def CATAMARAN_VLAN_TABLE_BASE1_def CATAMARAN_VLAN_TABLE_SIZE_def
  CATAMARAN_VLAN_NUM_ENTRIES_def CATAMARAN_VLAN_PORT_FIELD_SZ_def CATAMARAN_VLAN_NUM_PORTS_def
  CATAMARAN_VLAN_MAX_PORT_NUM_def CATAMARAN_VLAN_CNOTS_FLAG_SHF_def CATAMARAN_VLAN_VALID_FLAG_SHF_def
  CATAMARAN_VLAN_VALID_FLAG_MASK_def CATAMARAN_VLAN_VLAN_FIELD_SZ_def CATAMARAN_VLAN_NUM_VLANS_def
  CATAMARAN_VLAN_MAX_VLAN_NUM_def CATAMARAN_VLAN_KEY_MASK_def CATAMARAN_VLAN_DATA_FIELD_SZ_def
  CATAMARAN_VLAN_DATA_MASK_def CATAMARAN_VLAN_LIF_FIELD_SZ_def CATAMARAN_VLAN_NUM_LIFS_def
  CATAMARAN_VLAN_MAX_LIF_NUM_def CATAMARAN_VLAN_LIF_MASK_def CATAMARAN_VLAN_MODE_FIELD_SZ_def
  CATAMARAN_VLAN_NUM_MODES_def CATAMARAN_VLAN_MAX_MODE_NUM_def CATAMARAN_VLAN_MODE_MASK_def
  CATAMARAN_VLAN_MODE_SHF_def CATAMARAN_MAC_ENTRIES_PER_LOC_def CATAMARAN_MAC_NUM_ENTRIES_def

section \<open>Entries\<close>

lemma bits_below: "unat v < 2 ^ w \<Longrightarrow> bit v n \<Longrightarrow> n < w" for v :: "'a::len word"
  by (metis take_bit_id bit_take_bit_iff)

lemma mask_forms:
  "CATAMARAN_HP_OPCODE_MASK = mask 8" "CATAMARAN_HP_OP_RSRC_MASK = mask 2" "CATAMARAN_HP_OP_OFF_MASK = mask 2"
  "CATAMARAN_HP_OP_POL_ID_MASK = mask 3" "CATAMARAN_HP_VXLAN_OP_I_L2_OFF_MASK = mask 2" "CATAMARAN_HP_DATA_MASK = mask 16"
  "CATAMARAN_HP_KEY_MASK = mask 24" "CATAMARAN_PORT_LIF_LOWER_MASK = mask 8" "CATAMARAN_PORT_LIF_UPPER_MASK = mask 2"
  "CATAMARAN_PORT_MODE_MASK = mask 4" "CATAMARAN_VLAN_LIF_MASK = mask 10" "CATAMARAN_VLAN_MODE_MASK = mask 4"
  "CATAMARAN_VLAN_DATA_MASK = mask 16" "CATAMARAN_VLAN_KEY_MASK = mask 24" "CATAMARAN_HP_OP_MISC_FIELD_MASK = mask 4"
  by (simp_all add: ppc_consts mask_eq_exp_minus_1)

lemma shift_forms:
  "CATAMARAN_HP_OP_RSRC_SHF = 8" "CATAMARAN_HP_OP_OFF_SHF = 10" "CATAMARAN_HP_OP_MISC_FIELD_SHF = 12" "CATAMARAN_HP_OP_POL_ID_SHF = 12"
  "CATAMARAN_HP_VXLAN_OP_I_L2_OFF_SHF = 12" "CATAMARAN_VLAN_MODE_SHF = 12" "CATAMARAN_PORT_MODE_SHF = 4"
  "CATAMARAN_PORT_LIF_LOWER_SZ = 8" "CATAMARAN_HP_PROTO_FIELD_SZ = 16" "CATAMARAN_VLAN_CNOTS_FLAG_SHF = 13"
  by (simp_all add: ppc_consts)

lemma valid_bit: "bit CATAMARAN_VLAN_VALID_FLAG_MASK n \<longleftrightarrow> n = 15"
  by (auto simp: CATAMARAN_VLAN_VALID_FLAG_MASK_def CATAMARAN_VLAN_VALID_FLAG_SHF_def bit_push_bit_iff bit_1_iff simp del: push_bit_of_1 push_bit_numeral)

lemmas bits = bit_or_iff bit_and_iff bit_push_bit_iff bit_drop_bit_eq bit_mask_iff bit_take_bit_iff

lemma port_entry_roundtrip:
  assumes "unat lif \<le> CATAMARAN_PORT_MAX_LIF_NUM" "unat mode \<le> CATAMARAN_PORT_MAX_MODE_NUM"
  shows "CATAMARAN_PORT_LIF (CATAMARAN_PORT_DATA_ENTRY_LOWER lif mode) (CATAMARAN_PORT_DATA_ENTRY_UPPER lif mode) = lif"
    "CATAMARAN_PORT_MODE (CATAMARAN_PORT_DATA_ENTRY_LOWER lif mode) (CATAMARAN_PORT_DATA_ENTRY_UPPER lif mode) = mode"
proof -
  have l: "bit lif n \<Longrightarrow> n < 10" and m: "bit mode n \<Longrightarrow> n < 4" for n
    using assms bits_below [of lif 10 n] bits_below [of mode 4 n] by (simp_all add: ppc_consts)
  show "CATAMARAN_PORT_LIF (CATAMARAN_PORT_DATA_ENTRY_LOWER lif mode) (CATAMARAN_PORT_DATA_ENTRY_UPPER lif mode) = lif"
    by (rule bit_word_eqI) (auto simp: CATAMARAN_PORT_LIF_def CATAMARAN_PORT_DATA_ENTRY_LOWER_def CATAMARAN_PORT_DATA_ENTRY_UPPER_def
        mask_forms shift_forms bits dest: l)
  show "CATAMARAN_PORT_MODE (CATAMARAN_PORT_DATA_ENTRY_LOWER lif mode) (CATAMARAN_PORT_DATA_ENTRY_UPPER lif mode) = mode"
    by (rule bit_word_eqI) (auto simp: CATAMARAN_PORT_MODE_def CATAMARAN_PORT_DATA_ENTRY_UPPER_def mask_forms shift_forms bits dest: m)
qed

lemma port_entry_bytes:
  "unat (CATAMARAN_PORT_DATA_ENTRY_LOWER lif mode) < 256" "unat (CATAMARAN_PORT_DATA_ENTRY_UPPER lif mode) < 256"
proof -
  have *: "unat w < 256" if "take_bit 8 w = w" for w :: u32
  proof -
    have "unat w = take_bit 8 (unat w)" using that unsigned_take_bit_eq [of 8 w, where ?'a = nat] by simp
    then show ?thesis using take_bit_nat_less_exp [of 8 "unat w"] by simp
  qed
  show "unat (CATAMARAN_PORT_DATA_ENTRY_LOWER lif mode) < 256"
    by (rule *, rule bit_word_eqI) (auto simp: CATAMARAN_PORT_DATA_ENTRY_LOWER_def mask_forms bits)
  show "unat (CATAMARAN_PORT_DATA_ENTRY_UPPER lif mode) < 256"
    by (rule *, rule bit_word_eqI) (auto simp: CATAMARAN_PORT_DATA_ENTRY_UPPER_def mask_forms shift_forms bits)
qed

lemma vlan_entry_roundtrip:
  assumes "unat lif \<le> CATAMARAN_VLAN_MAX_LIF_NUM" "unat mode \<le> CATAMARAN_VLAN_MAX_MODE_NUM"
  shows "CATAMARAN_VLAN_LIF (CATAMARAN_VLAN_DATA_ENTRY lif mode) = lif" "CATAMARAN_VLAN_MODE (CATAMARAN_VLAN_DATA_ENTRY lif mode) = mode"
    "CATAMARAN_VLAN_DATA_ENTRY lif mode AND CATAMARAN_VLAN_DATA_MASK = CATAMARAN_VLAN_DATA_ENTRY lif mode"
proof -
  have l: "bit lif n \<Longrightarrow> n < 10" and m: "bit mode n \<Longrightarrow> n < 4" for n
    using assms bits_below [of lif 10 n] bits_below [of mode 4 n] by (simp_all add: ppc_consts)
  show "CATAMARAN_VLAN_LIF (CATAMARAN_VLAN_DATA_ENTRY lif mode) = lif" "CATAMARAN_VLAN_MODE (CATAMARAN_VLAN_DATA_ENTRY lif mode) = mode"
    "CATAMARAN_VLAN_DATA_ENTRY lif mode AND CATAMARAN_VLAN_DATA_MASK = CATAMARAN_VLAN_DATA_ENTRY lif mode"
    by (rule bit_word_eqI, auto simp: CATAMARAN_VLAN_LIF_def CATAMARAN_VLAN_MODE_def CATAMARAN_VLAN_DATA_ENTRY_def
        mask_forms shift_forms bits dest: l m)+
qed

lemma hp_entry_roundtrip:
  assumes "unat opc < 256" "unat rsrc < 4" "unat off < 4" "unat misc < 16"
  defines "d \<equiv> CATAMARAN_HP_DATA_ENTRY opc rsrc off misc"
  shows "CATAMARAN_HP_OPCODE d = opc" "CATAMARAN_HP_OP_RSRC d = rsrc" "CATAMARAN_HP_OP_OFF d = off"
    "CATAMARAN_HP_OP_POL_ID d = take_bit 3 misc" "CATAMARAN_HP_VXLAN_OP_I_L2_OFF d = take_bit 2 misc" "d AND CATAMARAN_HP_DATA_MASK = d"
proof -
  have b: "bit opc n \<Longrightarrow> n < 8" "bit rsrc n \<Longrightarrow> n < 2" "bit off n \<Longrightarrow> n < 2" "bit misc n \<Longrightarrow> n < 4" for n
    using bits_below [of opc 8 n] bits_below [of rsrc 2 n] bits_below [of off 2 n] bits_below [of misc 4 n] assms by simp_all
  note s = d_def CATAMARAN_HP_DATA_ENTRY_def CATAMARAN_HP_OPCODE_def CATAMARAN_HP_OP_RSRC_def CATAMARAN_HP_OP_OFF_def
    CATAMARAN_HP_OP_POL_ID_def CATAMARAN_HP_VXLAN_OP_I_L2_OFF_def mask_forms shift_forms bits
  show "CATAMARAN_HP_OPCODE d = opc" "CATAMARAN_HP_OP_RSRC d = rsrc" "CATAMARAN_HP_OP_OFF d = off"
    "CATAMARAN_HP_OP_POL_ID d = take_bit 3 misc" "CATAMARAN_HP_VXLAN_OP_I_L2_OFF d = take_bit 2 misc" "d AND CATAMARAN_HP_DATA_MASK = d"
    by (rule bit_word_eqI, auto simp: s dest: b)+
qed

text \<open>The keys determine what they are built from.\<close>

lemma vlan_key_fields:
  assumes "unat port \<le> CATAMARAN_VLAN_MAX_PORT_NUM" "unat vlan \<le> CATAMARAN_VLAN_MAX_VLAN_NUM" "unat cnots \<le> 1"
  defines "k \<equiv> CATAMARAN_VLAN_KEY port vlan cnots"
  shows "drop_bit 16 k = port" "take_bit 12 k = vlan" "bf_get 13 1 k = cnots" "k AND CATAMARAN_VLAN_KEY_MASK = k"
proof -
  have b: "bit port n \<Longrightarrow> n < 8" "bit vlan n \<Longrightarrow> n < 12" "bit cnots n \<Longrightarrow> n = 0" for n
    using bits_below [of port 8 n] bits_below [of vlan 12 n] bits_below [of cnots 1 n] assms(1-3) by (simp_all add: ppc_consts)
  note s = k_def CATAMARAN_VLAN_KEY_def CATAMARAN_VLAN_HASH_KEY0_def CATAMARAN_VLAN_HASH_KEY1_def mask_forms shift_forms(10) valid_bit bits bit_bf_get
  show "drop_bit 16 k = port" "take_bit 12 k = vlan" "bf_get 13 1 k = cnots" "k AND CATAMARAN_VLAN_KEY_MASK = k"
    by (rule bit_word_eqI, auto simp: s dest: b)+
qed

lemma hp_key_fields:
  assumes "unat parent < 2 ^ CATAMARAN_HP_PARENT_FIELD_SZ" "unat proto \<le> CATAMARAN_HP_MAX_PROTO_NUM"
  defines "k \<equiv> CATAMARAN_HP_KEY parent proto"
  shows "drop_bit 16 k = parent" "take_bit 16 k = proto" "k AND CATAMARAN_HP_KEY_MASK = k"
proof -
  have b: "bit parent n \<Longrightarrow> n < 8" "bit proto n \<Longrightarrow> n < 16" for n
    using bits_below [of parent 8 n] bits_below [of proto 16 n] assms(1-2) by (simp_all add: ppc_consts)
  note s = k_def CATAMARAN_HP_KEY_def CATAMARAN_HP_HASH_KEY_def mask_forms shift_forms bits
  show "drop_bit 16 k = parent" "take_bit 16 k = proto" "k AND CATAMARAN_HP_KEY_MASK = k"
    by (rule bit_word_eqI, auto simp: s dest: b)+
qed

section \<open>Load balancing\<close>

lemma mod_shift_inj:
  fixes x y c n :: nat
  assumes "(x + c) mod n = (y + c) mod n" "x div n = y div n"
  shows "x = y"
proof -
  have "x mod n = y mod n" using assms(1) by (auto simp: nat_mod_eq_iff)
  then show ?thesis using assms(2) by (metis div_mult_mod_eq)
qed

definition lb_triple :: "nat \<Rightarrow> nat \<Rightarrow> nat \<Rightarrow> nat \<Rightarrow> nat \<times> nat \<times> nat" where
  "lb_triple nb ns nt e = (CATAMARAN_LB_BP_IDX e nb ns nt, CATAMARAN_LB_SEQ_IDX e nb ns nt, CATAMARAN_LB_TNFP_IDX e nb ns nt)"

lemmas lb_defs = lb_triple_def CATAMARAN_LB_BP_IDX_def CATAMARAN_LB_SEQ_IDX_def CATAMARAN_LB_TNFP_IDX_def CATAMARAN_LB_BP_PREIDX_def
  CATAMARAN_LB_SEQ_PREIDX_def CATAMARAN_LB_TNFP_PREIDX_def CATAMARAN_LB_XTRA_PREIDX_def

lemma lb_triple_inj:
  assumes "lb_triple nb ns nt e = lb_triple nb ns nt e'" "e div nb div ns div nt = k" "e' div nb div ns div nt = k"
  shows "e = e'"
proof -
  have eqs: "(e + e div nb) mod nb = (e' + e' div nb) mod nb"
    "(e div nb + e div nb div ns) mod ns = (e' div nb + e' div nb div ns) mod ns"
    "(e div nb div ns + k) mod nt = (e' div nb div ns + k) mod nt"
    using assms(1) unfolding lb_defs prod.inject assms(2,3) by blast+
  have r: "e div nb div ns = e' div nb div ns" by (rule mod_shift_inj [OF eqs(3)]) (simp only: assms(2,3))
  have q: "e div nb = e' div nb" by (rule mod_shift_inj [OF eqs(2) [folded r] r])
  show ?thesis by (rule mod_shift_inj [OF eqs(1) [folded q] q])
qed

lemma lb_window:
  assumes "0 < nb" "0 < ns" "0 < nt" "e \<in> {k * (nb * ns * nt)..<Suc k * (nb * ns * nt)}"
  shows "e div nb div ns div nt = k"
proof -
  have "e div (nb * ns * nt) = k" using assms(4) by (intro div_nat_eqI) (auto simp: mult.commute)
  then show ?thesis by (simp add: div_mult2_eq)
qed

section \<open>Geometry\<close>

text \<open>First location and number of locations of the copies of the tables in the
  two memories of the preclassifier; the configuration table has a window of 32
  locations between its two copies.\<close>

definition lmem_tables :: "(nat \<times> nat) list" where
  "lmem_tables = [(CATAMARAN_CFG_TABLE_BASE0, 32), (CATAMARAN_CFG_TABLE_BASE1, 32),
     (CATAMARAN_CHAN_TABLE_BASE0, CATAMARAN_CHAN_TABLE_SIZE), (CATAMARAN_CHAN_TABLE_BASE1, CATAMARAN_CHAN_TABLE_SIZE),
     (CATAMARAN_PORT_TABLE_BASE0, CATAMARAN_PORT_TABLE_SIZE), (CATAMARAN_PORT_TABLE_BASE1, CATAMARAN_PORT_TABLE_SIZE),
     (CATAMARAN_LB_TABLE_BASE0, CATAMARAN_LB_TABLE_SIZE), (CATAMARAN_LB_TABLE_BASE1, CATAMARAN_LB_TABLE_SIZE),
     (CATAMARAN_HP_TABLE_BASE0, CATAMARAN_HP_TABLE_SIZE), (CATAMARAN_HP_TABLE_BASE1, CATAMARAN_HP_TABLE_SIZE)]"

definition smem_tables :: "(nat \<times> nat) list" where
  "smem_tables = [(CATAMARAN_VLAN_TABLE_BASE0, CATAMARAN_VLAN_TABLE_SIZE), (CATAMARAN_VLAN_TABLE_BASE1, CATAMARAN_VLAN_TABLE_SIZE),
     (CATAMARAN_MAC_TABLE_BASE0, unat CATAMARAN_MAC_TABLE_SIZE), (CATAMARAN_MAC_TABLE_BASE1, unat CATAMARAN_MAC_TABLE_SIZE)]"

fun ranges_apart :: "(nat \<times> nat) list \<Rightarrow> bool" where
  "ranges_apart [] = True"
| "ranges_apart (r # rs) = (list_all (\<lambda>r'. fst r + snd r \<le> fst r' \<or> fst r' + snd r' \<le> fst r) rs \<and> ranges_apart rs)"

lemmas ppc_bases = CATAMARAN_CFG_TABLE_BASE0_def CATAMARAN_CHAN_TABLE_BASE0_def CATAMARAN_CHAN_TABLE_BASE1_def
  CATAMARAN_MAC_TABLE_BASE0_def CATAMARAN_MAC_TABLE_BASE1_def CATAMARAN_MAC_TABLE_SIZE_def CATAMARAN_MAC_TABLE_ADDR_WIDTH_def
  CATAMARAN_CHAN_ENTRIES_PER_LOC_def CATAMARAN_CHAN_NUM_CHANS_def

lemma tables_apart: "ranges_apart lmem_tables \<and> ranges_apart smem_tables \<and> ranges_apart (fst cfg_gen_error # cfg_gen_fields @ cfg_lb_heads @ cfg_bpset_fields)"
  by code_simp

text \<open>The size that the header gives for the configuration table is twice that
  window: two such tables overlap, and the second reaches into the channel
  table.\<close>

lemma cfg_table_size_overlaps:
  "\<not> ranges_apart [(CATAMARAN_CFG_TABLE_BASE0, CATAMARAN_CFG_TABLE_SIZE), (CATAMARAN_CFG_TABLE_BASE1, CATAMARAN_CFG_TABLE_SIZE)]"
  "\<not> ranges_apart [(CATAMARAN_CFG_TABLE_BASE1, CATAMARAN_CFG_TABLE_SIZE), (CATAMARAN_CHAN_TABLE_BASE0, CATAMARAN_CHAN_TABLE_SIZE)]"
  by code_simp+

lemma entry_counts:
  "CATAMARAN_CHAN_NUM_ENTRIES = CATAMARAN_CHAN_NUM_CHANS" "CATAMARAN_PORT_NUM_ENTRIES = CATAMARAN_PORT_NUM_PORTS"
  "CATAMARAN_LB_NUM_ENTRIES = 256" "CATAMARAN_HP_NUM_ENTRIES = 512" "CATAMARAN_VLAN_NUM_ENTRIES = 2048" "CATAMARAN_MAC_NUM_ENTRIES = 2048"
  by code_simp+

lemma port_bytes:
  "CATAMARAN_PORT_LOC_ADDR port = port div 8" "CATAMARAN_PORT_DATA_ENTRY_LOWER_OFF port = 15 - 2 * (port mod 8)"
  "CATAMARAN_PORT_DATA_ENTRY_UPPER_OFF port = 14 - 2 * (port mod 8)"
proof -
  have "(port * 2) AND 15 = (port * 2) mod 16"
    using take_bit_eq_mask [of 4 "port * 2"] by (simp add: take_bit_eq_mod mask_eq_exp_minus_1)
  then have m: "(port * 2) AND 15 = 2 * (port mod 8)" using mult_mod_right [of 2 port 8] by (simp add: mult.commute)
  have "\<forall>r < 8. (2 * r) XOR 15 = 15 - 2 * r \<and> (2 * r) XOR 14 = 14 - 2 * (r :: nat)" by code_simp
  then have x: "(2 * (port mod 8)) XOR 15 = 15 - 2 * (port mod 8)" "(2 * (port mod 8)) XOR 14 = 14 - 2 * (port mod 8)" by simp_all
  show "CATAMARAN_PORT_LOC_ADDR port = port div 8" "CATAMARAN_PORT_DATA_ENTRY_LOWER_OFF port = 15 - 2 * (port mod 8)"
    "CATAMARAN_PORT_DATA_ENTRY_UPPER_OFF port = 14 - 2 * (port mod 8)"
    using m x by (simp_all add: CATAMARAN_PORT_LOC_ADDR_def CATAMARAN_PORT_DATA_ENTRY_LOWER_OFF_def CATAMARAN_PORT_DATA_ENTRY_UPPER_OFF_def
        CATAMARAN_PORT_ENTRIES_PER_LOC_def)
qed

text \<open>Two ports of the table never share a byte.\<close>

lemma port_bytes_inj:
  assumes "CATAMARAN_PORT_LOC_ADDR port = CATAMARAN_PORT_LOC_ADDR port'"
    and "{CATAMARAN_PORT_DATA_ENTRY_LOWER_OFF port, CATAMARAN_PORT_DATA_ENTRY_UPPER_OFF port} \<inter>
       {CATAMARAN_PORT_DATA_ENTRY_LOWER_OFF port', CATAMARAN_PORT_DATA_ENTRY_UPPER_OFF port'} \<noteq> {}"
  shows "port = port'"
proof -
  have "port mod 8 < 8" "port' mod 8 < 8" by simp_all
  then have "port mod 8 = port' mod 8" using assms(2) unfolding port_bytes by (auto simp: Int_def)
  then show ?thesis using assms(1) unfolding port_bytes by (metis div_mult_mod_eq)
qed

section \<open>Properties\<close>

text \<open>C35. The load balancing indices spread the traffic evenly: any window of as many
  consecutive entries as there are combinations of a buffer pool, a sequencer and
  a destination, beginning at a multiple of that number, selects every
  combination exactly once.\<close>

theorem lb_spreads_evenly:
  assumes "0 < nb" "0 < ns" "0 < nt"
  shows "bij_betw (\<lambda>e. (CATAMARAN_LB_BP_IDX e nb ns nt, CATAMARAN_LB_SEQ_IDX e nb ns nt, CATAMARAN_LB_TNFP_IDX e nb ns nt))
     {k * (nb * ns * nt)..<Suc k * (nb * ns * nt)} ({..<nb} \<times> {..<ns} \<times> {..<nt})"
proof -
  let ?W = "{k * (nb * ns * nt)..<Suc k * (nb * ns * nt)}" and ?T = "{..<nb} \<times> {..<ns} \<times> {..<nt}"
  have inj: "inj_on (lb_triple nb ns nt) ?W"
    by (rule inj_onI) (rule lb_triple_inj [OF _ lb_window [OF assms] lb_window [OF assms]])
  moreover have "lb_triple nb ns nt ` ?W = ?T"
  proof (rule card_subset_eq)
    show "lb_triple nb ns nt ` ?W \<subseteq> ?T" using assms by (auto simp: lb_triple_def CATAMARAN_LB_BP_IDX_def CATAMARAN_LB_SEQ_IDX_def CATAMARAN_LB_TNFP_IDX_def)
    show "card (lb_triple nb ns nt ` ?W) = card ?T" unfolding card_image [OF inj] by (simp add: card_cartesian_product)
  qed simp
  ultimately show ?thesis unfolding bij_betw_def lb_triple_def [abs_def] by blast
qed

theorem lb_spreads_evenly_witness:
  "bij_betw (\<lambda>e. (CATAMARAN_LB_BP_IDX e 2 4 1, CATAMARAN_LB_SEQ_IDX e 2 4 1, CATAMARAN_LB_TNFP_IDX e 2 4 1)) {8..<16} ({..<2} \<times> {..<4} \<times> {..<1})"
  using lb_spreads_evenly [of 2 4 1 1] by simp

text \<open>C36. What the macros pack into a table entry or a key they unpack again, for all
  values in the ranges of the header: interface and mode of the port and VLAN
  tables, the fields of a protocol entry, and port, VLAN and tag flag of a VLAN
  key and parent and protocol of a protocol key, which therefore never collide.
  Entries and keys stay within their field widths.\<close>

theorem ppc_entries_roundtrip:
  assumes "unat lif \<le> CATAMARAN_PORT_MAX_LIF_NUM" "unat mode \<le> CATAMARAN_PORT_MAX_MODE_NUM"
    and "unat opc < 256" "unat rsrc < 4" "unat off < 4" "unat misc < 16"
    and "unat port \<le> CATAMARAN_VLAN_MAX_PORT_NUM" "unat vlan \<le> CATAMARAN_VLAN_MAX_VLAN_NUM" "unat cnots \<le> 1"
    and "unat parent < 2 ^ CATAMARAN_HP_PARENT_FIELD_SZ" "unat proto \<le> CATAMARAN_HP_MAX_PROTO_NUM"
  shows "(let lo = CATAMARAN_PORT_DATA_ENTRY_LOWER lif mode; hi = CATAMARAN_PORT_DATA_ENTRY_UPPER lif mode in
       CATAMARAN_PORT_LIF lo hi = lif \<and> CATAMARAN_PORT_MODE lo hi = mode \<and> unat lo < 256 \<and> unat hi < 256) \<and>
     (let d = CATAMARAN_VLAN_DATA_ENTRY lif mode in CATAMARAN_VLAN_LIF d = lif \<and> CATAMARAN_VLAN_MODE d = mode \<and> d AND CATAMARAN_VLAN_DATA_MASK = d) \<and>
     (let d = CATAMARAN_HP_DATA_ENTRY opc rsrc off misc in CATAMARAN_HP_OPCODE d = opc \<and> CATAMARAN_HP_OP_RSRC d = rsrc \<and>
       CATAMARAN_HP_OP_OFF d = off \<and> CATAMARAN_HP_OP_POL_ID d = take_bit 3 misc \<and> CATAMARAN_HP_VXLAN_OP_I_L2_OFF d = take_bit 2 misc \<and>
       d AND CATAMARAN_HP_DATA_MASK = d) \<and>
     (let k = CATAMARAN_VLAN_KEY port vlan cnots in drop_bit 16 k = port \<and> take_bit 12 k = vlan \<and> bf_get 13 1 k = cnots \<and> k AND CATAMARAN_VLAN_KEY_MASK = k) \<and>
     (let k = CATAMARAN_HP_KEY parent proto in drop_bit 16 k = parent \<and> take_bit 16 k = proto \<and> k AND CATAMARAN_HP_KEY_MASK = k)"
proof -
  have v: "unat lif \<le> CATAMARAN_VLAN_MAX_LIF_NUM" "unat mode \<le> CATAMARAN_VLAN_MAX_MODE_NUM"
    using assms(1,2) by (simp_all add: ppc_consts)
  show ?thesis unfolding Let_def
    by (intro conjI port_entry_roundtrip [OF assms(1,2)] vlan_entry_roundtrip [OF v] hp_entry_roundtrip [OF assms(3-6)]
        vlan_key_fields [OF assms(7-9)] hp_key_fields [OF assms(10,11)] port_entry_bytes)
qed

theorem ppc_entries_roundtrip_witness:
  "CATAMARAN_VLAN_KEY 3 100 1 = 0x3a064 \<and> drop_bit 16 (CATAMARAN_VLAN_KEY 3 100 1) = 3 \<and>
     CATAMARAN_PORT_LIF (CATAMARAN_PORT_DATA_ENTRY_LOWER 777 9) (CATAMARAN_PORT_DATA_ENTRY_UPPER 777 9) = 777"
proof -
  have "CATAMARAN_VLAN_KEY 3 100 1 = 0x3a064" by code_simp
  moreover have h: "unat (777 :: u32) \<le> CATAMARAN_PORT_MAX_LIF_NUM" "unat (9 :: u32) \<le> CATAMARAN_PORT_MAX_MODE_NUM"
    "unat (0xaf :: u32) < 256" "unat (1 :: u32) < 4" "unat (2 :: u32) < 4" "unat (5 :: u32) < 16"
    "unat (3 :: u32) \<le> CATAMARAN_VLAN_MAX_PORT_NUM" "unat (100 :: u32) \<le> CATAMARAN_VLAN_MAX_VLAN_NUM" "unat (1 :: u32) \<le> 1"
    "unat (6 :: u32) < 2 ^ CATAMARAN_HP_PARENT_FIELD_SZ" "unat (4789 :: u32) \<le> CATAMARAN_HP_MAX_PROTO_NUM"
    by (simp_all add: ppc_consts)
  ultimately show ?thesis using ppc_entries_roundtrip [OF h] by (simp add: Let_def)
qed

end
