(* ===== verification/Spec2Isabelle.thy ===== *)
theory Spec2Isabelle
  imports MacLkup TmConfig NfdCfg InstrLayout PktIoSpec Boot MacSections MapMsg PpcLayout
begin

text \<open>
  Verification of the C code of the Agilio basic NIC firmware.

  \<^bold>\<open>The program.\<close>  The firmware runs on the micro-engines of a network flow
  processor between the host (PCIe, with one configuration BAR per vNIC) and
  the Ethernet ports (MAC and NBI blocks).  One micro-engine, the application
  master (\<open>firmware/apps/nic/app_master_main.c\<close>), is the control plane: its
  hardware contexts run endless loops that handle reconfigurations by the host,
  watch the link, collect statistics and publish them.  It writes tables that
  the worker engines read: for every queue of every vNIC and for every port an
  action list, a short program of the data path, and besides these the RSS
  tables, the VLAN member table, the entries of the embedded switch and the
  tables of the preclassifier in the NBI.  The workers themselves are microcode.
  A second library, \<open>firmware/lib/infra_basic\<close>, is the packet receive and
  transmit interface for data path code in C.

  \<^bold>\<open>How the code is represented.\<close>  A C function is a definition of the same
  name; what it changes is passed and returned.  A failed \<open>assert\<close>, \<open>halt()\<close>, an
  out-of-range write into a local array and a loop that does not end are \<open>None\<close>.
  Integers have the width of the C type; \<open>+\<close>, \<open>-\<close> and shifts wrap around.  Locals
  that the code reads before it sets them are arguments (\<open>jnk\<close>, \<open>acts0\<close>, \<open>junk\<close>),
  so that every theorem holds for all contents.  Hardware is a function from
  the history of events (register accesses, commands, signals, delays) to the
  value that the next read returns, and is an argument of the model.  So are the
  libraries and register layouts that are not in the repository (NFD and its
  driver interface, MSI-X, the packet, lookup and buffer list libraries).  What
  the code relies on there is a hypothesis by name, for instance \<open>nbi_stored\<close> (the
  NBI memory returns the last value written), \<open>inhibit_acked\<close>, \<open>quiesces\<close>,
  \<open>epoch_taken\<close>, \<open>veb_ok\<close>, \<open>byte_reversing\<close> (a store that reverses the bytes of words); the witnesses satisfy it with concrete devices.

  \<^bold>\<open>Shared layer.\<close>
  \<^item> \<open>NicPrelude\<close>: machine integers, bit fields of C structures, the lemma
    collections.
  \<^item> \<open>BitStore\<close>, \<open>KvTable\<close>, \<open>PollLoop\<close>: the contracts, as locales, of packed bit
    arrays, of bounded lookup tables and of unbounded waiting loops.  \<open>bit_store\<close> is
    interpreted by the link state arrays (\<open>AppPrivate\<close>) and the bucket locks;
    \<open>kv_table\<close> by the buckets of the MAC lookup table (\<open>MacLkup\<close>) and \<open>kv_overwrite\<close>
    by the locations of the MAC match table (\<open>MacMatch\<close>); \<open>poll_loop\<close> by the buffer
    allocation of the switch messages, the MAC inhibit poll, the quiescing of
    threads, the epoch loop, the random number generator and the allocation of
    packet memory.
  \<^item> \<open>DevIo\<close>: events, devices and their laws.
  \<^item> \<open>Platform\<close>: \<open>include/platform.h\<close> for all boards.  \<open>TmConfig\<close>: the traffic manager
    ranges of \<open>config.h\<close>.  \<open>NfdCfg\<close>: \<open>nfd_user_cfg.h\<close>, \<open>blm_custom.h\<close>.  Their properties
    check the configuration of every board: queues in range and disjoint, buffer
    memory not overcommitted, every macro family complete.

  \<^bold>\<open>Action lists.\<close>  \<open>ActionList\<close> has the instruction words and \<open>cfg_act_append\<close>,
  \<open>ActBuild\<close> the builders of \<open>app_config_tables.c\<close>, \<open>ActSpec\<close> the abstract sequences of
  actions that the lists consist of and their refinement: every
  builder returns, stays inside the array, and its words are the encoding of the
  sequence for the control word, whatever the flags are.  \<open>InstrLayout\<close> relates the
  unions of \<open>app_config_instr.h\<close> to the bit field macros of the workers.

  \<^bold>\<open>Tables of the workers.\<close>  \<open>CfgEnv\<close> (what the host writes, vNIC numbering), \<open>CfgHw\<close>
  (instruction, RSS and register tables), \<open>VlanTables\<close> (\<open>nic_tables.c\<close>), \<open>VebTable\<close>
  (\<open>app_mac_vlan_config_cmsg.c\<close> and \<open>cfg_act_write_veb\<close>), \<open>ConfigOps\<close> (VF and PF up
  and down), \<open>MacLkup\<close> (\<open>app_mac_lkup.c\<close>, with the interleaving of callers under the
  bucket locks).  The lemmas say which slots each operation changes and to what,
  that it changes no other, and which map the tables refine.  \<open>MapMsg\<close>
  (\<open>maps/cmsg_map_types.h\<close>) has the message structures of the hash map engine that
  holds the switch table; it reads the requests of \<open>VebTable\<close> back from the words
  in memory and shows that the engine builds the same table from them.

  \<^bold>\<open>Control.\<close>  \<open>AppPrivate\<close> (\<open>app_private.c\<close>: control words, link state bits, the
  co-operative mutex as a step relation), \<open>CsrSync\<close>
  (\<open>nfp_mac_csr_synch.h\<close>), \<open>LinkCtrl\<close> (\<open>lib/link_state\<close>), \<open>NicLocal\<close> and
  \<open>Epoch\<close> (\<open>nic_internal.c\<close>: configuration hand-shake, BPF program load, epochs),
  \<open>ControlLib\<close> and \<open>ControlSpec\<close> (\<open>app_control_lib.c\<close>), \<open>Lsc\<close> (the link state context of
  \<open>app_master_main.c\<close>), \<open>Trng\<close> (\<open>trng.c\<close>).  \<open>HandlerTotal\<close> shows when a handler returns: it waits
  without a bound for the MAC (holding the mutex), for quiescing threads and for
  buffers, and \<open>requests_served\<close> names what ends these waits.  \<open>AppMaster\<close> joins the
  components: \<open>am_step\<close> has one rule for an iteration of each loop of the master, one
  for writes of the host and one for an iteration that never returns, after which
  its context hangs and the state is arbitrary.  Under \<open>requests_served\<close> and the epoch
  hypothesis the state is shown to stay well formed in every interleaving of
  iterations, no context hangs, and the next iteration of every loop returns.  \<open>Boot\<close> has the start of the configuration context, from reset
  to the loops.  \<open>MacSections\<close> refines the steps of \<open>AppMaster\<close> where contexts share
  registers: the six MAC operations as processes (\<open>codatatype\<close>), one step for each
  register access, interleaved under \<open>mac_reg_lock\<close>; the operations are shown to
  appear one after the other, with the results of the functions of \<open>ControlLib\<close>.

  \<^bold>\<open>Preclassifier.\<close>  \<open>NbiMem\<close> and \<open>NbiSpec\<close> (\<open>nbi_cpp.c\<close>, \<open>nbipc_mem.c\<close>: copies in bursts,
  tables in two copies), \<open>Catamaran\<close>, \<open>CatamaranSpec\<close>, \<open>MacMatch\<close> (\<open>catamaran_utils.c\<close>)
  and \<open>CatamaranApp\<close> (\<open>catamaran_app_utils.c\<close>).  The table update is shown atomic for a
  reader, the MAC match table to refine a map, and the update of the application
  to make the map equal to the addresses of the enabled ports.  \<open>PpcLayout\<close> has the
  rest of the layout header: the places of the tables, the packing of entries and
  keys, and the load balancing indices, which are shown to spread evenly.

  \<^bold>\<open>Statistics.\<close>  \<open>NicStats\<close> and \<open>NicStatsSpec\<close> (\<open>nic_stats.c\<close>, with the counter layout
  that \<open>nic_stats.awk\<close> generates from \<open>nic_stats.def\<close>): totals equal the sums of their
  parts, and the BARs show what is stored; what happens to the discards of a PCIe
  queue is stated separately.

  \<^bold>\<open>Packets.\<close>  \<open>PktMeta\<close>, \<open>PktIo\<close> and \<open>PktIoSpec\<close> (\<open>lib/infra_basic\<close>): buffers are given
  away once, work queues hand packets over with their metadata, frames from the
  host are copied up to the split of the buffers, with their metadata, unless their
  descriptor is invalid.

  \<^bold>\<open>Loops and bounds.\<close>  Loops with a counter are recursion on the range; loops that
  wait are partial functions in the option monad without fuel.  For each of the
  latter it is proved that it returns when the device makes the progress that the
  hypothesis names.  The copy loops over addresses are partial as well, because
  their counters could wrap around; they are shown to return for every size that
  the callers use.  Bounds in theorems (12 SerDes lanes, 16 instruction words, 256
  vNICs) are those of the source.

  \<^bold>\<open>Not modelled.\<close>  The microcode (\<open>*.uc\<close>: data path, BPF maps and the engine that
  serves their messages) is not C.  The functions declared in \<open>nic_basic.h\<close> have no definition in the
  repository, and \<open>pcie_desc.h\<close>, \<open>protocols.h\<close>, \<open>nic.h\<close> and \<open>nbi_pm.h\<close> hold layouts and
  constants for the microcode.  Settings of \<open>config.h\<close> that are plain constants of
  the NBI start-up code, debug counters and journals, delays between the rounds
  of a loop, and the build, packaging and test code are left out.  Iterations of
  two loops of the master interleave as whole steps; what may happen at the
  context swaps inside of an iteration is covered for the sections under the
  mutex of the MAC registers (\<open>MacSections\<close>) and the bucket locks (\<open>MacLkup\<close>) only.
  Opcodes, flags and minima of \<open>catamaran_defs.h\<close> that are plain numbers are left out.
\<close>

end
